(* ===== verification/Prelude.thy ===== *)
theory Prelude
  imports Main
begin

text \<open>
  Shared vocabulary of the development.

  The prelude fixes how the Rust source is read in HOL: the \<open>Result\<close> type as a sum
  with the error on the left, the sequencing of fallible steps (the question mark
  operator), strings as lists of Unicode scalar values, the saturating and checked
  operations on \<open>i64\<close>, decimal printing as \<open>format!\<close> does it, and the generic facts
  on lists and tables the components share.  A database table is a list of rows in
  insertion order; its primary key is a function on rows and the table invariant is
  that the keys are distinct.
\<close>

named_theorems table_simps \<open>reading and appending to keyed tables\<close>
named_theorems key_simps \<open>the grammar of underscore-joined keys\<close>


section \<open>Results\<close>

text \<open>\<open>Result<T, E>\<close> is \<open>'e + 'a\<close>; \<open>and_then\<close> is what the question mark expands to.\<close>

type_synonym ('e, 'a) result = "'e + 'a"

fun and_then :: "('e, 'a) result \<Rightarrow> ('a \<Rightarrow> ('e, 'b) result) \<Rightarrow> ('e, 'b) result" where
  "and_then (Inl e) f = Inl e"
| "and_then (Inr x) f = f x"

fun ok_or :: "'e \<Rightarrow> 'a option \<Rightarrow> ('e, 'a) result" where
  "ok_or e None = Inl e"
| "ok_or e (Some x) = Inr x"

fun map_err :: "('e \<Rightarrow> 'f) \<Rightarrow> ('e, 'a) result \<Rightarrow> ('f, 'a) result" where
  "map_err g (Inl e) = Inl (g e)"
| "map_err g (Inr x) = Inr x"

fun is_ok :: "('e, 'a) result \<Rightarrow> bool" where
  "is_ok (Inl e) = False"
| "is_ok (Inr x) = True"

lemma and_then_Inr_iff [simp]:
  "and_then r f = Inr y \<longleftrightarrow> (\<exists>x. r = Inr x \<and> f x = Inr y)"
  by (cases r) auto

lemma and_then_Inl_iff:
  "and_then r f = Inl e \<longleftrightarrow> r = Inl e \<or> (\<exists>x. r = Inr x \<and> f x = Inl e)"
  by (cases r) auto

lemma ok_or_Inr_iff [simp]: "ok_or e o' = Inr x \<longleftrightarrow> o' = Some x"
  by (cases o') auto

lemma ok_or_Inl_iff [simp]: "ok_or e o' = Inl e' \<longleftrightarrow> o' = None \<and> e' = e"
  by (cases o') auto

lemma map_err_Inr_iff [simp]: "map_err g r = Inr x \<longleftrightarrow> r = Inr x"
  by (cases r) auto

lemma is_ok_iff: "is_ok r \<longleftrightarrow> (\<exists>x. r = Inr x)"
  by (cases r) auto


section \<open>Machine integers\<close>

text \<open>
  An \<open>i64\<close> is an \<open>int\<close>; where the source saturates or checks, so does the model.
\<close>

definition I64_MIN :: int where "I64_MIN = - (2 ^ 63)"

definition I64_MAX :: int where "I64_MAX = 2 ^ 63 - 1"

definition is_i64 :: "int \<Rightarrow> bool" where
  "is_i64 x \<longleftrightarrow> I64_MIN \<le> x \<and> x \<le> I64_MAX"

definition sat :: "int \<Rightarrow> int" where
  "sat x = max I64_MIN (min I64_MAX x)"

definition saturating_add :: "int \<Rightarrow> int \<Rightarrow> int" where
  "saturating_add a b = sat (a + b)"

definition saturating_sub :: "int \<Rightarrow> int \<Rightarrow> int" where
  "saturating_sub a b = sat (a - b)"

definition saturating_mul :: "int \<Rightarrow> int \<Rightarrow> int" where
  "saturating_mul a b = sat (a * b)"

definition checked :: "int \<Rightarrow> int option" where
  "checked x = (if is_i64 x then Some x else None)"

lemmas i64_defs = I64_MIN_def I64_MAX_def is_i64_def sat_def checked_def
  saturating_add_def saturating_sub_def saturating_mul_def

lemma sat_is_i64 [simp]: "is_i64 (sat x)"
  by (simp add: i64_defs)

lemma sat_id [simp]: "is_i64 x \<Longrightarrow> sat x = x"
  by (auto simp: i64_defs)

lemma sat_mono: "x \<le> y \<Longrightarrow> sat x \<le> sat y"
  by (auto simp: i64_defs)

lemma checked_Some_iff [simp]: "checked x = Some y \<longleftrightarrow> is_i64 x \<and> y = x"
  by (auto simp: checked_def)


section \<open>Strings\<close>

text \<open>
  A Rust string is the list of its Unicode scalar values; \<open>u\<close> embeds the ASCII
  literals of the source.  Static labels (field names, reasons) stay HOL strings.
\<close>

type_synonym ustr = "nat list"

definition u :: "string \<Rightarrow> ustr" where
  "u s = map of_char s"

text \<open>Literals stay folded; \<open>u_simps\<close> opens them.\<close>

lemma u_simps: "u [] = []" "u (c # cs) = of_char c # u cs"
  by (simp_all add: u_def)

lemma u_inject [simp]: "u s = u t \<longleftrightarrow> s = t"
  by (simp add: u_def inj_map_eq_map inj_on_def)

definition is_ascii :: "nat \<Rightarrow> bool" where "is_ascii c \<longleftrightarrow> c < 128"

definition is_ascii_lowercase :: "nat \<Rightarrow> bool" where
  "is_ascii_lowercase c \<longleftrightarrow> 97 \<le> c \<and> c \<le> 122"

definition is_ascii_uppercase :: "nat \<Rightarrow> bool" where
  "is_ascii_uppercase c \<longleftrightarrow> 65 \<le> c \<and> c \<le> 90"

definition is_ascii_digit :: "nat \<Rightarrow> bool" where
  "is_ascii_digit c \<longleftrightarrow> 48 \<le> c \<and> c \<le> 57"

definition is_ascii_alphanumeric :: "nat \<Rightarrow> bool" where
  "is_ascii_alphanumeric c \<longleftrightarrow>
     is_ascii_lowercase c \<or> is_ascii_uppercase c \<or> is_ascii_digit c"

lemmas ascii_defs = is_ascii_def is_ascii_lowercase_def is_ascii_uppercase_def
  is_ascii_digit_def is_ascii_alphanumeric_def

text \<open>\<open>char::is_whitespace\<close>: the Unicode property White\_Space.\<close>

definition is_whitespace :: "nat \<Rightarrow> bool" where
  "is_whitespace c \<longleftrightarrow>
     (9 \<le> c \<and> c \<le> 13) \<or> c = 32 \<or> c = 133 \<or> c = 160 \<or> c = 5760 \<or>
     (8192 \<le> c \<and> c \<le> 8202) \<or> c = 8232 \<or> c = 8233 \<or> c = 8239 \<or> c = 8287 \<or> c = 12288"

lemma is_whitespace_ascii_first [code]:
  "is_whitespace c =
     (if c < 128 then c = 32 \<or> (9 \<le> c \<and> c \<le> 13)
      else c = 133 \<or> c = 160 \<or> c = 5760 \<or>
        (8192 \<le> c \<and> c \<le> 8202) \<or> c = 8232 \<or> c = 8233 \<or> c = 8239 \<or> c = 8287 \<or> c = 12288)"
  by (auto simp: is_whitespace_def)

definition trim :: "ustr \<Rightarrow> ustr" where
  "trim s = rev (dropWhile is_whitespace (rev (dropWhile is_whitespace s)))"

lemma set_trim_subset: "set (trim s) \<subseteq> set s"
  by (auto simp: trim_def dest!: set_dropWhileD)

lemma trim_eq_self:
  assumes "s \<noteq> []" "\<not> is_whitespace (hd s)" "\<not> is_whitespace (last s)"
  shows "trim s = s"
proof -
  have "dropWhile is_whitespace s = s"
    using assms by (simp add: dropWhile_eq_self_iff)
  moreover have "dropWhile is_whitespace (rev s) = rev s"
    using assms by (simp add: dropWhile_eq_self_iff hd_rev)
  ultimately show ?thesis by (simp add: trim_def)
qed

lemma dropWhile_hd: "dropWhile P s \<noteq> [] \<Longrightarrow> \<not> P (hd (dropWhile P s))"
  by (rule hd_dropWhile)

lemma trim_last_not_ws: "trim s \<noteq> [] \<Longrightarrow> \<not> is_whitespace (last (trim s))"
  unfolding trim_def by (metis dropWhile_hd last_rev rev_is_Nil_conv)

lemma last_rev_dropWhile_rev:
  "xs \<noteq> [] \<Longrightarrow> \<not> P (hd xs) \<Longrightarrow>
   rev (dropWhile P (rev xs)) \<noteq> [] \<and> hd (rev (dropWhile P (rev xs))) = hd xs"
  by (cases xs) (auto simp: dropWhile_append split: if_splits)

lemma trim_hd_not_ws:
  assumes "trim s \<noteq> []"
  shows "\<not> is_whitespace (hd (trim s))"
proof -
  let ?d = "dropWhile is_whitespace s"
  have "?d \<noteq> []" using assms by (metis dropWhile.simps(1) rev.simps(1) trim_def)
  moreover from this have "\<not> is_whitespace (hd ?d)" by (rule dropWhile_hd)
  ultimately show ?thesis
    using last_rev_dropWhile_rev [of ?d is_whitespace] by (simp add: trim_def)
qed

lemma trim_idem [simp]: "trim (trim s) = trim s"
proof (cases "trim s = []")
  case True
  then show ?thesis by (metis dropWhile.simps(1) rev.simps(1) trim_def)
next
  case False
  then show ?thesis
    by (intro trim_eq_self trim_hd_not_ws trim_last_not_ws)
qed


section \<open>Decimal printing\<close>

text \<open>What \<open>format!\<close> writes for an integer: no leading zero, a leading minus sign.\<close>

fun show_nat :: "nat \<Rightarrow> ustr" where
  "show_nat n = (if n < 10 then [48 + n] else show_nat (n div 10) @ [48 + n mod 10])"

declare show_nat.simps [simp del]

definition show_int :: "int \<Rightarrow> ustr" where
  "show_int i = (if i < 0 then 45 # show_nat (nat (- i)) else show_nat (nat i))"

lemma show_nat_nonempty [simp]: "show_nat n \<noteq> []"
  by (subst show_nat.simps) simp

lemma show_nat_digits: "\<forall>c \<in> set (show_nat n). is_ascii_digit c"
proof (induction n rule: show_nat.induct)
  case (1 n)
  then show ?case
    by (subst show_nat.simps) (auto simp: is_ascii_digit_def)
qed

lemma show_nat_inj: "show_nat m = show_nat n \<Longrightarrow> m = n"
proof (induction m arbitrary: n rule: show_nat.induct)
  case (1 m)
  show ?case
  proof (cases "m < 10 \<or> n < 10")
    case True
    then show ?thesis
      using "1.prems"
      by (subst (asm) show_nat.simps [of m], subst (asm) show_nat.simps [of n])
        (auto split: if_splits dest: sym [of "[]"])
  next
    case False
    then have "show_nat (m div 10) = show_nat (n div 10)" and "m mod 10 = n mod 10"
      using "1.prems"
      by (simp_all add: show_nat.simps [of m] show_nat.simps [of n])
    with "1.IH" False have "m div 10 = n div 10" by simp
    with \<open>m mod 10 = n mod 10\<close> show ?thesis by (metis div_mod_decomp)
  qed
qed

lemma show_int_digits: "\<forall>c \<in> set (show_int i). is_ascii_digit c \<or> c = 45"
  using show_nat_digits by (auto simp: show_int_def)

lemma show_int_nonempty [simp]: "show_int i \<noteq> []"
  by (simp add: show_int_def)

lemma show_nat_no_minus: "show_nat n \<noteq> 45 # xs"
  using show_nat_digits [of n] by (auto simp: is_ascii_digit_def)

lemma show_int_inj: "show_int i = show_int j \<longleftrightarrow> i = j"
  using show_nat_no_minus show_nat_no_minus [symmetric]
  by (auto simp: show_int_def dest!: show_nat_inj split: if_splits)


section \<open>Underscore-joined keys\<close>

text \<open>
  Every derived row id joins its parts with an underscore, and no part contains one:
  a joined string determines its list of parts.
\<close>

definition plain :: "ustr \<Rightarrow> bool" where
  "plain s \<longleftrightarrow> 95 \<notin> set s"

fun join_us :: "ustr list \<Rightarrow> ustr" where
  "join_us [] = []"
| "join_us [s] = s"
| "join_us (s # t # ss) = s @ 95 # join_us (t # ss)"

lemma plain_append_us_inj:
  assumes "plain a" "plain b" "a @ 95 # x = b @ 95 # y"
  shows "a = b \<and> x = y"
  using assms
proof (induction a arbitrary: b)
  case Nil
  then show ?case by (cases b) (auto simp: plain_def)
next
  case (Cons c a)
  then show ?case by (cases b) (auto simp: plain_def)
qed

lemma plain_append_us_neq: "plain b \<Longrightarrow> a @ 95 # x \<noteq> b"
  by (auto simp: plain_def)

lemma join_us_inj:
  assumes "list_all plain xs" "list_all plain ys" "xs \<noteq> []" "ys \<noteq> []"
    and "join_us xs = join_us ys"
  shows "xs = ys"
  using assms
proof (induction xs arbitrary: ys rule: join_us.induct)
  case 1
  then show ?case by simp
next
  case (2 s)
  then show ?case
    by (cases ys rule: join_us.cases) (auto simp: plain_def)
next
  case (3 s t ss)
  show ?case
  proof (cases ys rule: join_us.cases)
    case (3 s' t' ss')
    with "3.prems" have "s = s'" and "join_us (t # ss) = join_us (t' # ss')"
      using plain_append_us_inj [of s s' "join_us (t # ss)" "join_us (t' # ss')"] by auto
    with "3.IH" [of "t' # ss'"] "3.prems" 3 show ?thesis by auto
  next
    case (2 s')
    with "3.prems" show ?thesis by (auto simp: plain_append_us_neq)
  qed (use "3.prems" in auto)
qed

lemma join_us_snoc: "xs \<noteq> [] \<Longrightarrow> join_us (xs @ [y]) = join_us xs @ 95 # y"
  by (induction xs rule: join_us.induct) auto

lemma show_nat_plain [simp]: "plain (show_nat n)"
  using show_nat_digits [of n] by (auto simp: plain_def is_ascii_digit_def)

lemma show_int_plain [simp]: "plain (show_int n)"
  using show_int_digits [of n] by (auto simp: plain_def is_ascii_digit_def)


section \<open>Keyed tables\<close>

text \<open>
  \<open>find_row\<close> is a point read by primary key; \<open>insert_row\<close> is
  \<open>INSERT ... ON CONFLICT (key) DO NOTHING\<close>.
\<close>

definition find_row :: "('r \<Rightarrow> 'k) \<Rightarrow> 'r list \<Rightarrow> 'k \<Rightarrow> 'r option" where
  "find_row key rows k = find (\<lambda>r. key r = k) rows"

definition insert_row :: "('r \<Rightarrow> 'k) \<Rightarrow> 'r \<Rightarrow> 'r list \<Rightarrow> 'r list" where
  "insert_row key row rows =
     (case find_row key rows (key row) of None \<Rightarrow> rows @ [row] | Some _ \<Rightarrow> rows)"

definition keyed :: "('r \<Rightarrow> 'k) \<Rightarrow> 'r list \<Rightarrow> bool" where
  "keyed key rows \<longleftrightarrow> distinct (map key rows)"

lemma find_row_Nil [simp]: "find_row key [] k = None"
  by (simp add: find_row_def)

lemma find_row_None_iff: "find_row key rows k = None \<longleftrightarrow> k \<notin> key ` set rows"
  by (auto simp: find_row_def find_None_iff)

lemma find_row_SomeD: "find_row key rows k = Some r \<Longrightarrow> r \<in> set rows \<and> key r = k"
  by (auto simp: find_row_def find_Some_iff)

lemma find_row_append:
  "find_row key (xs @ ys) k =
     (case find_row key xs k of None \<Rightarrow> find_row key ys k | Some r \<Rightarrow> Some r)"
  by (induction xs) (auto simp: find_row_def)

lemma find_row_single: "find_row key [r] k = (if key r = k then Some r else None)"
  by (simp add: find_row_def)

lemma keyed_find_row: "keyed key rows \<Longrightarrow> r \<in> set rows \<Longrightarrow> find_row key rows (key r) = Some r"
  unfolding keyed_def find_row_def
  by (induction rows) (auto simp: rev_image_eqI)

lemma find_row_insert_row [table_simps]:
  "find_row key (insert_row key row rows) k =
     (if k = key row then (case find_row key rows k of None \<Rightarrow> Some row | Some r \<Rightarrow> Some r)
      else find_row key rows k)"
  by (auto simp: insert_row_def find_row_append find_row_single split: option.splits)

lemma keyed_insert_row [simp]: "keyed key rows \<Longrightarrow> keyed key (insert_row key row rows)"
  by (auto simp: insert_row_def keyed_def find_row_None_iff split: option.splits)

lemma insert_row_fresh: "key row \<notin> key ` set rows \<Longrightarrow> insert_row key row rows = rows @ [row]"
  by (simp add: insert_row_def find_row_None_iff [symmetric])

lemma insert_row_present: "key row \<in> key ` set rows \<Longrightarrow> insert_row key row rows = rows"
  by (cases "find_row key rows (key row)") (auto simp: insert_row_def find_row_None_iff)

lemma set_insert_row:
  "set (insert_row key row rows) =
     (if key row \<in> key ` set rows then set rows else insert row (set rows))"
  by (simp add: insert_row_fresh insert_row_present)

end
