(* ===== verification/Errors.thy ===== *)
theory Errors
  imports Prelude
begin

text \<open>
  The error vocabulary of the backend (\<open>src/src/error.rs\<close>): the validation errors the
  newtypes raise, the application error every handler returns, the conversion from
  database driver errors, and how an error is rendered as an HTTP response.  The module
  names (\<open>src/src/module.rs\<close>) are declared here because an error names one.
\<close>

section \<open>The data\<close>

datatype validation_error =
    Empty string
  | TooShort string nat nat
  | TooLong string nat nat
  | NotAscii string
  | Invalid string string
  | Unknown string ustr
  | Contradictory string ustr

datatype module =
    Chatbot | Notes | Messages | Events | Appointments | Courses | CourseNotes
  | Classes | Sessions | Exams | Marks | Meals | Payments | Work | Pomodoro
  | Questions | BankQuestions | Attendance | Subjects | Homework | Boards

text \<open>
  The driver errors the conversion tells apart.  A verdict of the server carries its
  SQLSTATE and the violated constraint; the rest carry their text.
\<close>

datatype sqlx_error =
    RowNotFound | PoolTimedOut | PoolClosed | Tls ustr | Io ustr
  | DatabaseError "string option" "string option" | OtherSqlx ustr

datatype app_error =
    Validation validation_error
  | NotFound
  | Expired ustr
  | Unauthorized
  | Forbidden ustr
  | ModuleDisabled module
  | Conflict ustr
  | ConflictOwned ustr
  | ConflictCoded ustr ustr
  | PayloadTooLarge ustr
  | TooManyRequests nat
  | Db sqlx_error
  | DbUnavailable
  | DbTimeout
  | Internal ustr

type_synonym 'a vresult = "(validation_error, 'a) result"
type_synonym 'a aresult = "(app_error, 'a) result"


section \<open>Operations\<close>

text \<open>The \<open>Display\<close> text of a validation error, as its \<open>error\<close> attributes spell it.\<close>

fun display_validation :: "validation_error \<Rightarrow> ustr" where
  "display_validation (Empty field) = u field @ u '' must not be empty''"
| "display_validation (TooShort field mn got) =
     u field @ u '' must be at least '' @ show_nat mn @ u '' characters (got ''
       @ show_nat got @ u '')''"
| "display_validation (TooLong field mx got) =
     u field @ u '' must be at most '' @ show_nat mx @ u '' characters (got ''
       @ show_nat got @ u '')''"
| "display_validation (NotAscii field) = u field @ u '' must be ASCII''"
| "display_validation (Invalid field reason) = u field @ u '': '' @ u reason"
| "display_validation (Unknown field v) =
     u field @ u '': `'' @ v @ u ''` is not a known '' @ u field"
| "display_validation (Contradictory field v) =
     u field @ u '': `'' @ v @ u ''` is asked for in both directions at once''"

fun from_sqlx :: "sqlx_error \<Rightarrow> app_error" where
  "from_sqlx RowNotFound = NotFound"
| "from_sqlx PoolTimedOut = DbUnavailable"
| "from_sqlx PoolClosed = DbUnavailable"
| "from_sqlx (Tls t) = DbUnavailable"
| "from_sqlx (Io t) = DbTimeout"
| "from_sqlx e = Db e"

fun error_class :: "app_error \<Rightarrow> string" where
  "error_class (Validation v) = ''validation''"
| "error_class NotFound = ''not_found''"
| "error_class (Expired m) = ''expired''"
| "error_class Unauthorized = ''unauthorized''"
| "error_class (Forbidden m) = ''forbidden''"
| "error_class (ModuleDisabled m) = ''module_disabled''"
| "error_class (Conflict m) = ''conflict''"
| "error_class (ConflictOwned m) = ''conflict''"
| "error_class (ConflictCoded c m) = ''conflict_coded''"
| "error_class (PayloadTooLarge m) = ''payload_too_large''"
| "error_class (TooManyRequests s) = ''too_many_requests''"
| "error_class (Db e) = ''db''"
| "error_class DbUnavailable = ''db_unavailable''"
| "error_class DbTimeout = ''db_timeout''"
| "error_class (Internal m) = ''internal''"

fun module_as_str :: "module \<Rightarrow> string" where
  "module_as_str Chatbot = ''chatbot''"
| "module_as_str Notes = ''notes''"
| "module_as_str Messages = ''messages''"
| "module_as_str Events = ''events''"
| "module_as_str Appointments = ''appointments''"
| "module_as_str Courses = ''courses''"
| "module_as_str CourseNotes = ''course_notes''"
| "module_as_str Classes = ''classes''"
| "module_as_str Sessions = ''sessions''"
| "module_as_str Exams = ''exams''"
| "module_as_str Marks = ''marks''"
| "module_as_str Meals = ''meals''"
| "module_as_str Payments = ''payments''"
| "module_as_str Work = ''work''"
| "module_as_str Pomodoro = ''pomodoro''"
| "module_as_str Questions = ''questions''"
| "module_as_str BankQuestions = ''bank_questions''"
| "module_as_str Attendance = ''attendance''"
| "module_as_str Subjects = ''subjects''"
| "module_as_str Homework = ''homework''"
| "module_as_str Boards = ''boards''"

text \<open>An HTTP response: the status, the \<open>Retry-After\<close> header and the JSON body's members.\<close>

record response =
  status :: nat
  retry_after :: "ustr option"
  body_error :: ustr
  body_code :: "ustr option"
  body_module :: "ustr option"

definition plain_response :: "nat \<Rightarrow> ustr \<Rightarrow> response" where
  "plain_response st msg =
     \<lparr>status = st, retry_after = None, body_error = msg, body_code = None, body_module = None\<rparr>"

fun render :: "app_error \<Rightarrow> response" where
  "render (TooManyRequests secs) =
     (plain_response 429 (u ''too many requests''))\<lparr>retry_after := Some (show_nat secs)\<rparr>"
| "render DbUnavailable =
     (plain_response 503 (u ''database reconnecting '' @ [8212] @ u '' retry shortly''))
       \<lparr>retry_after := Some (u ''1'')\<rparr>"
| "render DbTimeout =
     plain_response 503 (u ''request timed out '' @ [8212]
       @ u '' the write may or may not have applied'')"
| "render (ConflictCoded code m) = (plain_response 409 m)\<lparr>body_code := Some code\<rparr>"
| "render (ModuleDisabled m) =
     (plain_response 403 (u ''module disabled''))\<lparr>body_module := Some (u (module_as_str m))\<rparr>"
| "render (Validation v) = plain_response 400 (display_validation v)"
| "render NotFound = plain_response 404 (u ''not found'')"
| "render (Expired m) = plain_response 410 m"
| "render Unauthorized = plain_response 401 (u ''unauthorized'')"
| "render (Forbidden m) = plain_response 403 m"
| "render (Conflict m) = plain_response 409 m"
| "render (ConflictOwned m) = plain_response 409 m"
| "render (PayloadTooLarge m) = plain_response 413 m"
| "render (Db e) = plain_response 500 (u ''database error'')"
| "render (Internal m) = plain_response 500 (u ''internal server error'')"


section \<open>Facts\<close>

text \<open>The errors that are the server's own fault.\<close>

fun server_fault :: "app_error \<Rightarrow> bool" where
  "server_fault (Db e) = True"
| "server_fault DbUnavailable = True"
| "server_fault DbTimeout = True"
| "server_fault (Internal m) = True"
| "server_fault e = False"

lemma render_status_class:
  "if server_fault e then 500 \<le> status (render e) \<and> status (render e) \<le> 503
   else 400 \<le> status (render e) \<and> status (render e) \<le> 429"
  by (cases e) (simp_all add: plain_response_def)

lemma render_internal_opaque: "render (Internal m) = render (Internal m')"
  by simp

lemma render_db_opaque: "render (Db e) = render (Db e')"
  by simp

lemma retry_after_iff:
  "retry_after (render e) \<noteq> None \<longleftrightarrow> e = DbUnavailable \<or> (\<exists>s. e = TooManyRequests s)"
  by (cases e) (simp_all add: plain_response_def)

section \<open>Properties\<close>

text \<open>
  What a response may reveal.  Faults of the server are 500 or 503 and everything else is a 4xx;
  the body of an internal or database fault does not depend on the fault; and the header that invites
  a retry is sent exactly for a throttled request and for a refused connection, never for a write that
  may already have applied.
\<close>

theorem render_is_opaque_and_classed:
  "(if server_fault e then status (render e) \<in> {500, 503} else status (render e) \<in> {400, 401, 403, 404, 409, 410, 413, 429}) \<and>
   render (Internal m) = render (Internal m') \<and> render (Db x) = render (Db y) \<and>
   (retry_after (render e) \<noteq> None \<longleftrightarrow> e = DbUnavailable \<or> (\<exists>s. e = TooManyRequests s))"
proof (intro conjI)
  show "if server_fault e then status (render e) \<in> {500, 503}
    else status (render e) \<in> {400, 401, 403, 404, 409, 410, 413, 429}"
    by (cases e) (simp_all add: plain_response_def)
qed (simp_all only: render_internal_opaque [of m m'] render_db_opaque [of x y] retry_after_iff simp_thms)

end
