(* ===== verification/Validate.thy ===== *)
theory Validate
  imports Errors
begin

text \<open>
  The field validators (\<open>src/src/validate.rs\<close>), with the bounds of \<open>src/src/constant.rs\<close>.
  Every newtype's \<open>try_new\<close> calls one of them before it wraps the value, so an existing
  newtype is always valid.  The accept set of each string validator is characterised
  exactly; the request-key validator's accept set is what the ledger key grammar rests on.
\<close>

section \<open>Constants\<close>

definition MIN_USERNAME_LEN :: nat where "MIN_USERNAME_LEN = 3"
definition MAX_USERNAME_LEN :: nat where "MAX_USERNAME_LEN = 32"
definition USERNAME_SEPARATORS :: "nat list" where "USERNAME_SEPARATORS = [46, 95, 45]"
definition MIN_PASSWORD_LEN :: nat where "MIN_PASSWORD_LEN = 6"
definition MAX_PASSWORD_LEN :: nat where "MAX_PASSWORD_LEN = 128"
definition MAX_EMAIL_LEN :: nat where "MAX_EMAIL_LEN = 254"
definition MIN_PHONE_DIGITS :: nat where "MIN_PHONE_DIGITS = 7"
definition MAX_PHONE_DIGITS :: nat where "MAX_PHONE_DIGITS = 15"
definition MAX_PAYMENT_REQUEST_KEY_LEN :: nat where "MAX_PAYMENT_REQUEST_KEY_LEN = 64"
definition MAX_EXAM_ATTEMPTS :: int where "MAX_EXAM_ATTEMPTS = 100"
definition UNLIMITED_EXAM_ATTEMPTS :: int where "UNLIMITED_EXAM_ATTEMPTS = 0"
definition MIN_EXAM_DURATION_MS :: int where "MIN_EXAM_DURATION_MS = 60 * 1000"
definition MAX_EXAM_DURATION_MS :: int where "MAX_EXAM_DURATION_MS = 24 * 60 * 60 * 1000"
definition MIN_QUESTION_POINTS :: int where "MIN_QUESTION_POINTS = 1"
definition MAX_QUESTION_POINTS :: int where "MAX_QUESTION_POINTS = 100"
definition MIN_MARK :: int where "MIN_MARK = 0"
definition MAX_MARK :: int where "MAX_MARK = 100"

lemmas limit_defs = MIN_USERNAME_LEN_def MAX_USERNAME_LEN_def USERNAME_SEPARATORS_def
  MIN_PASSWORD_LEN_def MAX_PASSWORD_LEN_def MAX_EMAIL_LEN_def MIN_PHONE_DIGITS_def
  MAX_PHONE_DIGITS_def MAX_PAYMENT_REQUEST_KEY_LEN_def MAX_EXAM_ATTEMPTS_def
  UNLIMITED_EXAM_ATTEMPTS_def MIN_EXAM_DURATION_MS_def MAX_EXAM_DURATION_MS_def
  MIN_QUESTION_POINTS_def MAX_QUESTION_POINTS_def MIN_MARK_def MAX_MARK_def

definition COURSE_KINDS :: "ustr list" where
  "COURSE_KINDS = [u ''course'', u ''study'', u ''club'']"

definition EXAM_MODES :: "ustr list" where
  "EXAM_MODES = [u ''sync'', u ''async'', u ''open'']"

definition HOMEWORK_STATUSES :: "ustr list" where
  "HOMEWORK_STATUSES = [u ''done'', u ''incomplete'', u ''missing'']"

definition QUESTION_KINDS :: "ustr list" where
  "QUESTION_KINDS = [u ''choice'', u ''text'']"


section \<open>Validators\<close>

text \<open>The peekable scan over a username: two separators in a row.\<close>

fun doubled_separator :: "ustr \<Rightarrow> bool" where
  "doubled_separator (c # n # cs) =
     (c \<in> set USERNAME_SEPARATORS \<and> n \<in> set USERNAME_SEPARATORS \<or> doubled_separator (n # cs))"
| "doubled_separator cs = False"

definition validate_username :: "ustr \<Rightarrow> unit vresult" where
  "validate_username raw =
     (let value = trim raw; len = length value in
      if value = [] then Inl (Empty ''username'')
      else if \<not> list_all is_ascii value then Inl (NotAscii ''username'')
      else if len < MIN_USERNAME_LEN then Inl (TooShort ''username'' MIN_USERNAME_LEN len)
      else if len > MAX_USERNAME_LEN then Inl (TooLong ''username'' MAX_USERNAME_LEN len)
      else if list_ex is_ascii_uppercase value
        then Inl (Invalid ''username'' ''must be all lowercase'')
      else if \<not> list_all (\<lambda>c. is_ascii_lowercase c \<or> is_ascii_digit c
                              \<or> c \<in> set USERNAME_SEPARATORS) value
        then Inl (Invalid ''username'' (''may contain only lowercase letters, digits, '.', '_' and '-'' @ [CHR 0x27]))
      else if \<not> is_ascii_alphanumeric (hd value) \<or> \<not> is_ascii_alphanumeric (last value)
        then Inl (Invalid ''username'' ''must start and end with a letter or digit'')
      else if doubled_separator value
        then Inl (Invalid ''username'' (''must not contain consecutive '.', '_' or '-'' @ [CHR 0x27]))
      else Inr ())"

definition validate_password :: "ustr \<Rightarrow> unit vresult" where
  "validate_password value =
     (let len = length value in
      if len < MIN_PASSWORD_LEN then Inl (TooShort ''password'' MIN_PASSWORD_LEN len)
      else if len > MAX_PASSWORD_LEN then Inl (TooLong ''password'' MAX_PASSWORD_LEN len)
      else Inr ())"

definition validate_required :: "string \<Rightarrow> ustr \<Rightarrow> nat \<Rightarrow> unit vresult" where
  "validate_required field value mx =
     (if trim value = [] then Inl (Empty field)
      else if length value > mx then Inl (TooLong field mx (length value))
      else Inr ())"

definition validate_optional :: "string \<Rightarrow> ustr \<Rightarrow> nat \<Rightarrow> unit vresult" where
  "validate_optional field value mx =
     (if length value > mx then Inl (TooLong field mx (length value)) else Inr ())"

definition validate_email :: "ustr \<Rightarrow> unit vresult" where
  "validate_email raw =
     (let value = trim raw;
          invalid = Invalid ''email'' ''must look like name@example.com'' in
      if value = [] then Inl (Empty ''email'')
      else if \<not> list_all is_ascii value then Inl (NotAscii ''email'')
      else if length value > MAX_EMAIL_LEN then Inl (TooLong ''email'' MAX_EMAIL_LEN (length value))
      else if list_ex is_whitespace value \<or> count_list value 64 \<noteq> 1 then Inl invalid
      else (let local = takeWhile (\<lambda>c. c \<noteq> 64) value;
                domain = tl (dropWhile (\<lambda>c. c \<noteq> 64) value) in
            if local \<noteq> [] \<and> 46 \<in> set domain \<and> hd domain \<noteq> 46 \<and> last domain \<noteq> 46
            then Inr () else Inl invalid))"

definition strip_plus :: "ustr \<Rightarrow> ustr" where
  "strip_plus s = (case s of [] \<Rightarrow> [] | c # cs \<Rightarrow> if c = 43 then cs else s)"

definition validate_phone :: "ustr \<Rightarrow> unit vresult" where
  "validate_phone raw =
     (let value = trim raw in
      if value = [] then Inl (Empty ''phone'')
      else (let rest = strip_plus value;
                digits = length (filter is_ascii_digit rest) in
            if list_ex (\<lambda>c. \<not> is_ascii_digit c \<and> c \<notin> {32, 45, 40, 41}) rest
            then Inl (Invalid ''phone''
                   ''may contain digits, spaces, dashes, parentheses, and a leading +'')
            else if \<not> (MIN_PHONE_DIGITS \<le> digits \<and> digits \<le> MAX_PHONE_DIGITS)
            then Inl (Invalid ''phone'' ''must contain 7 to 15 digits'')
            else Inr ()))"

definition validate_request_key :: "ustr \<Rightarrow> unit vresult" where
  "validate_request_key value =
     (let len = length value in
      if len = 0 then Inl (Empty ''request_key'')
      else if len > MAX_PAYMENT_REQUEST_KEY_LEN
        then Inl (TooLong ''request_key'' MAX_PAYMENT_REQUEST_KEY_LEN len)
      else if \<not> list_all (\<lambda>c. is_ascii_alphanumeric c \<or> c = 45) value
        then Inl (Invalid ''request_key'' (''may contain only letters, digits and '-'' @ [CHR 0x27]))
      else Inr ())"

definition validate_course_kind :: "ustr \<Rightarrow> unit vresult" where
  "validate_course_kind value =
     (if value \<in> set COURSE_KINDS then Inr ()
      else Inl (Invalid ''kind'' ''must be one of: course, study, club''))"

definition validate_exam_mode :: "ustr \<Rightarrow> unit vresult" where
  "validate_exam_mode value =
     (if value \<in> set EXAM_MODES then Inr ()
      else Inl (Invalid ''mode'' ''must be one of: sync, async, open''))"

definition validate_homework_status :: "ustr \<Rightarrow> unit vresult" where
  "validate_homework_status value =
     (if value \<in> set HOMEWORK_STATUSES then Inr ()
      else Inl (Invalid ''status'' ''must be one of: done, incomplete, missing''))"

definition validate_attempt_limit :: "int \<Rightarrow> unit vresult" where
  "validate_attempt_limit value =
     (if value = UNLIMITED_EXAM_ATTEMPTS \<or> (1 \<le> value \<and> value \<le> MAX_EXAM_ATTEMPTS) then Inr ()
      else Inl (Invalid ''max_attempts'' ''must be between 1 and 100, or 0 for unlimited''))"

definition validate_exam_duration :: "int \<Rightarrow> unit vresult" where
  "validate_exam_duration value =
     (if MIN_EXAM_DURATION_MS \<le> value \<and> value \<le> MAX_EXAM_DURATION_MS then Inr ()
      else Inl (Invalid ''duration_ms''
             ''must be between 60000 (1 minute) and 86400000 (24 hours) milliseconds''))"

definition validate_question_kind :: "ustr \<Rightarrow> unit vresult" where
  "validate_question_kind value =
     (if value \<in> set QUESTION_KINDS then Inr ()
      else Inl (Invalid ''kind'' ''must be one of: choice, text''))"

definition validate_question_points :: "int \<Rightarrow> unit vresult" where
  "validate_question_points value =
     (if MIN_QUESTION_POINTS \<le> value \<and> value \<le> MAX_QUESTION_POINTS then Inr ()
      else Inl (Invalid ''points'' ''must be between 1 and 100''))"

definition validate_mark :: "int \<Rightarrow> unit vresult" where
  "validate_mark value =
     (if MIN_MARK \<le> value \<and> value \<le> MAX_MARK then Inr ()
      else Inl (Invalid ''mark'' ''must be between 0 and 100''))"


section \<open>Accept sets\<close>

definition username_char :: "nat \<Rightarrow> bool" where
  "username_char c \<longleftrightarrow> is_ascii_lowercase c \<or> is_ascii_digit c \<or> c \<in> {46, 95, 45}"

definition username_edge :: "nat \<Rightarrow> bool" where
  "username_edge c \<longleftrightarrow> is_ascii_lowercase c \<or> is_ascii_digit c"

text \<open>The published shape of a username, as a predicate on the trimmed value.\<close>

definition username_shape :: "ustr \<Rightarrow> bool" where
  "username_shape v \<longleftrightarrow>
     3 \<le> length v \<and> length v \<le> 32 \<and> (\<forall>c \<in> set v. username_char c) \<and>
     username_edge (hd v) \<and> username_edge (last v) \<and>
     (\<forall>i. Suc i < length v \<longrightarrow> username_edge (v ! i) \<or> username_edge (v ! Suc i))"

lemma doubled_separator_iff:
  "doubled_separator v \<longleftrightarrow>
     (\<exists>i. Suc i < length v \<and> v ! i \<in> {46, 95, 45} \<and> v ! Suc i \<in> {46, 95, 45})"
proof (induction v rule: doubled_separator.induct)
  case (1 c n cs)
  have "(\<exists>i. Suc i < length (c # n # cs) \<and> (c # n # cs) ! i \<in> {46, 95, 45}
            \<and> (c # n # cs) ! Suc i \<in> {46, 95, 45}) \<longleftrightarrow>
        (c \<in> {46, 95, 45} \<and> n \<in> {46, 95, 45}) \<or>
        (\<exists>i. Suc i < length (n # cs) \<and> (n # cs) ! i \<in> {46, 95, 45}
            \<and> (n # cs) ! Suc i \<in> {46, 95, 45})"
    (is "(\<exists>i. ?P i) \<longleftrightarrow> ?A \<or> (\<exists>i. ?Q i)")
  proof
    assume "\<exists>i. ?P i"
    then obtain i where "?P i" ..
    then show "?A \<or> (\<exists>i. ?Q i)" by (cases i) auto
  next
    assume "?A \<or> (\<exists>i. ?Q i)"
    then show "\<exists>i. ?P i" by (auto intro: exI [of _ 0] exI [of _ "Suc _"])
  qed
  with 1 show ?case by (auto simp: USERNAME_SEPARATORS_def)
qed auto

lemma username_char_cases: "username_char c \<longleftrightarrow> username_edge c \<or> c \<in> {46, 95, 45}"
  by (auto simp: username_char_def username_edge_def)

lemma username_edge_not_sep: "username_edge c \<Longrightarrow> c \<notin> {46, 95, 45}"
  by (auto simp: username_edge_def ascii_defs)

lemma username_shape_no_doubled:
  assumes "\<forall>c \<in> set v. username_char c"
  shows "\<not> doubled_separator v \<longleftrightarrow>
    (\<forall>i. Suc i < length v \<longrightarrow> username_edge (v ! i) \<or> username_edge (v ! Suc i))"
proof -
  have "v ! i \<in> {46, 95, 45} \<longleftrightarrow> \<not> username_edge (v ! i)" if "i < length v" for i
    using that assms username_char_cases username_edge_not_sep nth_mem by metis
  then show ?thesis
    unfolding doubled_separator_iff by (metis Suc_lessD)
qed

lemma username_char_basic:
  "username_char c \<Longrightarrow> is_ascii c \<and> \<not> is_ascii_uppercase c"
  by (auto simp: username_char_def ascii_defs)

lemma username_char_edge: "username_char c \<Longrightarrow> is_ascii_alphanumeric c \<longleftrightarrow> username_edge c"
  by (auto simp: username_char_def username_edge_def ascii_defs)

lemma validate_username_accepts:
  "validate_username raw = Inr () \<longleftrightarrow> username_shape (trim raw)"
proof -
  let ?v = "trim raw"
  have chars: "list_all (\<lambda>c. is_ascii_lowercase c \<or> is_ascii_digit c
      \<or> c \<in> set USERNAME_SEPARATORS) ?v \<longleftrightarrow> (\<forall>c \<in> set ?v. username_char c)"
    by (auto simp: list_all_iff username_char_def USERNAME_SEPARATORS_def)
  show ?thesis
  proof (cases "(\<forall>c \<in> set ?v. username_char c) \<and> ?v \<noteq> []")
    case True
    then have "list_all is_ascii ?v" "\<not> list_ex is_ascii_uppercase ?v"
      using username_char_basic by (auto simp: list_all_iff list_ex_iff)
    moreover have "is_ascii_alphanumeric (hd ?v) \<longleftrightarrow> username_edge (hd ?v)"
      "is_ascii_alphanumeric (last ?v) \<longleftrightarrow> username_edge (last ?v)"
      using True by (simp_all add: username_char_edge)
    moreover have "\<not> doubled_separator ?v \<longleftrightarrow>
        (\<forall>i. Suc i < length ?v \<longrightarrow> username_edge (?v ! i) \<or> username_edge (?v ! Suc i))"
      using True by (simp add: username_shape_no_doubled)
    ultimately show ?thesis
      using True chars
      by (auto simp: validate_username_def username_shape_def Let_def
          MIN_USERNAME_LEN_def MAX_USERNAME_LEN_def)
  next
    case False
    then show ?thesis
      using chars by (auto simp: validate_username_def username_shape_def Let_def)
  qed
qed

lemma validate_request_key_accepts:
  "validate_request_key v = Inr () \<longleftrightarrow>
     v \<noteq> [] \<and> length v \<le> 64 \<and> (\<forall>c \<in> set v. is_ascii_alphanumeric c \<or> c = 45)"
  by (auto simp: validate_request_key_def Let_def limit_defs list_all_iff)

lemma validate_request_key_plain: "validate_request_key v = Inr () \<Longrightarrow> plain v"
  by (auto simp: validate_request_key_accepts plain_def ascii_defs)

lemma validate_required_accepts:
  "validate_required field v mx = Inr () \<longleftrightarrow> trim v \<noteq> [] \<and> length v \<le> mx"
  by (auto simp: validate_required_def)

lemma validate_optional_accepts:
  "validate_optional field v mx = Inr () \<longleftrightarrow> length v \<le> mx"
  by (auto simp: validate_optional_def)

lemma validate_mark_accepts: "validate_mark v = Inr () \<longleftrightarrow> 0 \<le> v \<and> v \<le> 100"
  by (auto simp: validate_mark_def limit_defs)

lemma validate_attempt_limit_accepts:
  "validate_attempt_limit v = Inr () \<longleftrightarrow> 0 \<le> v \<and> v \<le> 100"
  by (auto simp: validate_attempt_limit_def limit_defs)

lemma validate_exam_duration_accepts:
  "validate_exam_duration v = Inr () \<longleftrightarrow> 60000 \<le> v \<and> v \<le> 86400000"
  by (auto simp: validate_exam_duration_def limit_defs)

lemma validate_question_points_accepts:
  "validate_question_points v = Inr () \<longleftrightarrow> 1 \<le> v \<and> v \<le> 100"
  by (auto simp: validate_question_points_def limit_defs)

text \<open>An address accepted as an email splits at its only at-sign into two non-empty sides.\<close>

lemma validate_email_accepts:
  "validate_email raw = Inr () \<longleftrightarrow>
     (\<exists>local domain. trim raw = local @ 64 # domain \<and> local \<noteq> [] \<and>
        64 \<notin> set local \<and> 64 \<notin> set domain \<and>
        46 \<in> set domain \<and> hd domain \<noteq> 46 \<and> last domain \<noteq> 46 \<and>
        (\<forall>c \<in> set (trim raw). is_ascii c \<and> \<not> is_whitespace c) \<and> length (trim raw) \<le> 254)"
proof -
  let ?v = "trim raw"
  let ?l = "takeWhile (\<lambda>c. c \<noteq> 64) ?v" and ?d = "tl (dropWhile (\<lambda>c. c \<noteq> 64) ?v)"
  have split: "?v = ?l @ 64 # ?d \<and> 64 \<notin> set ?l \<and> 64 \<notin> set ?d" if c: "count_list ?v 64 = 1"
  proof -
    have "64 \<in> set ?v" using c by (metis count_notin zero_neq_one)
    then have "dropWhile (\<lambda>c. c \<noteq> 64) ?v \<noteq> []" by auto
    then have d: "dropWhile (\<lambda>c. c \<noteq> 64) ?v = 64 # ?d"
      using hd_dropWhile [of "\<lambda>c. c \<noteq> 64" ?v] by (metis (full_types) list.collapse)
    have v: "?v = ?l @ 64 # ?d" using takeWhile_dropWhile_id d by metis
    have l: "64 \<notin> set ?l" by (auto dest: set_takeWhileD)
    have "count_list (?l @ 64 # ?d) 64 = 1" using v c by simp
    with l have "count_list ?d 64 = 0" by simp
    then have "64 \<notin> set ?d" by (simp add: count_list_0_iff)
    with v l show ?thesis by blast
  qed
  have recover: "?l = l \<and> ?d = d \<and> count_list ?v 64 = 1"
    if "?v = l @ 64 # d" "64 \<notin> set l" "64 \<notin> set d" for l d
  proof -
    have "takeWhile (\<lambda>c. c \<noteq> 64) (l @ 64 # d) = l" "dropWhile (\<lambda>c. c \<noteq> 64) (l @ 64 # d) = 64 # d"
      using that(2) by (induction l) auto
    moreover have "count_list (l @ 64 # d) 64 = 1"
      using that by (simp add: count_list_append)
    ultimately show ?thesis using that(1) by simp
  qed
  show ?thesis
  proof
    assume ok: "validate_email raw = Inr ()"
    then have "count_list ?v 64 = 1"
      by (auto simp: validate_email_def Let_def split: if_splits)
    note s = split [OF this]
    then show "\<exists>local domain. ?v = local @ 64 # domain \<and> local \<noteq> [] \<and>
        64 \<notin> set local \<and> 64 \<notin> set domain \<and>
        46 \<in> set domain \<and> hd domain \<noteq> 46 \<and> last domain \<noteq> 46 \<and>
        (\<forall>c \<in> set ?v. is_ascii c \<and> \<not> is_whitespace c) \<and> length ?v \<le> 254"
      using ok
      by (intro exI [of _ ?l] exI [of _ ?d])
        (auto simp: validate_email_def Let_def list_all_iff list_ex_iff limit_defs split: if_splits)
  next
    assume "\<exists>local domain. ?v = local @ 64 # domain \<and> local \<noteq> [] \<and>
        64 \<notin> set local \<and> 64 \<notin> set domain \<and>
        46 \<in> set domain \<and> hd domain \<noteq> 46 \<and> last domain \<noteq> 46 \<and>
        (\<forall>c \<in> set ?v. is_ascii c \<and> \<not> is_whitespace c) \<and> length ?v \<le> 254"
    then obtain l d where ld: "?v = l @ 64 # d" "l \<noteq> []" "64 \<notin> set l" "64 \<notin> set d"
        "46 \<in> set d" "hd d \<noteq> 46" "last d \<noteq> 46"
        "\<forall>c \<in> set ?v. is_ascii c \<and> \<not> is_whitespace c" "length ?v \<le> 254" by blast
    moreover have "?l = l" "?d = d" "count_list ?v 64 = 1" using recover ld by auto
    ultimately show "validate_email raw = Inr ()"
      by (auto simp: validate_email_def Let_def list_all_iff list_ex_iff limit_defs)
  qed
qed

section \<open>Properties\<close>

text \<open>
  What a username may be.  A value is accepted exactly when, trimmed, it has 3 to 32 lower-case
  ASCII letters, digits, dots, underscores and hyphens, begins and ends with a letter or digit, and
  has no two separators in a row.
\<close>

theorem username_accept_set:
  "validate_username raw = Inr () \<longleftrightarrow>
     3 \<le> length (trim raw) \<and> length (trim raw) \<le> 32 \<and> (\<forall>c \<in> set (trim raw). username_char c) \<and>
     username_edge (hd (trim raw)) \<and> username_edge (last (trim raw)) \<and>
     (\<forall>i. Suc i < length (trim raw) \<longrightarrow>
        username_edge (trim raw ! i) \<or> username_edge (trim raw ! Suc i))"
  unfolding validate_username_accepts username_shape_def by (rule refl)

theorem username_accept_set_witness: "validate_username (u '' ada.l '') = Inr ()"
proof -
  have "trim (u '' ada.l '') = u ''ada.l''" by code_simp
  moreover have "validate_username (u '' ada.l '') = Inr ()" by code_simp
  ultimately show ?thesis using username_accept_set [of "u '' ada.l ''"] by simp
qed

text \<open>
  What an email may be.  A value is accepted exactly when, trimmed, it is at most 254 ASCII
  characters without white space that split at their only at-sign into a non-empty local part and a
  domain with an inner dot.
\<close>

theorem email_accept_set:
  "validate_email raw = Inr () \<longleftrightarrow>
     (\<exists>local domain. trim raw = local @ 64 # domain \<and> local \<noteq> [] \<and>
        64 \<notin> set local \<and> 64 \<notin> set domain \<and>
        46 \<in> set domain \<and> hd domain \<noteq> 46 \<and> last domain \<noteq> 46 \<and>
        list_all (\<lambda>c. is_ascii c \<and> \<not> is_whitespace c) (trim raw) \<and> length (trim raw) \<le> 254)"
  unfolding validate_email_accepts list_all_iff by (rule refl)

end
