(* ===== verification/Ledger_Keys.thy ===== *)
theory Ledger_Keys
  imports Validate
begin

text \<open>
  The derived row ids (\<open>src/src/domain/key.rs\<close>, the id types of
  \<open>src/src/domain/payment_ledger.rs\<close>, \<open>meal_ledger.rs\<close>, \<open>meal_booking.rs\<close>,
  \<open>fee_plan_assignment.rs\<close> and \<open>menu.rs\<close>).  Money is idempotent because of these ids: a
  retry derives the row it already wrote.  That is only safe if no two different lines
  derive the same id, so the grammar is proved unambiguous.

  A uuid is its hyphenated lower-case string form.  The uuid crate is not part of the
  repository: what the code relies on is that this form has 36 characters, hex digits and
  hyphens (\<open>uuid_key\<close>), and \<open>parse_uuid\<close> stands for parsing with the nil uuid as the
  fallback, which is the identity on well-formed strings.
\<close>

section \<open>Identifier forms\<close>

definition hex_or_dash :: "nat \<Rightarrow> bool" where
  "hex_or_dash c \<longleftrightarrow> is_ascii_digit c \<or> (97 \<le> c \<and> c \<le> 102) \<or> c = 45"

definition uuid_key :: "ustr \<Rightarrow> bool" where
  "uuid_key s \<longleftrightarrow> length s = 36 \<and> list_all hex_or_dash s"

text \<open>\<open>split_once\<close> and \<open>rsplit_once\<close> at the underscore.\<close>

fun split_once_us :: "ustr \<Rightarrow> (ustr \<times> ustr) option" where
  "split_once_us [] = None"
| "split_once_us (c # cs) =
     (if c = 95 then Some ([], cs) else map_option (\<lambda>(a, b). (c # a, b)) (split_once_us cs))"

definition rsplit_once_us :: "ustr \<Rightarrow> (ustr \<times> ustr) option" where
  "rsplit_once_us s = map_option (\<lambda>(a, b). (rev b, rev a)) (split_once_us (rev s))"


section \<open>Wire keys of sittings and image slots\<close>

definition sitting :: "ustr \<Rightarrow> ustr \<Rightarrow> int \<Rightarrow> ustr" where
  "sitting scope user seq =
     (if seq = 1 then scope @ u ''_'' @ user
      else scope @ u ''_'' @ user @ u ''_'' @ show_int seq)"

definition slot_key :: "ustr \<Rightarrow> ustr option \<Rightarrow> ustr" where
  "slot_key owner slot = owner @ u ''_'' @ (case slot of None \<Rightarrow> u ''q'' | Some s \<Rightarrow> s)"


section \<open>Fee ledger keys\<close>

record fee_plan_assignment_id =
  fpa_plan :: ustr
  fpa_student :: ustr

definition assignment_key :: "fee_plan_assignment_id \<Rightarrow> ustr" where
  "assignment_key a = fpa_plan a @ u ''_'' @ fpa_student a"

definition assignment_from_key :: "(ustr \<Rightarrow> ustr) \<Rightarrow> ustr \<Rightarrow> fee_plan_assignment_id" where
  "assignment_from_key parse_uuid key =
     (case split_once_us key of
        Some (plan, student) \<Rightarrow> \<lparr>fpa_plan = parse_uuid plan, fpa_student = parse_uuid student\<rparr>
      | None \<Rightarrow> \<lparr>fpa_plan = parse_uuid [], fpa_student = parse_uuid []\<rparr>)"

definition for_installment :: "fee_plan_assignment_id \<Rightarrow> nat \<Rightarrow> ustr" where
  "for_installment assignment n = assignment_key assignment @ u ''_c'' @ show_nat n"

definition for_reversal :: "ustr \<Rightarrow> ustr" where
  "for_reversal line = line @ u ''_r''"

definition for_request :: "ustr \<Rightarrow> ustr \<Rightarrow> ustr \<Rightarrow> ustr" where
  "for_request target marker key = target @ u ''_'' @ marker @ u ''_'' @ key"


section \<open>Meal ledger keys\<close>

record meal_booking_id =
  mb_menu :: ustr
  mb_student :: ustr

definition menu_key_for_slot :: "ustr \<Rightarrow> ustr \<Rightarrow> ustr" where
  "menu_key_for_slot date slot = date @ u ''_'' @ slot"

definition booking_key :: "meal_booking_id \<Rightarrow> ustr" where
  "booking_key b = mb_menu b @ u ''_'' @ mb_student b"

definition booking_from_key :: "(ustr \<Rightarrow> ustr) \<Rightarrow> ustr \<Rightarrow> meal_booking_id" where
  "booking_from_key parse_uuid key =
     (case rsplit_once_us key of
        Some (menu, student) \<Rightarrow> \<lparr>mb_menu = menu, mb_student = parse_uuid student\<rparr>
      | None \<Rightarrow> \<lparr>mb_menu = [], mb_student = parse_uuid []\<rparr>)"

datatype meal_ledger_kind = MCharge | MCredit | MReversal

fun meal_kind_as_str :: "meal_ledger_kind \<Rightarrow> ustr" where
  "meal_kind_as_str MCharge = u ''charge''"
| "meal_kind_as_str MCredit = u ''credit''"
| "meal_kind_as_str MReversal = u ''reversal''"

fun attempt_marker :: "meal_ledger_kind \<Rightarrow> nat" where
  "attempt_marker MCharge = 99"
| "attempt_marker MReversal = 114"
| "attempt_marker MCredit = 107"

definition for_attempt :: "meal_booking_id \<Rightarrow> int \<Rightarrow> meal_ledger_kind \<Rightarrow> ustr" where
  "for_attempt booking attempt kind =
     booking_key booking @ u ''_'' @ attempt_marker kind # show_int attempt"

definition credit_for_request :: "ustr \<Rightarrow> ustr \<Rightarrow> ustr" where
  "credit_for_request student key = student @ u ''_k_'' @ key"


section \<open>Facts on the parts\<close>

lemma us_lit [key_simps]: "u ''_'' = [95]" "u ''_c'' = [95, 99]" "u ''_r'' = [95, 114]"
    "u ''_k_'' = [95, 107, 95]" "u ''r'' = [114]" "u ''k'' = [107]" "u ''kr'' = [107, 114]"
    "u ''q'' = [113]"
  by (simp_all add: u_def)

lemma uuid_key_plain: "uuid_key s \<Longrightarrow> plain s"
  by (auto simp: uuid_key_def plain_def list_all_iff hex_or_dash_def ascii_defs)

lemma uuid_key_length: "uuid_key s \<Longrightarrow> length s = 36"
  by (simp add: uuid_key_def)

lemma split_once_us_join: "plain a \<Longrightarrow> split_once_us (a @ 95 # b) = Some (a, b)"
  by (induction a) (auto simp: plain_def)

lemma split_once_us_SomeD: "split_once_us s = Some (a, b) \<Longrightarrow> s = a @ 95 # b \<and> plain a"
  by (induction s arbitrary: a) (auto simp: plain_def split: if_splits)

lemma plain_rev [simp]: "plain (rev s) \<longleftrightarrow> plain s"
  by (simp add: plain_def)

lemma rsplit_once_us_join: "plain b \<Longrightarrow> rsplit_once_us (a @ 95 # b) = Some (a, b)"
  by (simp add: rsplit_once_us_def split_once_us_join)

lemma plain_suffix_inj:
  assumes "plain x" "plain y" "a @ 95 # x = b @ 95 # y"
  shows "a = b \<and> x = y"
proof -
  have "Some (a, x) = Some (b, y)"
    by (simp only: rsplit_once_us_join [OF assms(1), of a, symmetric]
        rsplit_once_us_join [OF assms(2), of b, symmetric] assms(3))
  then show ?thesis by simp
qed

lemma plain_Nil [simp]: "plain []"
  by (simp add: plain_def)

lemma plain_Cons [simp]: "plain (c # s) \<longleftrightarrow> c \<noteq> 95 \<and> plain s"
  by (auto simp: plain_def)

lemma attempt_marker_inject: "attempt_marker a = attempt_marker b \<longleftrightarrow> a = b"
  by (cases a; cases b) simp_all

lemma attempt_marker_not_us [simp]: "attempt_marker k \<noteq> 95"
  by (cases k) simp_all

lemma for_attempt_inject:
  assumes "uuid_key (mb_student a)" "uuid_key (mb_student b)"
  shows "for_attempt a m k = for_attempt b n l \<longleftrightarrow> a = b \<and> m = n \<and> k = l"
proof
  assume eq: "for_attempt a m k = for_attempt b n l"
  let ?x = "attempt_marker k # show_int m" and ?y = "attempt_marker l # show_int n"
  have "(mb_menu a @ 95 # mb_student a) @ 95 # ?x = (mb_menu b @ 95 # mb_student b) @ 95 # ?y"
    using eq by (simp add: for_attempt_def booking_key_def key_simps)
  from plain_suffix_inj [OF _ _ this] have *: "mb_menu a @ 95 # mb_student a = mb_menu b @ 95 # mb_student b"
    and xy: "?x = ?y" by simp_all
  from plain_suffix_inj [OF _ _ *] assms have "mb_menu a = mb_menu b" "mb_student a = mb_student b"
    by (auto simp: uuid_key_plain)
  with xy show "a = b \<and> m = n \<and> k = l"
    by (simp add: attempt_marker_inject show_int_inj)
qed simp

lemma for_attempt_neq_credit:
  assumes "uuid_key (mb_student a)" "validate_request_key key = Inr ()" "uuid_key st"
  shows "for_attempt a m k \<noteq> credit_for_request st key"
proof
  assume "for_attempt a m k = credit_for_request st key"
  then have eq: "(mb_menu a @ 95 # mb_student a) @ 95 # (attempt_marker k # show_int m)
      = (st @ [95, 107]) @ 95 # key"
    by (simp add: for_attempt_def credit_for_request_def booking_key_def key_simps)
  have "mb_menu a @ 95 # mb_student a = st @ 95 # [107]"
    using plain_suffix_inj [OF _ _ eq] validate_request_key_plain [OF assms(2)] by simp
  then have "mb_student a = [107]"
    using plain_suffix_inj [of "mb_student a" "[107]"] uuid_key_plain [OF assms(1)] by simp
  with uuid_key_length [OF assms(1)] show False by simp
qed

lemma for_attempt_not_uuid: "\<not> uuid_key (for_attempt a m k)"
  using uuid_key_plain by (fastforce simp: for_attempt_def key_simps plain_def)

lemma credit_for_request_inject:
  assumes "validate_request_key j = Inr ()" "validate_request_key k = Inr ()"
  shows "credit_for_request s j = credit_for_request t k \<longleftrightarrow> s = t \<and> j = k"
proof
  assume "credit_for_request s j = credit_for_request t k"
  then have "(s @ [95, 107]) @ 95 # j = (t @ [95, 107]) @ 95 # k"
    by (simp add: credit_for_request_def key_simps)
  from plain_suffix_inj [OF _ _ this] assms validate_request_key_plain
  show "s = t \<and> j = k" by simp
qed simp

lemma sitting_inject:
  assumes "uuid_key s" "uuid_key t" "uuid_key v" "uuid_key w"
  shows "sitting s v m = sitting t w n \<longleftrightarrow> s = t \<and> v = w \<and> m = n"
proof
  assume eq: "sitting s v m = sitting t w n"
  define sx where "sx = (if m = 1 then v else v @ 95 # show_int m)"
  define sy where "sy = (if n = 1 then w else w @ 95 # show_int n)"
  have "s @ 95 # sx = t @ 95 # sy"
    using eq by (simp add: sitting_def sx_def sy_def key_simps split: if_splits)
  with assms have st: "s = t" and xy: "sx = sy"
    using plain_append_us_inj uuid_key_plain by blast+
  have "v = w \<and> m = n"
  proof (cases "m = 1"; cases "n = 1")
    assume "m \<noteq> 1" "n \<noteq> 1"
    then show ?thesis
      using xy assms plain_append_us_inj [of v w "show_int m" "show_int n"]
      by (auto simp: sx_def sy_def uuid_key_plain show_int_inj)
  next
    assume "m = 1" "n \<noteq> 1"
    with xy uuid_key_plain [OF assms(3)] show ?thesis by (auto simp: sx_def sy_def plain_def)
  next
    assume "m \<noteq> 1" "n = 1"
    with xy uuid_key_plain [OF assms(4)] show ?thesis by (auto simp: sx_def sy_def plain_def)
  next
    assume "m = 1" "n = 1"
    with xy show ?thesis by (simp add: sx_def sy_def)
  qed
  with st show "s = t \<and> v = w \<and> m = n" by simp
qed simp

lemma slot_key_inject:
  assumes "uuid_key s" "uuid_key t" "\<And>c. a = Some c \<Longrightarrow> uuid_key c" "\<And>c. b = Some c \<Longrightarrow> uuid_key c"
  shows "slot_key s a = slot_key t b \<longleftrightarrow> s = t \<and> a = b"
proof
  assume "slot_key s a = slot_key t b"
  then have "s @ 95 # (case a of None \<Rightarrow> [113] | Some c \<Rightarrow> c) =
      t @ 95 # (case b of None \<Rightarrow> [113] | Some c \<Rightarrow> c)"
    by (cases a; cases b) (simp_all add: slot_key_def key_simps)
  from plain_append_us_inj [OF _ _ this] assms(1,2) uuid_key_plain
  have "s = t" and "(case a of None \<Rightarrow> [113] | Some c \<Rightarrow> c) = (case b of None \<Rightarrow> [113] | Some c \<Rightarrow> c)"
    by auto
  then show "s = t \<and> a = b"
    using assms(3,4) by (cases a; cases b) (auto dest!: uuid_key_length)
qed simp

lemma booking_key_roundtrip:
  assumes "uuid_key (mb_student b)" "\<And>s. uuid_key s \<Longrightarrow> parse_uuid s = s"
  shows "booking_from_key parse_uuid (booking_key b) = b"
  using assms
  by (simp add: booking_from_key_def booking_key_def key_simps rsplit_once_us_join uuid_key_plain)

lemma assignment_key_roundtrip:
  assumes "uuid_key (fpa_plan a)" "uuid_key (fpa_student a)" "\<And>s. uuid_key s \<Longrightarrow> parse_uuid s = s"
  shows "assignment_from_key parse_uuid (assignment_key a) = a"
  using assms
  by (simp add: assignment_from_key_def assignment_key_def key_simps split_once_us_join uuid_key_plain)


section \<open>The grammar of fee ledger ids\<close>

text \<open>
  Every fee ledger id is a base (a fresh uuid, or an installment of an assignment)
  followed by suffixes: \<open>_r\<close> for a reversal, \<open>_k_<key>\<close> and \<open>_kr_<key>\<close> for a keyed payment
  and refund.  A keyed refund of a keyed payment carries two suffixes and its reversal three,
  so the list is not bounded by one.
\<close>

datatype key_base = FreshKey ustr | InstallmentKey fee_plan_assignment_id nat
datatype key_suffix = ReversalSuffix | RequestSuffix ustr ustr

fun base_segs :: "key_base \<Rightarrow> ustr list" where
  "base_segs (FreshKey k) = [k]"
| "base_segs (InstallmentKey a n) = [fpa_plan a, fpa_student a, 99 # show_nat n]"

fun suffix_segs :: "key_suffix \<Rightarrow> ustr list" where
  "suffix_segs ReversalSuffix = [u ''r'']"
| "suffix_segs (RequestSuffix marker key) = [marker, key]"

definition line_id :: "key_base \<Rightarrow> key_suffix list \<Rightarrow> ustr" where
  "line_id b sfx = join_us (base_segs b @ concat (map suffix_segs sfx))"

fun wf_base :: "key_base \<Rightarrow> bool" where
  "wf_base (FreshKey k) = uuid_key k"
| "wf_base (InstallmentKey a n) = (uuid_key (fpa_plan a) \<and> uuid_key (fpa_student a))"

fun wf_suffix :: "key_suffix \<Rightarrow> bool" where
  "wf_suffix ReversalSuffix = True"
| "wf_suffix (RequestSuffix marker key) =
     (marker \<in> {u ''k'', u ''kr''} \<and> validate_request_key key = Inr ())"

definition line_key :: "ustr \<Rightarrow> bool" where
  "line_key s \<longleftrightarrow> (\<exists>b sfx. wf_base b \<and> list_all wf_suffix sfx \<and> s = line_id b sfx)"

lemma base_segs_plain: "wf_base b \<Longrightarrow> list_all plain (base_segs b)"
  by (cases b) (auto simp: uuid_key_plain)

lemma suffix_segs_plain: "wf_suffix x \<Longrightarrow> list_all plain (suffix_segs x)"
  by (cases x) (auto simp: key_simps dest: validate_request_key_plain)

lemma suffixes_plain: "list_all wf_suffix sfx \<Longrightarrow> list_all plain (concat (map suffix_segs sfx))"
  by (induction sfx) (auto simp: suffix_segs_plain)

lemma suffix_segs_nonempty [simp]: "suffix_segs x \<noteq> []"
  by (cases x) simp_all

lemma suffixes_inject:
  assumes "list_all wf_suffix xs" "list_all wf_suffix ys"
    and "concat (map suffix_segs xs) = concat (map suffix_segs ys)"
  shows "xs = ys"
  using assms
proof (induction xs arbitrary: ys)
  case Nil
  then show ?case by (cases ys) auto
next
  case (Cons x xs)
  from Cons.prems(3) obtain y ys' where ys: "ys = y # ys'" by (cases ys) simp_all
  have "x = y \<and> concat (map suffix_segs xs) = concat (map suffix_segs ys')"
    using Cons.prems by (cases x; cases y) (auto simp: ys)
  with Cons.IH [of ys'] Cons.prems(1,2) ys show ?case by simp
qed

text \<open>No suffix segment that follows a base is as long as a uuid.\<close>

lemma suffixes_head_short:
  assumes "list_all wf_suffix sfx" "concat (map suffix_segs sfx) = s # ss"
  shows "\<not> uuid_key s"
proof (cases sfx)
  case (Cons x xs)
  with assms show ?thesis by (cases x) (auto simp: key_simps uuid_key_def)
qed (use assms in simp)

lemma line_segs_inject:
  assumes wf: "wf_base b" "wf_base c" "list_all wf_suffix xs" "list_all wf_suffix ys"
    and eq: "base_segs b @ concat (map suffix_segs xs) = base_segs c @ concat (map suffix_segs ys)"
  shows "b = c \<and> xs = ys"
proof -
  have "b = c \<and> concat (map suffix_segs xs) = concat (map suffix_segs ys)"
  proof (cases b; cases c)
    fix k a n assume bc: "b = FreshKey k" "c = InstallmentKey a n"
    from eq have "concat (map suffix_segs xs)
        = fpa_student a # (99 # show_nat n) # concat (map suffix_segs ys)"
      unfolding bc by simp
    from suffixes_head_short [OF wf(3) this] wf(2) show ?thesis by (simp add: bc)
  next
    fix a n k assume bc: "b = InstallmentKey a n" "c = FreshKey k"
    from eq have "concat (map suffix_segs ys)
        = fpa_student a # (99 # show_nat n) # concat (map suffix_segs xs)"
      unfolding bc by simp
    from suffixes_head_short [OF wf(4) this] wf(1) show ?thesis by (simp add: bc)
  qed (use eq in \<open>auto dest: show_nat_inj\<close>)
  with suffixes_inject [OF wf(3,4)] show ?thesis by blast
qed

lemma line_segs_plain:
  "wf_base b \<Longrightarrow> list_all wf_suffix sfx \<Longrightarrow>
   list_all plain (base_segs b @ concat (map suffix_segs sfx))"
  by (simp add: base_segs_plain suffixes_plain)

lemma base_segs_nonempty [simp]: "base_segs b \<noteq> []"
  by (cases b) simp_all

lemma line_id_inject:
  assumes "wf_base b" "wf_base c" "list_all wf_suffix xs" "list_all wf_suffix ys"
  shows "line_id b xs = line_id c ys \<longleftrightarrow> b = c \<and> xs = ys"
proof
  assume "line_id b xs = line_id c ys"
  then have "base_segs b @ concat (map suffix_segs xs) = base_segs c @ concat (map suffix_segs ys)"
    unfolding line_id_def using assms by (intro join_us_inj) (auto simp: base_segs_plain suffixes_plain)
  with assms show "b = c \<and> xs = ys" by (intro line_segs_inject)
qed simp

lemma join_us_append: "xs \<noteq> [] \<Longrightarrow> ys \<noteq> [] \<Longrightarrow> join_us (xs @ ys) = join_us xs @ 95 # join_us ys"
proof (induction xs rule: join_us.induct)
  case (2 s)
  then show ?case by (cases ys) auto
qed auto

lemma line_id_snoc:
  "line_id b (sfx @ [x]) = line_id b sfx @ 95 # join_us (suffix_segs x)"
  unfolding line_id_def
  by (simp add: join_us_append append_assoc [symmetric] del: append_assoc)

lemma for_installment_line_id: "for_installment a n = line_id (InstallmentKey a n) []"
  by (simp add: for_installment_def assignment_key_def line_id_def key_simps)

lemma for_reversal_line_id: "for_reversal (line_id b sfx) = line_id b (sfx @ [ReversalSuffix])"
  by (simp add: for_reversal_def line_id_snoc key_simps)

lemma for_request_line_id:
  "for_request (line_id b sfx) m k = line_id b (sfx @ [RequestSuffix m k])"
  by (simp add: for_request_def line_id_snoc key_simps)

lemma line_key_fresh: "uuid_key k \<Longrightarrow> line_key k"
  unfolding line_key_def by (rule exI [of _ "FreshKey k"], rule exI [of _ "[]"]) (simp add: line_id_def)

lemma line_key_installment:
  "uuid_key (fpa_plan a) \<Longrightarrow> uuid_key (fpa_student a) \<Longrightarrow> line_key (for_installment a n)"
  unfolding line_key_def for_installment_line_id
  by (rule exI [of _ "InstallmentKey a n"], rule exI [of _ "[]"]) simp

lemma line_key_reversal: "line_key s \<Longrightarrow> line_key (for_reversal s)"
  unfolding line_key_def
  by (auto simp: for_reversal_line_id intro!: exI [of _ "_ @ [ReversalSuffix]"])

lemma line_key_request:
  assumes "line_key s" "m \<in> {u ''k'', u ''kr''}" "validate_request_key k = Inr ()"
  shows "line_key (for_request s m k)"
  using assms unfolding line_key_def
  by (auto simp: for_request_line_id intro!: exI [of _ "_ @ [RequestSuffix _ k]"])

text \<open>Ids that belong to no installment: every id but a charge's.\<close>

definition installment_key :: "ustr \<Rightarrow> bool" where
  "installment_key s \<longleftrightarrow>
     (\<exists>a n. uuid_key (fpa_plan a) \<and> uuid_key (fpa_student a) \<and> s = for_installment a n)"

lemma line_id_installment_key:
  assumes "wf_base b" "list_all wf_suffix sfx" "installment_key (line_id b sfx)"
  shows "sfx = []"
proof -
  obtain a n where "uuid_key (fpa_plan a)" "uuid_key (fpa_student a)"
    "line_id b sfx = line_id (InstallmentKey a n) []"
    using assms(3) by (auto simp: installment_key_def for_installment_line_id)
  then show ?thesis
    using line_id_inject [OF assms(1) _ assms(2), of "InstallmentKey a n" "[]"] by simp
qed

lemma fresh_not_installment: "uuid_key k \<Longrightarrow> \<not> installment_key k"
  using uuid_key_plain [of k]
  by (auto simp: installment_key_def for_installment_def key_simps plain_def)

lemma reversal_not_installment: "line_key s \<Longrightarrow> \<not> installment_key (for_reversal s)"
  using line_id_installment_key [of _ "_ @ [ReversalSuffix]"]
  by (auto simp: line_key_def for_reversal_line_id)

lemma request_not_installment:
  assumes "line_key s" "m \<in> {u ''k'', u ''kr''}" "validate_request_key k = Inr ()"
  shows "\<not> installment_key (for_request s m k)"
  using assms line_id_installment_key [of _ "_ @ [RequestSuffix m k]"]
  by (auto simp: line_key_def for_request_line_id)

lemma for_installment_inject:
  assumes "uuid_key (fpa_plan a)" "uuid_key (fpa_student a)" "uuid_key (fpa_plan b)" "uuid_key (fpa_student b)"
  shows "for_installment a m = for_installment b n \<longleftrightarrow> a = b \<and> m = n"
  using line_id_inject [of "InstallmentKey a m" "InstallmentKey b n" "[]" "[]"] assms
  by (simp add: for_installment_line_id)

lemma assignment_key_inject:
  assumes "uuid_key (fpa_plan a)" "uuid_key (fpa_plan b)"
  shows "assignment_key a = assignment_key b \<longleftrightarrow> a = b"
  using plain_append_us_inj [of "fpa_plan a" "fpa_plan b"] assms uuid_key_plain
  by (auto simp: assignment_key_def key_simps)

lemma assignment_not_line_key:
  assumes "uuid_key (fpa_plan a)" "uuid_key (fpa_student a)"
  shows "\<not> line_key (assignment_key a)"
proof
  assume "line_key (assignment_key a)"
  then obtain b sfx where wf: "wf_base b" "list_all wf_suffix sfx"
    and "assignment_key a = line_id b sfx" by (auto simp: line_key_def)
  then have "join_us [fpa_plan a, fpa_student a] =
      join_us (base_segs b @ concat (map suffix_segs sfx))"
    by (simp add: assignment_key_def line_id_def key_simps)
  then have eq: "[fpa_plan a, fpa_student a] = base_segs b @ concat (map suffix_segs sfx)"
    using assms wf by (intro join_us_inj) (auto simp: base_segs_plain suffixes_plain uuid_key_plain)
  show False
  proof (cases b)
    case (FreshKey k)
    with eq have "concat (map suffix_segs sfx) = [fpa_student a]" by simp
    from suffixes_head_short [OF wf(2) this] assms(2) show ?thesis by simp
  qed (use eq in simp)
qed

section \<open>Properties\<close>

text \<open>
  Fee ledger ids are unambiguous.  An id determines its base and every suffix: two lines with
  the same id are the same installment or fresh uuid with the same chain of reversals and request
  keys, and the three derivations of the code build exactly these ids.
\<close>

theorem fee_ids_unambiguous:
  assumes "wf_base b" "wf_base c" "list_all wf_suffix xs" "list_all wf_suffix ys"
  shows "(line_id b xs = line_id c ys \<longleftrightarrow> b = c \<and> xs = ys) \<and>
    for_installment a n = line_id (InstallmentKey a n) [] \<and>
    for_reversal (line_id b xs) = line_id b (xs @ [ReversalSuffix]) \<and>
    for_request (line_id b xs) m k = line_id b (xs @ [RequestSuffix m k])"
  by (simp add: line_id_inject [OF assms] for_installment_line_id for_reversal_line_id for_request_line_id)

theorem fee_ids_unambiguous_witness:
  "line_id (FreshKey (replicate 36 49)) [] \<noteq> line_id (FreshKey (replicate 36 49)) [ReversalSuffix]"
proof -
  have "wf_base (FreshKey (replicate 36 49))" by code_simp
  from fee_ids_unambiguous [OF this this, of "[]" "[ReversalSuffix]"] show ?thesis by simp
qed

text \<open>
  Meal ledger ids never collide.  Two booking lines share an id only if they are the same
  kind of line for the same attempt of the same booking; two keyed credits only if they carry the
  same key for the same student; and a booking line, a keyed credit and a fresh uuid are never
  the same id.
\<close>

theorem meal_ids_never_collide:
  assumes "uuid_key (mb_student a)" "uuid_key (mb_student b)" "uuid_key s" "uuid_key t"
    and "validate_request_key j = Inr ()" "validate_request_key k = Inr ()"
  shows "(for_attempt a m x = for_attempt b n y \<longleftrightarrow> a = b \<and> m = n \<and> x = y) \<and>
    (credit_for_request s j = credit_for_request t k \<longleftrightarrow> s = t \<and> j = k) \<and>
    for_attempt a m x \<noteq> credit_for_request s j \<and>
    \<not> uuid_key (for_attempt a m x) \<and> \<not> uuid_key (credit_for_request s j)"
proof -
  have "\<not> plain (credit_for_request s j)"
    by (simp add: credit_for_request_def key_simps plain_def)
  then have "\<not> uuid_key (credit_for_request s j)" using uuid_key_plain by blast
  with assms show ?thesis
    by (simp add: for_attempt_inject credit_for_request_inject for_attempt_neq_credit for_attempt_not_uuid)
qed

theorem meal_ids_never_collide_witness:
  "for_attempt \<lparr>mb_menu = u ''2026-03-02_lunch'', mb_student = replicate 36 97\<rparr> 1 MCharge
     \<noteq> credit_for_request (replicate 36 97) (u ''c1'')"
proof -
  have "uuid_key (mb_student \<lparr>mb_menu = u ''2026-03-02_lunch'', mb_student = replicate 36 97\<rparr>)"
    "uuid_key (replicate 36 97)" "validate_request_key (u ''c1'') = Inr ()" by code_simp+
  from meal_ids_never_collide [OF this(1,1,2,2,3,3)] show ?thesis by blast
qed

end
