(* ===== verification/Ledger_Interface.thy ===== *)
theory Ledger_Interface
  imports Errors "HOL-Library.Multiset"
begin

text \<open>
  What the two money ledgers (fees and meals) promise their callers, as locales.

  \<open>append_only\<close> is the contract of a table with a point read and one writer,
  \<open>INSERT ... ON CONFLICT (id) DO NOTHING\<close> with a read-back: an id once stored is stored
  for ever, a replayed append changes nothing, and the answer is the stored line.
  \<open>signed_fold\<close> is the contract of the derived balance: per-kind totals taken by the
  database fold to the same number as the raw lines.
\<close>

section \<open>Append-only tables\<close>

locale append_only =
  fixes read :: "'d \<Rightarrow> 'k \<Rightarrow> 'r option"
    and append :: "'d \<Rightarrow> 'r \<Rightarrow> 'd \<times> 'r aresult"
    and row_id :: "'r \<Rightarrow> 'k"
    and compatible :: "'r \<Rightarrow> 'r \<Rightarrow> bool"
  assumes read_after_append:
      "read (fst (append d r)) k =
         (if k = row_id r then (case read d k of None \<Rightarrow> Some r | Some s \<Rightarrow> Some s)
          else read d k)"
    and append_fresh: "read d (row_id r) = None \<Longrightarrow> snd (append d r) = Inr r"
    and append_stored: "read d (row_id r) = Some s \<Longrightarrow> fst (append d r) = d"
    and append_replay:
      "read d (row_id r) = Some s \<Longrightarrow> compatible s r \<Longrightarrow> snd (append d r) = Inr s"
    and append_clash:
      "read d (row_id r) = Some s \<Longrightarrow> \<not> compatible s r \<Longrightarrow> \<exists>m. snd (append d r) = Inl (Internal m)"
    and compatible_refl: "compatible r r"
begin

lemma permanent: "read d k = Some s \<Longrightarrow> read (fst (append d r)) k = Some s"
  by (auto simp: read_after_append)

lemma read_back: "read d (row_id r) = None \<Longrightarrow> read (fst (append d r)) (row_id r) = Some r"
  by (simp add: read_after_append)

lemma replay_unchanged: "fst (append (fst (append d r)) r) = fst (append d r)"
proof (cases "read d (row_id r)")
  case None
  then have "read (fst (append d r)) (row_id r) = Some r" by (rule read_back)
  then show ?thesis by (rule append_stored)
next
  case (Some s)
  then show ?thesis by (simp add: append_stored)
qed

lemma replay_same_answer:
  assumes "snd (append d r) = Inr s"
  shows "snd (append (fst (append d r)) r) = Inr s"
proof (cases "read d (row_id r)")
  case None
  then have "s = r" using assms append_fresh by fastforce
  then show ?thesis using None read_back append_replay compatible_refl by metis
next
  case (Some t)
  then show ?thesis using assms by (simp add: append_stored)
qed

text \<open>Appending a batch of lines, as the workflows do line by line.\<close>

fun append_all :: "'d \<Rightarrow> 'r list \<Rightarrow> 'd" where
  "append_all d [] = d"
| "append_all d (r # rs) = append_all (fst (append d r)) rs"

lemma append_all_permanent: "read d k = Some s \<Longrightarrow> read (append_all d rs) k = Some s"
  by (induction rs arbitrary: d) (auto intro: permanent)

lemma append_all_reads:
  "read (append_all d rs) k =
     (case read d k of Some s \<Rightarrow> Some s | None \<Rightarrow> find (\<lambda>r. row_id r = k) rs)"
proof (induction rs arbitrary: d)
  case Nil
  then show ?case by (simp split: option.split)
next
  case (Cons r rs)
  then show ?case by (auto simp: read_after_append split: option.splits)
qed

lemma append_all_stored: "\<forall>r \<in> set rs. read d (row_id r) \<noteq> None \<Longrightarrow> append_all d rs = d"
  by (induction rs) (auto simp: append_stored)

lemma append_all_replay: "append_all (append_all d rs) rs = append_all d rs"
proof (rule append_all_stored, rule ballI)
  fix r assume "r \<in> set rs"
  then have "find (\<lambda>x. row_id x = row_id r) rs \<noteq> None" by (auto simp only: find_None_iff)
  then show "read (append_all d rs) (row_id r) \<noteq> None"
    by (simp only: append_all_reads split: option.split) simp
qed

end


section \<open>Signed folds\<close>

definition signed_sum :: "('k \<Rightarrow> int) \<Rightarrow> ('k \<times> int) list \<Rightarrow> int" where
  "signed_sum sign lines = foldl (\<lambda>sum (kind, amount). sum + sign kind * amount) 0 lines"

text \<open>\<open>SELECT kind, sum(amount) ... GROUP BY kind\<close>: one row per kind that occurs.\<close>

definition group_totals :: "'k list \<Rightarrow> ('k \<times> int) list \<Rightarrow> ('k \<times> int) list" where
  "group_totals kinds lines =
     map (\<lambda>k. (k, sum_list (map snd (filter (\<lambda>l. fst l = k) lines))))
       (filter (\<lambda>k. k \<in> fst ` set lines) kinds)"

lemma foldl_signed:
  "foldl (\<lambda>sum (kind, amount). sum + sign kind * amount) a lines =
     a + sum_list (map (\<lambda>(k, x). sign k * (x::int)) lines)"
  by (induction lines arbitrary: a) auto

lemma signed_sum_list: "signed_sum sign lines = sum_list (map (\<lambda>(k, x). sign k * x) lines)"
  by (simp add: signed_sum_def foldl_signed)

lemma signed_sum_Nil [simp]: "signed_sum sign [] = 0"
  and signed_sum_Cons [simp]:
    "signed_sum sign ((k, x) # ls) = sign k * x + signed_sum sign ls"
  and signed_sum_append [simp]:
    "signed_sum sign (ls @ ms) = signed_sum sign ls + signed_sum sign ms"
  by (simp_all add: signed_sum_list)

locale signed_fold =
  fixes sign :: "'k \<Rightarrow> int" and kinds :: "'k list"
  assumes kinds_distinct: "distinct kinds"
    and kinds_complete: "set kinds = UNIV"
    and sign_unit: "sign k = 1 \<or> sign k = -1"
begin

lemma kind_sum:
  "sum_list (map (\<lambda>(k, x). sign k * x) lines) =
     (\<Sum>k\<in>UNIV. sign k * sum_list (map snd (filter (\<lambda>l. fst l = k) lines)))"
proof (induction lines)
  case Nil
  then show ?case by simp
next
  case (Cons l lines)
  obtain k x where l: "l = (k, x)" by fastforce
  have fin: "finite (UNIV :: 'k set)" using kinds_complete by (metis List.finite_set)
  have "(\<Sum>j\<in>UNIV. sign j * sum_list (map snd (filter (\<lambda>l. fst l = j) ((k, x) # lines)))) =
        (\<Sum>j\<in>UNIV. (if j = k then sign k * x else 0)
           + sign j * sum_list (map snd (filter (\<lambda>l. fst l = j) lines)))"
    by (rule sum.cong) (auto simp: algebra_simps)
  also have "\<dots> = sign k * x
      + (\<Sum>j\<in>UNIV. sign j * sum_list (map snd (filter (\<lambda>l. fst l = j) lines)))"
    using fin by (simp add: sum.distrib)
  finally show ?case using Cons l by simp
qed

lemma grouped_equals_lines:
  "signed_sum sign (group_totals kinds lines) = signed_sum sign lines"
proof -
  let ?t = "\<lambda>k. sign k * sum_list (map snd (filter (\<lambda>l. fst l = k) lines))"
  let ?ks = "filter (\<lambda>k. k \<in> fst ` set lines) kinds"
  have zero: "?t k = 0" if "k \<notin> fst ` set lines" for k
  proof -
    have "filter (\<lambda>l. fst l = k) lines = []" using that by (auto simp: filter_empty_conv)
    then show ?thesis by simp
  qed
  have "signed_sum sign (group_totals kinds lines) = sum_list (map ?t ?ks)"
    by (simp add: signed_sum_list group_totals_def comp_def)
  also have "\<dots> = sum ?t (set ?ks)"
    using kinds_distinct by (simp add: sum_list_distinct_conv_sum_set)
  also have "\<dots> = sum ?t UNIV"
    using kinds_complete zero
    by (intro sum.mono_neutral_left) (auto simp: kinds_complete [symmetric])
  finally show ?thesis by (simp add: kind_sum signed_sum_list)
qed

end

end
