(* ===== verification/Database_Tx.thy ===== *)
theory Database_Tx
  imports Errors
begin

text \<open>
  The transaction runner every guarded write goes through (\<open>src/src/database.rs\<close>): how a
  refusal of the server is classified, and the loop that re-runs a contended transaction.

  The database is an abstract state.  What Postgres does is the environment of the loop:
  whether \<open>BEGIN\<close> and \<open>COMMIT\<close> of a round fail, and what other writers committed before the
  round starts (\<open>world\<close>).  The closure is a function from the state it sees to the state it
  leaves and its answer; a round that does not commit leaves nothing behind.
\<close>

section \<open>Classifying a refusal\<close>

definition CAP_WRITE_TRIES :: nat where "CAP_WRITE_TRIES = 8"

fun sqlstate :: "sqlx_error \<Rightarrow> string option" where
  "sqlstate (DatabaseError code c) = code"
| "sqlstate _ = None"

fun constraint_name :: "sqlx_error \<Rightarrow> string option" where
  "constraint_name (DatabaseError code c) = c"
| "constraint_name _ = None"

definition unique_violation :: "sqlx_error \<Rightarrow> string option" where
  "unique_violation err = (if sqlstate err = Some ''23505'' then constraint_name err else None)"

definition exclusion_violation :: "sqlx_error \<Rightarrow> string option" where
  "exclusion_violation err = (if sqlstate err = Some ''23P01'' then constraint_name err else None)"

definition check_violation :: "sqlx_error \<Rightarrow> string option" where
  "check_violation err = (if sqlstate err = Some ''23514'' then constraint_name err else None)"

definition foreign_key_violation :: "sqlx_error \<Rightarrow> bool" where
  "foreign_key_violation err \<longleftrightarrow> sqlstate err = Some ''23503''"

definition is_retryable_tx :: "sqlx_error \<Rightarrow> bool" where
  "is_retryable_tx err \<longleftrightarrow> sqlstate err = Some ''40001'' \<or> sqlstate err = Some ''40P01''"

definition is_retryable_cascade :: "sqlx_error \<Rightarrow> bool" where
  "is_retryable_cascade err \<longleftrightarrow> is_retryable_tx err \<or> foreign_key_violation err"

definition is_retryable :: "sqlx_error \<Rightarrow> bool \<Rightarrow> bool" where
  "is_retryable err cascade = (if cascade then is_retryable_cascade err else is_retryable_tx err)"


section \<open>The retry loop\<close>

record 'd tx_env =
  tx_begin :: "nat \<Rightarrow> sqlx_error option"
  tx_commit :: "nat \<Rightarrow> sqlx_error option"
  world :: "nat \<Rightarrow> 'd \<Rightarrow> 'd"

text \<open>\<open>rounds\<close> rounds are left, \<open>attempt\<close> is the loop variable, \<open>lst\<close> the last lost round's error.\<close>

fun tx_rounds ::
  "nat \<Rightarrow> nat \<Rightarrow> 'd tx_env \<Rightarrow> bool \<Rightarrow> ('d \<Rightarrow> 'd \<times> 'a aresult) \<Rightarrow> sqlx_error option \<Rightarrow> 'd
     \<Rightarrow> 'd \<times> 'a aresult" where
  "tx_rounds 0 attempt env cascade f lst d =
     (d, Inl (case lst of Some err \<Rightarrow> Db err
              | None \<Rightarrow> Internal (u ''a guarded transaction never ran'')))"
| "tx_rounds (Suc rounds) attempt env cascade f lst d =
     (let d = world env attempt d in
      case tx_begin env attempt of
        Some err \<Rightarrow> (d, Inl (from_sqlx err))
      | None \<Rightarrow>
          (case f d of
             (d', Inr v) \<Rightarrow>
               (case tx_commit env attempt of
                  None \<Rightarrow> (d', Inr v)
                | Some err \<Rightarrow>
                    if is_retryable err cascade
                    then tx_rounds rounds (Suc attempt) env cascade f (Some err) d
                    else (d, Inl (from_sqlx err)))
           | (d', Inl (Db err)) \<Rightarrow>
               if is_retryable err cascade
               then tx_rounds rounds (Suc attempt) env cascade f (Some err) d
               else (d, Inl (Db err))
           | (d', Inl err) \<Rightarrow> (d, Inl err)))"

definition tx_with_retry ::
  "'d tx_env \<Rightarrow> bool \<Rightarrow> ('d \<Rightarrow> 'd \<times> 'a aresult) \<Rightarrow> 'd \<Rightarrow> 'd \<times> 'a aresult" where
  "tx_with_retry env cascade f d = tx_rounds CAP_WRITE_TRIES 0 env cascade f None d"

text \<open>
  One uncontended round: an answer commits, a refusal rolls back.  The component theories
  use this form; \<open>tx_with_retry_quiet\<close> says when the loop is it.
\<close>

definition run_tx :: "('d \<Rightarrow> 'd \<times> 'a aresult) \<Rightarrow> 'd \<Rightarrow> 'd \<times> 'a aresult" where
  "run_tx f d = (case f d of (d', Inr v) \<Rightarrow> (d', Inr v) | (d', Inl e) \<Rightarrow> (d, Inl e))"

text \<open>What a claim-and-create transaction settles, and the cap of an uncapped one (\<open>db/cap.rs\<close>).\<close>

datatype 'a claimed = Made 'a | Full | Duplicate

definition UNLIMITED :: int where "UNLIMITED = I64_MAX"

definition quiet :: "'d tx_env" where
  "quiet = \<lparr>tx_begin = (\<lambda>_. None), tx_commit = (\<lambda>_. None), world = (\<lambda>_ d. d)\<rparr>"


section \<open>Facts\<close>

lemma run_tx_Inl: "snd (run_tx f d) = Inl e \<Longrightarrow> fst (run_tx f d) = d"
  by (auto simp: run_tx_def split: prod.splits sum.splits)

lemma run_tx_Inr: "run_tx f d = (d', Inr v) \<longleftrightarrow> f d = (d', Inr v)"
  by (auto simp: run_tx_def split: prod.splits sum.splits)

text \<open>The state other writers alone produce when they move before each of \<open>n\<close> rounds.\<close>

fun world_after :: "'d tx_env \<Rightarrow> nat \<Rightarrow> nat \<Rightarrow> 'd \<Rightarrow> 'd" where
  "world_after env attempt 0 d = d"
| "world_after env attempt (Suc n) d = world_after env (Suc attempt) n (world env attempt d)"

lemma tx_rounds_outcome:
  assumes "tx_rounds rounds attempt env cascade f lst d = (d', r)"
  shows "case r of
      Inr v \<Rightarrow> \<exists>k < rounds. f (world_after env attempt (Suc k) d) = (d', Inr v)
    | Inl e \<Rightarrow> \<exists>k \<le> rounds. d' = world_after env attempt k d"
  using assms
proof (induction rounds arbitrary: attempt lst d)
  case 0
  then show ?case by auto
next
  case (Suc rounds)
  let ?d = "world env attempt d"
  have stop: ?case if "(d', r) = (?d, Inl e)" for e
    using that by (auto intro!: exI [of _ 1])
  have again: ?case if "tx_rounds rounds (Suc attempt) env cascade f (Some err) ?d = (d', r)" for err
  proof (cases r)
    case (Inr v)
    with Suc.IH [OF that] obtain k where "k < rounds"
      "f (world_after env (Suc attempt) (Suc k) ?d) = (d', Inr v)" by auto
    with Inr show ?thesis by (auto intro!: exI [of _ "Suc k"])
  next
    case (Inl e)
    with Suc.IH [OF that] obtain k where "k \<le> rounds" "d' = world_after env (Suc attempt) k ?d"
      by auto
    with Inl show ?thesis by (auto intro!: exI [of _ "Suc k"])
  qed
  obtain e x where f: "f ?d = (e, x)" by fastforce
  show ?case
  proof (cases "tx_begin env attempt")
    case (Some err)
    with Suc.prems stop show ?thesis by (auto simp: Let_def)
  next
    case None
    show ?thesis
    proof (cases x)
      case (Inr v)
      with None f Suc.prems stop again show ?thesis
        by (auto simp: Let_def intro!: exI [of _ 0] split: option.splits if_splits)
    next
      case (Inl err)
      with None f Suc.prems stop again show ?thesis
        by (cases err) (auto simp: Let_def split: if_splits)
    qed
  qed
qed

lemma tx_with_retry_quiet:
  assumes "\<And>e. snd (f d) = Inl (Db e) \<Longrightarrow> \<not> is_retryable e cascade"
  shows "tx_with_retry quiet cascade f d = run_tx f d"
proof -
  obtain d' r where "f d = (d', r)" by fastforce
  then show ?thesis
    using assms
    by (cases r rule: sum.exhaust)
      (auto simp: tx_with_retry_def CAP_WRITE_TRIES_def eval_nat_numeral quiet_def run_tx_def Let_def
        split: app_error.splits)
qed

section \<open>Properties\<close>

text \<open>
  A guarded transaction is all or nothing.  Whatever the database answers in each round, an
  answer of the runner is the answer of one round of the closure, at most eight rounds were run,
  and the state left is exactly the one that round produced; a refusal leaves nothing of the
  closure behind, only what other writers committed.
\<close>

theorem tx_all_or_nothing:
  "case tx_with_retry env cascade f d of
     (d', Inr v) \<Rightarrow> \<exists>k < 8. f (world_after env 0 (Suc k) d) = (d', Inr v)
   | (d', Inl e) \<Rightarrow> \<exists>k \<le> 8. d' = world_after env 0 k d"
  using tx_rounds_outcome [of CAP_WRITE_TRIES 0 env cascade f None d]
  unfolding tx_with_retry_def CAP_WRITE_TRIES_def
  by (auto split: prod.split sum.split)

text \<open>
  A refusal outranks the retry loop.  In a database without contention, an error of the
  closure that is not a recognised contention code comes straight back from the first round, and
  the write is rolled back.
\<close>

theorem tx_refusal_is_final:
  assumes "f d = (d', Inl err)" "\<And>e. err = Db e \<Longrightarrow> \<not> is_retryable e cascade"
  shows "tx_with_retry quiet cascade f d = (d, Inl err)"
  using tx_with_retry_quiet [of f d cascade] assms by (simp add: run_tx_def)

theorem tx_refusal_is_final_witness:
  "tx_with_retry quiet False (\<lambda>n. (Suc n, Inl (Db (DatabaseError (Some ''23505'') None)) :: unit aresult)) 3
     = (3, Inl (Db (DatabaseError (Some ''23505'') None)))"
  by (rule tx_refusal_is_final) (auto simp: is_retryable_def is_retryable_tx_def)

end
