(* ===== verification/Money.thy ===== *)
theory Money
  imports Validate
begin

text \<open>
  The money vocabulary both ledgers speak (\<open>LedgerAmount\<close>, \<open>LedgerMethod\<close> and \<open>LedgerNote\<close>
  of \<open>src/src/domain/meal_ledger.rs\<close>).  An amount is an \<open>i64\<close> of minor units; the sign lives
  in a line's kind.
\<close>

definition MAX_LEDGER_AMOUNT_MINOR :: int where "MAX_LEDGER_AMOUNT_MINOR = 10000000"
definition MAX_LEDGER_METHOD_LEN :: nat where "MAX_LEDGER_METHOD_LEN = 50"
definition MAX_LEDGER_NOTE_LEN :: nat where "MAX_LEDGER_NOTE_LEN = 500"

definition ledger_amount_try_new :: "int \<Rightarrow> int vresult" where
  "ledger_amount_try_new value =
     (if \<not> (1 \<le> value \<and> value \<le> MAX_LEDGER_AMOUNT_MINOR)
      then Inl (Invalid ''amount_minor'' ''must be between 1 and 10000000 minor units'')
      else Inr value)"

definition ledger_method_try_new :: "ustr \<Rightarrow> ustr option vresult" where
  "ledger_method_try_new raw =
     (let value = trim raw in
      and_then (validate_optional ''method'' value MAX_LEDGER_METHOD_LEN) (\<lambda>_.
        Inr (if value = [] then None else Some value)))"

definition ledger_note_try_new :: "ustr \<Rightarrow> ustr option vresult" where
  "ledger_note_try_new raw =
     (let value = trim raw in
      and_then (validate_optional ''note'' value MAX_LEDGER_NOTE_LEN) (\<lambda>_.
        Inr (if value = [] then None else Some value)))"

definition is_ledger_amount :: "int \<Rightarrow> bool" where
  "is_ledger_amount a \<longleftrightarrow> 1 \<le> a \<and> a \<le> 10000000"

lemma ledger_amount_try_new_Inr:
  "ledger_amount_try_new v = Inr a \<longleftrightarrow> a = v \<and> is_ledger_amount v"
  by (auto simp: ledger_amount_try_new_def is_ledger_amount_def MAX_LEDGER_AMOUNT_MINOR_def)

lemma is_ledger_amount_pos: "is_ledger_amount a \<Longrightarrow> 0 < a"
  by (simp add: is_ledger_amount_def)

end
