(* ===== verification/Paging.thy ===== *)
theory Paging
  imports Errors "HOL-Library.List_Lexorder" "HOL-Library.Option_ord"
    "HOL-Library.Product_Lexorder" "HOL-Library.Multiset"
begin

text \<open>
  Shared pagination (\<open>src/src/web/page.rs\<close>): the validated \<open>limit\<close>/\<open>offset\<close> pair, the slice it
  takes, and the schedule window that filters and orders a list of scheduled rows.  Strings
  compare as the library's lexicographic order on lists, an absent end before every present
  one, as Rust's derived orders do.
\<close>

section \<open>Operations\<close>

definition MAX_PAGE_LIMIT :: int where "MAX_PAGE_LIMIT = 500"

record page_params =
  pp_limit :: "int option"
  pp_offset :: "int option"

definition page_resolve :: "page_params \<Rightarrow> (int option \<times> int) aresult" where
  "page_resolve self =
     (if (case pp_limit self of None \<Rightarrow> False | Some limit \<Rightarrow> \<not> (1 \<le> limit \<and> limit \<le> MAX_PAGE_LIMIT))
      then Inl (Validation (Invalid ''limit'' ''must be between 1 and 500''))
      else (let offset = (case pp_offset self of None \<Rightarrow> 0 | Some o' \<Rightarrow> o') in
            if offset < 0 then Inl (Validation (Invalid ''offset'' ''must not be negative''))
            else Inr (pp_limit self, offset)))"

definition paginate :: "'a list \<Rightarrow> int option \<Rightarrow> int \<Rightarrow> 'a list" where
  "paginate items limit offset =
     (let start = min (nat (max offset 0)) (length items);
          end' = (case limit of
                    Some limit \<Rightarrow> min (start + nat (max limit 0)) (length items)
                  | None \<Rightarrow> length items)
      in drop start (take end' items))"

record window_params =
  starts_after :: "int option"
  ends_after :: "int option"
  starts_before :: "int option"
  ends_before :: "int option"

fun validate_fields :: "(string \<times> int option) list \<Rightarrow> unit aresult" where
  "validate_fields [] = Inr ()"
| "validate_fields ((field, value) # rest) =
     (if (case value of None \<Rightarrow> False | Some v \<Rightarrow> v < 0)
      then Inl (Validation (Invalid field ''must not be negative''))
      else validate_fields rest)"

definition window_validate :: "window_params \<Rightarrow> unit aresult" where
  "window_validate self =
     validate_fields [(''starts_after'', starts_after self), (''ends_after'', ends_after self),
       (''starts_before'', starts_before self), (''ends_before'', ends_before self)]"

text \<open>\<open>Option::is_none_or\<close> and \<open>Option::or\<close>.\<close>

definition is_none_or :: "'a option \<Rightarrow> ('a \<Rightarrow> bool) \<Rightarrow> bool" where
  "is_none_or o' p = (case o' of None \<Rightarrow> True | Some x \<Rightarrow> p x)"

definition option_or :: "'a option \<Rightarrow> 'a option \<Rightarrow> 'a option" where
  "option_or a b = (case a of None \<Rightarrow> b | Some x \<Rightarrow> Some x)"

definition window_keeps :: "window_params \<Rightarrow> int option \<Rightarrow> int option \<Rightarrow> bool" where
  "window_keeps self starts ends \<longleftrightarrow>
     is_none_or (starts_after self) (\<lambda>after. starts > Some after) \<and>
     is_none_or (starts_before self)
       (\<lambda>before. case starts of None \<Rightarrow> False | Some start \<Rightarrow> start < before) \<and>
     is_none_or (ends_after self) (\<lambda>after. option_or ends starts > Some after) \<and>
     is_none_or (ends_before self)
       (\<lambda>before. case option_or ends starts of None \<Rightarrow> False | Some e \<Rightarrow> e < before)"

definition window_apply ::
  "('t \<Rightarrow> int option) \<Rightarrow> ('t \<Rightarrow> int option) \<Rightarrow> ('t \<Rightarrow> ustr) \<Rightarrow> window_params \<Rightarrow> 't list
     \<Rightarrow> 't list aresult" where
  "window_apply starts_at_ms ends_at_ms order_key self items =
     and_then (window_validate self) (\<lambda>_.
       if starts_after self = None \<and> ends_after self = None \<and> starts_before self = None
            \<and> ends_before self = None
       then Inr items
       else Inr (sort_key (\<lambda>item. (option_or (starts_at_ms item) (ends_at_ms item), order_key item))
         (filter (\<lambda>item. window_keeps self (starts_at_ms item) (ends_at_ms item)) items)))"


section \<open>Facts\<close>

lemma page_resolve_Inr:
  "page_resolve p = Inr (limit, offset) \<longleftrightarrow>
     limit = pp_limit p \<and> offset = (case pp_offset p of None \<Rightarrow> 0 | Some o' \<Rightarrow> o') \<and> 0 \<le> offset \<and>
     (\<forall>l. limit = Some l \<longrightarrow> 1 \<le> l \<and> l \<le> 500)"
  by (auto simp: page_resolve_def Let_def MAX_PAGE_LIMIT_def split: option.splits)

lemma paginate_None: "0 \<le> offset \<Longrightarrow> paginate items None offset = drop (nat offset) items"
  by (cases "nat offset \<le> length items") (auto simp: paginate_def Let_def min_def)

lemma paginate_Some:
  "0 \<le> offset \<Longrightarrow> 0 \<le> limit \<Longrightarrow>
   paginate items (Some limit) offset = take (nat limit) (drop (nat offset) items)"
  by (cases "nat offset \<le> length items")
    (auto simp: paginate_def Let_def min_def take_drop add.commute)

text \<open>Walking the pages of size \<open>limit\<close> from the top gives the list, each row once, in order.\<close>

lemma paginate_pages:
  assumes "1 \<le> limit"
  shows "concat (map (\<lambda>k. paginate items (Some limit) (int k * limit)) [0..<n])
    = take (n * nat limit) items"
proof (induction n)
  case (Suc n)
  have "nat (int n * limit) = n * nat limit" using assms by (simp add: nat_mult_distrib)
  then have "paginate items (Some limit) (int n * limit) = take (nat limit) (drop (n * nat limit) items)"
    using assms by (simp add: paginate_Some)
  moreover have "take (Suc n * nat limit) items = take (n * nat limit) items
      @ take (nat limit) (drop (n * nat limit) items)"
    using take_add [of "n * nat limit" "nat limit" items] by (simp add: add.commute)
  ultimately show ?case using Suc by simp
qed simp

lemma window_keeps_dated:
  assumes "window_keeps w s e"
    and "starts_after w \<noteq> None \<or> ends_after w \<noteq> None \<or> starts_before w \<noteq> None \<or> ends_before w \<noteq> None"
  shows "option_or s e \<noteq> None"
  using assms
  by (cases s; cases e) (auto simp: window_keeps_def is_none_or_def option_or_def split: option.splits)

text \<open>
  A window with any bound drops every row without a schedule, keeps only rows of the list
  that satisfy it, and answers them in ascending order.
\<close>

lemma window_apply_spec:
  assumes "window_apply starts ends key w items = Inr out"
    and "starts_after w \<noteq> None \<or> ends_after w \<noteq> None \<or> starts_before w \<noteq> None \<or> ends_before w \<noteq> None"
  shows "mset out = mset (filter (\<lambda>i. window_keeps w (starts i) (ends i)) items)"
    and "sorted (map (\<lambda>i. option_or (starts i) (ends i)) out)"
    and "\<forall>i \<in> set out. option_or (starts i) (ends i) \<noteq> None"
proof -
  let ?k = "\<lambda>i. (option_or (starts i) (ends i), key i)"
  have out: "out = sort_key ?k (filter (\<lambda>i. window_keeps w (starts i) (ends i)) items)"
    using assms by (auto simp: window_apply_def)
  then show "mset out = mset (filter (\<lambda>i. window_keeps w (starts i) (ends i)) items)" by simp
  have "sorted (map ?k out)" by (simp add: out)
  then have "sorted (map fst (map ?k out))"
    by (induction out) (auto simp: less_eq_prod_def less_le)
  then show "sorted (map (\<lambda>i. option_or (starts i) (ends i)) out)" by (simp add: comp_def)
  show "\<forall>i \<in> set out. option_or (starts i) (ends i) \<noteq> None"
    using window_keeps_dated assms(2) by (auto simp: out)
qed

section \<open>Properties\<close>

text \<open>
  Paging covers the list.  For every accepted page size, the pages at offsets 0, limit, 2 limit
  and so on, taken until they cover the length, concatenate to the list itself: no row is skipped or
  repeated, and without a limit the page is the rest of the list from the offset.
\<close>

theorem pages_cover_list:
  assumes "page_resolve p = Inr (Some limit, offset)" "length items \<le> n * nat limit"
  shows "concat (map (\<lambda>k. paginate items (Some limit) (int k * limit)) [0..<n]) = items \<and>
    paginate items None offset = drop (nat offset) items"
proof -
  have "1 \<le> limit" "0 \<le> offset" using assms(1) by (auto simp: page_resolve_Inr)
  then show ?thesis using paginate_pages [of limit items n] assms(2) by (simp add: paginate_None)
qed

theorem pages_cover_list_witness:
  "concat (map (\<lambda>k. paginate [7, 8, 9 :: nat] (Some 2) (int k * 2)) [0..<2]) = [7, 8, 9]"
  using pages_cover_list [of "\<lparr>pp_limit = Some 2, pp_offset = None\<rparr>" 2 0 "[7, 8, 9 :: nat]" 2]
  by (simp add: page_resolve_def MAX_PAGE_LIMIT_def)

end
