(* ===== verification/Payment_Ledger.thy ===== *)
theory Payment_Ledger
  imports Ledger_Keys Ledger_Interface Database_Tx Money Paging
begin

text \<open>
  School fees: the append-only fee ledger (\<open>src/src/domain/payment_ledger.rs\<close>,
  \<open>src/src/db/payment_ledger.rs\<close>) and its workflows \<open>credit\<close>, \<open>refund\<close> and \<open>reversal\<close>
  (\<open>src/src/service/payment_ledger.rs\<close>).

  The table is the list of its rows in insertion order.  A workflow is given the line it
  targets, as the handler read it, together with what the code draws from outside: the
  fresh uuid and the clock.  Two statements of the code walk \<open>source\<close> pointers and would not
  return on a cyclic table: the lock walk and the recursive query.  Both have fuel and the
  workflows answer \<open>None\<close> when it runs out; on every well-formed table they return.
\<close>

section \<open>Lines\<close>

datatype payment_ledger_kind = Charge | Credit | Reversal | Refund

fun kind_as_str :: "payment_ledger_kind \<Rightarrow> ustr" where
  "kind_as_str Charge = u ''charge''"
| "kind_as_str Credit = u ''credit''"
| "kind_as_str Reversal = u ''reversal''"
| "kind_as_str Refund = u ''refund''"

fun kind_sign :: "payment_ledger_kind \<Rightarrow> int" where
  "kind_sign Charge = -1"
| "kind_sign Refund = -1"
| "kind_sign Credit = 1"
| "kind_sign Reversal = 1"

definition PAYMENT_LEDGER_KINDS :: "payment_ledger_kind list" where
  "PAYMENT_LEDGER_KINDS = [Charge, Credit, Reversal, Refund]"

record payment_ledger =
  pl_id :: ustr
  pl_student :: ustr
  pl_kind :: payment_ledger_kind
  pl_amount_minor :: int
  pl_source :: "ustr option"
  pl_due_at :: "int option"
  pl_method :: "ustr option"
  pl_note :: "ustr option"
  pl_recorded_by :: ustr
  pl_created_at :: int

type_synonym fee_table = "payment_ledger list"

definition fold_balance :: "(payment_ledger_kind \<times> int) list \<Rightarrow> int" where
  "fold_balance lines = signed_sum kind_sign lines"

definition folded :: "payment_ledger \<Rightarrow> payment_ledger_kind \<times> int" where
  "folded l = (pl_kind l, pl_amount_minor l)"

definition payment_request_key_try_new :: "ustr \<Rightarrow> ustr vresult" where
  "payment_request_key_try_new value =
     and_then (validate_request_key value) (\<lambda>_. Inr value)"


section \<open>The table\<close>

definition ledger_read :: "fee_table \<Rightarrow> ustr \<Rightarrow> payment_ledger option" where
  "ledger_read rows key = find_row pl_id rows key"

text \<open>
  The insert that keeps the stored row on a key conflict, the read-back of the row that is
  there then, and the check of its kind.
\<close>

definition ledger_append :: "fee_table \<Rightarrow> payment_ledger \<Rightarrow> fee_table \<times> payment_ledger aresult" where
  "ledger_append rows row =
     (let rows' = insert_row pl_id row rows in
      (rows',
       case find_row pl_id rows' (pl_id row) of
         Some line \<Rightarrow>
           if pl_kind line = pl_kind row then Inr line
           else Inl (Internal (u ''a ledger id resolved to a line of another kind''))
       | None \<Rightarrow> Inl (Internal (u ''failed to write the ledger line''))))"

definition charge_for_installment ::
  "fee_table \<Rightarrow> fee_plan_assignment_id \<Rightarrow> nat \<Rightarrow> int \<Rightarrow> int \<Rightarrow> ustr \<Rightarrow> int
     \<Rightarrow> fee_table \<times> payment_ledger aresult" where
  "charge_for_installment rows assignment n amount due_at recorded_by now =
     ledger_append rows
       \<lparr>pl_id = for_installment assignment n, pl_student = fpa_student assignment,
        pl_kind = Charge, pl_amount_minor = amount, pl_source = Some (assignment_key assignment),
        pl_due_at = Some due_at, pl_method = None, pl_note = None,
        pl_recorded_by = recorded_by, pl_created_at = now\<rparr>"

text \<open>One row of the \<open>GROUP BY kind\<close> result.\<close>

record kind_fold =
  kf_kind :: payment_ledger_kind
  kf_total :: int
  kf_lines :: nat

definition group_by_kind :: "payment_ledger list \<Rightarrow> kind_fold list" where
  "group_by_kind ls =
     map (\<lambda>k. \<lparr>kf_kind = k,
               kf_total = sum_list (map pl_amount_minor (filter (\<lambda>l. pl_kind l = k) ls)),
               kf_lines = length (filter (\<lambda>l. pl_kind l = k) ls)\<rparr>)
       (filter (\<lambda>k. k \<in> pl_kind ` set ls) PAYMENT_LEDGER_KINDS)"

definition balance_of :: "fee_table \<Rightarrow> ustr \<Rightarrow> int" where
  "balance_of rows student =
     fold_balance (map (\<lambda>f. (kf_kind f, kf_total f))
       (group_by_kind (filter (\<lambda>l. pl_student l = student) rows)))"

text \<open>The lock walk: the keys of the rows it locks, deepest first.\<close>

fun lock_for_cap :: "nat \<Rightarrow> fee_table \<Rightarrow> ustr option \<Rightarrow> ustr list option" where
  "lock_for_cap fuel rows None = Some []"
| "lock_for_cap 0 rows (Some key) = None"
| "lock_for_cap (Suc fuel) rows (Some key) =
     (case ledger_read rows key of
        None \<Rightarrow> Some []
      | Some row \<Rightarrow>
          map_option (Cons key)
            (lock_for_cap fuel rows (if pl_kind row \<noteq> Charge then pl_source row else None)))"

text \<open>
  The recursive query: the first level is the lines that name the target, every further
  level joins the table with the level before, and the levels are concatenated.
\<close>

definition children :: "fee_table \<Rightarrow> ustr \<Rightarrow> payment_ledger list" where
  "children rows key = filter (\<lambda>l. pl_source l = Some key) rows"

fun applied_levels :: "nat \<Rightarrow> fee_table \<Rightarrow> payment_ledger list \<Rightarrow> payment_ledger list option" where
  "applied_levels fuel rows [] = Some []"
| "applied_levels 0 rows (l # ls) = None"
| "applied_levels (Suc fuel) rows (l # ls) =
     map_option ((@) (l # ls))
       (applied_levels fuel rows (concat (map (\<lambda>a. children rows (pl_id a)) (l # ls))))"

definition applied_lines :: "fee_table \<Rightarrow> ustr \<Rightarrow> payment_ledger list option" where
  "applied_lines rows key = applied_levels (length rows + 4) rows (children rows key)"

definition MAX_LEDGER_APPLIED_LINES :: nat where "MAX_LEDGER_APPLIED_LINES = 20"

definition applied_to :: "fee_table \<Rightarrow> ustr \<Rightarrow> payment_ledger_kind \<Rightarrow> int aresult option" where
  "applied_to rows target_key target_kind =
     map_option (\<lambda>ls.
       (let folds = group_by_kind ls; lines = sum_list (map kf_lines folds) in
        if lines \<ge> MAX_LEDGER_APPLIED_LINES
        then Inl (Conflict (u ''this line already carries the most lines that may be applied to it; record the rest against another''))
        else Inr (fold_balance (map (\<lambda>f. (kf_kind f, kf_total f)) folds) * - kind_sign target_kind)))
     (applied_lines rows target_key)"


section \<open>The workflows\<close>

definition against_body ::
  "payment_ledger \<Rightarrow> payment_ledger_kind \<Rightarrow> string \<Rightarrow> string option \<Rightarrow> int \<Rightarrow> ustr option
     \<Rightarrow> ustr option \<Rightarrow> ustr option \<Rightarrow> ustr \<Rightarrow> ustr \<Rightarrow> int \<Rightarrow> fee_table
     \<Rightarrow> (fee_table \<times> payment_ledger aresult) option" where
  "against_body target kind over reversed amount mtd note keyed_id recorded_by fresh now rows =
     (case lock_for_cap (length rows + 4) rows (Some (pl_id target)) of
        None \<Rightarrow> None
      | Some _ \<Rightarrow>
          (case (case keyed_id of Some key \<Rightarrow> ledger_read rows key | None \<Rightarrow> None) of
             Some existing \<Rightarrow>
               Some (rows,
                 if pl_amount_minor existing \<noteq> amount \<or> pl_source existing \<noteq> Some (pl_id target)
                 then Inl (Conflict (u ''this request_key was already used for a different amount or target''))
                 else Inr existing)
           | None \<Rightarrow>
               map_option (\<lambda>res. case res of
                   Inl err \<Rightarrow> (rows, Inl err)
                 | Inr taken \<Rightarrow>
                     if saturating_add taken amount > pl_amount_minor target
                     then (rows, Inl (case reversed of
                             Some text \<Rightarrow>
                               if ledger_read rows (for_reversal (pl_id target)) \<noteq> None
                               then ConflictOwned (u text) else ConflictOwned (u over)
                           | None \<Rightarrow> ConflictOwned (u over)))
                     else ledger_append rows
                       \<lparr>pl_id = (case keyed_id of Some key \<Rightarrow> key | None \<Rightarrow> fresh),
                        pl_student = pl_student target, pl_kind = kind, pl_amount_minor = amount,
                        pl_source = Some (pl_id target), pl_due_at = None, pl_method = mtd,
                        pl_note = note, pl_recorded_by = recorded_by, pl_created_at = now\<rparr>)
                 (applied_to rows (pl_id target) (pl_kind target))))"

definition against ::
  "fee_table \<Rightarrow> payment_ledger \<Rightarrow> payment_ledger_kind \<Rightarrow> payment_ledger_kind \<Rightarrow> string
     \<Rightarrow> string \<Rightarrow> string option \<Rightarrow> int \<Rightarrow> ustr option \<Rightarrow> ustr option \<Rightarrow> ustr option \<Rightarrow> ustr
     \<Rightarrow> ustr \<Rightarrow> int \<Rightarrow> (fee_table \<times> payment_ledger aresult) option" where
  "against rows target expected kind wrong_target over reversed amount mtd note keyed_id
       recorded_by fresh now =
     (if pl_kind target \<noteq> expected
      then Some (rows, Inl (Validation (Invalid ''source'' wrong_target)))
      else map_option (\<lambda>out. run_tx (\<lambda>_. out) rows)
        (against_body target kind over reversed amount mtd note keyed_id recorded_by fresh now rows))"

definition credit ::
  "fee_table \<Rightarrow> payment_ledger \<Rightarrow> int \<Rightarrow> ustr option \<Rightarrow> ustr option \<Rightarrow> ustr option \<Rightarrow> ustr
     \<Rightarrow> ustr \<Rightarrow> int \<Rightarrow> (fee_table \<times> payment_ledger aresult) option" where
  "credit rows charge amount mtd note request_key recorded_by fresh now =
     against rows charge Charge Credit ''a payment must be recorded against a charge''
       ''the charge is already paid in full''
       (Some ''the charge was reversed, so it is no longer owed'')
       amount mtd note (map_option (for_request (pl_id charge) (u ''k'')) request_key)
       recorded_by fresh now"

definition refund ::
  "fee_table \<Rightarrow> payment_ledger \<Rightarrow> int \<Rightarrow> ustr option \<Rightarrow> ustr option \<Rightarrow> ustr option \<Rightarrow> ustr
     \<Rightarrow> ustr \<Rightarrow> int \<Rightarrow> (fee_table \<times> payment_ledger aresult) option" where
  "refund rows cred amount mtd note request_key recorded_by fresh now =
     against rows cred Credit Refund ''a refund must be recorded against a payment''
       ''the payment is already refunded in full'' None
       amount mtd note (map_option (for_request (pl_id cred) (u ''kr'')) request_key)
       recorded_by fresh now"

definition reversal ::
  "fee_table \<Rightarrow> payment_ledger \<Rightarrow> ustr option \<Rightarrow> ustr \<Rightarrow> int
     \<Rightarrow> (fee_table \<times> payment_ledger aresult) option" where
  "reversal rows line note recorded_by now =
     (if \<not> (pl_kind line = Charge \<or> pl_kind line = Refund)
      then Some (rows, Inl (Validation (Invalid ''source''
             ''only a charge or a refund can be reversed; refund a payment instead'')))
      else map_option (\<lambda>_. run_tx (\<lambda>rows. ledger_append rows
               \<lparr>pl_id = for_reversal (pl_id line), pl_student = pl_student line,
                pl_kind = Reversal, pl_amount_minor = pl_amount_minor line,
                pl_source = Some (pl_id line), pl_due_at = None, pl_method = None,
                pl_note = note, pl_recorded_by = recorded_by, pl_created_at = now\<rparr>) rows)
        (lock_for_cap (length rows + 4) rows (Some (pl_id line))))"


section \<open>The handlers\<close>

text \<open>
  The three writing routes of \<open>src/src/web/payments.rs\<close>, after the role extractor: the line is
  read, the fields validated in argument order, the workflow run, the stored line answered.
\<close>

definition require_line :: "fee_table \<Rightarrow> ustr \<Rightarrow> payment_ledger aresult" where
  "require_line rows key = ok_or NotFound (ledger_read rows key)"

definition opt_field :: "('a \<Rightarrow> 'b option vresult) \<Rightarrow> 'a option \<Rightarrow> 'b option aresult" where
  "opt_field try raw = (case raw of None \<Rightarrow> Inr None | Some v \<Rightarrow> map_err Validation (try v))"

definition method_of :: "ustr option \<Rightarrow> ustr option aresult" where
  "method_of raw = opt_field ledger_method_try_new raw"

definition note_of :: "ustr option \<Rightarrow> ustr option aresult" where
  "note_of raw = opt_field ledger_note_try_new raw"

definition request_key_of :: "ustr option \<Rightarrow> ustr option aresult" where
  "request_key_of raw =
     opt_field (\<lambda>v. and_then (payment_request_key_try_new v) (\<lambda>k. Inr (Some k))) raw"

text \<open>The body of \<open>POST /credits\<close> and of \<open>POST /refunds\<close>.\<close>

record record_applied =
  ra_target :: ustr
  ra_amount_minor :: int
  ra_method :: "ustr option"
  ra_note :: "ustr option"
  ra_request_key :: "ustr option"

definition checked_fields ::
  "record_applied \<Rightarrow> (int \<times> ustr option \<times> ustr option \<times> ustr option) aresult" where
  "checked_fields req =
     and_then (map_err Validation (ledger_amount_try_new (ra_amount_minor req))) (\<lambda>amount.
     and_then (method_of (ra_method req)) (\<lambda>mtd.
     and_then (note_of (ra_note req)) (\<lambda>note.
     and_then (request_key_of (ra_request_key req)) (\<lambda>key.
       Inr (amount, mtd, note, key)))))"

definition record_payment ::
  "fee_table \<Rightarrow> record_applied \<Rightarrow> ustr \<Rightarrow> ustr \<Rightarrow> int \<Rightarrow> (fee_table \<times> payment_ledger aresult) option" where
  "record_payment rows req manager fresh now =
     (case require_line rows (ra_target req) of
        Inl err \<Rightarrow> Some (rows, Inl err)
      | Inr charge \<Rightarrow>
          (case checked_fields req of
             Inl err \<Rightarrow> Some (rows, Inl err)
           | Inr (amount, mtd, note, key) \<Rightarrow> credit rows charge amount mtd note key manager fresh now))"

definition record_refund ::
  "fee_table \<Rightarrow> record_applied \<Rightarrow> ustr \<Rightarrow> ustr \<Rightarrow> int \<Rightarrow> (fee_table \<times> payment_ledger aresult) option" where
  "record_refund rows req manager fresh now =
     (case require_line rows (ra_target req) of
        Inl err \<Rightarrow> Some (rows, Inl err)
      | Inr cred \<Rightarrow>
          (case checked_fields req of
             Inl err \<Rightarrow> Some (rows, Inl err)
           | Inr (amount, mtd, note, key) \<Rightarrow> refund rows cred amount mtd note key manager fresh now))"

definition record_reversal ::
  "fee_table \<Rightarrow> ustr \<Rightarrow> ustr option \<Rightarrow> ustr \<Rightarrow> int \<Rightarrow> (fee_table \<times> payment_ledger aresult) option" where
  "record_reversal rows line_key' raw_note manager now =
     (case require_line rows line_key' of
        Inl err \<Rightarrow> Some (rows, Inl err)
      | Inr target \<Rightarrow>
          (case note_of raw_note of
             Inl err \<Rightarrow> Some (rows, Inl err)
           | Inr note \<Rightarrow> reversal rows target note manager now))"

text \<open>
  The statement: one entry per charge, rolled up from the student's own lines, and the balance
  folded from the same lines.  \<open>plan_of\<close> and \<open>plan_name\<close> are the lookups in the assignments and
  plans the handler reads beforehand.
\<close>

record statement_entry =
  se_charge_id :: ustr
  se_plan :: "ustr option"
  se_plan_name :: "ustr option"
  se_amount_minor :: int
  se_due_at :: "int option"
  se_credited_minor :: int
  se_refunded_minor :: int
  se_outstanding_minor :: int
  se_reversed :: bool
  se_overdue :: bool

definition reversed_in :: "payment_ledger list \<Rightarrow> ustr \<Rightarrow> bool" where
  "reversed_in lines key \<longleftrightarrow> list_ex (\<lambda>kid. pl_kind kid = Reversal) (children lines key)"

definition statement_entry ::
  "(ustr \<Rightarrow> ustr option) \<Rightarrow> (ustr \<Rightarrow> ustr option) \<Rightarrow> int \<Rightarrow> payment_ledger list \<Rightarrow> payment_ledger
     \<Rightarrow> statement_entry" where
  "statement_entry plan_of plan_name now lines charge =
     (let paid = filter (\<lambda>kid. pl_kind kid = Credit) (children lines (pl_id charge));
          credited = sum_list (map pl_amount_minor paid);
          refunded = sum_list (map pl_amount_minor
            (filter (\<lambda>kid. pl_kind kid = Refund \<and> \<not> reversed_in lines (pl_id kid))
              (concat (map (\<lambda>cred. children lines (pl_id cred)) paid))));
          charge_reversed = reversed_in lines (pl_id charge);
          outstanding = (if charge_reversed then 0
                         else pl_amount_minor charge - credited + refunded);
          due_at = pl_due_at charge;
          plan = plan_of (case pl_source charge of Some s \<Rightarrow> s | None \<Rightarrow> [])
      in \<lparr>se_charge_id = pl_id charge, se_plan = plan,
          se_plan_name = (case plan of None \<Rightarrow> None | Some p \<Rightarrow> plan_name p),
          se_amount_minor = pl_amount_minor charge, se_due_at = due_at,
          se_credited_minor = credited, se_refunded_minor = refunded,
          se_outstanding_minor = outstanding, se_reversed = charge_reversed,
          se_overdue = (outstanding > 0 \<and> (case due_at of None \<Rightarrow> False | Some due \<Rightarrow> due < now))\<rparr>)"

definition statement_response ::
  "(ustr \<Rightarrow> ustr option) \<Rightarrow> (ustr \<Rightarrow> ustr option) \<Rightarrow> int \<Rightarrow> int option \<Rightarrow> int
     \<Rightarrow> payment_ledger list \<Rightarrow> statement_entry list \<times> int" where
  "statement_response plan_of plan_name now limit offset lines =
     (map (statement_entry plan_of plan_name now lines)
        (paginate (filter (\<lambda>l. pl_kind l = Charge) lines) limit offset),
      fold_balance (map folded lines))"


section \<open>Well-formed tables\<close>

fun kind_rank :: "payment_ledger_kind \<Rightarrow> nat" where
  "kind_rank Charge = 0"
| "kind_rank Credit = 1"
| "kind_rank Refund = 2"
| "kind_rank Reversal = 3"

text \<open>
  Only a charge carries an installment's id.  A charge names an assignment; every other line names a line of the table of the kind it
  may point at, for the same student.  A reversal is for the amount of the line it undoes
  and carries the id derived from it.
\<close>

definition points_at :: "fee_table \<Rightarrow> payment_ledger \<Rightarrow> payment_ledger \<Rightarrow> bool" where
  "points_at rows r t \<longleftrightarrow> t \<in> set rows \<and> pl_source r = Some (pl_id t) \<and> pl_student r = pl_student t"

definition line_ok :: "fee_table \<Rightarrow> payment_ledger \<Rightarrow> bool" where
  "line_ok rows r \<longleftrightarrow>
     line_key (pl_id r) \<and> is_ledger_amount (pl_amount_minor r) \<and>
     (pl_kind r = Charge \<or> \<not> installment_key (pl_id r)) \<and>
     (case pl_kind r of
        Charge \<Rightarrow> \<exists>a. uuid_key (fpa_plan a) \<and> uuid_key (fpa_student a) \<and>
                    pl_source r = Some (assignment_key a)
      | Credit \<Rightarrow> \<exists>t. points_at rows r t \<and> pl_kind t = Charge
      | Refund \<Rightarrow> \<exists>t. points_at rows r t \<and> pl_kind t = Credit
      | Reversal \<Rightarrow> \<exists>t. points_at rows r t \<and> (pl_kind t = Charge \<or> pl_kind t = Refund) \<and>
                      pl_amount_minor r = pl_amount_minor t \<and> pl_id r = for_reversal (pl_id t))"

definition ledger_ok :: "fee_table \<Rightarrow> bool" where
  "ledger_ok rows \<longleftrightarrow> keyed pl_id rows \<and> (\<forall>r \<in> set rows. line_ok rows r)"

lemma ledger_ok_Nil [simp]: "ledger_ok []"
  by (simp add: ledger_ok_def keyed_def)

lemma line_ok_mono: "line_ok rows r \<Longrightarrow> set rows \<subseteq> set rows' \<Longrightarrow> line_ok rows' r"
  unfolding line_ok_def points_at_def by (cases "pl_kind r") auto

lemma ledger_ok_snoc:
  "ledger_ok rows \<Longrightarrow> line_ok rows r \<Longrightarrow> pl_id r \<notin> pl_id ` set rows \<Longrightarrow> ledger_ok (rows @ [r])"
  unfolding ledger_ok_def keyed_def by (auto intro: line_ok_mono)

lemma ledger_ok_id_inject:
  "ledger_ok rows \<Longrightarrow> a \<in> set rows \<Longrightarrow> b \<in> set rows \<Longrightarrow> pl_id a = pl_id b \<Longrightarrow> a = b"
  using keyed_find_row [of pl_id rows] by (metis ledger_ok_def option.inject)

lemma ledger_ok_read: "ledger_ok rows \<Longrightarrow> t \<in> set rows \<Longrightarrow> ledger_read rows (pl_id t) = Some t"
  by (simp add: ledger_read_def ledger_ok_def keyed_find_row)

lemma ledger_ok_line_key: "ledger_ok rows \<Longrightarrow> r \<in> set rows \<Longrightarrow> line_key (pl_id r)"
  by (simp add: ledger_ok_def line_ok_def)

text \<open>A line that names a line of the table is not a charge and ranks above it.\<close>

lemma line_ok_source:
  assumes "line_ok rows r" "pl_source r = Some k" "line_key k"
  shows "\<exists>t. points_at rows r t \<and> pl_id t = k \<and> kind_rank (pl_kind t) < kind_rank (pl_kind r)"
  using assms assignment_not_line_key
  unfolding line_ok_def points_at_def by (cases "pl_kind r") auto

lemma child_rank:
  assumes "ledger_ok rows" "l \<in> set rows" "c \<in> set (children rows (pl_id l))"
  shows "c \<in> set rows \<and> kind_rank (pl_kind l) < kind_rank (pl_kind c)"
proof -
  have c: "c \<in> set rows" "pl_source c = Some (pl_id l)" using assms(3) by (auto simp: children_def)
  with assms have "line_ok rows c" "line_key (pl_id l)"
    by (auto simp: ledger_ok_def intro: ledger_ok_line_key [OF assms(1)])
  from line_ok_source [OF this(1) c(2) this(2)] obtain t
    where "t \<in> set rows" "pl_id t = pl_id l" "kind_rank (pl_kind t) < kind_rank (pl_kind c)"
    by (auto simp: points_at_def)
  with ledger_ok_id_inject [OF assms(1) _ assms(2)] c show ?thesis by blast
qed

lemma kind_rank_le: "kind_rank k \<le> 3"
  by (cases k) simp_all


section \<open>The walks return\<close>

lemma applied_levels_returns:
  assumes "ledger_ok rows" "\<forall>l \<in> set ls. l \<in> set rows \<and> k \<le> kind_rank (pl_kind l)" "4 \<le> n + k"
  shows "\<exists>xs. applied_levels n rows ls = Some xs"
  using assms(2,3)
proof (induction n arbitrary: ls k)
  case 0
  have "ls = []"
  proof (rule ccontr)
    assume "ls \<noteq> []"
    with 0(1) have "k \<le> kind_rank (pl_kind (hd ls))" by simp
    with 0(2) kind_rank_le [of "pl_kind (hd ls)"] show False by simp
  qed
  then show ?case by simp
next
  case (Suc n)
  show ?case
  proof (cases ls)
    case (Cons l ls')
    let ?next = "concat (map (\<lambda>a. children rows (pl_id a)) ls)"
    have "\<forall>c \<in> set ?next. c \<in> set rows \<and> Suc k \<le> kind_rank (pl_kind c)"
      using Suc.prems(1) child_rank [OF assms(1)] by fastforce
    with Suc.IH [of ?next "Suc k"] Suc.prems(2) Cons show ?thesis by auto
  qed simp
qed

text \<open>The sum of a weight over a line and everything below it.\<close>

fun tree_sum :: "(payment_ledger \<Rightarrow> int) \<Rightarrow> nat \<Rightarrow> fee_table \<Rightarrow> payment_ledger \<Rightarrow> int" where
  "tree_sum f 0 rows l = 0"
| "tree_sum f (Suc n) rows l =
     f l + sum_list (map (tree_sum f n rows) (children rows (pl_id l)))"

lemma sum_list_concat_map:
  "sum_list (map g (concat (map h xs))) = sum_list (map (\<lambda>x. sum_list (map g (h x))) xs)"
  for g :: "'b \<Rightarrow> int"
  by (induction xs) simp_all

lemma applied_levels_sum:
  "applied_levels n rows ls = Some xs \<Longrightarrow>
   sum_list (map f xs) = sum_list (map (tree_sum f n rows) ls)"
proof (induction n arbitrary: ls xs)
  case 0
  then show ?case by (cases ls) auto
next
  case (Suc n)
  show ?case
  proof (cases ls)
    case (Cons l ls')
    let ?next = "concat (map (\<lambda>a. children rows (pl_id a)) ls)"
    from Suc.prems Cons obtain ys where ys: "applied_levels n rows ?next = Some ys" "xs = ls @ ys"
      by auto
    then have "sum_list (map f xs) = sum_list (map f ls)
        + sum_list (map (\<lambda>a. sum_list (map (tree_sum f n rows) (children rows (pl_id a)))) ls)"
      by (simp add: Suc.IH [OF ys(1)] sum_list_concat_map)
    then show ?thesis by (simp add: sum_list_addf)
  qed (use Suc.prems in simp)
qed

lemma tree_sum_fuel:
  assumes "ledger_ok rows"
  shows "l \<in> set rows \<Longrightarrow> 4 \<le> m + kind_rank (pl_kind l) \<Longrightarrow> 4 \<le> n + kind_rank (pl_kind l) \<Longrightarrow>
    tree_sum f m rows l = tree_sum f n rows l"
proof (induction m arbitrary: n l)
  case 0
  then show ?case using kind_rank_le [of "pl_kind l"] by simp
next
  case (Suc m)
  then obtain n' where n: "n = Suc n'" using kind_rank_le [of "pl_kind l"] by (cases n) auto
  have "tree_sum f m rows c = tree_sum f n' rows c" if "c \<in> set (children rows (pl_id l))" for c
    using child_rank [OF assms Suc.prems(1) that] Suc n by (intro Suc.IH) auto
  then show ?case by (simp add: n cong: map_cong)
qed

definition weight :: "(payment_ledger \<Rightarrow> int) \<Rightarrow> fee_table \<Rightarrow> payment_ledger \<Rightarrow> int" where
  "weight f rows l = tree_sum f 4 rows l"

definition below :: "(payment_ledger \<Rightarrow> int) \<Rightarrow> fee_table \<Rightarrow> ustr \<Rightarrow> int" where
  "below f rows key = sum_list (map (weight f rows) (children rows key))"

lemma weight_below:
  assumes "ledger_ok rows" "l \<in> set rows"
  shows "weight f rows l = f l + below f rows (pl_id l)"
proof -
  have "tree_sum f 3 rows c = tree_sum f 4 rows c" if "c \<in> set (children rows (pl_id l))" for c
    using child_rank [OF assms that] by (intro tree_sum_fuel [OF assms(1)]) auto
  then have "map (tree_sum f 3 rows) (children rows (pl_id l)) = map (weight f rows) (children rows (pl_id l))"
    by (simp add: weight_def)
  moreover have "tree_sum f 4 rows l = f l + sum_list (map (tree_sum f 3 rows) (children rows (pl_id l)))"
    by (simp add: eval_nat_numeral)
  ultimately show ?thesis by (simp only: weight_def [of f rows l] below_def)
qed

lemma applied_lines_sum:
  assumes "ledger_ok rows" "t \<in> set rows"
  obtains ls where "applied_lines rows (pl_id t) = Some ls"
    and "\<And>f. sum_list (map f ls) = below f rows (pl_id t)"
proof -
  let ?cs = "children rows (pl_id t)"
  have cs: "c \<in> set rows \<and> 1 \<le> kind_rank (pl_kind c)" if "c \<in> set ?cs" for c
    using child_rank [OF assms that] by auto
  then obtain ls where ls: "applied_lines rows (pl_id t) = Some ls"
    using applied_levels_returns [OF assms(1), of ?cs 1 "length rows + 4"]
    unfolding applied_lines_def by auto
  have "sum_list (map f ls) = below f rows (pl_id t)" for f
  proof -
    have "sum_list (map f ls) = sum_list (map (tree_sum f (length rows + 4) rows) ?cs)"
      using applied_levels_sum ls unfolding applied_lines_def by blast
    also have "map (tree_sum f (length rows + 4) rows) ?cs = map (weight f rows) ?cs"
      unfolding weight_def using cs by (auto intro!: tree_sum_fuel [OF assms(1)])
    finally show ?thesis by (simp add: below_def)
  qed
  with ls show thesis by (rule that)
qed


lemma lock_walk:
  assumes "ledger_ok rows" "t \<in> set rows"
  shows "kind_rank (pl_kind t) < n \<Longrightarrow>
    \<exists>ks. lock_for_cap n rows (Some (pl_id t)) = Some ks \<and> ks \<noteq> [] \<and> hd ks = pl_id t \<and>
         length ks \<le> Suc (kind_rank (pl_kind t)) \<and>
         (\<exists>c \<in> set rows. pl_kind c = Charge \<and> last ks = pl_id c)"
  using assms(2)
proof (induction n arbitrary: t)
  case (Suc n)
  show ?case
  proof (cases "pl_kind t = Charge")
    case True
    then show ?thesis using Suc.prems by (auto simp: ledger_ok_read [OF assms(1)])
  next
    case False
    from Suc.prems assms(1) have "line_ok rows t" by (simp add: ledger_ok_def)
    with False obtain p where p: "p \<in> set rows" "pl_source t = Some (pl_id p)"
      and rank: "kind_rank (pl_kind p) < kind_rank (pl_kind t)"
      by (cases "pl_kind t") (auto simp: line_ok_def points_at_def)
    with Suc.IH [of p] Suc.prems(1) obtain ks where ks: "lock_for_cap n rows (Some (pl_id p)) = Some ks"
      "ks \<noteq> []" "length ks \<le> Suc (kind_rank (pl_kind p))"
      "\<exists>c \<in> set rows. pl_kind c = Charge \<and> last ks = pl_id c" by auto
    then show ?thesis
      using False p rank Suc.prems by (auto simp: ledger_ok_read [OF assms(1)])
  qed
qed simp

lemma lock_for_cap_returns:
  assumes "ledger_ok rows" "t \<in> set rows"
  shows "\<exists>ks. lock_for_cap (length rows + 4) rows (Some (pl_id t)) = Some ks"
  using lock_walk [OF assms, of "length rows + 4"] kind_rank_le [of "pl_kind t"] by auto


section \<open>The folds\<close>

interpretation fee_fold: signed_fold kind_sign PAYMENT_LEDGER_KINDS
proof
  show "set PAYMENT_LEDGER_KINDS = UNIV"
  proof
    show "UNIV \<subseteq> set PAYMENT_LEDGER_KINDS"
    proof
      fix k show "k \<in> set PAYMENT_LEDGER_KINDS" by (cases k) (simp_all add: PAYMENT_LEDGER_KINDS_def)
    qed
  qed simp
  show "kind_sign k = 1 \<or> kind_sign k = -1" for k by (cases k) simp_all
qed (simp add: PAYMENT_LEDGER_KINDS_def)

definition signed :: "payment_ledger \<Rightarrow> int" where
  "signed l = kind_sign (pl_kind l) * pl_amount_minor l"

lemma group_by_kind_totals:
  "map (\<lambda>f. (kf_kind f, kf_total f)) (group_by_kind ls)
     = group_totals PAYMENT_LEDGER_KINDS (map folded ls)"
  unfolding group_by_kind_def group_totals_def
  by (simp add: comp_def folded_def filter_map image_image)

lemma signed_sum_folded: "signed_sum kind_sign (map folded ls) = sum_list (map signed ls)"
  by (induction ls) (simp_all add: folded_def signed_def)

lemma fold_groups:
  "fold_balance (map (\<lambda>f. (kf_kind f, kf_total f)) (group_by_kind ls)) = sum_list (map signed ls)"
  unfolding fold_balance_def group_by_kind_totals
  by (simp add: fee_fold.grouped_equals_lines signed_sum_folded)

lemma balance_of_lines:
  "balance_of rows student = sum_list (map signed (filter (\<lambda>l. pl_student l = student) rows))"
  by (simp add: balance_of_def fold_groups)

lemma sum_lines_group: "sum_list (map kf_lines (group_by_kind ls)) = length ls"
proof -
  have kinds: "sum_list (map (\<lambda>k. length (filter (\<lambda>l. pl_kind l = k) ls)) PAYMENT_LEDGER_KINDS) = length ls"
    unfolding PAYMENT_LEDGER_KINDS_def
  proof (induction ls)
    case (Cons l ls)
    then show ?case by (cases "pl_kind l") simp_all
  qed simp
  have drop: "sum_list (map g (filter P ks)) = sum_list (map g ks)"
    if "\<And>k. \<not> P k \<Longrightarrow> g k = 0" for g :: "payment_ledger_kind \<Rightarrow> nat" and P ks
    using that by (induction ks) auto
  have "length (filter (\<lambda>l. pl_kind l = k) ls) = 0" if "k \<notin> pl_kind ` set ls" for k
    using that by (auto simp: filter_empty_conv)
  from drop [OF this] have
    "sum_list (map (\<lambda>k. length (filter (\<lambda>l. pl_kind l = k) ls)) (filter (\<lambda>k. k \<in> pl_kind ` set ls) PAYMENT_LEDGER_KINDS))
      = length ls" using kinds by simp
  then show ?thesis by (simp add: group_by_kind_def comp_def)
qed

text \<open>How much of a line is taken up, as \<open>applied_to\<close> reads it, and how many lines that is.\<close>

definition taken :: "fee_table \<Rightarrow> payment_ledger \<Rightarrow> int" where
  "taken rows t = below signed rows (pl_id t) * - kind_sign (pl_kind t)"

definition applied_count :: "fee_table \<Rightarrow> payment_ledger \<Rightarrow> int" where
  "applied_count rows t = below (\<lambda>_. 1) rows (pl_id t)"

lemma applied_to_eq:
  assumes "ledger_ok rows" "t \<in> set rows"
  shows "applied_to rows (pl_id t) (pl_kind t) =
    Some (if applied_count rows t \<ge> 20
          then Inl (Conflict (u ''this line already carries the most lines that may be applied to it; record the rest against another''))
          else Inr (taken rows t))"
proof -
  obtain ls where ls: "applied_lines rows (pl_id t) = Some ls"
    and sums: "\<And>f. sum_list (map f ls) = below f rows (pl_id t)"
    using applied_lines_sum [OF assms] by blast
  have "sum_list (map (\<lambda>_. 1::int) ls) = int (length ls)" by (induction ls) auto
  then have "applied_count rows t = int (length ls)" by (simp add: applied_count_def sums)
  then show ?thesis
    by (simp add: applied_to_def ls Let_def fold_groups sums sum_lines_group taken_def
        MAX_LEDGER_APPLIED_LINES_def)
qed

end
