(* ===== verification/Payment_Workflows.thy ===== *)
theory Payment_Workflows
  imports Payment_Ledger
begin

text \<open>
  What the fee workflows do to the table: every append extends it by one well-formed line
  or leaves it alone, the cap is enforced against the whole subtree of the target, and a
  retried request is answered from the stored line.  The step relation \<open>fee_step\<close> is the set
  of all calls of the four writers with validated arguments.
\<close>

section \<open>Appending\<close>

interpretation fee_append: append_only ledger_read ledger_append pl_id
  "\<lambda>stored row. pl_kind stored = pl_kind row"
proof
  fix d and r :: payment_ledger and k
  show "ledger_read (fst (ledger_append d r)) k =
      (if k = pl_id r then (case ledger_read d k of None \<Rightarrow> Some r | Some s \<Rightarrow> Some s)
       else ledger_read d k)"
    by (simp add: ledger_read_def ledger_append_def Let_def table_simps)
next
  fix d and r :: payment_ledger
  assume "ledger_read d (pl_id r) = None"
  then show "snd (ledger_append d r) = Inr r"
    by (simp add: ledger_read_def ledger_append_def Let_def table_simps)
next
  fix d and r s :: payment_ledger
  assume s: "ledger_read d (pl_id r) = Some s"
  then show "fst (ledger_append d r) = d"
    by (simp add: ledger_read_def ledger_append_def Let_def insert_row_def)
  from s show "pl_kind s = pl_kind r \<Longrightarrow> snd (ledger_append d r) = Inr s"
    and "pl_kind s \<noteq> pl_kind r \<Longrightarrow> \<exists>m. snd (ledger_append d r) = Inl (Internal m)"
    by (simp_all add: ledger_read_def ledger_append_def Let_def table_simps)
qed simp

lemma ledger_read_None: "ledger_read rows k = None \<longleftrightarrow> k \<notin> pl_id ` set rows"
  by (simp add: ledger_read_def find_row_None_iff)

lemma ledger_append_fresh:
  "pl_id r \<notin> pl_id ` set rows \<Longrightarrow> ledger_append rows r = (rows @ [r], Inr r)"
  using fee_append.append_fresh [of rows r]
  by (simp add: ledger_read_None prod_eq_iff) (simp add: ledger_append_def Let_def insert_row_fresh)

lemma ledger_append_stored:
  "ledger_read rows (pl_id r) = Some s \<Longrightarrow> pl_kind s = pl_kind r \<Longrightarrow>
   ledger_append rows r = (rows, Inr s)"
  by (simp add: prod_eq_iff fee_append.append_stored fee_append.append_replay)


section \<open>The workflow equations\<close>

lemma sat_gt_iff: "is_i64 y \<Longrightarrow> y < I64_MAX \<Longrightarrow> y < saturating_add a b \<longleftrightarrow> y < a + b"
  by (auto simp: i64_defs)

lemma amount_is_i64: "is_ledger_amount a \<Longrightarrow> is_i64 a \<and> a < I64_MAX"
  by (simp add: is_ledger_amount_def i64_defs)

definition applied_line ::
  "payment_ledger \<Rightarrow> payment_ledger_kind \<Rightarrow> int \<Rightarrow> ustr option \<Rightarrow> ustr option \<Rightarrow> ustr \<Rightarrow> ustr \<Rightarrow> int
     \<Rightarrow> payment_ledger" where
  "applied_line t kind amount mtd note key by' now =
     \<lparr>pl_id = key, pl_student = pl_student t, pl_kind = kind, pl_amount_minor = amount,
      pl_source = Some (pl_id t), pl_due_at = None, pl_method = mtd, pl_note = note,
      pl_recorded_by = by', pl_created_at = now\<rparr>"

lemma applied_line_simps [simp]:
  "pl_id (applied_line t kind amount mtd note key by' now) = key"
  "pl_student (applied_line t kind amount mtd note key by' now) = pl_student t"
  "pl_kind (applied_line t kind amount mtd note key by' now) = kind"
  "pl_amount_minor (applied_line t kind amount mtd note key by' now) = amount"
  "pl_source (applied_line t kind amount mtd note key by' now) = Some (pl_id t)"
  by (simp_all add: applied_line_def)

lemma against_replay:
  assumes "ledger_ok rows" "t \<in> set rows" "pl_kind t = expected"
    and "ledger_read rows key = Some existing"
  shows "against rows t expected kind wrong over rvsd amount mtd note (Some key) by' fresh now =
    Some (rows,
      if pl_amount_minor existing \<noteq> amount \<or> pl_source existing \<noteq> Some (pl_id t)
      then Inl (Conflict (u ''this request_key was already used for a different amount or target''))
      else Inr existing)"
proof -
  obtain ks where "lock_for_cap (length rows + 4) rows (Some (pl_id t)) = Some ks"
    using lock_for_cap_returns [OF assms(1,2)] by blast
  with assms(3,4) show ?thesis by (simp add: against_def against_body_def run_tx_def)
qed

lemma against_first:
  assumes ok: "ledger_ok rows" "t \<in> set rows" and exp: "pl_kind t = expected"
    and new: "\<And>key. keyed_id = Some key \<Longrightarrow> key \<notin> pl_id ` set rows"
    and fresh: "keyed_id = None \<Longrightarrow> fresh \<notin> pl_id ` set rows"
  shows "against rows t expected kind wrong over rvsd amount mtd note keyed_id by' fresh now =
    Some (if applied_count rows t \<ge> 20
          then (rows, Inl (Conflict (u ''this line already carries the most lines that may be applied to it; record the rest against another'')))
          else if taken rows t + amount > pl_amount_minor t
          then (rows, Inl (ConflictOwned (u (case rvsd of
                   Some text \<Rightarrow> if ledger_read rows (for_reversal (pl_id t)) \<noteq> None then text else over
                 | None \<Rightarrow> over))))
          else (let row = applied_line t kind amount mtd note
                      (case keyed_id of Some key \<Rightarrow> key | None \<Rightarrow> fresh) by' now
                in (rows @ [row], Inr row)))"
proof -
  obtain ks where lock: "lock_for_cap (length rows + 4) rows (Some (pl_id t)) = Some ks"
    using lock_for_cap_returns [OF ok] by blast
  have none: "(case keyed_id of Some key \<Rightarrow> ledger_read rows key | None \<Rightarrow> None) = None"
    using new by (auto simp: ledger_read_None split: option.splits)
  have sat: "pl_amount_minor t < saturating_add x amount \<longleftrightarrow> pl_amount_minor t < x + amount" for x
    using ok amount_is_i64 by (intro sat_gt_iff) (auto simp: ledger_ok_def line_ok_def)
  let ?row = "applied_line t kind amount mtd note (case keyed_id of Some key \<Rightarrow> key | None \<Rightarrow> fresh) by' now"
  have "pl_id ?row \<notin> pl_id ` set rows" using new fresh by (auto split: option.splits)
  from ledger_append_fresh [OF this] show ?thesis
    unfolding applied_line_def
    by (simp add: against_def against_body_def lock none exp applied_to_eq [OF ok, unfolded exp]
        run_tx_def sat Let_def split: option.split)
qed

lemma reversal_eq:
  assumes "ledger_ok rows" "t \<in> set rows" "pl_kind t = Charge \<or> pl_kind t = Refund"
  shows "reversal rows t note by' now =
    Some (run_tx (\<lambda>rows. ledger_append rows
      (applied_line t Reversal (pl_amount_minor t) None note (for_reversal (pl_id t)) by' now)) rows)"
proof -
  obtain ks where "lock_for_cap (length rows + 4) rows (Some (pl_id t)) = Some ks"
    using lock_for_cap_returns [OF assms(1,2)] by blast
  with assms(3) show ?thesis by (simp add: reversal_def applied_line_def)
qed


section \<open>What one more line changes\<close>

lemma children_snoc:
  "children (rows @ [r]) k = children rows k @ (if pl_source r = Some k then [r] else [])"
  by (simp add: children_def)

lemma source_not_fresh:
  assumes "line_ok rows x" "line_key k" "k \<notin> pl_id ` set rows"
  shows "pl_source x \<noteq> Some k"
  using line_ok_source [OF assms(1) _ assms(2)] assms(3) by (auto simp: points_at_def)

lemma no_children_of_fresh:
  assumes "ledger_ok rows" "line_ok rows r" "pl_id r \<notin> pl_id ` set rows"
  shows "children (rows @ [r]) (pl_id r) = []"
proof -
  have "line_key (pl_id r)" using assms(2) by (simp add: line_ok_def)
  moreover have "line_ok rows x" if "x \<in> set (rows @ [r])" for x
    using that assms by (auto simp: ledger_ok_def)
  ultimately show ?thesis
    using source_not_fresh assms(3) by (auto simp: children_def filter_empty_conv)
qed

lemma tree_sum_snoc_other:
  assumes ok: "ledger_ok rows" "t \<in> set rows" and src: "pl_source r = Some (pl_id t)"
  shows "l \<in> set rows \<Longrightarrow> l \<noteq> t \<Longrightarrow> kind_rank (pl_kind t) \<le> kind_rank (pl_kind l) \<Longrightarrow>
    tree_sum f n (rows @ [r]) l = tree_sum f n rows l"
proof (induction n arbitrary: l)
  case (Suc n)
  have "pl_id l \<noteq> pl_id t" using ledger_ok_id_inject [OF ok(1)] Suc.prems ok(2) by blast
  then have kids: "children (rows @ [r]) (pl_id l) = children rows (pl_id l)"
    using src by (simp add: children_snoc)
  have "tree_sum f n (rows @ [r]) c = tree_sum f n rows c" if "c \<in> set (children rows (pl_id l))" for c
    using child_rank [OF ok(1) Suc.prems(1) that] Suc.prems(3) by (intro Suc.IH) auto
  then show ?case by (simp add: kids cong: map_cong)
qed simp

lemma below_snoc:
  assumes ok: "ledger_ok rows" "t \<in> set rows" and r: "line_ok rows r" "pl_id r \<notin> pl_id ` set rows"
    and src: "pl_source r = Some (pl_id t)"
  shows "below f (rows @ [r]) (pl_id t) = below f rows (pl_id t) + f r"
    and "l \<in> set rows \<Longrightarrow> l \<noteq> t \<Longrightarrow> kind_rank (pl_kind t) \<le> kind_rank (pl_kind l) \<Longrightarrow>
         weight f (rows @ [r]) l = weight f rows l"
    and "p \<in> set rows \<Longrightarrow> p \<noteq> t \<Longrightarrow> kind_rank (pl_kind t) \<le> Suc (kind_rank (pl_kind p)) \<Longrightarrow>
         below f (rows @ [r]) (pl_id p) = below f rows (pl_id p)
           + (if pl_source t = Some (pl_id p) then f r else 0)"
proof -
  have other: "weight f (rows @ [r]) l = weight f rows l"
    if "l \<in> set rows" "l \<noteq> t" "kind_rank (pl_kind t) \<le> kind_rank (pl_kind l)" for l
    unfolding weight_def by (rule tree_sum_snoc_other [OF ok src that])
  then show "l \<in> set rows \<Longrightarrow> l \<noteq> t \<Longrightarrow> kind_rank (pl_kind t) \<le> kind_rank (pl_kind l) \<Longrightarrow>
         weight f (rows @ [r]) l = weight f rows l" .
  have new: "weight f (rows @ [r]) r = f r"
    by (simp add: weight_def eval_nat_numeral no_children_of_fresh [OF ok(1) r])
  have kids: "weight f (rows @ [r]) c = weight f rows c" if "c \<in> set (children rows (pl_id t))" for c
    using child_rank [OF ok that] by (intro other) auto
  then have "sum_list (map (weight f (rows @ [r])) (children rows (pl_id t))) = below f rows (pl_id t)"
    unfolding below_def by (simp cong: map_cong)
  then show t_below: "below f (rows @ [r]) (pl_id t) = below f rows (pl_id t) + f r"
    by (simp add: below_def children_snoc src new)
  have ok': "ledger_ok (rows @ [r])" using ok r by (intro ledger_ok_snoc)
  have t_weight: "weight f (rows @ [r]) t = weight f rows t + f r"
    using weight_below [OF ok] weight_below [OF ok', of t] ok(2) t_below by simp
  assume p: "p \<in> set rows" "p \<noteq> t" "kind_rank (pl_kind t) \<le> Suc (kind_rank (pl_kind p))"
  have "pl_id p \<noteq> pl_id t" using ledger_ok_id_inject [OF ok(1)] p ok(2) by blast
  then have kids_p: "children (rows @ [r]) (pl_id p) = children rows (pl_id p)"
    using src by (simp add: children_snoc)
  have dist: "distinct (children rows (pl_id p))"
    using ok(1) unfolding children_def ledger_ok_def keyed_def by (auto simp: distinct_map)
  have sums: "sum_list (map (weight f (rows @ [r])) cs) = sum_list (map (weight f rows) cs)
      + (if t \<in> set cs then f r else 0)"
    if "distinct cs" "set cs \<subseteq> set (children rows (pl_id p))" for cs
    using that
  proof (induction cs)
    case (Cons c cs)
    have "c \<in> set rows" "kind_rank (pl_kind p) < kind_rank (pl_kind c)"
      using Cons.prems child_rank [OF ok(1) p(1), of c] by auto
    then have "c \<noteq> t \<Longrightarrow> weight f (rows @ [r]) c = weight f rows c"
      using p(3) by (intro other) auto
    with Cons t_weight show ?case by auto
  qed simp
  have "t \<in> set (children rows (pl_id p)) \<longleftrightarrow> pl_source t = Some (pl_id p)"
    using ok(2) by (simp add: children_def)
  with sums [OF dist] show "below f (rows @ [r]) (pl_id p) = below f rows (pl_id p)
           + (if pl_source t = Some (pl_id p) then f r else 0)"
    by (simp add: below_def kids_p)
qed

text \<open>A new charge is applied to nothing.\<close>

lemma below_snoc_charge:
  assumes "ledger_ok rows" "pl_kind r = Charge" "line_ok rows r" "l \<in> set rows"
  shows "below f (rows @ [r]) (pl_id l) = below f rows (pl_id l)"
proof -
  have src: "pl_source r \<noteq> Some k" if "line_key k" for k
    using assms(2,3) assignment_not_line_key that by (auto simp: line_ok_def)
  have kids: "children (rows @ [r]) (pl_id x) = children rows (pl_id x)" if "x \<in> set rows" for x
    using src [OF ledger_ok_line_key [OF assms(1) that]] by (simp add: children_snoc)
  have "tree_sum f n (rows @ [r]) x = tree_sum f n rows x" if "x \<in> set rows" for n x
    using that
  proof (induction n arbitrary: x)
    case (Suc n)
    have "tree_sum f n (rows @ [r]) c = tree_sum f n rows c" if "c \<in> set (children rows (pl_id x))" for c
      using child_rank [OF assms(1) Suc.prems that] by (intro Suc.IH) auto
    then show ?case using kids [OF Suc.prems] by (simp cong: map_cong)
  qed simp
  moreover have "c \<in> set rows" if "c \<in> set (children rows (pl_id l))" for c
    using that by (simp add: children_def)
  ultimately show ?thesis
    unfolding below_def weight_def kids [OF assms(4)] by (simp cong: map_cong)
qed


section \<open>Outcomes of the workflows\<close>

text \<open>A fresh uuid and the fields a handler has validated.\<close>

definition fresh_uuid :: "fee_table \<Rightarrow> ustr \<Rightarrow> bool" where
  "fresh_uuid rows fresh \<longleftrightarrow> uuid_key fresh \<and> fresh \<notin> pl_id ` set rows"

definition valid_key :: "ustr option \<Rightarrow> bool" where
  "valid_key key \<longleftrightarrow> (\<forall>k. key = Some k \<longrightarrow> validate_request_key k = Inr ())"

text \<open>The line a call appended under its target, and the room it was admitted against.\<close>

definition admitted :: "fee_table \<Rightarrow> payment_ledger \<Rightarrow> payment_ledger \<Rightarrow> bool" where
  "admitted rows t row \<longleftrightarrow>
     line_ok rows row \<and> pl_id row \<notin> pl_id ` set rows \<and> pl_source row = Some (pl_id t) \<and>
     taken rows t + pl_amount_minor row \<le> pl_amount_minor t \<and> applied_count rows t < 20"

lemma against_outcome:
  assumes ok: "ledger_ok rows" "t \<in> set rows"
    and kinds: "expected = Charge \<and> kind = Credit \<or> expected = Credit \<and> kind = Refund"
    and args: "is_ledger_amount amount" "\<And>k. keyed_id = Some k \<Longrightarrow> line_key k \<and> \<not> installment_key k" "fresh_uuid rows fresh"
    and run: "against rows t expected kind wrong over rvsd amount mtd note keyed_id by' fresh now
      = Some (rows', r)"
  shows "rows' = rows \<or>
    (\<exists>row. rows' = rows @ [row] \<and> r = Inr row \<and> pl_kind row = kind \<and> pl_kind t = expected \<and>
       pl_amount_minor row = amount \<and> admitted rows t row)"
proof (cases "pl_kind t = expected")
  case False
  with run show ?thesis by (simp add: against_def)
next
  case True
  let ?key = "case keyed_id of Some key \<Rightarrow> key | None \<Rightarrow> fresh"
  show ?thesis
  proof (cases "\<exists>k. keyed_id = Some k \<and> k \<in> pl_id ` set rows")
    case True
    then obtain k x where "keyed_id = Some k" "ledger_read rows k = Some x"
      using ledger_read_None [of rows] by fastforce
    with against_replay [OF ok \<open>pl_kind t = expected\<close>] run show ?thesis by auto
  next
    case False
    have "line_key ?key" "\<not> installment_key ?key" "?key \<notin> pl_id ` set rows"
      using False args
      by (auto simp: fresh_uuid_def fresh_not_installment intro: line_key_fresh split: option.splits)
    then have "line_ok rows (applied_line t kind amount mtd note ?key by' now)"
      using kinds args True ok(2) by (auto simp: line_ok_def points_at_def)
    with \<open>?key \<notin> pl_id ` set rows\<close> False args(3) run show ?thesis
      by (subst (asm) against_first [OF ok True])
        (auto simp: admitted_def fresh_uuid_def True Let_def split: if_splits)
  qed
qed

lemma reversal_outcome:
  assumes ok: "ledger_ok rows" "t \<in> set rows"
    and run: "reversal rows t note by' now = Some (rows', r)"
  shows "rows' = rows \<or>
    (\<exists>row. rows' = rows @ [row] \<and> r = Inr row \<and> pl_kind row = Reversal \<and>
       (pl_kind t = Charge \<or> pl_kind t = Refund) \<and>
       line_ok rows row \<and> pl_id row \<notin> pl_id ` set rows \<and> pl_source row = Some (pl_id t))"
proof (cases "pl_kind t = Charge \<or> pl_kind t = Refund")
  case True
  let ?row = "applied_line t Reversal (pl_amount_minor t) None note (for_reversal (pl_id t)) by' now"
  from ok have t: "line_key (pl_id t)" "is_ledger_amount (pl_amount_minor t)"
    by (auto simp: ledger_ok_def line_ok_def)
  show ?thesis
  proof (cases "pl_id ?row \<in> pl_id ` set rows")
    case False
    have "line_ok rows ?row"
      using t True ok(2) by (auto simp: line_ok_def points_at_def line_key_reversal reversal_not_installment)
    with False run True ledger_append_fresh [of ?row rows] show ?thesis
      by (auto simp: reversal_eq [OF ok True] run_tx_def)
  next
    case stored: True
    then obtain x where "ledger_read rows (pl_id ?row) = Some x"
      using ledger_read_None [of rows "pl_id ?row"] by auto
    then have "fst (ledger_append rows ?row) = rows" by (rule fee_append.append_stored)
    with run show ?thesis
      by (auto simp: reversal_eq [OF ok True] run_tx_def split: prod.splits sum.splits)
  qed
qed (use run in \<open>simp add: reversal_def\<close>)

lemma keyed_line_key:
  assumes "ledger_ok rows" "t \<in> set rows" "valid_key key" "m \<in> {u ''k'', u ''kr''}"
    and "map_option (for_request (pl_id t) m) key = Some k"
  shows "line_key k \<and> \<not> installment_key k"
proof -
  from assms(5) obtain j where "key = Some j" "k = for_request (pl_id t) m j" by auto
  with assms show ?thesis
    using line_key_request [OF ledger_ok_line_key [OF assms(1,2)] assms(4)]
      request_not_installment [OF ledger_ok_line_key [OF assms(1,2)] assms(4)] by (simp add: valid_key_def)
qed

lemma credit_outcome:
  assumes ok: "ledger_ok rows" "t \<in> set rows"
    and args: "is_ledger_amount amount" "valid_key key" "fresh_uuid rows fresh"
    and run: "credit rows t amount mtd note key by' fresh now = Some (rows', r)"
  shows "rows' = rows \<or>
    (\<exists>row. rows' = rows @ [row] \<and> r = Inr row \<and> pl_kind row = Credit \<and> pl_kind t = Charge \<and>
       pl_amount_minor row = amount \<and> admitted rows t row)"
  by (rule against_outcome [OF ok _ args(1) _ args(3) run [unfolded credit_def]])
    (simp, rule keyed_line_key [OF ok args(2), of "u ''k''"], simp_all)

lemma refund_outcome:
  assumes ok: "ledger_ok rows" "t \<in> set rows"
    and args: "is_ledger_amount amount" "valid_key key" "fresh_uuid rows fresh"
    and run: "refund rows t amount mtd note key by' fresh now = Some (rows', r)"
  shows "rows' = rows \<or>
    (\<exists>row. rows' = rows @ [row] \<and> r = Inr row \<and> pl_kind row = Refund \<and> pl_kind t = Credit \<and>
       pl_amount_minor row = amount \<and> admitted rows t row)"
  by (rule against_outcome [OF ok _ args(1) _ args(3) run [unfolded refund_def]])
    (simp, rule keyed_line_key [OF ok args(2), of "u ''kr''"], simp_all)

lemma charge_outcome:
  assumes "uuid_key (fpa_plan a)" "uuid_key (fpa_student a)" "is_ledger_amount amount"
    and run: "charge_for_installment rows a n amount due by' now = (rows', r)"
  shows "rows' = rows \<or>
    (\<exists>row. rows' = rows @ [row] \<and> r = Inr row \<and> pl_kind row = Charge \<and> line_ok rows row \<and>
       pl_id row \<notin> pl_id ` set rows \<and> pl_id row = for_installment a n)"
proof (cases "for_installment a n \<in> pl_id ` set rows")
  case True
  then obtain x where "ledger_read rows (for_installment a n) = Some x"
    using ledger_read_None [of rows "for_installment a n"] by auto
  then show ?thesis
    using run fee_append.append_stored [of rows] by (auto simp: charge_for_installment_def prod_eq_iff)
next
  case False
  with assms show ?thesis
    by (auto simp: charge_for_installment_def ledger_append_fresh line_ok_def line_key_installment)
qed


section \<open>Runs\<close>

text \<open>
  All calls that write the fee table: an installment billed by an assignment and the three
  handlers.  The label says whether the call is a reversal.
\<close>

inductive fee_step :: "bool \<Rightarrow> fee_table \<Rightarrow> fee_table \<Rightarrow> bool" where
  step_charge: "uuid_key (fpa_plan a) \<Longrightarrow> uuid_key (fpa_student a) \<Longrightarrow> is_ledger_amount amount \<Longrightarrow>
    charge_for_installment rows a n amount due by' now = (rows', r) \<Longrightarrow> fee_step False rows rows'"
| step_payment: "fresh_uuid rows fresh \<Longrightarrow>
    record_payment rows req by' fresh now = Some (rows', r) \<Longrightarrow> fee_step False rows rows'"
| step_refund: "fresh_uuid rows fresh \<Longrightarrow>
    record_refund rows req by' fresh now = Some (rows', r) \<Longrightarrow> fee_step False rows rows'"
| step_reversal: "record_reversal rows key note by' now = Some (rows', r) \<Longrightarrow> fee_step True rows rows'"

inductive fee_reachable :: "bool \<Rightarrow> fee_table \<Rightarrow> bool" where
  reach_empty: "fee_reachable allow []"
| reach_step: "fee_reachable allow rows \<Longrightarrow> fee_step rv rows rows' \<Longrightarrow> (rv \<longrightarrow> allow) \<Longrightarrow>
    fee_reachable allow rows'"

lemma require_line_Inr: "require_line rows key = Inr t \<Longrightarrow> t \<in> set rows \<and> pl_id t = key"
  by (auto simp: require_line_def ledger_read_def dest: find_row_SomeD)

lemma request_key_of_valid: "request_key_of raw = Inr key \<Longrightarrow> valid_key key"
  by (auto simp: request_key_of_def opt_field_def payment_request_key_try_new_def valid_key_def
      split: option.splits)

lemma checked_fields_Inr:
  "checked_fields req = Inr (amount, mtd, note, key) \<Longrightarrow> is_ledger_amount amount \<and> valid_key key"
  by (auto simp: checked_fields_def ledger_amount_try_new_Inr dest: request_key_of_valid)

text \<open>What a step does to a well-formed table, in one place.\<close>

definition step_effect :: "bool \<Rightarrow> fee_table \<Rightarrow> payment_ledger \<Rightarrow> bool" where
  "step_effect rv rows row \<longleftrightarrow>
     line_ok rows row \<and> pl_id row \<notin> pl_id ` set rows \<and> (pl_kind row = Reversal \<longleftrightarrow> rv) \<and>
     (pl_kind row = Credit \<or> pl_kind row = Refund \<longrightarrow> (\<exists>t \<in> set rows. admitted rows t row))"

lemma fee_step_cases:
  assumes "fee_step rv rows rows'" "ledger_ok rows"
  shows "rows' = rows \<or> (\<exists>row. rows' = rows @ [row] \<and> step_effect rv rows row)"
  using assms
proof (induction rule: fee_step.induct)
  case (step_charge a amount rows n due by' now rows' r)
  from charge_outcome [OF step_charge(1-4)] show ?case by (auto simp: step_effect_def)
next
  case (step_payment rows fresh req by' now rows' r)
  show ?case
  proof (cases "require_line rows (ra_target req)")
    case (Inr t)
    show ?thesis
    proof (cases "checked_fields req")
      case fields: (Inr x)
      obtain amount mtd nt key where x: "x = (amount, mtd, nt, key)" by (cases x)
      with step_payment(2) Inr fields have "credit rows t amount mtd nt key by' fresh now = Some (rows', r)"
        by (simp add: record_payment_def)
      with credit_outcome [OF step_payment(3) _ _ _ step_payment(1)] require_line_Inr [OF Inr]
        checked_fields_Inr [of req] fields x
      show ?thesis by (fastforce simp: step_effect_def admitted_def)
    qed (use step_payment Inr in \<open>simp add: record_payment_def\<close>)
  qed (use step_payment in \<open>simp add: record_payment_def\<close>)
next
  case (step_refund rows fresh req by' now rows' r)
  show ?case
  proof (cases "require_line rows (ra_target req)")
    case (Inr t)
    show ?thesis
    proof (cases "checked_fields req")
      case fields: (Inr x)
      obtain amount mtd nt key where x: "x = (amount, mtd, nt, key)" by (cases x)
      with step_refund(2) Inr fields have "refund rows t amount mtd nt key by' fresh now = Some (rows', r)"
        by (simp add: record_refund_def)
      with refund_outcome [OF step_refund(3) _ _ _ step_refund(1)] require_line_Inr [OF Inr]
        checked_fields_Inr [of req] fields x
      show ?thesis by (fastforce simp: step_effect_def admitted_def)
    qed (use step_refund Inr in \<open>simp add: record_refund_def\<close>)
  qed (use step_refund in \<open>simp add: record_refund_def\<close>)
next
  case (step_reversal rows key raw by' now rows' r)
  show ?case
  proof (cases "require_line rows key")
    case (Inr t)
    show ?thesis
    proof (cases "note_of raw")
      case n: (Inr nt)
      with step_reversal(1) Inr have "reversal rows t nt by' now = Some (rows', r)"
        by (simp add: record_reversal_def)
      with reversal_outcome [OF step_reversal(2)] require_line_Inr [OF Inr]
      show ?thesis by (fastforce simp: step_effect_def)
    qed (use step_reversal Inr in \<open>simp add: record_reversal_def\<close>)
  qed (use step_reversal in \<open>simp add: record_reversal_def\<close>)
qed

lemma fee_step_ok: "fee_step rv rows rows' \<Longrightarrow> ledger_ok rows \<Longrightarrow> ledger_ok rows'"
  using fee_step_cases by (force simp: step_effect_def intro: ledger_ok_snoc)

lemma fee_reachable_ok: "fee_reachable allow rows \<Longrightarrow> ledger_ok rows"
  by (induction rule: fee_reachable.induct) (auto intro: fee_step_ok)

end
