(* ===== verification/Payment_Properties.thy ===== *)
theory Payment_Properties
  imports Payment_Workflows
begin

text \<open>
  The theorems about the fee ledger: the over-payment cap, retry safety, the agreement of the
  three readings of the same money (the subtree fold, the statement and the balance), and
  where the cap stops holding.
\<close>

section \<open>The cap\<close>

definition capped :: "fee_table \<Rightarrow> bool" where
  "capped rows \<longleftrightarrow>
     (\<forall>r \<in> set rows. pl_kind r \<noteq> Reversal) \<and>
     (\<forall>t \<in> set rows. pl_kind t = Charge \<or> pl_kind t = Credit \<longrightarrow> taken rows t \<le> pl_amount_minor t)"

lemma child_target:
  assumes "ledger_ok rows" "t \<in> set rows" "c \<in> set (children rows (pl_id t))"
  shows "pl_kind t = Charge \<Longrightarrow> pl_kind c = Credit \<or> pl_kind c = Reversal"
    and "pl_kind t = Credit \<Longrightarrow> pl_kind c = Refund"
    and "pl_kind t = Refund \<Longrightarrow> pl_kind c = Reversal"
    and "pl_kind t \<noteq> Reversal"
    and "pl_student c = pl_student t"
    and "pl_kind c = Reversal \<Longrightarrow> pl_amount_minor c = pl_amount_minor t \<and> pl_id c = for_reversal (pl_id t)"
proof -
  have c: "c \<in> set rows" "pl_source c = Some (pl_id t)" using assms(3) by (auto simp: children_def)
  then have line: "line_ok rows c" using assms(1) by (simp add: ledger_ok_def)
  have not_charge: "pl_kind c \<noteq> Charge" using child_rank [OF assms] by auto
  have p: "p = t" if "points_at rows c p" for p
    using that c(2) ledger_ok_id_inject [OF assms(1) _ assms(2)] by (auto simp: points_at_def)
  have pt: "(pl_kind c = Credit \<and> pl_kind t = Charge \<or> pl_kind c = Refund \<and> pl_kind t = Credit \<or>
      pl_kind c = Reversal \<and> (pl_kind t = Charge \<or> pl_kind t = Refund) \<and>
        pl_amount_minor c = pl_amount_minor t \<and> pl_id c = for_reversal (pl_id t))
      \<and> pl_student c = pl_student t"
    using line not_charge p by (cases "pl_kind c") (auto simp: line_ok_def points_at_def)
  then show "pl_kind t = Charge \<Longrightarrow> pl_kind c = Credit \<or> pl_kind c = Reversal"
    and "pl_kind t = Credit \<Longrightarrow> pl_kind c = Refund"
    and "pl_kind t = Refund \<Longrightarrow> pl_kind c = Reversal"
    and "pl_kind t \<noteq> Reversal"
    and "pl_student c = pl_student t"
    and "pl_kind c = Reversal \<Longrightarrow> pl_amount_minor c = pl_amount_minor t \<and> pl_id c = for_reversal (pl_id t)"
    by auto
qed

lemma below_no_children: "children rows k = [] \<Longrightarrow> below f rows k = 0"
  by (simp add: below_def)

lemma sum_list_nonneg_map: "(\<And>x. x \<in> set xs \<Longrightarrow> 0 \<le> g x) \<Longrightarrow> 0 \<le> sum_list (map g xs)"
  for g :: "'a \<Rightarrow> int"
  by (induction xs) auto

lemma weight_refund:
  assumes "ledger_ok rows" "\<forall>r \<in> set rows. pl_kind r \<noteq> Reversal" "x \<in> set rows" "pl_kind x = Refund"
  shows "weight signed rows x = - pl_amount_minor x"
proof -
  have "children rows (pl_id x) = []"
    using child_target(3) [OF assms(1,3) _ assms(4)] assms(2) hd_in_set [of "children rows (pl_id x)"]
    by (force simp: children_def)
  then show ?thesis
    using weight_below [OF assms(1,3), of signed] assms(4) by (simp add: below_no_children signed_def)
qed

lemma taken_nonneg:
  assumes ok: "ledger_ok rows" and cap: "capped rows" and t: "t \<in> set rows"
    and k: "pl_kind t = Charge \<or> pl_kind t = Credit"
  shows "0 \<le> taken rows t"
proof -
  have no_rev: "\<forall>r \<in> set rows. pl_kind r \<noteq> Reversal" using cap by (simp add: capped_def)
  have kid: "c \<in> set rows" if "c \<in> set (children rows (pl_id t))" for c
    using that by (simp add: children_def)
  from k show ?thesis
  proof
    assume ch: "pl_kind t = Charge"
    have "0 \<le> weight signed rows c" if c: "c \<in> set (children rows (pl_id t))" for c
    proof -
      have "pl_kind c = Credit" using child_target(1) [OF ok t c ch] no_rev kid [OF c] by auto
      with cap kid [OF c] have "taken rows c \<le> pl_amount_minor c" by (simp add: capped_def)
      with \<open>pl_kind c = Credit\<close> weight_below [OF ok kid [OF c], of signed] show ?thesis
        by (simp add: taken_def signed_def)
    qed
    then show ?thesis
      using ch by (simp add: taken_def below_def sum_list_nonneg_map)
  next
    assume cr: "pl_kind t = Credit"
    have "0 \<le> - weight signed rows c" if c: "c \<in> set (children rows (pl_id t))" for c
      using weight_refund [OF ok no_rev kid [OF c] child_target(2) [OF ok t c cr]] ok kid [OF c]
      by (auto simp: ledger_ok_def line_ok_def is_ledger_amount_def)
    then have "0 \<le> sum_list (map (\<lambda>c. - weight signed rows c) (children rows (pl_id t)))"
      by (rule sum_list_nonneg_map)
    then show ?thesis using cr by (simp add: taken_def below_def uminus_sum_list_map comp_def)
  qed
qed

lemma admitted_target:
  assumes "ledger_ok rows" "t \<in> set rows" "admitted rows t row"
  shows "pl_kind row = Credit \<Longrightarrow> pl_kind t = Charge" "pl_kind row = Refund \<Longrightarrow> pl_kind t = Credit"
proof -
  have "p = t" if "points_at rows row p" for p
    using that assms ledger_ok_id_inject [OF assms(1) _ assms(2)] by (auto simp: points_at_def admitted_def)
  then show "pl_kind row = Credit \<Longrightarrow> pl_kind t = Charge" "pl_kind row = Refund \<Longrightarrow> pl_kind t = Credit"
    using assms(3) by (auto simp: admitted_def line_ok_def)
qed

lemma charge_source_not_line:
  "ledger_ok rows \<Longrightarrow> t \<in> set rows \<Longrightarrow> pl_kind t = Charge \<Longrightarrow> p \<in> set rows \<Longrightarrow>
   pl_source t \<noteq> Some (pl_id p)"
  using child_rank [of rows p t] by (auto simp: children_def)

lemma capped_step:
  assumes ok: "ledger_ok rows" and cap: "capped rows" and eff: "step_effect False rows row"
  shows "capped (rows @ [row])"
proof -
  let ?rows = "rows @ [row]"
  have row: "line_ok rows row" "pl_id row \<notin> pl_id ` set rows" "pl_kind row \<noteq> Reversal"
    using eff by (auto simp: step_effect_def)
  have new: "taken ?rows row \<le> pl_amount_minor row"
    using row(1) no_children_of_fresh [OF ok row(1,2)]
    by (simp add: taken_def below_no_children line_ok_def is_ledger_amount_def)
  have pos: "0 < pl_amount_minor row" using row(1) by (simp add: line_ok_def is_ledger_amount_pos)
  have old: "taken ?rows p \<le> pl_amount_minor p"
    if p: "p \<in> set rows" "pl_kind p = Charge \<or> pl_kind p = Credit" for p
  proof (cases "pl_kind row = Charge")
    case True
    have "taken ?rows p = taken rows p"
      by (simp add: taken_def below_snoc_charge [OF ok True row(1) p(1)])
    with cap p show ?thesis by (auto simp: capped_def)
  next
    case False
    with row(3) have "pl_kind row = Credit \<or> pl_kind row = Refund" by (cases "pl_kind row") auto
    with eff obtain t where t: "t \<in> set rows" and adm: "admitted rows t row"
      by (auto simp: step_effect_def)
    from adm have src: "pl_source row = Some (pl_id t)" by (simp add: admitted_def)
    note snoc = below_snoc [OF ok t row(1,2) src, where f = signed]
    have tk: "pl_kind row = Credit \<and> pl_kind t = Charge \<or> pl_kind row = Refund \<and> pl_kind t = Credit"
      using admitted_target [OF ok t adm] \<open>pl_kind row = Credit \<or> pl_kind row = Refund\<close> by auto
    show ?thesis
    proof (cases "p = t")
      case True
      with tk adm snoc(1) show ?thesis by (auto simp: taken_def admitted_def signed_def)
    next
      case other: False
      have "pl_source t = Some (pl_id p) \<Longrightarrow> pl_kind t = Credit \<and> pl_kind p = Charge"
        using charge_source_not_line [OF ok t _ p(1)] tk p(2)
          child_target(2) [OF ok p(1), of t] t by (auto simp: children_def)
      moreover have "taken rows p \<le> pl_amount_minor p" using cap p by (auto simp: capped_def)
      ultimately show ?thesis
        using snoc(3) [OF p(1) other] tk pos by (auto simp: taken_def signed_def split: if_splits)
    qed
  qed
  show ?thesis
    using cap new old row(3) by (auto simp: capped_def)
qed

lemma fee_reachable_capped: "fee_reachable allow rows \<Longrightarrow> \<not> allow \<Longrightarrow> capped rows"
proof (induction rule: fee_reachable.induct)
  case (reach_empty allow)
  then show ?case by (simp add: capped_def)
next
  case (reach_step allow rows rv rows')
  then have "ledger_ok rows" by (simp add: fee_reachable_ok)
  with reach_step fee_step_cases [of rv rows rows'] show ?case
    by (auto intro: capped_step)
qed

section \<open>The statement and the balance read the same money\<close>

lemma mset_sum_list: "mset xs = mset ys \<Longrightarrow> sum_list (map f xs) = sum_list (map f ys)"
  for f :: "'a \<Rightarrow> int"
  by (metis mset_map sum_mset_sum_list)

lemma children_distinct: "ledger_ok rows \<Longrightarrow> distinct (map pl_id (children rows k))"
  by (auto simp: children_def ledger_ok_def keyed_def distinct_map inj_on_def)

lemma weight_reversal:
  assumes "ledger_ok rows" "x \<in> set rows" "pl_kind x = Reversal"
  shows "weight signed rows x = pl_amount_minor x"
proof -
  have "children rows (pl_id x) = []"
    using child_target(4) [OF assms(1,2)] assms(3) hd_in_set by blast
  then show ?thesis using weight_below [OF assms(1,2), of signed] assms(3)
    by (simp add: below_no_children signed_def)
qed

text \<open>A line has at most one reversal, for its exact amount: a reversed refund weighs nothing.\<close>

lemma single_reversal:
  assumes ok: "ledger_ok rows" "x \<in> set rows"
  shows "filter (\<lambda>c. pl_kind c = Reversal) (children rows (pl_id x)) = [] \<or>
    (\<exists>c. filter (\<lambda>c. pl_kind c = Reversal) (children rows (pl_id x)) = [c] \<and> c \<in> set rows \<and>
       pl_kind c = Reversal \<and> pl_amount_minor c = pl_amount_minor x \<and> pl_id c = for_reversal (pl_id x))"
proof -
  let ?cs = "filter (\<lambda>c. pl_kind c = Reversal) (children rows (pl_id x))"
  have all: "c \<in> set rows \<and> pl_kind c = Reversal \<and> pl_amount_minor c = pl_amount_minor x \<and>
      pl_id c = for_reversal (pl_id x)" if "c \<in> set ?cs" for c
    using child_target(6) [OF ok, of c] that by (auto simp: children_def)
  have d: "distinct (map pl_id ?cs)" using children_distinct [OF ok(1)] by (rule distinct_map_filter)
  show ?thesis
  proof (cases ?cs)
    case (Cons c cs)
    have "cs = []"
    proof (rule ccontr)
      assume "cs \<noteq> []"
      then have "hd cs \<in> set ?cs" "c \<in> set ?cs" using Cons by auto
      with all have "pl_id (hd cs) = pl_id c" by metis
      with d Cons \<open>cs \<noteq> []\<close> show False by (metis distinct.simps(2) hd_in_set image_eqI image_set list.simps(9))
    qed
    with Cons all [of c] show ?thesis by simp
  qed simp
qed

lemma weight_refund_reversed:
  assumes ok: "ledger_ok rows" "x \<in> set rows" "pl_kind x = Refund"
  shows "weight signed rows x = (if reversed_in rows (pl_id x) then 0 else - pl_amount_minor x)"
proof -
  have "children rows (pl_id x) = filter (\<lambda>c. pl_kind c = Reversal) (children rows (pl_id x))"
    using child_target(3) [OF ok(1,2) _ ok(3)] by (auto intro!: filter_True [symmetric])
  with single_reversal [OF ok(1,2)] have "children rows (pl_id x) = [] \<or>
      (\<exists>c. children rows (pl_id x) = [c] \<and> c \<in> set rows \<and> pl_kind c = Reversal \<and>
         pl_amount_minor c = pl_amount_minor x)" by auto
  then show ?thesis
    using weight_below [OF ok(1,2), of signed] weight_reversal [OF ok(1)] ok(3)
    by (auto simp: below_def reversed_in_def signed_def)
qed

text \<open>The rollup of a charge, over the whole table.\<close>

definition rollup :: "fee_table \<Rightarrow> payment_ledger \<Rightarrow> int" where
  "rollup rows c =
     sum_list (map (\<lambda>x. pl_amount_minor x - sum_list (map pl_amount_minor
         (filter (\<lambda>f. pl_kind f = Refund \<and> \<not> reversed_in rows (pl_id f)) (children rows (pl_id x)))))
       (filter (\<lambda>x. pl_kind x = Credit) (children rows (pl_id c))))"

lemma weight_credit:
  assumes ok: "ledger_ok rows" "x \<in> set rows" "pl_kind x = Credit"
  shows "weight signed rows x = pl_amount_minor x - sum_list (map pl_amount_minor
      (filter (\<lambda>f. pl_kind f = Refund \<and> \<not> reversed_in rows (pl_id f)) (children rows (pl_id x))))"
proof -
  have kid: "f \<in> set rows \<and> pl_kind f = Refund" if "f \<in> set (children rows (pl_id x))" for f
    using child_target(2) [OF ok(1,2) that ok(3)] that by (auto simp: children_def)
  have "sum_list (map (weight signed rows) fs) = - sum_list (map pl_amount_minor
      (filter (\<lambda>f. pl_kind f = Refund \<and> \<not> reversed_in rows (pl_id f)) fs))"
    if "set fs \<subseteq> set (children rows (pl_id x))" for fs
    using that
  proof (induction fs)
    case (Cons f fs)
    then show ?case using kid [of f] weight_refund_reversed [OF ok(1), of f] by auto
  qed simp
  then show ?thesis using weight_below [OF ok(1,2), of signed] ok(3)
    by (simp add: below_def signed_def)
qed

text \<open>A reversed charge: its one reversal is a child of its exact amount, beside the payments.\<close>

lemma sum_by_kind:
  fixes f :: "payment_ledger \<Rightarrow> int"
  assumes "\<And>x. x \<in> set xs \<Longrightarrow> pl_kind x = a \<or> pl_kind x = b" "a \<noteq> b"
  shows "sum_list (map f xs) = sum_list (map f (filter (\<lambda>x. pl_kind x = a) xs)) + sum_list (map f (filter (\<lambda>x. pl_kind x = b) xs))"
  using assms
proof (induction xs)
  case (Cons x xs)
  then have "pl_kind x = a \<or> pl_kind x = b" by simp
  with Cons show ?case by auto
qed simp

lemma below_charge:
  assumes ok: "ledger_ok rows" "c \<in> set rows" "pl_kind c = Charge"
  shows "below signed rows (pl_id c) = rollup rows c + (if reversed_in rows (pl_id c) then pl_amount_minor c else 0)"
proof -
  let ?kids = "children rows (pl_id c)"
  let ?sum = "\<lambda>k. sum_list (map (weight signed rows) (filter (\<lambda>x. pl_kind x = k) ?kids))"
  have kid: "x \<in> set rows \<and> (pl_kind x = Credit \<or> pl_kind x = Reversal)" if "x \<in> set ?kids" for x
    using child_target(1) [OF ok(1,2) that ok(3)] that by (auto simp: children_def)
  have "?sum Credit + ?sum Reversal = sum_list (map (weight signed rows) ?kids)"
    by (rule sum_by_kind [symmetric]) (use kid in blast, simp)
  then have "below signed rows (pl_id c) = ?sum Credit + ?sum Reversal" by (simp only: below_def)
  moreover have "?sum Credit = rollup rows c"
    unfolding rollup_def using kid weight_credit [OF ok(1)] by (intro arg_cong [of _ _ sum_list] map_cong refl) simp
  moreover have "?sum Reversal = (if reversed_in rows (pl_id c) then pl_amount_minor c else 0)"
    using single_reversal [OF ok(1,2)] weight_reversal [OF ok(1)]
    by (auto simp: reversed_in_def list_ex_iff filter_empty_conv)
  ultimately show ?thesis by simp
qed

lemma reversed_in_iff:
  assumes "ledger_ok rows" "x \<in> set rows" "pl_kind x = Charge \<or> pl_kind x = Refund"
  shows "reversed_in rows (pl_id x) \<longleftrightarrow> for_reversal (pl_id x) \<in>
    pl_id ` {r \<in> set rows. pl_kind r = Reversal \<and> pl_source r = Some (pl_id x)}"
  using child_target(6) [OF assms(1,2)] by (auto simp: reversed_in_def list_ex_iff children_def)

lemma children_statement:
  assumes "ledger_ok rows" "t \<in> set rows" "mset lines = mset (filter (\<lambda>l. pl_student l = pl_student t) rows)"
  shows "mset (children lines (pl_id t)) = mset (children rows (pl_id t))"
proof -
  have "filter (\<lambda>l. pl_source l = Some (pl_id t)) (filter (\<lambda>l. pl_student l = pl_student t) rows)
      = filter (\<lambda>l. pl_source l = Some (pl_id t)) rows"
    unfolding filter_filter using child_target(5) [OF assms(1,2)]
    by (intro filter_cong) (auto simp: children_def)
  then show ?thesis unfolding children_def by (metis assms(3) mset_filter)
qed

lemma statement_rollup:
  assumes ok: "ledger_ok rows" "c \<in> set rows" "pl_kind c = Charge"
    and lines: "mset lines = mset (filter (\<lambda>l. pl_student l = pl_student c) rows)"
  shows "se_reversed (statement_entry po pn now lines c) = reversed_in rows (pl_id c)"
    and "se_credited_minor (statement_entry po pn now lines c)
           - se_refunded_minor (statement_entry po pn now lines c) = rollup rows c"
proof -
  have rev: "reversed_in lines (pl_id t) = reversed_in rows (pl_id t)"
    if "t \<in> set rows" "pl_student t = pl_student c" for t
  proof -
    have "mset (children lines (pl_id t)) = mset (children rows (pl_id t))"
      using children_statement [OF ok(1) that(1), of lines] lines that(2) by simp
    from mset_eq_setD [OF this] show ?thesis by (simp add: reversed_in_def list_ex_iff)
  qed
  from rev [OF ok(2)] show "se_reversed (statement_entry po pn now lines c) = reversed_in rows (pl_id c)"
    by (simp add: statement_entry_def Let_def)
  let ?R = "\<lambda>ls f. pl_kind f = Refund \<and> \<not> reversed_in ls (pl_id f)"
  let ?paid = "\<lambda>ls. filter (\<lambda>x. pl_kind x = Credit) (children ls (pl_id c))"
  have paid: "mset (?paid lines) = mset (?paid rows)"
    using children_statement [OF ok(1,2)] lines by (metis mset_filter)
  have inner: "sum_list (map pl_amount_minor (filter (?R lines) (children lines (pl_id x)))) =
      sum_list (map pl_amount_minor (filter (?R rows) (children rows (pl_id x))))"
    if x: "x \<in> set (?paid rows)" for x
  proof -
    have xr: "x \<in> set rows" "pl_student x = pl_student c"
      using x child_target(5) [OF ok(1,2), of x] by (auto simp: children_def)
    have "filter (?R lines) (children rows (pl_id x)) = filter (?R rows) (children rows (pl_id x))"
    proof (rule filter_cong)
      fix f assume f: "f \<in> set (children rows (pl_id x))"
      then have "f \<in> set rows" by (simp add: children_def)
      with rev [of f] child_target(5) [OF ok(1) xr(1) f] xr(2) show "?R lines f = ?R rows f" by simp
    qed simp
    moreover have "mset (filter (?R lines) (children lines (pl_id x)))
        = mset (filter (?R lines) (children rows (pl_id x)))"
      using children_statement [OF ok(1) xr(1), of lines] lines xr(2) by simp
    ultimately show ?thesis using mset_sum_list [of "filter (?R lines) (children lines (pl_id x))"
        "filter (?R lines) (children rows (pl_id x))" pl_amount_minor] by simp
  qed
  have "se_credited_minor (statement_entry po pn now lines c)
      - se_refunded_minor (statement_entry po pn now lines c)
      = sum_list (map (\<lambda>x. pl_amount_minor x - sum_list (map pl_amount_minor
          (filter (?R lines) (children lines (pl_id x))))) (?paid lines))"
    by (simp add: statement_entry_def Let_def filter_concat sum_list_concat_map comp_def
        sum_list_subtractf)
  also have "\<dots> = sum_list (map (\<lambda>x. pl_amount_minor x - sum_list (map pl_amount_minor
          (filter (?R lines) (children lines (pl_id x))))) (?paid rows))"
    by (rule mset_sum_list [OF paid])
  also have "\<dots> = rollup rows c"
    unfolding rollup_def by (intro arg_cong [of _ _ sum_list] map_cong refl) (simp only: inner)
  finally show "se_credited_minor (statement_entry po pn now lines c)
      - se_refunded_minor (statement_entry po pn now lines c) = rollup rows c" .
qed

text \<open>Every line hangs below exactly one charge: the levels of the table.\<close>

fun level :: "fee_table \<Rightarrow> nat \<Rightarrow> payment_ledger \<Rightarrow> bool" where
  "level rows 0 x \<longleftrightarrow> pl_kind x = Charge"
| "level rows (Suc n) x \<longleftrightarrow>
     list_ex (\<lambda>c. level rows n c \<and> pl_source x = Some (pl_id c)) rows"

lemma level_rank: "ledger_ok rows \<Longrightarrow> x \<in> set rows \<Longrightarrow> level rows n x \<Longrightarrow> n \<le> kind_rank (pl_kind x)"
proof (induction n arbitrary: x)
  case (Suc n)
  then obtain c where "c \<in> set rows" "level rows n c" "pl_source x = Some (pl_id c)"
    by (auto simp: list_ex_iff)
  with Suc child_rank [of rows c x] show ?case by (fastforce simp: children_def)
qed simp

lemma level_unique:
  assumes ok: "ledger_ok rows"
  shows "x \<in> set rows \<Longrightarrow> level rows m x \<Longrightarrow> level rows n x \<Longrightarrow> m = n"
proof (induction m arbitrary: n x)
  case 0
  then show ?case using charge_source_not_line [OF ok, of x] by (cases n) (auto simp: list_ex_iff)
next
  case (Suc m)
  then obtain c where c: "c \<in> set rows" "level rows m c" "pl_source x = Some (pl_id c)"
    by (auto simp: list_ex_iff)
  have "pl_kind x \<noteq> Charge" using charge_source_not_line [OF ok Suc.prems(1) _ c(1)] c(3) by blast
  with Suc.prems(3) obtain k where n: "n = Suc k" by (cases n) simp_all
  with Suc.prems(3) obtain d where d: "d \<in> set rows" "level rows k d" "pl_source x = Some (pl_id d)"
    by (auto simp: list_ex_iff)
  from c(3) d(3) have "pl_id c = pl_id d" by simp
  with ledger_ok_id_inject [OF ok c(1) d(1)] have "c = d" by blast
  with d have "level rows k c" by simp
  with Suc.IH [OF c(1,2)] n show ?case by simp
qed

lemma level_exists:
  assumes ok: "ledger_ok rows"
  shows "x \<in> set rows \<Longrightarrow> \<exists>n < 4. level rows n x"
proof (induction "kind_rank (pl_kind x)" arbitrary: x rule: less_induct)
  case less
  show ?case
  proof (cases "pl_kind x = Charge")
    case True
    then show ?thesis by (intro exI [of _ 0]) simp
  next
    case False
    from less.prems ok have "line_ok rows x" by (simp add: ledger_ok_def)
    with False obtain p where p: "p \<in> set rows" "pl_source x = Some (pl_id p)"
      and rank: "kind_rank (pl_kind p) < kind_rank (pl_kind x)"
      by (cases "pl_kind x") (auto simp: line_ok_def points_at_def)
    with less.hyps [of p] obtain n where "level rows n p" by auto
    with p have "level rows (Suc n) x" by (auto simp: list_ex_iff)
    with level_rank [OF ok less.prems this] kind_rank_le [of "pl_kind x"] show ?thesis
      by (intro exI [of _ "Suc n"]) simp
  qed
qed

lemma sum_children:
  fixes g :: "payment_ledger \<Rightarrow> int"
  assumes "distinct (map pl_id cs)"
  shows "sum_list (map (\<lambda>c. sum_list (map g (children rows (pl_id c)))) cs) =
    sum_list (map g (filter (\<lambda>x. list_ex (\<lambda>c. pl_source x = Some (pl_id c)) cs) rows))"
  using assms
proof (induction cs)
  case (Cons c cs)
  have "sum_list (map g (filter (\<lambda>x. pl_source x = Some (pl_id c) \<or> list_ex (\<lambda>c. pl_source x = Some (pl_id c)) cs) xs))
      = sum_list (map g (filter (\<lambda>x. pl_source x = Some (pl_id c)) xs))
      + sum_list (map g (filter (\<lambda>x. list_ex (\<lambda>c. pl_source x = Some (pl_id c)) cs) xs))" for xs
    using Cons.prems by (induction xs) (auto simp: list_ex_iff image_iff)
  with Cons show ?case by (simp add: children_def)
qed simp

lemma level_sum:
  assumes ok: "ledger_ok rows"
  shows "sum_list (map (weight f rows) (filter (\<lambda>x. pl_student x = s \<and> level rows n x) rows)) =
    sum_list (map f (filter (\<lambda>x. pl_student x = s \<and> level rows n x) rows)) +
    sum_list (map (weight f rows) (filter (\<lambda>x. pl_student x = s \<and> level rows (Suc n) x) rows))"
proof -
  let ?L = "filter (\<lambda>x. pl_student x = s \<and> level rows n x) rows"
  have "sum_list (map (weight f rows) ?L) =
      sum_list (map (\<lambda>c. f c + sum_list (map (weight f rows) (children rows (pl_id c)))) ?L)"
    by (intro arg_cong [of _ _ sum_list] map_cong refl) (simp add: weight_below [OF ok] below_def)
  also have "\<dots> = sum_list (map f ?L) +
      sum_list (map (\<lambda>c. sum_list (map (weight f rows) (children rows (pl_id c)))) ?L)"
    by (rule sum_list_addf)
  also have "sum_list (map (\<lambda>c. sum_list (map (weight f rows) (children rows (pl_id c)))) ?L) =
      sum_list (map (weight f rows) (filter (\<lambda>x. list_ex (\<lambda>c. pl_source x = Some (pl_id c)) ?L) rows))"
    using ok by (intro sum_children) (auto simp: ledger_ok_def keyed_def distinct_map inj_on_def)
  also have "filter (\<lambda>x. list_ex (\<lambda>c. pl_source x = Some (pl_id c)) ?L) rows =
      filter (\<lambda>x. pl_student x = s \<and> level rows (Suc n) x) rows"
  proof (rule filter_cong)
    fix x assume x: "x \<in> set rows"
    have "pl_student x = pl_student c" if "c \<in> set rows" "pl_source x = Some (pl_id c)" for c
      using child_target(5) [OF ok that(1), of x] x that(2) by (simp add: children_def)
    then show "list_ex (\<lambda>c. pl_source x = Some (pl_id c)) ?L = (pl_student x = s \<and> level rows (Suc n) x)"
      by (auto simp: list_ex_iff)
  qed simp
  finally show ?thesis .
qed

lemma balance_decomposition:
  assumes ok: "ledger_ok rows"
  shows "balance_of rows s =
    sum_list (map (\<lambda>c. below signed rows (pl_id c) - pl_amount_minor c)
      (filter (\<lambda>l. pl_student l = s \<and> pl_kind l = Charge) rows))"
proof -
  let ?W = "\<lambda>n. sum_list (map (weight signed rows) (filter (\<lambda>x. pl_student x = s \<and> level rows n x) rows))"
  let ?S = "\<lambda>n xs. sum_list (map signed (filter (\<lambda>x. pl_student x = s \<and> level rows n x) xs))"
  have four: "filter (\<lambda>x. pl_student x = s \<and> level rows 4 x) rows = []"
  proof -
    have "\<not> level rows 4 x" if "x \<in> set rows" for x
      using level_rank [OF ok that, of 4] kind_rank_le [of "pl_kind x"] by auto
    then show ?thesis by (simp add: filter_empty_conv)
  qed
  have Suc: "Suc 0 = 1" "Suc 1 = 2" "Suc 2 = 3" "Suc 3 = (4::nat)" by simp_all
  have "?W 0 = ?S 0 rows + ?W 1" "?W 1 = ?S 1 rows + ?W 2"
    "?W 2 = ?S 2 rows + ?W 3" "?W 3 = ?S 3 rows + ?W 4"
    using level_sum [OF ok, of signed s 0] level_sum [OF ok, of signed s 1]
      level_sum [OF ok, of signed s 2] level_sum [OF ok, of signed s 3]
    by (simp_all only: Suc)
  then have W0: "?W 0 = ?S 0 rows + ?S 1 rows + ?S 2 rows + ?S 3 rows" unfolding four by simp
  have part: "?S 0 xs + ?S 1 xs + ?S 2 xs + ?S 3 xs = sum_list (map signed (filter (\<lambda>l. pl_student l = s) xs))"
    if "set xs \<subseteq> set rows" for xs
    using that
  proof (induction xs)
    case (Cons x xs)
    then obtain n where n: "n < 4" "level rows n x" using level_exists [OF ok, of x] by auto
    then have lv: "level rows m x \<longleftrightarrow> m = n" for m using level_unique [OF ok, of x] Cons.prems by auto
    from n(1) have "n = 0 \<or> n = 1 \<or> n = 2 \<or> n = 3" by arith
    with Cons show ?case unfolding filter.simps lv by auto
  qed simp
  have "balance_of rows s = ?W 0" using part [of rows] W0 by (simp add: balance_of_lines)
  also have "\<dots> = sum_list (map (\<lambda>c. below signed rows (pl_id c) - pl_amount_minor c)
      (filter (\<lambda>l. pl_student l = s \<and> pl_kind l = Charge) rows))"
    unfolding level.simps
    by (intro arg_cong [of _ _ sum_list] map_cong refl) (simp add: weight_below [OF ok] signed_def)
  finally show ?thesis .
qed

section \<open>Retries\<close>

lemma against_keyed_stored:
  assumes ok: "ledger_ok rows" "t \<in> set rows" "pl_kind t = expected"
    and run: "against rows t expected kind wrong over rvsd amount mtd nt (Some key) by' fresh now
      = Some (rows', Inr line)"
  shows "ledger_read rows' key = Some line \<and> pl_amount_minor line = amount \<and>
    pl_source line = Some (pl_id t)"
proof (cases "ledger_read rows key")
  case (Some existing)
  with run show ?thesis by (auto simp: against_replay [OF ok Some] split: if_splits)
next
  case None
  let ?row = "applied_line t kind amount mtd nt key by' now"
  have new: "key \<notin> pl_id ` set rows" using None by (simp add: ledger_read_None)
  have "rows' = rows @ [?row] \<and> line = ?row"
    using run against_first [OF ok, of "Some key" fresh kind wrong over rvsd amount mtd nt by' now] new
    by (auto simp: Let_def split: if_splits)
  then show ?thesis
    using fee_append.read_back [of rows ?row] None new by (simp add: ledger_append_fresh)
qed

lemma against_retry:
  assumes ok: "ledger_ok rows" "t \<in> set rows"
    and run: "against rows t expected kind wrong over rvsd amount mtd nt (Some key) by' fresh now
      = Some (rows', Inr line)"
    and later: "ledger_ok rows''" "set rows' \<subseteq> set rows''" "set rows \<subseteq> set rows''"
  shows "against rows'' t expected kind wrong over rvsd amount mtd' nt' (Some key) by'' fresh' now'
    = Some (rows'', Inr line)"
proof -
  have kind: "pl_kind t = expected" using run by (auto simp: against_def split: if_splits)
  note stored = against_keyed_stored [OF ok kind run]
  then have "line \<in> set rows'" "pl_id line = key"
    by (auto simp: ledger_read_def dest: find_row_SomeD)
  with ledger_ok_read [OF later(1), of line] later(2) have "ledger_read rows'' key = Some line" by auto
  with against_replay [OF later(1) _ kind] ok(2) later(3) stored show ?thesis by auto
qed


section \<open>A worked ledger\<close>

text \<open>
  One charge of 100, paid, refunded and paid again; then the refund is reversed.  The table is
  the result of running the calls.
\<close>

definition demo_assignment :: fee_plan_assignment_id where
  "demo_assignment = \<lparr>fpa_plan = replicate 36 97, fpa_student = replicate 36 98\<rparr>"

definition demo_req :: "ustr \<Rightarrow> ustr option \<Rightarrow> record_applied" where
  "demo_req t key = \<lparr>ra_target = t, ra_amount_minor = 100, ra_method = None, ra_note = None,
     ra_request_key = key\<rparr>"

definition demo_charge :: payment_ledger where
  "demo_charge = \<lparr>pl_id = for_installment demo_assignment 1, pl_student = replicate 36 98,
     pl_kind = Charge, pl_amount_minor = 100, pl_source = Some (assignment_key demo_assignment),
     pl_due_at = Some 0, pl_method = None, pl_note = None, pl_recorded_by = [109], pl_created_at = 0\<rparr>"

definition demo_payment :: payment_ledger where
  "demo_payment = applied_line demo_charge Credit 100 None None (replicate 36 49) [109] 1"

definition demo_refund :: payment_ledger where
  "demo_refund = applied_line demo_payment Refund 100 None None (replicate 36 50) [109] 2"

definition demo_again :: payment_ledger where
  "demo_again = applied_line demo_charge Credit 100 None None (replicate 36 51) [109] 3"

definition demo_reversal :: payment_ledger where
  "demo_reversal = applied_line demo_refund Reversal 100 None None
     (for_reversal (replicate 36 50)) [109] 4"

lemma demo_uuids: "uuid_key (replicate 36 97)" "uuid_key (replicate 36 98)"
  by code_simp+

lemma demo_1_reachable: "fee_reachable b [demo_charge]"
proof -
  have "charge_for_installment [] demo_assignment 1 100 0 [109] 0 = ([demo_charge], Inr demo_charge)"
    by code_simp
  with step_charge [of demo_assignment 100] have "fee_step False [] [demo_charge]"
    by (simp add: demo_assignment_def demo_uuids is_ledger_amount_def)
  then show ?thesis using reach_step [OF reach_empty] by simp
qed

lemma demo_2_reachable: "fee_reachable b [demo_charge, demo_payment]"
proof -
  have "fresh_uuid [demo_charge] (replicate 36 49)" by code_simp
  moreover have "record_payment [demo_charge] (demo_req (pl_id demo_charge) None) [109] (replicate 36 49) 1
      = Some ([demo_charge, demo_payment], Inr demo_payment)" by code_simp
  ultimately have "fee_step False [demo_charge] [demo_charge, demo_payment]" by (rule step_payment)
  then show ?thesis using reach_step [OF demo_1_reachable] by simp
qed

lemma demo_3_reachable: "fee_reachable b [demo_charge, demo_payment, demo_refund]"
proof -
  have "fresh_uuid [demo_charge, demo_payment] (replicate 36 50)" by code_simp
  moreover have "record_refund [demo_charge, demo_payment] (demo_req (replicate 36 49) None) [109]
      (replicate 36 50) 2 = Some ([demo_charge, demo_payment, demo_refund], Inr demo_refund)" by code_simp
  ultimately have "fee_step False [demo_charge, demo_payment] [demo_charge, demo_payment, demo_refund]"
    by (rule step_refund)
  then show ?thesis using reach_step [OF demo_2_reachable] by simp
qed

lemma demo_4_reachable: "fee_reachable b [demo_charge, demo_payment, demo_refund, demo_again]"
proof -
  have "fresh_uuid [demo_charge, demo_payment, demo_refund] (replicate 36 51)" by code_simp
  moreover have "record_payment [demo_charge, demo_payment, demo_refund] (demo_req (pl_id demo_charge) None)
      [109] (replicate 36 51) 3 = Some ([demo_charge, demo_payment, demo_refund, demo_again], Inr demo_again)"
    by code_simp
  ultimately have "fee_step False [demo_charge, demo_payment, demo_refund]
      [demo_charge, demo_payment, demo_refund, demo_again]" by (rule step_payment)
  then show ?thesis using reach_step [OF demo_3_reachable] by simp
qed

lemma demo_5_reachable: "fee_reachable True [demo_charge, demo_payment, demo_refund, demo_again, demo_reversal]"
proof -
  have "record_reversal [demo_charge, demo_payment, demo_refund, demo_again] (replicate 36 50) None [109] 4
      = Some ([demo_charge, demo_payment, demo_refund, demo_again, demo_reversal], Inr demo_reversal)"
    by code_simp
  then have "fee_step True [demo_charge, demo_payment, demo_refund, demo_again]
      [demo_charge, demo_payment, demo_refund, demo_again, demo_reversal]" by (rule step_reversal)
  then show ?thesis using reach_step [OF demo_4_reachable] by simp
qed

section \<open>Properties\<close>

lemma taken_lines:
  assumes "ledger_ok rows" "t \<in> set rows"
  shows "\<exists>lines. applied_lines rows (pl_id t) = Some lines \<and>
    fold_balance (map folded lines) = below signed rows (pl_id t)"
proof -
  obtain ls where "applied_lines rows (pl_id t) = Some ls"
    "\<And>f. sum_list (map f ls) = below f rows (pl_id t)"
    using applied_lines_sum [OF assms] by blast
  then show ?thesis by (simp add: fold_balance_def signed_sum_folded)
qed

text \<open>
  C4. Append-only and well-formed.  From an empty table, by any sequence of assignments,
  payments, refunds and reversals through the handlers, every table is well-formed (distinct
  ids, bounded amounts, every line naming a line of the kind it may point at, for the same
  student), and one more call either leaves the table as it is or extends it by exactly one line.
\<close>

theorem fee_ledger_append_only:
  assumes "fee_reachable allow rows" "fee_step rv rows rows'"
  shows "ledger_ok rows \<and> ledger_ok rows' \<and> (\<exists>new. rows' = rows @ new \<and> length new \<le> 1)"
proof -
  have ok: "ledger_ok rows" using assms(1) by (rule fee_reachable_ok)
  with fee_step_cases [OF assms(2)] have "\<exists>new. rows' = rows @ new \<and> length new \<le> 1" by fastforce
  with ok fee_step_ok [OF assms(2)] show ?thesis by blast
qed

theorem fee_ledger_append_only_witness:
  "ledger_ok [demo_charge] \<and> ledger_ok [demo_charge, demo_payment] \<and>
   (\<exists>new. [demo_charge, demo_payment] = [demo_charge] @ new \<and> length new \<le> 1)"
proof -
  have "fresh_uuid [demo_charge] (replicate 36 49)" by code_simp
  moreover have "record_payment [demo_charge] (demo_req (pl_id demo_charge) None) [109] (replicate 36 49) 1
      = Some ([demo_charge, demo_payment], Inr demo_payment)" by code_simp
  ultimately have "fee_step False [demo_charge] [demo_charge, demo_payment]" by (rule step_payment)
  from fee_ledger_append_only [OF demo_1_reachable this] show ?thesis .
qed

text \<open>
  C3. The over-payment cap.  As long as nothing was reversed, the lines applied to a charge
  (payments less refunds) fold to something between zero and the charge's amount, and the
  refunds applied to a payment to something between zero and the payment's amount: a charge is
  never over-paid and a payment never over-refunded.
\<close>

theorem fee_cap_holds:
  assumes "fee_reachable False rows" "t \<in> set rows" "pl_kind t = Charge \<or> pl_kind t = Credit"
  shows "\<exists>lines. applied_lines rows (pl_id t) = Some lines \<and>
    0 \<le> fold_balance (map folded lines) * - kind_sign (pl_kind t) \<and>
    fold_balance (map folded lines) * - kind_sign (pl_kind t) \<le> pl_amount_minor t"
proof -
  have ok: "ledger_ok rows" using assms(1) by (rule fee_reachable_ok)
  have cap: "capped rows" using fee_reachable_capped [OF assms(1)] by simp
  obtain lines where "applied_lines rows (pl_id t) = Some lines"
    and eq: "fold_balance (map folded lines) = below signed rows (pl_id t)"
    using taken_lines [OF ok assms(2)] by blast
  moreover have "0 \<le> taken rows t" using taken_nonneg [OF ok cap assms(2,3)] .
  moreover have "taken rows t \<le> pl_amount_minor t" using cap assms(2,3) by (auto simp: capped_def)
  ultimately show ?thesis by (simp add: taken_def)
qed

theorem fee_cap_holds_witness:
  "\<exists>lines. applied_lines [demo_charge, demo_payment] (pl_id demo_charge) = Some lines \<and>
    0 \<le> fold_balance (map folded lines) * - kind_sign (pl_kind demo_charge) \<and>
    fold_balance (map folded lines) * - kind_sign (pl_kind demo_charge) \<le> pl_amount_minor demo_charge"
  by (rule fee_cap_holds [OF demo_2_reachable]) (simp_all add: demo_charge_def)

text \<open>
  C22. Where the cap stops.  A reversal does not consult the cap, and the reversal of a refund
  puts the refunded payment back: after a payment, its refund, a second payment and the
  reversal of that refund, a charge of 100 carries 200.
\<close>

theorem fee_cap_reversal_gap:
  "\<exists>rows t lines. fee_reachable True rows \<and> t \<in> set rows \<and> pl_kind t = Charge \<and>
     pl_amount_minor t = 100 \<and> applied_lines rows (pl_id t) = Some lines \<and>
     fold_balance (map folded lines) * - kind_sign (pl_kind t) = 200"
proof -
  let ?rows = "[demo_charge, demo_payment, demo_refund, demo_again, demo_reversal]"
  have "applied_lines ?rows (pl_id demo_charge)
      = Some [demo_payment, demo_again, demo_refund, demo_reversal]" by code_simp
  moreover have "pl_kind demo_charge = Charge" "pl_amount_minor demo_charge = 100"
    "fold_balance (map folded [demo_payment, demo_again, demo_refund, demo_reversal])
       * - kind_sign Charge = 200" by code_simp+
  moreover have "demo_charge \<in> set ?rows" by simp
  ultimately show ?thesis using demo_5_reachable by metis
qed

text \<open>
  C6. A keyed payment is retry-safe.  Once a payment with a request key was answered with a
  line, repeating it at any later time, on any table that has grown since, answers that same
  line and writes nothing, even when the payment filled the charge exactly.
\<close>

theorem credit_retry_safe:
  assumes "fee_reachable allow rows" "t \<in> set rows"
    and "credit rows t amount mtd nt (Some key) by' fresh now = Some (rows', Inr line)"
    and "fee_reachable allow' rows''" "set rows' \<subseteq> set rows''" "set rows \<subseteq> set rows''"
  shows "credit rows'' t amount mtd' nt' (Some key) by'' fresh' now' = Some (rows'', Inr line)"
  using against_retry [OF fee_reachable_ok [OF assms(1)] assms(2)
      assms(3) [unfolded credit_def option.map] fee_reachable_ok [OF assms(4)] assms(5,6)]
  by (simp add: credit_def)

theorem credit_retry_safe_witness:
  "credit [demo_charge, applied_line demo_charge Credit 100 None None
       (for_request (pl_id demo_charge) (u ''k'') [49]) [109] 1]
     demo_charge 100 None None (Some [49]) [109] (replicate 36 50) 9 =
   Some ([demo_charge, applied_line demo_charge Credit 100 None None
       (for_request (pl_id demo_charge) (u ''k'') [49]) [109] 1],
     Inr (applied_line demo_charge Credit 100 None None
       (for_request (pl_id demo_charge) (u ''k'') [49]) [109] 1))"
proof -
  let ?line = "applied_line demo_charge Credit 100 None None
       (for_request (pl_id demo_charge) (u ''k'') [49]) [109] 1"
  have run: "credit [demo_charge] demo_charge 100 None None (Some [49]) [109] (replicate 36 49) 1
      = Some ([demo_charge, ?line], Inr ?line)" by code_simp
  have "fresh_uuid [demo_charge] (replicate 36 49)" by code_simp
  moreover have "record_payment [demo_charge] (demo_req (pl_id demo_charge) (Some [49])) [109] (replicate 36 49) 1
      = Some ([demo_charge, ?line], Inr ?line)" by code_simp
  ultimately have "fee_step False [demo_charge] [demo_charge, ?line]" by (rule step_payment)
  then have "fee_reachable False [demo_charge, ?line]"
    using reach_step [OF demo_1_reachable] by simp
  from credit_retry_safe [OF demo_1_reachable _ run this] show ?thesis by simp
qed

text \<open>
  A request key is one payment.  A key already used on a charge, sent again with another
  amount, is refused with a conflict and writes nothing; the stored line is never handed out for it.
\<close>

theorem credit_key_reuse_refused:
  assumes "fee_reachable allow rows" "t \<in> set rows" "pl_kind t = Charge"
    and "ledger_read rows (for_request (pl_id t) (u ''k'') key) = Some line"
    and "pl_amount_minor line \<noteq> amount"
  shows "credit rows t amount mtd nt (Some key) by' fresh now = Some (rows,
    Inl (Conflict (u ''this request_key was already used for a different amount or target'')))"
  using against_replay [OF fee_reachable_ok [OF assms(1)] assms(2-4)] assms(5)
  by (simp add: credit_def)

theorem credit_key_reuse_refused_witness:
  "credit [demo_charge, applied_line demo_charge Credit 100 None None
       (for_request (pl_id demo_charge) (u ''k'') [49]) [109] 1]
     demo_charge 60 None None (Some [49]) [109] (replicate 36 50) 9 =
   Some ([demo_charge, applied_line demo_charge Credit 100 None None
       (for_request (pl_id demo_charge) (u ''k'') [49]) [109] 1],
     Inl (Conflict (u ''this request_key was already used for a different amount or target'')))"
proof -
  let ?line = "applied_line demo_charge Credit 100 None None
       (for_request (pl_id demo_charge) (u ''k'') [49]) [109] 1"
  have "fresh_uuid [demo_charge] (replicate 36 49)" by code_simp
  moreover have "record_payment [demo_charge] (demo_req (pl_id demo_charge) (Some [49])) [109] (replicate 36 49) 1
      = Some ([demo_charge, ?line], Inr ?line)" by code_simp
  ultimately have "fee_step False [demo_charge] [demo_charge, ?line]" by (rule step_payment)
  then have reach: "fee_reachable False [demo_charge, ?line]"
    using reach_step [OF demo_1_reachable] by simp
  have "ledger_read [demo_charge, ?line] (for_request (pl_id demo_charge) (u ''k'') [49]) = Some ?line"
    by code_simp
  from credit_key_reuse_refused [OF reach _ _ this] show ?thesis by (simp add: demo_charge_def)
qed

text \<open>
  C7. The lock walk.  On every reachable table the walk from a line returns: it locks the line
  first, then its ancestors, at most three rows for a charge, a payment or a refund, and ends at
  a charge; the walk from a line applied to another contains the whole walk from that other, so
  all writers to one subtree meet on its root charge.
\<close>

theorem lock_walk_reaches_charge:
  assumes "fee_reachable allow rows" "t \<in> set rows"
  shows "\<exists>keys c. lock_for_cap (length rows + 4) rows (Some (pl_id t)) = Some keys \<and>
    keys \<noteq> [] \<and> hd keys = pl_id t \<and> c \<in> set rows \<and> pl_kind c = Charge \<and> last keys = pl_id c \<and>
    (pl_kind t \<noteq> Reversal \<longrightarrow> length keys \<le> 3) \<and>
    (\<forall>p \<in> set rows. pl_kind t \<noteq> Charge \<and> pl_source t = Some (pl_id p) \<longrightarrow>
       lock_for_cap (length rows + 3) rows (Some (pl_id p)) = Some (tl keys))"
proof -
  have ok: "ledger_ok rows" using assms(1) by (rule fee_reachable_ok)
  have fuel: "length rows + 4 = Suc (length rows + 3)" by simp
  obtain keys where keys: "lock_for_cap (length rows + 4) rows (Some (pl_id t)) = Some keys"
    "keys \<noteq> []" "hd keys = pl_id t" "length keys \<le> Suc (kind_rank (pl_kind t))"
    "\<exists>c \<in> set rows. pl_kind c = Charge \<and> last keys = pl_id c"
    using lock_walk [OF ok assms(2), of "length rows + 4"] kind_rank_le [of "pl_kind t"] by auto
  have "pl_kind t \<noteq> Reversal \<longrightarrow> length keys \<le> 3"
    using keys(4) by (cases "pl_kind t") auto
  moreover have "lock_for_cap (length rows + 3) rows (Some (pl_id p)) = Some (tl keys)"
    if "pl_kind t \<noteq> Charge" "pl_source t = Some (pl_id p)" for p
    using keys(1) that unfolding fuel lock_for_cap.simps ledger_ok_read [OF ok assms(2)] by auto
  ultimately show ?thesis using keys by blast
qed

theorem lock_walk_reaches_charge_witness:
  "\<exists>keys c. lock_for_cap (length [demo_charge, demo_payment] + 4) [demo_charge, demo_payment]
      (Some (pl_id demo_payment)) = Some keys \<and>
    keys \<noteq> [] \<and> hd keys = pl_id demo_payment \<and> c \<in> set [demo_charge, demo_payment] \<and>
    pl_kind c = Charge \<and> last keys = pl_id c"
  using lock_walk_reaches_charge [OF demo_2_reachable [of False], of demo_payment] by auto

text \<open>
  C5. The statement and the cap read the same money.  For every charge, what the cap's recursive fold finds
  applied to it is what the statement's entry says was paid, less what it says was refunded, plus the charge's
  amount where the charge was reversed; the statement rolls up two levels deep from the student's own lines, in
  whatever order they are read, and says reversed exactly where a reversal of the charge is in the table.  The
  outstanding amount of a charge that was not reversed is its amount less that fold, and of a reversed one zero.
\<close>

theorem statement_matches_cap:
  assumes "fee_reachable allow rows" "c \<in> set rows" "pl_kind c = Charge"
    and "mset lines = mset (filter (\<lambda>l. pl_student l = pl_student c) rows)"
    and "e = statement_entry plan_of plan_name now lines c"
  shows "(\<exists>applied. applied_lines rows (pl_id c) = Some applied \<and>
      fold_balance (map folded applied) = se_credited_minor e - se_refunded_minor e + (if se_reversed e then pl_amount_minor c else 0) \<and>
      se_outstanding_minor e = (if se_reversed e then 0 else pl_amount_minor c - fold_balance (map folded applied))) \<and>
    (se_reversed e \<longleftrightarrow> (\<exists>r \<in> set rows. pl_kind r = Reversal \<and> pl_source r = Some (pl_id c)))"
proof -
  have ok: "ledger_ok rows" using assms(1) by (rule fee_reachable_ok)
  note up = statement_rollup [OF ok assms(2-4), of plan_of plan_name now, folded assms(5)]
  have "se_outstanding_minor e = (if se_reversed e then 0 else pl_amount_minor c - (se_credited_minor e - se_refunded_minor e))"
    by (simp add: assms(5) statement_entry_def Let_def)
  moreover have "below signed rows (pl_id c) =
      se_credited_minor e - se_refunded_minor e + (if se_reversed e then pl_amount_minor c else 0)"
    by (simp add: below_charge [OF ok assms(2,3)] up)
  moreover have "se_reversed e \<longleftrightarrow> (\<exists>r \<in> set rows. pl_kind r = Reversal \<and> pl_source r = Some (pl_id c))"
    by (auto simp: up(1) reversed_in_def children_def list_ex_iff)
  ultimately show ?thesis using taken_lines [OF ok assms(2)] by auto
qed

text \<open>The witness: a charge paid in full and then reversed.\<close>

definition demo_undone :: payment_ledger where
  "demo_undone = applied_line demo_charge Reversal 100 None None (for_reversal (pl_id demo_charge)) [109] 4"

lemma demo_undone_reachable: "fee_reachable True [demo_charge, demo_payment, demo_undone]"
proof -
  have "record_reversal [demo_charge, demo_payment] (pl_id demo_charge) None [109] 4
      = Some ([demo_charge, demo_payment, demo_undone], Inr demo_undone)" by code_simp
  then have "fee_step True [demo_charge, demo_payment] [demo_charge, demo_payment, demo_undone]" by (rule step_reversal)
  then show ?thesis using reach_step [OF demo_2_reachable] by simp
qed

theorem statement_matches_cap_witness:
  "se_outstanding_minor (statement_entry (\<lambda>_. None) (\<lambda>_. None) 5 [demo_undone, demo_payment, demo_charge] demo_charge) = 0 \<and>
   (\<exists>applied. applied_lines [demo_charge, demo_payment, demo_undone] (pl_id demo_charge) = Some applied \<and>
      fold_balance (map folded applied) = 200)"
proof -
  let ?rows = "[demo_charge, demo_payment, demo_undone]" and ?lines = "[demo_undone, demo_payment, demo_charge]"
  let ?e = "statement_entry (\<lambda>_. None) (\<lambda>_. None) 5 ?lines demo_charge"
  have c: "demo_charge \<in> set ?rows" "pl_kind demo_charge = Charge" "pl_amount_minor demo_charge = 100"
    by (simp_all add: demo_charge_def)
  have "pl_student demo_payment = pl_student demo_charge" "pl_student demo_undone = pl_student demo_charge"
    by (simp_all add: demo_payment_def demo_undone_def)
  then have "mset ?lines = mset (filter (\<lambda>l. pl_student l = pl_student demo_charge) ?rows)" by simp
  note m = statement_matches_cap [OF demo_undone_reachable c(1,2) this refl, of "\<lambda>_. None" "\<lambda>_. None" 5]
  have "se_credited_minor ?e = 100" "se_refunded_minor ?e = 0" "se_reversed ?e" by code_simp+
  then show ?thesis using m c(3) by auto
qed

text \<open>
  Conservation.  A student's balance, summed by the database per kind, is the sum over the
  student's charges of what is applied to each less its amount: no payment, refund or reversal is
  outside the subtree of a charge of its student, and none is counted twice.
\<close>

theorem balance_is_sum_over_charges:
  assumes "fee_reachable allow rows"
  shows "balance_of rows s =
    sum_list (map (\<lambda>c. fold_balance (map folded (the (applied_lines rows (pl_id c)))) - pl_amount_minor c)
      (filter (\<lambda>l. pl_student l = s \<and> pl_kind l = Charge) rows))"
proof -
  have ok: "ledger_ok rows" using assms by (rule fee_reachable_ok)
  have "fold_balance (map folded (the (applied_lines rows (pl_id c)))) = below signed rows (pl_id c)"
    if "c \<in> set rows" for c using taken_lines [OF ok that] by auto
  then show ?thesis
    unfolding balance_decomposition [OF ok]
    by (intro arg_cong [of _ _ sum_list] map_cong refl) simp
qed

theorem balance_is_sum_over_charges_witness:
  "balance_of [demo_charge, demo_payment] (pl_student demo_charge) =
    sum_list (map (\<lambda>c. fold_balance (map folded (the (applied_lines [demo_charge, demo_payment] (pl_id c))))
        - pl_amount_minor c)
      (filter (\<lambda>l. pl_student l = pl_student demo_charge \<and> pl_kind l = Charge) [demo_charge, demo_payment]))"
  by (rule balance_is_sum_over_charges [OF demo_2_reachable])

text \<open>
  Reversing.  A charge or refund that has no reversal yet is undone by one line of its exact
  amount: the student's balance rises by that amount.  Reversing it again, at any later time,
  answers the same line and changes nothing.
\<close>

theorem reversal_undoes_once:
  assumes "fee_reachable allow rows" "t \<in> set rows" "pl_kind t = Charge \<or> pl_kind t = Refund"
    and "ledger_read rows (for_reversal (pl_id t)) = None"
  shows "\<exists>row. reversal rows t nt by' now = Some (rows @ [row], Inr row) \<and>
    pl_kind row = Reversal \<and> pl_source row = Some (pl_id t) \<and>
    balance_of (rows @ [row]) (pl_student t) = balance_of rows (pl_student t) + pl_amount_minor t \<and>
    (\<forall>nt' by'' now'. reversal (rows @ [row]) t nt' by'' now' = Some (rows @ [row], Inr row))"
proof -
  have ok: "ledger_ok rows" using assms(1) by (rule fee_reachable_ok)
  define row where "row = applied_line t Reversal (pl_amount_minor t) None nt (for_reversal (pl_id t)) by' now"
  have fresh: "pl_id row \<notin> pl_id ` set rows" using assms(4) by (simp add: row_def ledger_read_None)
  have run: "reversal rows t nt by' now = Some (rows @ [row], Inr row)"
    using reversal_eq [OF ok assms(2,3)] ledger_append_fresh [OF fresh] by (simp add: row_def run_tx_def)
  have "line_ok rows row"
    using reversal_outcome [OF ok assms(2) run] by auto
  then have ok': "ledger_ok (rows @ [row])" using ok fresh by (intro ledger_ok_snoc)
  have "ledger_read (rows @ [row]) (for_reversal (pl_id t)) = Some row"
    using ledger_ok_read [OF ok', of row] by (simp add: row_def)
  then have "reversal (rows @ [row]) t nt' by'' now' = Some (rows @ [row], Inr row)" for nt' by'' now'
    using reversal_eq [OF ok' _ assms(3)] assms(2)
    by (simp add: run_tx_def ledger_append_stored row_def)
  moreover have "balance_of (rows @ [row]) (pl_student t) = balance_of rows (pl_student t) + pl_amount_minor t"
    by (simp add: balance_of_lines row_def signed_def)
  ultimately show ?thesis using run by (intro exI [of _ row]) (simp add: row_def)
qed

theorem reversal_undoes_once_witness:
  "\<exists>row. reversal [demo_charge, demo_payment] demo_charge None [109] 7
      = Some ([demo_charge, demo_payment] @ [row], Inr row) \<and>
    pl_kind row = Reversal \<and> pl_source row = Some (pl_id demo_charge) \<and>
    balance_of ([demo_charge, demo_payment] @ [row]) (pl_student demo_charge)
      = balance_of [demo_charge, demo_payment] (pl_student demo_charge) + pl_amount_minor demo_charge \<and>
    (\<forall>nt' by'' now'. reversal ([demo_charge, demo_payment] @ [row]) demo_charge nt' by'' now'
       = Some ([demo_charge, demo_payment] @ [row], Inr row))"
proof -
  have "ledger_read [demo_charge, demo_payment] (for_reversal (pl_id demo_charge)) = None" by code_simp
  then show ?thesis
    by (intro reversal_undoes_once [OF demo_2_reachable]) (simp_all add: demo_charge_def)
qed

text \<open>
  Every validated payment is decided.  On a reachable table a payment on a line of the table
  returns: a line that is not a charge is refused as invalid, a fresh payment is refused when
  twenty lines are applied already or when it would exceed the charge (naming the reversal when
  the charge was reversed), and otherwise appended with the amount, the student and the charge it pays.
\<close>

theorem credit_decides:
  assumes "fee_reachable allow rows" "t \<in> set rows" "fresh_uuid rows fresh"
  shows "credit rows t amount mtd nt None by' fresh now = Some (
    if pl_kind t \<noteq> Charge
    then (rows, Inl (Validation (Invalid ''source'' ''a payment must be recorded against a charge'')))
    else if length (the (applied_lines rows (pl_id t))) \<ge> 20
    then (rows, Inl (Conflict (u ''this line already carries the most lines that may be applied to it; record the rest against another'')))
    else if fold_balance (map folded (the (applied_lines rows (pl_id t)))) + amount > pl_amount_minor t
    then (rows, Inl (ConflictOwned (u (if ledger_read rows (for_reversal (pl_id t)) \<noteq> None
             then ''the charge was reversed, so it is no longer owed''
             else ''the charge is already paid in full''))))
    else (rows @ [applied_line t Credit amount mtd nt fresh by' now],
          Inr (applied_line t Credit amount mtd nt fresh by' now)))"
proof (cases "pl_kind t = Charge")
  case False
  then show ?thesis by (simp add: credit_def against_def)
next
  case True
  have ok: "ledger_ok rows" using assms(1) by (rule fee_reachable_ok)
  obtain ls where ls: "applied_lines rows (pl_id t) = Some ls"
    and sums: "\<And>f. sum_list (map f ls) = below f rows (pl_id t)"
    using applied_lines_sum [OF ok assms(2)] by blast
  have "sum_list (map (\<lambda>_. 1::int) ls) = int (length ls)" by (induction ls) auto
  then have count: "applied_count rows t = int (length ls)" by (simp add: applied_count_def sums)
  have tk: "taken rows t = fold_balance (map folded ls)"
    using True by (simp add: taken_def fold_balance_def signed_sum_folded sums)
  show ?thesis
    using against_first [OF ok assms(2) True, of None fresh] assms(3) True
    by (simp add: credit_def count tk ls fresh_uuid_def Let_def)
qed

theorem credit_decides_witness:
  "credit [demo_charge] demo_charge 40 None None None [109] (replicate 36 49) 1 =
   Some ([demo_charge, applied_line demo_charge Credit 40 None None (replicate 36 49) [109] 1],
     Inr (applied_line demo_charge Credit 40 None None (replicate 36 49) [109] 1))"
proof -
  have fresh: "fresh_uuid [demo_charge] (replicate 36 49)" by code_simp
  have facts: "applied_lines [demo_charge] (pl_id demo_charge) = Some []" "pl_kind demo_charge = Charge"
    "pl_amount_minor demo_charge = 100" by code_simp+
  from credit_decides [OF demo_1_reachable _ fresh, of demo_charge 40 None None "[109]" 1] show ?thesis
    by (simp add: facts fold_balance_def)
qed

end
