(* ===== verification/Roles.thy ===== *)
theory Roles
  imports Errors
begin

text \<open>
  The access levels (\<open>src/src/domain/role.rs\<close>): the hierarchy, its wire form, the
  assignable roles, and who may open a message thread with whom.  The derived order of
  the Rust enum is an instance of \<open>linorder\<close>, so \<open>at_least\<close> is the library order.
\<close>

section \<open>The hierarchy\<close>

datatype role = Ai | Parent | Student | Teacher | Manager | Admin

fun role_rank :: "role \<Rightarrow> nat" where
  "role_rank Ai = 0"
| "role_rank Parent = 1"
| "role_rank Student = 2"
| "role_rank Teacher = 3"
| "role_rank Manager = 4"
| "role_rank Admin = 5"

lemma role_rank_inject: "role_rank a = role_rank b \<longleftrightarrow> a = b"
  by (cases a; cases b) simp_all

instantiation role :: linorder
begin

definition less_eq_role :: "role \<Rightarrow> role \<Rightarrow> bool" where
  "less_eq_role a b \<longleftrightarrow> role_rank a \<le> role_rank b"

definition less_role :: "role \<Rightarrow> role \<Rightarrow> bool" where
  "less_role a b \<longleftrightarrow> role_rank a < role_rank b"

instance
  by standard (auto simp: less_eq_role_def less_role_def role_rank_inject)

end

lemmas role_order = less_eq_role_def less_role_def


section \<open>Operations\<close>

fun role_as_str :: "role \<Rightarrow> ustr" where
  "role_as_str Ai = u ''ai''"
| "role_as_str Parent = u ''parent''"
| "role_as_str Student = u ''student''"
| "role_as_str Teacher = u ''teacher''"
| "role_as_str Manager = u ''manager''"
| "role_as_str Admin = u ''admin''"

definition ROLES :: "role list" where
  "ROLES = [Parent, Student, Teacher, Manager, Admin]"

definition role_try_from_str :: "ustr \<Rightarrow> role vresult" where
  "role_try_from_str value =
     ok_or (Invalid ''role'' ''must be one of: parent, student, teacher, manager, admin'')
       (find (\<lambda>role. role_as_str role = value) ROLES)"

definition at_least :: "role \<Rightarrow> role \<Rightarrow> bool" where
  "at_least self mn \<longleftrightarrow> self \<ge> mn"

definition may_message :: "role \<Rightarrow> role \<Rightarrow> bool" where
  "may_message self recipient =
     (if self = Ai \<or> recipient = Ai then False
      else at_least self Teacher \<or> at_least recipient Teacher)"

definition messageable_roles :: "role \<Rightarrow> role list option" where
  "messageable_roles self =
     (if at_least self Teacher then None else Some [Teacher, Manager, Admin])"


section \<open>Facts\<close>

lemma role_as_str_inject: "role_as_str a = role_as_str b \<longleftrightarrow> a = b"
  by (cases a; cases b) simp_all

lemma at_least_trans: "at_least a b \<Longrightarrow> at_least b c \<Longrightarrow> at_least a c"
  by (simp add: at_least_def)

lemma role_try_from_str_Inr:
  "role_try_from_str v = Inr r \<longleftrightarrow> r \<noteq> Ai \<and> v = role_as_str r"
  unfolding role_try_from_str_def ok_or_Inr_iff
  by (cases r) (auto simp: ROLES_def role_as_str_inject [symmetric])

lemma messageable_roles_agree:
  assumes "self \<noteq> Ai" "r \<noteq> Ai"
  shows "may_message self r \<longleftrightarrow>
    (case messageable_roles self of None \<Rightarrow> True | Some allowed \<Rightarrow> r \<in> set allowed)"
  using assms
  by (cases self; cases r)
    (simp_all add: may_message_def messageable_roles_def at_least_def role_order)

section \<open>Properties\<close>

text \<open>
  Who may message whom.  For users that are not the AI service account, the check on a single
  recipient and the role filter of the contact search agree: a role may be messaged exactly when the
  filter is absent or lists it; and at least one side is staff.
\<close>

theorem messaging_check_matches_filter:
  assumes "self \<noteq> Ai" "r \<noteq> Ai"
  shows "(may_message self r \<longleftrightarrow>
    (case messageable_roles self of None \<Rightarrow> True | Some allowed \<Rightarrow> r \<in> set allowed)) \<and>
    (may_message self r \<longleftrightarrow> may_message r self) \<and>
    (may_message self r \<longrightarrow> Teacher \<le> self \<or> Teacher \<le> r)"
  using messageable_roles_agree [OF assms] assms by (auto simp: may_message_def at_least_def)

theorem messaging_check_matches_filter_witness: "may_message Parent Teacher \<and> \<not> may_message Parent Student"
  using messaging_check_matches_filter [of Parent Teacher] messaging_check_matches_filter [of Parent Student]
  by (simp add: messageable_roles_def at_least_def role_order)

end
