(* ===== verification/Fee_Plan.thy ===== *)
theory Fee_Plan
  imports Payment_Workflows Roles
begin

text \<open>
  Fee plans and their assignment (\<open>src/src/domain/fee_plan.rs\<close>, \<open>fee_plan_assignment.rs\<close> and
  their \<open>db\<close> and \<open>service\<close> modules, and the plan routes of \<open>src/src/web/payments.rs\<close>).  Assigning a
  plan is what bills a student: the assignment row and the plan's counter are one statement, and
  every installment is then appended to the fee ledger, one statement each.  A call that is cut off
  between two of those statements leaves some of the charges; \<open>assign_upto\<close> is the call cut off after
  a number of charges, so that healing by repetition can be stated.
\<close>

section \<open>Plans\<close>

definition MAX_FEE_PLAN_NAME_LEN :: nat where "MAX_FEE_PLAN_NAME_LEN = 120"
definition MAX_FEE_PLAN_INSTALLMENTS :: nat where "MAX_FEE_PLAN_INSTALLMENTS = 60"
definition MAX_FEE_PLAN_ASSIGN_STUDENTS :: nat where "MAX_FEE_PLAN_ASSIGN_STUDENTS = 200"
definition MAX_FEE_PLAN_ASSIGN_WRITES :: nat where "MAX_FEE_PLAN_ASSIGN_WRITES = 3000"

record installment =
  in_amount_minor :: int
  in_due_at :: int

record fee_plan =
  fp_id :: ustr
  fp_name :: ustr
  fp_installments :: "installment list"
  fp_created_by :: ustr
  fp_created_at :: int
  fp_assignment_count :: int

record fee_plan_assignment =
  as_id :: fee_plan_assignment_id
  as_assigned_by :: ustr
  as_created_at :: int

text \<open>The three tables of the component.\<close>

record fee_db =
  db_plans :: "fee_plan list"
  db_assignments :: "fee_plan_assignment list"
  db_ledger :: fee_table

definition fee_plan_name_try_new :: "ustr \<Rightarrow> ustr vresult" where
  "fee_plan_name_try_new raw =
     (let value = trim raw in
      and_then (validate_required ''name'' value MAX_FEE_PLAN_NAME_LEN) (\<lambda>_. Inr value))"

definition validate_installments :: "installment list \<Rightarrow> unit vresult" where
  "validate_installments ins =
     (if ins = [] \<or> length ins > MAX_FEE_PLAN_INSTALLMENTS
      then Inl (Invalid ''installments'' ''a plan must carry 1 to 60 installments'')
      else Inr ())"

definition installment_into_domain :: "int \<Rightarrow> int \<Rightarrow> installment aresult" where
  "installment_into_domain amount due_at =
     (if due_at < 0 then Inl (Validation (Invalid ''due_at'' ''must not be negative''))
      else and_then (map_err Validation (ledger_amount_try_new amount))
        (\<lambda>a. Inr \<lparr>in_amount_minor = a, in_due_at = due_at\<rparr>))"

fun installment_list :: "(int \<times> int) list \<Rightarrow> installment list aresult" where
  "installment_list [] = Inr []"
| "installment_list ((amount, due_at) # body) =
     and_then (installment_into_domain amount due_at) (\<lambda>i.
       and_then (installment_list body) (\<lambda>is. Inr (i # is)))"

definition plan_read :: "fee_db \<Rightarrow> ustr \<Rightarrow> fee_plan option" where
  "plan_read db key = find_row fp_id (db_plans db) key"

definition plan_create ::
  "fee_db \<Rightarrow> ustr \<Rightarrow> installment list \<Rightarrow> ustr \<Rightarrow> ustr \<Rightarrow> int \<Rightarrow> fee_db \<times> fee_plan aresult" where
  "plan_create db name ins created_by fresh now =
     (case validate_installments ins of
        Inl e \<Rightarrow> (db, Inl (Validation e))
      | Inr _ \<Rightarrow>
          (let plan = \<lparr>fp_id = fresh, fp_name = name, fp_installments = ins,
                       fp_created_by = created_by, fp_created_at = now, fp_assignment_count = 0\<rparr>
           in (db\<lparr>db_plans := db_plans db @ [plan]\<rparr>, Inr plan)))"

text \<open>The guarded update: only a plan nobody is on is edited.\<close>

definition plan_update ::
  "fee_db \<Rightarrow> ustr \<Rightarrow> ustr option \<Rightarrow> installment list option \<Rightarrow> fee_db \<times> fee_plan aresult" where
  "plan_update db key name ins =
     (case (case ins of None \<Rightarrow> Inr () | Some is \<Rightarrow> validate_installments is) of
        Inl e \<Rightarrow> (db, Inl (Validation e))
      | Inr _ \<Rightarrow>
          if name = None \<and> ins = None then (db, ok_or NotFound (plan_read db key))
          else (case plan_read db key of
                  None \<Rightarrow> (db, Inl NotFound)
                | Some plan \<Rightarrow>
                    if fp_assignment_count plan = 0
                    then (let plan' = plan\<lparr>fp_name := case_option (fp_name plan) id name,
                                           fp_installments := case_option (fp_installments plan) id ins\<rparr>
                          in (db\<lparr>db_plans := map (\<lambda>p. if fp_id p = key then plan' else p) (db_plans db)\<rparr>,
                              Inr plan'))
                    else (db, Inl (Conflict (u ''an assigned plan cannot be edited'')))))"

definition plan_delete :: "fee_db \<Rightarrow> ustr \<Rightarrow> fee_db \<times> bool aresult" where
  "plan_delete db key =
     (case plan_read db key of
        None \<Rightarrow> (db, Inl NotFound)
      | Some plan \<Rightarrow>
          if fp_assignment_count plan = 0
          then (db\<lparr>db_plans := filter (\<lambda>p. fp_id p \<noteq> key) (db_plans db)\<rparr>, Inr True)
          else (db, Inr False))"


section \<open>Assignments\<close>

definition assignment_read :: "fee_db \<Rightarrow> fee_plan_assignment_id \<Rightarrow> fee_plan_assignment option" where
  "assignment_read db a = find_row as_id (db_assignments db) a"

text \<open>
  One statement: bump the plan's counter below the cap, and insert the row if that happened.  A row
  that is there already violates the primary key, which undoes the bump.
\<close>

definition assignment_create ::
  "fee_db \<Rightarrow> ustr \<Rightarrow> ustr \<Rightarrow> ustr \<Rightarrow> int \<Rightarrow> fee_db \<times> fee_plan_assignment claimed aresult" where
  "assignment_create db plan student assigned_by now =
     (case plan_read db plan of
        None \<Rightarrow> (db, Inr Full)
      | Some p \<Rightarrow>
          if \<not> fp_assignment_count p < UNLIMITED then (db, Inr Full)
          else (let a = \<lparr>fpa_plan = plan, fpa_student = student\<rparr>;
                    row = \<lparr>as_id = a, as_assigned_by = assigned_by, as_created_at = now\<rparr> in
                if assignment_read db a \<noteq> None then (db, Inr Duplicate)
                else (db\<lparr>db_plans := map (\<lambda>q. if fp_id q = plan
                            then q\<lparr>fp_assignment_count := fp_assignment_count q + 1\<rparr> else q) (db_plans db),
                         db_assignments := db_assignments db @ [row]\<rparr>,
                      Inr (Made row))))"

text \<open>The billing loop: installment \<open>n\<close> onwards, stopping at the first error.\<close>

fun bill_installments ::
  "fee_table \<Rightarrow> fee_plan_assignment_id \<Rightarrow> nat \<Rightarrow> installment list \<Rightarrow> ustr \<Rightarrow> (nat \<Rightarrow> int)
     \<Rightarrow> fee_table \<times> unit aresult" where
  "bill_installments rows a n [] by' clock = (rows, Inr ())"
| "bill_installments rows a n (i # is) by' clock =
     (case charge_for_installment rows a n (in_amount_minor i) (in_due_at i) by' (clock n) of
        (rows', Inl e) \<Rightarrow> (rows', Inl e)
      | (rows', Inr _) \<Rightarrow> bill_installments rows' a (Suc n) is by' clock)"

text \<open>
  The call, cut off after \<open>k\<close> charges when \<open>k\<close> is given: the plan is claimed, read again, and billed.
\<close>

definition assign_upto ::
  "nat option \<Rightarrow> fee_db \<Rightarrow> ustr \<Rightarrow> ustr \<Rightarrow> ustr \<Rightarrow> (nat \<Rightarrow> int) \<Rightarrow> fee_db \<times> (fee_plan_assignment \<times> bool) aresult" where
  "assign_upto k db plan student assigned_by clock =
     (case assignment_create db plan student assigned_by (clock 0) of
        (db1, Inl e) \<Rightarrow> (db1, Inl e)
      | (db1, Inr Full) \<Rightarrow> (db1, Inl NotFound)
      | (db1, Inr claim) \<Rightarrow>
          (case (case claim of
                   Made created \<Rightarrow> Inr (created, False)
                 | _ \<Rightarrow> and_then (ok_or (Internal (u ''failed to assign the fee plan''))
                          (assignment_read db1 \<lparr>fpa_plan = plan, fpa_student = student\<rparr>))
                          (\<lambda>row. Inr (row, True))) of
             Inl e \<Rightarrow> (db1, Inl e)
           | Inr (assignment, existed) \<Rightarrow>
               (case plan_read db1 plan of
                  None \<Rightarrow> (db1, Inl (Internal (u ''the assigned fee plan vanished'')))
                | Some p \<Rightarrow>
                    (case bill_installments (db_ledger db1) (as_id assignment) 1
                            (case_option id take k (fp_installments p)) assigned_by clock of
                       (rows, Inl e) \<Rightarrow> (db1\<lparr>db_ledger := rows\<rparr>, Inl e)
                     | (rows, Inr _) \<Rightarrow> (db1\<lparr>db_ledger := rows\<rparr>, Inr (assignment, existed))))))"

definition assign ::
  "fee_db \<Rightarrow> ustr \<Rightarrow> ustr \<Rightarrow> ustr \<Rightarrow> (nat \<Rightarrow> int) \<Rightarrow> fee_db \<times> (fee_plan_assignment \<times> bool) aresult" where
  "assign db plan student assigned_by clock =
     assign_upto None db plan student assigned_by clock"

datatype outcome = Assigned | AlreadyAssigned | Rejected string

text \<open>The per-student loop.  \<open>users\<close> is the user table's answer for an id, \<open>parse_uuid\<close> the id parser.\<close>

fun assign_students ::
  "(ustr \<Rightarrow> ustr) \<Rightarrow> (ustr \<Rightarrow> role option) \<Rightarrow> fee_db \<Rightarrow> ustr \<Rightarrow> ustr \<Rightarrow> ustr list \<Rightarrow> (nat \<Rightarrow> int)
     \<Rightarrow> fee_db \<times> (ustr \<times> outcome) list aresult" where
  "assign_students parse_uuid users db plan assigner [] clock = (db, Inr [])"
| "assign_students parse_uuid users db plan assigner (student_id # ids) clock =
     (let student = parse_uuid student_id in
      if users student = Some Student
      then (case assign db plan student assigner clock of
              (db', Inl NotFound) \<Rightarrow>
                (case assign_students parse_uuid users db' plan assigner ids clock of
                   (db'', r) \<Rightarrow> (db'', and_then r (\<lambda>os. Inr ((student_id, Rejected ''no such plan'') # os))))
            | (db', Inl err) \<Rightarrow> (db', Inl err)
            | (db', Inr (_, existed)) \<Rightarrow>
                (case assign_students parse_uuid users db' plan assigner ids clock of
                   (db'', r) \<Rightarrow> (db'', and_then r (\<lambda>os.
                      Inr ((student_id, if existed then AlreadyAssigned else Assigned) # os)))))
      else (case assign_students parse_uuid users db plan assigner ids clock of
              (db', r) \<Rightarrow> (db', and_then r (\<lambda>os. Inr ((student_id, Rejected ''no such student'') # os)))))"

definition assign_batch ::
  "(ustr \<Rightarrow> ustr) \<Rightarrow> (ustr \<Rightarrow> role option) \<Rightarrow> fee_db \<Rightarrow> ustr \<Rightarrow> ustr \<Rightarrow> ustr list \<Rightarrow> (nat \<Rightarrow> int)
     \<Rightarrow> fee_db \<times> (ustr \<times> outcome) list aresult" where
  "assign_batch parse_uuid users db plan_key assigner student_ids clock =
     (if length student_ids > MAX_FEE_PLAN_ASSIGN_STUDENTS
      then (db, Inl (Validation (Invalid ''student_ids'' ''may name at most 200 students'')))
      else (case plan_read db (parse_uuid plan_key) of
              None \<Rightarrow> (db, Inl NotFound)
            | Some plan \<Rightarrow>
                if length student_ids * length (fp_installments plan) > MAX_FEE_PLAN_ASSIGN_WRITES
                then (db, Inl (Validation (Invalid ''student_ids''
                       (''too many charges for one request: students '' @ [CHR 0xD7]
                          @ '' installments may not exceed 3000, so split the batch''))))
                else assign_students parse_uuid users db (fp_id plan) assigner student_ids clock))"

end
