(* ===== verification/Fee_Plan_Properties.thy ===== *)
theory Fee_Plan_Properties
  imports Fee_Plan
begin

text \<open>
  What assigning a fee plan guarantees: the charges of an assignment are exactly its plan's
  installments, however often and however partially the call ran before, because an assigned plan
  cannot change any more.
\<close>

section \<open>The invariant\<close>

definition plan_ok :: "fee_plan \<Rightarrow> bool" where
  "plan_ok p \<longleftrightarrow> uuid_key (fp_id p) \<and> validate_installments (fp_installments p) = Inr () \<and>
     list_all (\<lambda>i. is_ledger_amount (in_amount_minor i)) (fp_installments p)"

definition assignment_ok :: "fee_plan_assignment_id \<Rightarrow> bool" where
  "assignment_ok a \<longleftrightarrow> uuid_key (fpa_plan a) \<and> uuid_key (fpa_student a)"

text \<open>The line that bills installment \<open>n\<close> of a plan for an assignment.\<close>

definition bill_of :: "fee_plan \<Rightarrow> fee_plan_assignment_id \<Rightarrow> nat \<Rightarrow> payment_ledger \<Rightarrow> bool" where
  "bill_of p a n l \<longleftrightarrow>
     1 \<le> n \<and> n \<le> length (fp_installments p) \<and> pl_kind l = Charge \<and> pl_id l = for_installment a n \<and>
     pl_student l = fpa_student a \<and> pl_source l = Some (assignment_key a) \<and>
     pl_amount_minor l = in_amount_minor (fp_installments p ! (n - 1)) \<and>
     pl_due_at l = Some (in_due_at (fp_installments p ! (n - 1)))"

definition on_plan :: "fee_db \<Rightarrow> ustr \<Rightarrow> fee_plan_assignment list" where
  "on_plan db key = filter (\<lambda>a. fpa_plan (as_id a) = key) (db_assignments db)"

definition charges_ok :: "fee_plan list \<Rightarrow> fee_plan_assignment list \<Rightarrow> fee_table \<Rightarrow> bool" where
  "charges_ok plans as rows \<longleftrightarrow>
     (\<forall>l \<in> set rows. pl_kind l = Charge \<longrightarrow>
        (\<exists>a \<in> set as. \<exists>p \<in> set plans. fp_id p = fpa_plan (as_id a) \<and> (\<exists>n. bill_of p (as_id a) n l)))"

definition fee_db_ok :: "fee_db \<Rightarrow> bool" where
  "fee_db_ok db \<longleftrightarrow>
     keyed fp_id (db_plans db) \<and> keyed as_id (db_assignments db) \<and> ledger_ok (db_ledger db) \<and>
     (\<forall>p \<in> set (db_plans db). plan_ok p \<and> fp_assignment_count p = int (length (on_plan db (fp_id p)))) \<and>
     (\<forall>a \<in> set (db_assignments db). assignment_ok (as_id a) \<and> fpa_plan (as_id a) \<in> fp_id ` set (db_plans db)) \<and>
     charges_ok (db_plans db) (db_assignments db) (db_ledger db)"

text \<open>Calls on the three tables; an assignment may be cut off after any number of charges.\<close>

inductive fee_db_step :: "fee_db \<Rightarrow> fee_db \<Rightarrow> bool" where
  create_step: "list_all (\<lambda>i. is_ledger_amount (in_amount_minor i)) ins \<Longrightarrow> uuid_key fresh \<Longrightarrow>
    fresh \<notin> fp_id ` set (db_plans db) \<Longrightarrow> plan_create db name ins by' fresh now = (db', r) \<Longrightarrow>
    fee_db_step db db'"
| update_step: "(\<And>is. ins = Some is \<Longrightarrow> list_all (\<lambda>i. is_ledger_amount (in_amount_minor i)) is) \<Longrightarrow>
    plan_update db key name ins = (db', r) \<Longrightarrow> fee_db_step db db'"
| delete_step: "plan_delete db key = (db', r) \<Longrightarrow> fee_db_step db db'"
| assign_step: "uuid_key student \<Longrightarrow> assign_upto k db plan student by' clock = (db', r) \<Longrightarrow>
    fee_db_step db db'"
| ledger_step: "fee_step rv (db_ledger db) rows' \<Longrightarrow>
    (\<forall>l \<in> set rows'. pl_kind l = Charge \<longrightarrow> l \<in> set (db_ledger db)) \<Longrightarrow>
    fee_db_step db (db\<lparr>db_ledger := rows'\<rparr>)"

inductive fee_db_reachable :: "fee_db \<Rightarrow> bool" where
  db_empty: "fee_db_reachable \<lparr>db_plans = [], db_assignments = [], db_ledger = []\<rparr>"
| db_step: "fee_db_reachable db \<Longrightarrow> fee_db_step db db' \<Longrightarrow> fee_db_reachable db'"


section \<open>Billing\<close>

text \<open>A row of the ledger under an installment's id is a charge.\<close>

lemma installment_row_charge:
  assumes "ledger_ok rows" "assignment_ok a" "ledger_read rows (for_installment a n) = Some l"
  shows "pl_kind l = Charge"
proof -
  have "l \<in> set rows" "pl_id l = for_installment a n"
    using assms(3) by (auto simp: ledger_read_def dest: find_row_SomeD)
  with assms(1,2) show ?thesis
    by (auto simp: ledger_ok_def line_ok_def installment_key_def assignment_ok_def)
qed

definition charge_row ::
  "fee_plan_assignment_id \<Rightarrow> nat \<Rightarrow> installment \<Rightarrow> ustr \<Rightarrow> int \<Rightarrow> payment_ledger" where
  "charge_row a n i by' now =
     \<lparr>pl_id = for_installment a n, pl_student = fpa_student a, pl_kind = Charge,
      pl_amount_minor = in_amount_minor i, pl_source = Some (assignment_key a),
      pl_due_at = Some (in_due_at i), pl_method = None, pl_note = None,
      pl_recorded_by = by', pl_created_at = now\<rparr>"

lemma charge_step:
  assumes "ledger_ok rows" "assignment_ok a" "is_ledger_amount (in_amount_minor i)"
  shows "charge_for_installment rows a n (in_amount_minor i) (in_due_at i) by' now =
    (case ledger_read rows (for_installment a n) of
       Some l \<Rightarrow> (rows, Inr l)
     | None \<Rightarrow> (rows @ [charge_row a n i by' now], Inr (charge_row a n i by' now)))"
proof (cases "ledger_read rows (for_installment a n)")
  case None
  then have "pl_id (charge_row a n i by' now) \<notin> pl_id ` set rows"
    by (simp add: ledger_read_None charge_row_def)
  from ledger_append_fresh [OF this] None show ?thesis
    by (simp add: charge_for_installment_def charge_row_def)
next
  case (Some l)
  with installment_row_charge [OF assms(1,2) Some] show ?thesis
    by (simp add: charge_for_installment_def ledger_append_stored)
qed

lemma charge_row_ok:
  "assignment_ok a \<Longrightarrow> is_ledger_amount (in_amount_minor i) \<Longrightarrow> line_ok rows (charge_row a n i by' now)"
  by (auto simp: line_ok_def charge_row_def assignment_ok_def line_key_installment)

lemma bill_installments_spec:
  assumes "assignment_ok a" "list_all (\<lambda>i. is_ledger_amount (in_amount_minor i)) ins" "ledger_ok rows"
  shows "\<exists>new. bill_installments rows a n ins by' clock = (rows @ new, Inr ()) \<and>
    ledger_ok (rows @ new) \<and>
    (\<forall>l \<in> set new. \<exists>k < length ins. l = charge_row a (n + k) (ins ! k) by' (clock (n + k))) \<and>
    (\<forall>k < length ins. ledger_read (rows @ new) (for_installment a (n + k)) \<noteq> None)"
  using assms(2,3)
proof (induction ins arbitrary: rows n)
  case Nil
  then show ?case by simp
next
  case (Cons i ins)
  let ?row = "charge_row a n i by' (clock n)"
  define add where "add = (case ledger_read rows (for_installment a n) of None \<Rightarrow> [?row] | Some _ \<Rightarrow> [])"
  have row_id: "pl_id ?row = for_installment a n" by (simp add: charge_row_def)
  have ok: "ledger_ok (rows @ add)" and read: "ledger_read (rows @ add) (for_installment a n) \<noteq> None"
  proof (atomize (full), cases "ledger_read rows (for_installment a n)")
    case None
    have "ledger_ok (rows @ [?row])"
      using Cons.prems None charge_row_ok [OF assms(1)]
      by (intro ledger_ok_snoc) (simp_all add: row_id ledger_read_None)
    moreover have "add = [?row]" using None by (simp add: add_def)
    ultimately show "ledger_ok (rows @ add) \<and> ledger_read (rows @ add) (for_installment a n) \<noteq> None"
      using row_id by (simp add: ledger_read_None)
  next
    case (Some l)
    with Cons.prems show "ledger_ok (rows @ add) \<and> ledger_read (rows @ add) (for_installment a n) \<noteq> None"
      by (simp add: add_def)
  qed
  have run: "\<exists>l. charge_for_installment rows a n (in_amount_minor i) (in_due_at i) by' (clock n) = (rows @ add, Inr l)"
    using charge_step [OF Cons.prems(2) assms(1), of i n by' "clock n"] Cons.prems(1)
    by (auto simp: add_def split: option.split)
  have "list_all (\<lambda>i. is_ledger_amount (in_amount_minor i)) ins" using Cons.prems(1) by simp
  from Cons.IH [OF this ok, of "Suc n"] obtain new where new:
    "bill_installments (rows @ add) a (Suc n) ins by' clock = ((rows @ add) @ new, Inr ())"
    "ledger_ok ((rows @ add) @ new)"
    "\<forall>l \<in> set new. \<exists>k < length ins. l = charge_row a (Suc n + k) (ins ! k) by' (clock (Suc n + k))"
    "\<forall>k < length ins. ledger_read ((rows @ add) @ new) (for_installment a (Suc n + k)) \<noteq> None"
    by blast
  have "bill_installments rows a n (i # ins) by' clock = (rows @ add @ new, Inr ())"
    using run new(1) by auto
  moreover have "\<exists>k < length (i # ins). l = charge_row a (n + k) ((i # ins) ! k) by' (clock (n + k))"
    if "l \<in> set (add @ new)" for l
    using that new(3) by (fastforce simp: add_def split: option.splits)
  moreover have "ledger_read (rows @ add @ new) (for_installment a (n + k)) \<noteq> None"
    if "k < length (i # ins)" for k
  proof (cases k)
    case 0
    with read show ?thesis by (auto simp: ledger_read_None)
  next
    case (Suc j)
    with that new(4) show ?thesis by simp
  qed
  ultimately show ?case using new(2) by (intro exI [of _ "add @ new"]) simp
qed

section \<open>Preservation\<close>

lemma fee_db_okD:
  assumes "fee_db_ok db"
  shows "keyed fp_id (db_plans db)" "keyed as_id (db_assignments db)" "ledger_ok (db_ledger db)"
    "\<And>p. p \<in> set (db_plans db) \<Longrightarrow> plan_ok p"
    "\<And>p. p \<in> set (db_plans db) \<Longrightarrow> fp_assignment_count p = int (length (on_plan db (fp_id p)))"
    "\<And>a. a \<in> set (db_assignments db) \<Longrightarrow> assignment_ok (as_id a)"
    "\<And>a. a \<in> set (db_assignments db) \<Longrightarrow> fpa_plan (as_id a) \<in> fp_id ` set (db_plans db)"
    "charges_ok (db_plans db) (db_assignments db) (db_ledger db)"
  using assms by (auto simp: fee_db_ok_def)

lemma plan_read_SomeD: "plan_read db key = Some p \<Longrightarrow> p \<in> set (db_plans db) \<and> fp_id p = key"
  by (auto simp: plan_read_def dest: find_row_SomeD)

lemma plan_id_inject:
  "fee_db_ok db \<Longrightarrow> p \<in> set (db_plans db) \<Longrightarrow> q \<in> set (db_plans db) \<Longrightarrow> fp_id p = fp_id q \<Longrightarrow> p = q"
  using keyed_find_row [OF fee_db_okD(1)] by (metis option.inject)

lemma unassigned:
  assumes "fee_db_ok db" "p \<in> set (db_plans db)" "fp_assignment_count p = 0" "a \<in> set (db_assignments db)"
  shows "fpa_plan (as_id a) \<noteq> fp_id p"
  using fee_db_okD(5) [OF assms(1,2)] assms(3,4) by (auto simp: on_plan_def filter_empty_conv)

text \<open>Dropping or changing plans nobody is on, and adding plans, keeps the charges' bills.\<close>

lemma charges_ok_plans:
  assumes "charges_ok plans as rows"
    and "\<And>p a. p \<in> set plans \<Longrightarrow> a \<in> set as \<Longrightarrow> fp_id p = fpa_plan (as_id a) \<Longrightarrow> p \<in> set plans'"
  shows "charges_ok plans' as rows"
  using assms unfolding charges_ok_def by blast

lemma create_ok:
  assumes ok: "fee_db_ok db" and ins: "list_all (\<lambda>i. is_ledger_amount (in_amount_minor i)) ins"
    and fresh: "uuid_key fresh" "fresh \<notin> fp_id ` set (db_plans db)"
    and run: "plan_create db name ins by' fresh now = (db', r)"
  shows "fee_db_ok db'"
proof (cases "validate_installments ins = Inr ()")
  case True
  define plan where "plan = \<lparr>fp_id = fresh, fp_name = name, fp_installments = ins,
       fp_created_by = by', fp_created_at = now, fp_assignment_count = 0\<rparr>"
  have db': "db' = db\<lparr>db_plans := db_plans db @ [plan]\<rparr>"
    using run True by (auto simp: plan_create_def plan_def Let_def)
  have "on_plan db fresh = []"
    using fee_db_okD(7) [OF ok] fresh(2) by (auto simp: on_plan_def filter_empty_conv)
  moreover have "plan_ok plan" using True ins fresh by (simp add: plan_ok_def plan_def)
  moreover have "charges_ok (db_plans db @ [plan]) (db_assignments db) (db_ledger db)"
    using fee_db_okD(8) [OF ok] by (rule charges_ok_plans) simp
  ultimately show ?thesis
    using ok fresh unfolding fee_db_ok_def db'
    by (auto simp: on_plan_def keyed_def plan_def)
next
  case False
  then obtain e where "validate_installments ins = Inl e" by (cases "validate_installments ins") auto
  with run ok show ?thesis by (simp add: plan_create_def)
qed

lemma edit_ok:
  assumes ok: "fee_db_ok db" and p: "p \<in> set (db_plans db)" "fp_assignment_count p = 0"
    and q: "plan_ok q" "fp_id q = fp_id p" "fp_assignment_count q = 0"
  shows "fee_db_ok (db\<lparr>db_plans := map (\<lambda>x. if fp_id x = fp_id p then q else x) (db_plans db)\<rparr>)"
proof -
  let ?plans = "map (\<lambda>x. if fp_id x = fp_id p then q else x) (db_plans db)"
  have ids: "map fp_id ?plans = map fp_id (db_plans db)" using q(2) by auto
  then have set_ids: "fp_id ` set ?plans = fp_id ` set (db_plans db)" by (metis image_set)
  have "charges_ok ?plans (db_assignments db) (db_ledger db)"
    using fee_db_okD(8) [OF ok]
  proof (rule charges_ok_plans)
    fix x a assume "x \<in> set (db_plans db)" "a \<in> set (db_assignments db)" "fp_id x = fpa_plan (as_id a)"
    with unassigned [OF ok p] show "x \<in> set ?plans" by fastforce
  qed
  moreover have "on_plan db (fp_id p) = []" using fee_db_okD(5) [OF ok p(1)] p(2) by simp
  moreover have "keyed fp_id ?plans" using fee_db_okD(1) [OF ok] unfolding keyed_def ids .
  moreover have "plan_ok x \<and> fp_assignment_count x = int (length (on_plan db (fp_id x)))"
    if "x \<in> set ?plans" for x
    using that ok q \<open>on_plan db (fp_id p) = []\<close> by (auto simp: fee_db_ok_def)
  ultimately show ?thesis
    using ok unfolding fee_db_ok_def on_plan_def by (simp del: set_map add: set_ids)
qed

lemma update_ok:
  assumes ok: "fee_db_ok db"
    and ins: "\<And>is. ins = Some is \<Longrightarrow> list_all (\<lambda>i. is_ledger_amount (in_amount_minor i)) is"
    and run: "plan_update db key name ins = (db', r)"
  shows "fee_db_ok db'"
proof (cases "db' = db")
  case False
  have valid: "(case ins of None \<Rightarrow> Inr () | Some is \<Rightarrow> validate_installments is) = Inr ()"
    using run False by (auto simp: plan_update_def split: sum.splits option.splits if_splits)
  obtain plan where plan: "plan_read db key = Some plan" "fp_assignment_count plan = 0"
    using run False by (auto simp: plan_update_def valid split: option.splits if_splits)
  define plan' where "plan' = plan\<lparr>fp_name := case_option (fp_name plan) id name,
       fp_installments := case_option (fp_installments plan) id ins\<rparr>"
  have db': "db' = db\<lparr>db_plans := map (\<lambda>p. if fp_id p = key then plan' else p) (db_plans db)\<rparr>"
    using run False plan by (auto simp: plan_update_def valid plan'_def Let_def split: if_splits)
  have mem: "plan \<in> set (db_plans db)" "fp_id plan = key" using plan_read_SomeD [OF plan(1)] by auto
  have "plan_ok plan'"
    using fee_db_okD(4) [OF ok mem(1)] ins valid
    by (auto simp: plan_ok_def plan'_def split: option.splits)
  then show ?thesis
    using edit_ok [OF ok mem(1) plan(2), of plan'] plan(2) mem(2) by (simp add: db' plan'_def)
qed (use ok in simp)

lemma delete_ok:
  assumes ok: "fee_db_ok db" and run: "plan_delete db key = (db', r)"
  shows "fee_db_ok db'"
proof (cases "db' = db")
  case False
  obtain plan where plan: "plan_read db key = Some plan" "fp_assignment_count plan = 0"
    and db': "db' = db\<lparr>db_plans := filter (\<lambda>p. fp_id p \<noteq> key) (db_plans db)\<rparr>"
    using run False by (auto simp: plan_delete_def split: option.splits if_splits)
  have mem: "plan \<in> set (db_plans db)" "fp_id plan = key" using plan_read_SomeD [OF plan(1)] by auto
  have free: "fpa_plan (as_id a) \<noteq> key" if "a \<in> set (db_assignments db)" for a
    using unassigned [OF ok mem(1) plan(2) that] mem(2) by simp
  have "charges_ok (filter (\<lambda>p. fp_id p \<noteq> key) (db_plans db)) (db_assignments db) (db_ledger db)"
    using fee_db_okD(8) [OF ok] by (rule charges_ok_plans) (use free in auto)
  moreover have "fpa_plan (as_id a) \<in> fp_id ` set (filter (\<lambda>p. fp_id p \<noteq> key) (db_plans db))"
    if "a \<in> set (db_assignments db)" for a
    using fee_db_okD(7) [OF ok that] free [OF that] by auto
  moreover have "keyed fp_id (filter (\<lambda>p. fp_id p \<noteq> key) (db_plans db))"
    using fee_db_okD(1) [OF ok] by (simp add: keyed_def distinct_map_filter)
  ultimately show ?thesis using ok unfolding fee_db_ok_def db' on_plan_def by simp
qed (use ok in simp)

text \<open>The claim: nothing changes, or the row is added and its plan counts it.\<close>

lemma claim_ok:
  assumes ok: "fee_db_ok db" and st: "uuid_key student"
    and run: "assignment_create db plan student by' now = (db', Inr claim)"
  shows "fee_db_ok db' \<and>
    (case claim of
       Full \<Rightarrow> db' = db \<and> (plan_read db plan = None \<or> length (on_plan db plan) \<ge> 2 ^ 63 - 1)
     | Duplicate \<Rightarrow> db' = db \<and> assignment_read db \<lparr>fpa_plan = plan, fpa_student = student\<rparr> \<noteq> None
     | Made row \<Rightarrow> as_id row = \<lparr>fpa_plan = plan, fpa_student = student\<rparr> \<and> row \<in> set (db_assignments db') \<and>
         db_ledger db' = db_ledger db)"
proof (cases "plan_read db plan")
  case None
  with run ok show ?thesis by (auto simp: assignment_create_def)
next
  case (Some p)
  have mem: "p \<in> set (db_plans db)" "fp_id p = plan" using plan_read_SomeD [OF Some] by auto
  let ?a = "\<lparr>fpa_plan = plan, fpa_student = student\<rparr>"
  define row where "row = \<lparr>as_id = ?a, as_assigned_by = by', as_created_at = now\<rparr>"
  define bump where "bump = (\<lambda>q :: fee_plan. if fp_id q = plan
       then q\<lparr>fp_assignment_count := fp_assignment_count q + 1\<rparr> else q)"
  show ?thesis
  proof (cases "fp_assignment_count p < UNLIMITED \<and> assignment_read db ?a = None")
    case True
    have db': "db' = db\<lparr>db_plans := map bump (db_plans db), db_assignments := db_assignments db @ [row]\<rparr>"
      and claim: "claim = Made row"
      using run Some True by (auto simp: assignment_create_def Let_def row_def bump_def)
    have bump [simp]: "fp_id (bump q) = fp_id q" "fp_installments (bump q) = fp_installments q" for q
      by (simp_all add: bump_def)
    have "as_id row \<notin> as_id ` set (db_assignments db)"
      using True by (simp add: row_def assignment_read_def find_row_None_iff)
    moreover have "assignment_ok ?a"
      using st fee_db_okD(4) [OF ok mem(1)] mem(2) by (simp add: assignment_ok_def plan_ok_def)
    moreover have "charges_ok (map bump (db_plans db)) (db_assignments db @ [row]) (db_ledger db)"
      using fee_db_okD(8) [OF ok] unfolding charges_ok_def by (fastforce simp: bill_of_def)
    moreover have "fp_assignment_count (bump q) =
        int (length (on_plan db (fp_id q))) + (if fp_id q = plan then 1 else 0)"
      if "q \<in> set (db_plans db)" for q
      using fee_db_okD(5) [OF ok that] by (simp add: bump_def)
    moreover have "plan_ok (bump q) = plan_ok q" for q by (simp add: plan_ok_def)
    moreover have "plan \<in> fp_id ` set (db_plans db)" using mem by auto
    ultimately have "fee_db_ok db'"
      using ok unfolding fee_db_ok_def db' on_plan_def keyed_def
      by (auto simp: row_def image_image comp_def)
    then show ?thesis using claim db' by (simp add: row_def)
  next
    case False
    have "fp_assignment_count p = int (length (on_plan db plan))"
      using fee_db_okD(5) [OF ok mem(1)] mem(2) by simp
    with False run Some ok show ?thesis
      by (auto simp: assignment_create_def Let_def UNLIMITED_def I64_MAX_def split: if_splits)
  qed
qed

lemma assignment_read_SomeD: "assignment_read db a = Some row \<Longrightarrow> row \<in> set (db_assignments db) \<and> as_id row = a"
  by (auto simp: assignment_read_def dest: find_row_SomeD)

lemma billed_ok:
  assumes ok: "fee_db_ok db" and a: "a \<in> set (db_assignments db)"
    and p: "p \<in> set (db_plans db)" "fp_id p = fpa_plan (as_id a)"
    and ins: "ins = case_option id take k (fp_installments p)"
  shows "\<exists>rows. bill_installments (db_ledger db) (as_id a) 1 ins by' clock = (rows, Inr ()) \<and>
    fee_db_ok (db\<lparr>db_ledger := rows\<rparr>) \<and>
    (\<forall>n. 1 \<le> n \<and> n \<le> length ins \<longrightarrow> ledger_read rows (for_installment (as_id a) n) \<noteq> None)"
proof -
  have aok: "assignment_ok (as_id a)" using fee_db_okD(6) [OF ok a] .
  have "list_all (\<lambda>i. is_ledger_amount (in_amount_minor i)) ins"
    using fee_db_okD(4) [OF ok p(1)] by (auto simp: ins plan_ok_def list_all_iff split: option.split dest: in_set_takeD)
  from bill_installments_spec [OF aok this fee_db_okD(3) [OF ok], of 1 by' clock] obtain new where new:
    "bill_installments (db_ledger db) (as_id a) 1 ins by' clock = (db_ledger db @ new, Inr ())"
    "ledger_ok (db_ledger db @ new)"
    "\<forall>l \<in> set new. \<exists>k < length ins. l = charge_row (as_id a) (1 + k) (ins ! k) by' (clock (1 + k))"
    "\<forall>k < length ins. ledger_read (db_ledger db @ new) (for_installment (as_id a) (1 + k)) \<noteq> None"
    by blast
  have "bill_of p (as_id a) (Suc j) (charge_row (as_id a) (Suc j) (ins ! j) by' t)" if "j < length ins" for j t
    using that by (auto simp: ins bill_of_def charge_row_def split: option.splits)
  with new(3) have "\<exists>n. bill_of p (as_id a) n l" if "l \<in> set new" for l
    using that by (metis plus_1_eq_Suc)
  with fee_db_okD(8) [OF ok] a p have "charges_ok (db_plans db) (db_assignments db) (db_ledger db @ new)"
    unfolding charges_ok_def set_append Un_iff by blast
  then have "fee_db_ok (db\<lparr>db_ledger := db_ledger db @ new\<rparr>)"
    using ok new(2) by (simp add: fee_db_ok_def on_plan_def)
  moreover have "ledger_read (db_ledger db @ new) (for_installment (as_id a) n) \<noteq> None"
    if "1 \<le> n" "n \<le> length ins" for n
  proof -
    from that have "n - 1 < length ins" "1 + (n - 1) = n" by auto
    with new(4) show ?thesis by metis
  qed
  ultimately show ?thesis using new(1) by blast
qed

lemma assignment_create_claims: "\<exists>db1 c. assignment_create db plan student by' now = (db1, Inr c)"
  unfolding assignment_create_def Let_def by (cases "plan_read db plan") simp_all

lemma assign_upto_spec:
  assumes ok: "fee_db_ok db" and st: "uuid_key student"
    and run: "assign_upto k db plan student by' clock = (db', r)"
  shows "fee_db_ok db' \<and>
    (\<forall>a existed. r = Inr (a, existed) \<longrightarrow> as_id a = \<lparr>fpa_plan = plan, fpa_student = student\<rparr> \<and>
       a \<in> set (db_assignments db') \<and>
       (\<exists>p. plan_read db' plan = Some p \<and>
          (\<forall>n. 1 \<le> n \<and> n \<le> length (case_option id take k (fp_installments p)) \<longrightarrow>
             ledger_read (db_ledger db') (for_installment (as_id a) n) \<noteq> None)))"
proof -
  obtain db1 c where c: "assignment_create db plan student by' (clock 0) = (db1, Inr c)"
    using assignment_create_claims by blast
  note claim = claim_ok [OF ok st c]
  then have ok1: "fee_db_ok db1" by simp
  show ?thesis
  proof (cases "c = Full")
    case True
    with run c ok1 show ?thesis by (auto simp: assign_upto_def)
  next
    case False
    obtain a existed where a: "as_id a = \<lparr>fpa_plan = plan, fpa_student = student\<rparr>" "a \<in> set (db_assignments db1)"
      and sel: "(case c of Made created \<Rightarrow> Inr (created, False)
         | _ \<Rightarrow> and_then (ok_or (Internal (u ''failed to assign the fee plan''))
              (assignment_read db1 \<lparr>fpa_plan = plan, fpa_student = student\<rparr>)) (\<lambda>row. Inr (row, True)))
        = Inr (a, existed)"
    proof (cases c)
      case (Made row)
      with claim that [of row False] show ?thesis by simp
    next
      case Duplicate
      with claim obtain row where "assignment_read db1 \<lparr>fpa_plan = plan, fpa_student = student\<rparr> = Some row" by auto
      with Duplicate that [of row True] assignment_read_SomeD [OF this] show ?thesis by simp
    qed (use False in simp)
    from fee_db_okD(7) [OF ok1 a(2)] a(1) obtain p where p: "p \<in> set (db_plans db1)" "fp_id p = plan" by auto
    then have read: "plan_read db1 plan = Some p"
      using keyed_find_row [OF fee_db_okD(1) [OF ok1] p(1)] by (simp add: plan_read_def)
    have "fp_id p = fpa_plan (as_id a)" using p(2) a(1) by simp
    from billed_ok [OF ok1 a(2) p(1) this refl, of k by' clock]
    obtain rows where rows: "bill_installments (db_ledger db1) (as_id a) 1
        (case_option id take k (fp_installments p)) by' clock = (rows, Inr ())"
      "fee_db_ok (db1\<lparr>db_ledger := rows\<rparr>)"
      "\<forall>n. 1 \<le> n \<and> n \<le> length (case_option id take k (fp_installments p)) \<longrightarrow>
         ledger_read rows (for_installment (as_id a) n) \<noteq> None"
      by blast
    have "db' = db1\<lparr>db_ledger := rows\<rparr> \<and> r = Inr (a, existed)"
      using run False c rows(1) read sel unfolding assign_upto_def by (cases c) auto
    with rows read a show ?thesis by (auto simp: plan_read_def)
  qed
qed

lemma fee_db_step_ok: "fee_db_step db db' \<Longrightarrow> fee_db_ok db \<Longrightarrow> fee_db_ok db'"
proof (induction rule: fee_db_step.induct)
  case (create_step ins fresh db name by' now db' r)
  from create_ok [OF create_step(5,1-4)] show ?case .
next
  case (update_step ins db key name db' r)
  from update_ok [OF update_step(3,1,2)] show ?case .
next
  case (delete_step db key db' r)
  from delete_ok [OF delete_step(2,1)] show ?case .
next
  case (assign_step student k db plan by' clock db' r)
  from assign_upto_spec [OF assign_step(3,1,2)] show ?case by blast
next
  case (ledger_step rv db rows')
  have "ledger_ok rows'"
    using fee_step_ok [OF ledger_step(1)] fee_db_okD(3) [OF ledger_step(3)] .
  moreover have "charges_ok (db_plans db) (db_assignments db) rows'"
    using fee_db_okD(8) [OF ledger_step(3)] ledger_step(2) unfolding charges_ok_def by blast
  ultimately show ?case using ledger_step(3) by (simp add: fee_db_ok_def on_plan_def)
qed

lemma fee_db_reachable_ok: "fee_db_reachable db \<Longrightarrow> fee_db_ok db"
proof (induction rule: fee_db_reachable.induct)
  case db_empty
  then show ?case by (simp add: fee_db_ok_def keyed_def charges_ok_def)
qed (rule fee_db_step_ok)

section \<open>Properties\<close>

lemma row_with_source:
  assumes ok: "fee_db_ok db" and l: "l \<in> set (db_ledger db)" and aok: "assignment_ok a"
    and src: "pl_source l = Some (assignment_key a)"
  shows "\<exists>p \<in> set (db_plans db). fp_id p = fpa_plan a \<and> (\<exists>n. bill_of p a n l)"
proof -
  have line: "line_ok (db_ledger db) l" using fee_db_okD(3) [OF ok] l by (simp add: ledger_ok_def)
  have "pl_kind l = Charge"
  proof (rule ccontr)
    assume "pl_kind l \<noteq> Charge"
    with line obtain t where "t \<in> set (db_ledger db)" "pl_source l = Some (pl_id t)"
      by (cases "pl_kind l") (auto simp: line_ok_def points_at_def)
    with src ledger_ok_line_key [OF fee_db_okD(3) [OF ok], of t] assignment_not_line_key [of a] aok
    show False by (simp add: assignment_ok_def)
  qed
  with fee_db_okD(8) [OF ok] l obtain b p n where b: "b \<in> set (db_assignments db)"
    "p \<in> set (db_plans db)" "fp_id p = fpa_plan (as_id b)" "bill_of p (as_id b) n l"
    unfolding charges_ok_def by blast
  have "assignment_key (as_id b) = assignment_key a" using b(4) src by (simp add: bill_of_def)
  then have "as_id b = a"
    using assignment_key_inject [of "as_id b" a] fee_db_okD(6) [OF ok b(1)] aok by (simp add: assignment_ok_def)
  with b show ?thesis by auto
qed

text \<open>
  C1. Assigning a plan bills exactly the plan.  After a call of \<open>assign\<close> that succeeded, on any state
  the code can reach, including one where an earlier call was cut off half-way, every installment
  of the stored plan has its charge on the student, for its amount and due date, and every line
  caused by the assignment is one of them: nothing is missing and nothing is billed twice.
\<close>

theorem assign_bills_exactly_the_plan:
  assumes "fee_db_reachable db" "uuid_key student"
    and "assign db plan student by' clock = (db', Inr (a, existed))"
  shows "\<exists>p. plan_read db' plan = Some p \<and>
    (\<forall>n. 1 \<le> n \<and> n \<le> length (fp_installments p) \<longrightarrow>
       (\<exists>l. ledger_read (db_ledger db') (for_installment (as_id a) n) = Some l \<and> bill_of p (as_id a) n l)) \<and>
    (\<forall>l \<in> set (db_ledger db'). pl_source l = Some (assignment_key (as_id a)) \<longrightarrow>
       (\<exists>n. bill_of p (as_id a) n l))"
proof -
  note spec = assign_upto_spec [OF fee_db_reachable_ok [OF assms(1)] assms(2) assms(3) [unfolded assign_def]]
  then have ok: "fee_db_ok db'" by blast
  from spec obtain p where p: "plan_read db' plan = Some p"
    and all: "\<forall>n. 1 \<le> n \<and> n \<le> length (fp_installments p) \<longrightarrow>
      ledger_read (db_ledger db') (for_installment (as_id a) n) \<noteq> None"
    and a: "a \<in> set (db_assignments db')" "fpa_plan (as_id a) = plan" by auto
  have aok: "assignment_ok (as_id a)" using fee_db_okD(6) [OF ok a(1)] .
  have unique: "q = p" if "q \<in> set (db_plans db')" "fp_id q = fpa_plan (as_id a)" for q
  proof (rule plan_id_inject [OF ok that(1)])
    show "p \<in> set (db_plans db')" "fp_id q = fp_id p" using plan_read_SomeD [OF p] that(2) a(2) by simp_all
  qed
  have mine: "\<exists>n. bill_of p (as_id a) n l"
    if "l \<in> set (db_ledger db')" "pl_source l = Some (assignment_key (as_id a))" for l
    using row_with_source [OF ok that(1) aok that(2)] unique by blast
  moreover have "\<exists>l. ledger_read (db_ledger db') (for_installment (as_id a) n) = Some l \<and> bill_of p (as_id a) n l"
    if n: "1 \<le> n" "n \<le> length (fp_installments p)" for n
  proof -
    from all n obtain l where l: "ledger_read (db_ledger db') (for_installment (as_id a) n) = Some l" by auto
    then have lm: "l \<in> set (db_ledger db')" "pl_id l = for_installment (as_id a) n"
      by (auto simp: ledger_read_def dest: find_row_SomeD)
    have "pl_kind l = Charge" using installment_row_charge [OF fee_db_okD(3) [OF ok] aok l] .
    with fee_db_okD(8) [OF ok] lm(1) obtain b q m where b: "b \<in> set (db_assignments db')"
      "q \<in> set (db_plans db')" "fp_id q = fpa_plan (as_id b)" "bill_of q (as_id b) m l"
      unfolding charges_ok_def by blast
    have "as_id b = as_id a \<and> m = n"
      using for_installment_inject [of "as_id b" "as_id a" m n] fee_db_okD(6) [OF ok b(1)] aok b(4) lm(2)
      by (simp add: bill_of_def assignment_ok_def)
    then have same: "as_id b = as_id a" "m = n" by simp_all
    have "q = p" using unique [OF b(2)] b(3) same(1) by simp
    with b(4) same l show ?thesis by auto
  qed
  ultimately show ?thesis using p by blast
qed

definition demo_db :: fee_db where
  "demo_db = \<lparr>db_plans = [\<lparr>fp_id = replicate 36 97, fp_name = u ''yearly'',
      fp_installments = [\<lparr>in_amount_minor = 100, in_due_at = 5\<rparr>, \<lparr>in_amount_minor = 200, in_due_at = 9\<rparr>],
      fp_created_by = [109], fp_created_at = 0, fp_assignment_count = 0\<rparr>],
    db_assignments = [], db_ledger = []\<rparr>"

definition demo_half :: fee_db where
  "demo_half = fst (assign_upto (Some 1) demo_db (replicate 36 97) (replicate 36 98) [109] (\<lambda>n. int n))"

lemma demo_db_reachable: "fee_db_reachable demo_db"
proof -
  have "plan_create \<lparr>db_plans = [], db_assignments = [], db_ledger = []\<rparr> (u ''yearly'')
      [\<lparr>in_amount_minor = 100, in_due_at = 5\<rparr>, \<lparr>in_amount_minor = 200, in_due_at = 9\<rparr>] [109] (replicate 36 97) 0
      = (demo_db, Inr (hd (db_plans demo_db)))" by code_simp
  moreover have "uuid_key (replicate 36 97)" by code_simp
  ultimately have "fee_db_step \<lparr>db_plans = [], db_assignments = [], db_ledger = []\<rparr> demo_db"
    using create_step [of "[\<lparr>in_amount_minor = 100, in_due_at = 5\<rparr>, \<lparr>in_amount_minor = 200, in_due_at = 9\<rparr>]"]
    by (simp add: is_ledger_amount_def)
  then show ?thesis using db_step [OF db_empty] by blast
qed

lemma demo_half_reachable: "fee_db_reachable demo_half"
proof -
  have "uuid_key (replicate 36 98)" by code_simp
  from assign_step [OF this] have "fee_db_step demo_db demo_half"
    unfolding demo_half_def by (metis prod.collapse)
  then show ?thesis using db_step [OF demo_db_reachable] by blast
qed

theorem assign_bills_exactly_the_plan_witness:
  "length (db_ledger demo_half) = 1 \<and>
   (\<exists>db' a. assign demo_half (replicate 36 97) (replicate 36 98) [109] (\<lambda>n. int n) = (db', Inr (a, True)) \<and>
     (\<exists>p. plan_read db' (replicate 36 97) = Some p \<and>
    (\<forall>n. 1 \<le> n \<and> n \<le> length (fp_installments p) \<longrightarrow>
       (\<exists>l. ledger_read (db_ledger db') (for_installment (as_id a) n) = Some l \<and> bill_of p (as_id a) n l))))"
proof -
  let ?r = "assign demo_half (replicate 36 97) (replicate 36 98) [109] (\<lambda>n. int n)"
  have one: "length (db_ledger demo_half) = 1" by code_simp
  have "case ?r of (db', Inr (a, existed)) \<Rightarrow> existed | _ \<Rightarrow> False" by code_simp
  then obtain db' a where r: "?r = (db', Inr (a, True))" by (auto split: prod.splits sum.splits)
  have "uuid_key (replicate 36 98)" by code_simp
  from assign_bills_exactly_the_plan [OF demo_half_reachable this r] one r show ?thesis by blast
qed

text \<open>
  C2. An assigned plan is frozen.  While any student is on a plan, an edit of it is refused as a
  conflict and a deletion answers that nothing was deleted; neither changes anything.
\<close>

theorem assigned_plan_is_frozen:
  assumes "fee_db_reachable db" "a \<in> set (db_assignments db)"
    and "name \<noteq> None \<or> ins \<noteq> None" "\<And>is. ins = Some is \<Longrightarrow> validate_installments is = Inr ()"
  shows "plan_update db (fpa_plan (as_id a)) name ins
      = (db, Inl (Conflict (u ''an assigned plan cannot be edited''))) \<and>
    plan_delete db (fpa_plan (as_id a)) = (db, Inr False)"
proof -
  have ok: "fee_db_ok db" using assms(1) by (rule fee_db_reachable_ok)
  obtain p where p: "p \<in> set (db_plans db)" "fp_id p = fpa_plan (as_id a)"
    using fee_db_okD(7) [OF ok assms(2)] by auto
  have read: "plan_read db (fpa_plan (as_id a)) = Some p"
    using keyed_find_row [OF fee_db_okD(1) [OF ok] p(1)] p(2) by (simp add: plan_read_def)
  have "a \<in> set (on_plan db (fp_id p))" using assms(2) p(2) by (simp add: on_plan_def)
  then have "on_plan db (fp_id p) \<noteq> []" by auto
  then have "fp_assignment_count p \<noteq> 0" using fee_db_okD(5) [OF ok p(1)] by simp
  moreover have "(case ins of None \<Rightarrow> Inr () | Some is \<Rightarrow> validate_installments is) = Inr ()"
    using assms(4) by (auto split: option.split)
  ultimately show ?thesis using read assms(3) by (auto simp: plan_update_def plan_delete_def)
qed

theorem assigned_plan_is_frozen_witness:
  "plan_update demo_half (replicate 36 97) (Some (u ''x'')) None
      = (demo_half, Inl (Conflict (u ''an assigned plan cannot be edited'')))"
proof -
  have "\<exists>a. db_assignments demo_half = [a] \<and> fpa_plan (as_id a) = replicate 36 97"
  proof
    show "db_assignments demo_half = [hd (db_assignments demo_half)] \<and>
        fpa_plan (as_id (hd (db_assignments demo_half))) = replicate 36 97" by code_simp
  qed
  then obtain a where a: "db_assignments demo_half = [a]" "fpa_plan (as_id a) = replicate 36 97" by blast
  from assigned_plan_is_frozen [OF demo_half_reachable, of a "Some (u ''x'')" None] a show ?thesis by simp
qed

end
