(* ===== verification/Meals.thy ===== *)
theory Meals
  imports Ledger_Keys Ledger_Interface Database_Tx Money Fee_Plan
begin

text \<open>
  The canteen: menus (\<open>src/src/domain/menu.rs\<close>, \<open>src/src/db/menu.rs\<close>), the meal ledger
  (\<open>meal_ledger.rs\<close> of \<open>domain\<close>, \<open>db\<close> and \<open>service\<close>) and seat booking (\<open>meal_booking.rs\<close> of the
  same three layers).

  Calendar days come from a library outside the repository: \<open>parse_day\<close> is its answer for a string,
  the day's number since the epoch, and every day has a next one.  Booking is not one transaction:
  between reading the booking row and claiming the seat other requests may commit.  \<open>book\<close> takes
  what they do in each round as the function \<open>rivals\<close>.
\<close>

section \<open>Menus\<close>

record meal_slot_def =
  ms_name :: ustr
  ms_serving_minute :: "int option"

record menu =
  mn_id :: ustr
  mn_date :: ustr
  mn_slot :: ustr
  mn_capacity :: "int option"
  mn_version :: "int option"
  mn_created_by :: ustr
  mn_created_at :: int
  mn_seats_booked :: int

record slot_ref =
  sr_name :: ustr
  sr_count :: int
  sr_retired :: bool

record menu_dish =
  di_id :: ustr
  di_menu :: ustr
  di_name :: ustr
  di_description :: "ustr option"
  di_price_minor :: int
  di_created_at :: int

datatype meal_booking_status = Booked | Cancelled

record meal_booking =
  bk_id :: meal_booking_id
  bk_booked_by :: ustr
  bk_status :: meal_booking_status
  bk_attempt :: int
  bk_price_minor :: "int option"
  bk_cancelled_at :: "int option"
  bk_created_at :: int

record meal_ledger =
  ml_id :: ustr
  ml_student :: ustr
  ml_kind :: meal_ledger_kind
  ml_amount_minor :: int
  ml_source :: "ustr option"
  ml_method :: "ustr option"
  ml_note :: "ustr option"
  ml_recorded_by :: ustr
  ml_created_at :: int

record meal_db =
  md_menus :: "menu list"
  md_slot_refs :: "slot_ref list"
  md_dishes :: "menu_dish list"
  md_dish_tags :: "(ustr \<times> ustr) list"
  md_attendance :: "(ustr \<times> ustr) list"
  md_bookings :: "meal_booking list"
  md_ledger :: "meal_ledger list"

definition MAX_MENU_CAPACITY :: int where "MAX_MENU_CAPACITY = 10000"
definition MAX_MEAL_BOOKING_ATTEMPTS :: int where "MAX_MEAL_BOOKING_ATTEMPTS = 10"
definition MAX_DISHES_PER_MENU :: nat where "MAX_DISHES_PER_MENU = 50"
definition MAX_DISH_NAME_LEN :: nat where "MAX_DISH_NAME_LEN = 100"
definition MAX_DISH_DESCRIPTION_LEN :: nat where "MAX_DISH_DESCRIPTION_LEN = 500"
definition MAX_DISH_PRICE_MINOR :: int where "MAX_DISH_PRICE_MINOR = 1000000"
definition MAX_DISH_TAGS :: nat where "MAX_DISH_TAGS = 10"
definition MILLIS_PER_DAY :: int where "MILLIS_PER_DAY = 86400000"

text \<open>\<open>format_day\<close> prints a day; a date is accepted when it prints as itself.\<close>

definition menu_date_try_new :: "(ustr \<Rightarrow> int option) \<Rightarrow> (int \<Rightarrow> ustr) \<Rightarrow> ustr \<Rightarrow> ustr vresult" where
  "menu_date_try_new parse_day format_day raw =
     (let invalid = Invalid ''date'' ''must be a calendar day as YYYY-MM-DD'';
          value = trim raw in
      if length value \<noteq> 10 \<or> value ! 4 \<noteq> 45 \<or> value ! 7 \<noteq> 45 then Inl invalid
      else (case parse_day value of
              None \<Rightarrow> Inl invalid
            | Some day \<Rightarrow> if format_day day \<noteq> value then Inl invalid else Inr value))"

definition day_end :: "(ustr \<Rightarrow> int option) \<Rightarrow> ustr \<Rightarrow> int option" where
  "day_end parse_day date = map_option (\<lambda>day. (day + 1) * MILLIS_PER_DAY) (parse_day date)"

definition menu_slot_try_new :: "ustr \<Rightarrow> meal_slot_def list \<Rightarrow> ustr vresult" where
  "menu_slot_try_new raw allowed =
     (let value = trim raw in
      if \<not> list_ex (\<lambda>slot. ms_name slot = value) allowed
      then Inl (Invalid ''slot'' ''not one of the school's meal slots (see GET /settings)'')
      else if list_ex (\<lambda>c. c \<in> {47, 92, 63, 35, 37}) value
      then Inl (Invalid ''slot'' (''meal slot names used for menus must not contain / '' @ [CHR 0x5C] @ '' ? # or %''))
      else Inr value)"

definition validate_capacity :: "int option \<Rightarrow> unit vresult" where
  "validate_capacity value =
     (case value of
        Some capacity \<Rightarrow>
          if \<not> (0 \<le> capacity \<and> capacity \<le> MAX_MENU_CAPACITY)
          then Inl (Invalid ''capacity'' ''must be between 0 and 10000'') else Inr ()
      | None \<Rightarrow> Inr ())"

definition get_version :: "menu \<Rightarrow> int" where
  "get_version m = (case mn_version m of None \<Rightarrow> 0 | Some v \<Rightarrow> v)"

definition menu_read :: "meal_db \<Rightarrow> ustr \<Rightarrow> menu option" where
  "menu_read db key = find_row mn_id (md_menus db) key"

text \<open>The upsert of the slot's reference counter: nothing when the slot is retired.\<close>

definition bump_slot :: "slot_ref list \<Rightarrow> ustr \<Rightarrow> slot_ref list option" where
  "bump_slot refs name =
     (case find_row sr_name refs name of
        None \<Rightarrow> Some (refs @ [\<lparr>sr_name = name, sr_count = 1, sr_retired = False\<rparr>])
      | Some r \<Rightarrow>
          if sr_retired r then None
          else Some (map (\<lambda>x. if sr_name x = name then x\<lparr>sr_count := sr_count x + 1\<rparr> else x) refs))"

definition menu_create ::
  "meal_db \<Rightarrow> ustr \<Rightarrow> ustr \<Rightarrow> int option \<Rightarrow> ustr \<Rightarrow> int \<Rightarrow> meal_db \<times> menu aresult" where
  "menu_create db date slot capacity created_by now =
     run_tx (\<lambda>db.
       let key = menu_key_for_slot date slot in
       if menu_read db key \<noteq> None
       then (db, Inl (Conflict (u ''a menu is already published for that date and slot'')))
       else (case bump_slot (md_slot_refs db) slot of
               None \<Rightarrow> (db, Inl (ConflictOwned (u ''the '' @ [39] @ slot @ [39]
                        @ u '' meal slot has been removed from the school'' @ [39] @ u ''s settings'')))
             | Some refs \<Rightarrow>
                 if list_ex (\<lambda>x. mn_date x = date \<and> mn_slot x = slot) (md_menus db)
                 then (db, Inl (Conflict (u ''a menu is already published for that date and slot'')))
                 else (let m = \<lparr>mn_id = key, mn_date = date, mn_slot = slot, mn_capacity = capacity,
                           mn_version = Some 0, mn_created_by = created_by, mn_created_at = now,
                           mn_seats_booked = 0\<rparr>
                  in (db\<lparr>md_slot_refs := refs, md_menus := md_menus db @ [m]\<rparr>, Inr m)))) db"

definition menu_update :: "meal_db \<Rightarrow> ustr \<Rightarrow> int option option \<Rightarrow> meal_db \<times> menu aresult" where
  "menu_update db key capacity =
     (case capacity of
        None \<Rightarrow> (db, ok_or NotFound (menu_read db key))
      | Some cap \<Rightarrow>
          (case menu_read db key of
             None \<Rightarrow> (db, Inl NotFound)
           | Some m \<Rightarrow>
               (let m' = m\<lparr>mn_capacity := cap, mn_version := Some (get_version m + 1)\<rparr>
                in (db\<lparr>md_menus := map (\<lambda>x. if mn_id x = key then m' else x) (md_menus db)\<rparr>, Inr m'))))"

definition menu_delete :: "meal_db \<Rightarrow> menu \<Rightarrow> meal_db \<times> menu aresult" where
  "menu_delete db m =
     (let key = mn_id m in
      case menu_read db key of
        None \<Rightarrow> (db, Inl NotFound)
      | Some row \<Rightarrow>
          if mn_seats_booked row \<noteq> 0
          then (db, Inl (Conflict (u ''the menu still has live bookings'')))
          else (db\<lparr>md_attendance := filter (\<lambda>a. fst a \<noteq> key) (md_attendance db),
                   md_dish_tags := filter (\<lambda>t. \<not> list_ex (\<lambda>d. di_menu d = key \<and> di_id d = fst t) (md_dishes db))
                     (md_dish_tags db),
                   md_dishes := filter (\<lambda>d. di_menu d \<noteq> key) (md_dishes db),
                   md_menus := filter (\<lambda>x. mn_id x \<noteq> key) (md_menus db),
                   md_slot_refs := map (\<lambda>r. if sr_name r = mn_slot m
                       then r\<lparr>sr_count := max (sr_count r - 1) 0\<rparr> else r) (md_slot_refs db)\<rparr>,
                Inr row))"


section \<open>Dishes\<close>

definition dish_name_try_new :: "ustr \<Rightarrow> ustr vresult" where
  "dish_name_try_new value = and_then (validate_required ''name'' value MAX_DISH_NAME_LEN) (\<lambda>_. Inr value)"

definition dish_description_try_new :: "ustr \<Rightarrow> ustr option vresult" where
  "dish_description_try_new value =
     and_then (validate_optional ''description'' value MAX_DISH_DESCRIPTION_LEN) (\<lambda>_.
       let value = trim value in Inr (if value = [] then None else Some value))"

definition dish_price_try_new :: "int \<Rightarrow> int vresult" where
  "dish_price_try_new value =
     (if \<not> (0 \<le> value \<and> value \<le> MAX_DISH_PRICE_MINOR)
      then Inl (Invalid ''price_minor'' ''must be between 0 and 1000000 minor units'') else Inr value)"

fun dish_tags_loop :: "ustr list \<Rightarrow> ustr list \<Rightarrow> ustr list \<Rightarrow> ustr list vresult" where
  "dish_tags_loop allowed tags [] = Inr tags"
| "dish_tags_loop allowed tags (v # vs) =
     (let value = trim v in
      if \<not> List.member allowed value
      then Inl (Invalid ''tags'' ''not one of the school's dietary tags (see GET /settings)'')
      else dish_tags_loop allowed (if List.member tags value then tags else tags @ [value]) vs)"

definition dish_tags_try_new :: "ustr list \<Rightarrow> ustr list \<Rightarrow> ustr list vresult" where
  "dish_tags_try_new values allowed =
     and_then (dish_tags_loop allowed [] values) (\<lambda>tags.
       if length tags > MAX_DISH_TAGS then Inl (Invalid ''tags'' ''at most 10 tags per dish'') else Inr tags)"

definition bump_version :: "ustr \<Rightarrow> menu list \<Rightarrow> menu list" where
  "bump_version key menus =
     map (\<lambda>x. if mn_id x = key then x\<lparr>mn_version := Some (get_version x + 1)\<rparr> else x) menus"

definition tags_of :: "meal_db \<Rightarrow> ustr \<Rightarrow> ustr list" where
  "tags_of db dish = map snd (filter (\<lambda>t. fst t = dish) (md_dish_tags db))"

definition dish_read :: "meal_db \<Rightarrow> ustr \<Rightarrow> (menu_dish \<times> ustr list) option" where
  "dish_read db key = map_option (\<lambda>d. (d, tags_of db key)) (find_row di_id (md_dishes db) key)"

definition dish_create ::
  "meal_db \<Rightarrow> ustr \<Rightarrow> ustr \<Rightarrow> ustr option \<Rightarrow> int \<Rightarrow> ustr list \<Rightarrow> nat \<Rightarrow> ustr \<Rightarrow> int
     \<Rightarrow> meal_db \<times> (menu_dish \<times> ustr list) aresult" where
  "dish_create db m name description price tags cap fresh now =
     run_tx (\<lambda>db.
       if menu_read db m = None then (db, Inl NotFound)
       else
         (let db1 = db\<lparr>md_menus := bump_version m (md_menus db)\<rparr> in
          if \<not> length (filter (\<lambda>d. di_menu d = m) (md_dishes db1)) < cap
          then (db1, Inl (Conflict (u ''the menu already carries the maximum number of dishes'')))
          else
            (let db2 = db1\<lparr>md_dishes := md_dishes db1 @ [\<lparr>di_id = fresh, di_menu = m, di_name = name,
                          di_description = description, di_price_minor = price, di_created_at = now\<rparr>],
                        md_dish_tags := md_dish_tags db1 @ map (\<lambda>t. (fresh, t)) tags\<rparr>
             in (db2, ok_or NotFound (dish_read db2 fresh))))) db"

definition add_dish ::
  "meal_db \<Rightarrow> ustr \<Rightarrow> ustr \<Rightarrow> ustr option \<Rightarrow> int \<Rightarrow> ustr list \<Rightarrow> ustr \<Rightarrow> int
     \<Rightarrow> meal_db \<times> (menu_dish \<times> ustr list) aresult" where
  "add_dish db m name description price tags fresh now =
     dish_create db m name description price tags MAX_DISHES_PER_MENU fresh now"

definition dish_update ::
  "meal_db \<Rightarrow> menu_dish \<Rightarrow> ustr option \<Rightarrow> ustr option option \<Rightarrow> int option \<Rightarrow> ustr list option
     \<Rightarrow> meal_db \<times> (menu_dish \<times> ustr list) aresult" where
  "dish_update db dish name description price tags =
     run_tx (\<lambda>db.
       if menu_read db (di_menu dish) = None then (db, Inl NotFound)
       else
         (let db1 = db\<lparr>md_menus := bump_version (di_menu dish) (md_menus db)\<rparr> in
          case find_row di_id (md_dishes db1) (di_id dish) of
            None \<Rightarrow> (db1, Inl NotFound)
          | Some _ \<Rightarrow>
              (let edit = (\<lambda>d. d\<lparr>di_name := case_option (di_name d) id name,
                                di_description := case_option (di_description d) id description,
                                di_price_minor := case_option (di_price_minor d) id price\<rparr>);
                   db2 = db1\<lparr>md_dishes := map (\<lambda>d. if di_id d = di_id dish then edit d else d) (md_dishes db1)\<rparr>;
                   db3 = (case tags of
                            None \<Rightarrow> db2
                          | Some ts \<Rightarrow> db2\<lparr>md_dish_tags := filter (\<lambda>t. fst t \<noteq> di_id dish) (md_dish_tags db2)
                                             @ map (\<lambda>t. (di_id dish, t)) ts\<rparr>)
               in (db3, ok_or NotFound (dish_read db3 (di_id dish)))))) db"

definition dish_delete :: "meal_db \<Rightarrow> menu_dish \<Rightarrow> meal_db \<times> (menu_dish \<times> ustr list) aresult" where
  "dish_delete db dish =
     run_tx (\<lambda>db.
       if menu_read db (di_menu dish) = None then (db, Inl NotFound)
       else
         (let db1 = db\<lparr>md_menus := bump_version (di_menu dish) (md_menus db)\<rparr> in
          case dish_read db1 (di_id dish) of
            None \<Rightarrow> (db1, Inl NotFound)
          | Some row \<Rightarrow>
              (db1\<lparr>md_dish_tags := filter (\<lambda>t. fst t \<noteq> di_id dish) (md_dish_tags db1),
                   md_dishes := filter (\<lambda>d. di_id d \<noteq> di_id dish) (md_dishes db1)\<rparr>, Inr row))) db"


section \<open>The ledger\<close>

fun meal_kind_sign :: "meal_ledger_kind \<Rightarrow> int" where
  "meal_kind_sign MCharge = -1"
| "meal_kind_sign MCredit = 1"
| "meal_kind_sign MReversal = 1"

definition MEAL_LEDGER_KINDS :: "meal_ledger_kind list" where
  "MEAL_LEDGER_KINDS = [MCharge, MCredit, MReversal]"

definition charge_for :: "meal_booking \<Rightarrow> ustr \<Rightarrow> int \<Rightarrow> meal_ledger option" where
  "charge_for b recorded_by now =
     map_option (\<lambda>amount.
       \<lparr>ml_id = for_attempt (bk_id b) (bk_attempt b) MCharge, ml_student = mb_student (bk_id b),
        ml_kind = MCharge, ml_amount_minor = amount, ml_source = Some (booking_key (bk_id b)),
        ml_method = None, ml_note = None, ml_recorded_by = recorded_by, ml_created_at = now\<rparr>)
     (bk_price_minor b)"

definition reversal_for :: "meal_booking \<Rightarrow> ustr \<Rightarrow> int \<Rightarrow> (ustr \<times> meal_ledger) option" where
  "reversal_for b recorded_by now =
     map_option (\<lambda>amount.
       (let charge = for_attempt (bk_id b) (bk_attempt b) MCharge in
        (charge,
         \<lparr>ml_id = for_attempt (bk_id b) (bk_attempt b) MReversal, ml_student = mb_student (bk_id b),
          ml_kind = MReversal, ml_amount_minor = amount, ml_source = Some charge,
          ml_method = None, ml_note = None, ml_recorded_by = recorded_by, ml_created_at = now\<rparr>)))
     (bk_price_minor b)"

definition meal_ledger_read :: "meal_ledger list \<Rightarrow> ustr \<Rightarrow> meal_ledger option" where
  "meal_ledger_read rows key = find_row ml_id rows key"

definition meal_append :: "meal_ledger list \<Rightarrow> meal_ledger \<Rightarrow> meal_ledger list \<times> meal_ledger aresult" where
  "meal_append rows row =
     (case meal_ledger_read rows (ml_id row) of
        Some existing \<Rightarrow> (rows, Inr existing)
      | None \<Rightarrow>
          (let rows' = insert_row ml_id row rows in
           (rows', ok_or (Internal (u ''failed to write the ledger line''))
              (meal_ledger_read rows' (ml_id row)))))"

definition price_snapshot :: "meal_db \<Rightarrow> ustr \<Rightarrow> int option aresult" where
  "price_snapshot db m =
     (let total = sum_list (map di_price_minor (filter (\<lambda>d. di_menu d = m) (md_dishes db))) in
      if total = 0 then Inr None
      else and_then (map_err Validation (ledger_amount_try_new total)) (\<lambda>a. Inr (Some a)))"

definition meal_balance_of :: "meal_ledger list \<Rightarrow> ustr \<Rightarrow> int" where
  "meal_balance_of rows student =
     signed_sum meal_kind_sign (group_totals MEAL_LEDGER_KINDS
       (map (\<lambda>l. (ml_kind l, ml_amount_minor l)) (filter (\<lambda>l. ml_student l = student) rows)))"

definition charge_booking :: "meal_ledger list \<Rightarrow> meal_booking \<Rightarrow> ustr \<Rightarrow> int \<Rightarrow> meal_ledger list" where
  "charge_booking rows b recorded_by now =
     (case charge_for b recorded_by now of
        None \<Rightarrow> rows
      | Some line \<Rightarrow> fst (meal_append rows line))"

definition reverse_booking :: "meal_ledger list \<Rightarrow> meal_booking \<Rightarrow> ustr \<Rightarrow> int \<Rightarrow> meal_ledger list" where
  "reverse_booking rows b recorded_by now =
     (case reversal_for b recorded_by now of
        None \<Rightarrow> rows
      | Some (charge, line) \<Rightarrow>
          if meal_ledger_read rows charge = None then rows else fst (meal_append rows line))"

definition meal_credit ::
  "meal_ledger list \<Rightarrow> ustr \<Rightarrow> int \<Rightarrow> ustr option \<Rightarrow> ustr option \<Rightarrow> ustr option \<Rightarrow> ustr \<Rightarrow> ustr \<Rightarrow> int
     \<Rightarrow> meal_ledger list \<times> meal_ledger aresult" where
  "meal_credit rows student amount mtd note request_key recorded_by fresh now =
     (case meal_append rows
             \<lparr>ml_id = (case request_key of Some key \<Rightarrow> credit_for_request student key | None \<Rightarrow> fresh),
              ml_student = student, ml_kind = MCredit, ml_amount_minor = amount, ml_source = None,
              ml_method = mtd, ml_note = note, ml_recorded_by = recorded_by, ml_created_at = now\<rparr> of
        (rows', Inl e) \<Rightarrow> (rows', Inl e)
      | (rows', Inr line) \<Rightarrow>
          if request_key \<noteq> None \<and> ml_amount_minor line \<noteq> amount
          then (rows', Inl (Conflict (u ''this request_key was already used for a different amount'')))
          else (rows', Inr line))"


section \<open>The window\<close>

record meal_cutoff =
  mc_minutes :: "int option"
  mc_slots :: "meal_slot_def list"

definition serving_minute :: "meal_cutoff \<Rightarrow> ustr \<Rightarrow> int option" where
  "serving_minute c slot =
     (case find (\<lambda>d. ms_name d = slot) (mc_slots c) of None \<Rightarrow> None | Some d \<Rightarrow> ms_serving_minute d)"

definition served_at :: "(ustr \<Rightarrow> int option) \<Rightarrow> ustr \<Rightarrow> int option \<Rightarrow> int option" where
  "served_at parse_day date minute =
     map_option (\<lambda>day. day * MILLIS_PER_DAY + saturating_mul (case_option 0 id minute) 60000) (parse_day date)"

definition check_day_not_past :: "(ustr \<Rightarrow> int option) \<Rightarrow> int \<Rightarrow> ustr \<Rightarrow> unit aresult" where
  "check_day_not_past parse_day now date =
     (case day_end parse_day date of
        None \<Rightarrow> Inr ()
      | Some over \<Rightarrow>
          if now \<ge> over
          then Inl (Conflict (u ''that meal'' @ [39] @ u ''s day has passed, so its menu takes no more bookings''))
          else Inr ())"

definition check_cutoff ::
  "(ustr \<Rightarrow> int option) \<Rightarrow> int \<Rightarrow> ustr \<Rightarrow> ustr \<Rightarrow> meal_cutoff \<Rightarrow> unit aresult" where
  "check_cutoff parse_day now date slot c =
     (case mc_minutes c of
        None \<Rightarrow> Inr ()
      | Some minutes \<Rightarrow>
          (case served_at parse_day date (serving_minute c slot) of
             None \<Rightarrow> Inl (Conflict (u ''the menu'' @ [39]
                       @ u ''s date is not a real calendar day, so its cutoff cannot be worked out''))
           | Some serving \<Rightarrow>
               if serving_minute c slot = None then Inr ()
               else if now \<ge> saturating_sub serving (saturating_mul minutes 60000)
               then Inl (Conflict (u ''the menu'' @ [39] @ u ''s booking cutoff has passed''))
               else Inr ()))"


section \<open>Booking\<close>

definition booking_read :: "meal_db \<Rightarrow> meal_booking_id \<Rightarrow> meal_booking option" where
  "booking_read db b = find_row bk_id (md_bookings db) b"

text \<open>
  The claim.  The transaction commits every answer, so the seat taken by the counter update stays
  taken when the row could neither be revived nor inserted.
\<close>

definition claim_body ::
  "ustr \<Rightarrow> int \<Rightarrow> int \<Rightarrow> meal_booking \<Rightarrow> int option \<Rightarrow> meal_ledger option \<Rightarrow> meal_db
     \<Rightarrow> meal_db \<times> meal_booking claimed aresult" where
  "claim_body m cap seen row price charge db =
     (let held = (\<lambda>db. case booking_read db (bk_id row) of None \<Rightarrow> False | Some b \<Rightarrow> bk_status b = Booked) in
      if held db then (db, Inr Duplicate)
      else (case menu_read db m of
              None \<Rightarrow> (db, Inr (if held db then Duplicate else Full))
            | Some mn \<Rightarrow>
                if \<not> (mn_seats_booked mn < cap \<and> get_version mn = seen)
                then (db, Inr (if held db then Duplicate else Full))
                else
                  (let db1 = db\<lparr>md_menus := map (\<lambda>x. if mn_id x = m
                             then x\<lparr>mn_seats_booked := mn_seats_booked x + 1\<rparr> else x) (md_menus db)\<rparr>;
                       bill = (\<lambda>db. case charge of None \<Rightarrow> db
                                 | Some line \<Rightarrow> db\<lparr>md_ledger := insert_row ml_id line (md_ledger db)\<rparr>)
                   in (case booking_read db1 (bk_id row) of
                         Some b \<Rightarrow>
                           if bk_status b = Cancelled \<and> bk_attempt b = bk_attempt row - 1
                           then (let b' = b\<lparr>bk_status := Booked, bk_attempt := bk_attempt row,
                                            bk_price_minor := price, bk_cancelled_at := None\<rparr>
                                 in (bill (db1\<lparr>md_bookings := map (\<lambda>x. if bk_id x = bk_id row then b' else x)
                                                 (md_bookings db1)\<rparr>), Inr (Made b')))
                           else (db1, Inr Duplicate)
                       | None \<Rightarrow>
                           (let b' = row\<lparr>bk_price_minor := price\<rparr>
                            in (bill (db1\<lparr>md_bookings := md_bookings db1 @ [b']\<rparr>), Inr (Made b')))))))"

definition claim_and_place ::
  "meal_db \<Rightarrow> ustr \<Rightarrow> int \<Rightarrow> int \<Rightarrow> meal_booking \<Rightarrow> int option \<Rightarrow> meal_ledger option
     \<Rightarrow> meal_db \<times> meal_booking claimed aresult" where
  "claim_and_place db m cap seen row price charge = run_tx (claim_body m cap seen row price charge) db"

definition release_seat ::
  "meal_db \<Rightarrow> meal_booking \<Rightarrow> ustr \<Rightarrow> int \<Rightarrow> meal_db \<times> meal_booking option" where
  "release_seat db booked recorded_by now =
     (case booking_read db (bk_id booked) of
        None \<Rightarrow> (db, None)
      | Some b \<Rightarrow>
          if \<not> (bk_status b = Booked \<and> bk_attempt b = bk_attempt booked) then (db, None)
          else
            (let b' = b\<lparr>bk_status := Cancelled, bk_cancelled_at := Some now\<rparr>;
                 db1 = db\<lparr>md_bookings := map (\<lambda>x. if bk_id x = bk_id booked then b' else x) (md_bookings db),
                          md_menus := map (\<lambda>x. if mn_id x = mb_menu (bk_id booked)
                            then x\<lparr>mn_seats_booked := max (mn_seats_booked x - 1) 0\<rparr> else x) (md_menus db)\<rparr>
             in (case reversal_for booked recorded_by now of
                   None \<Rightarrow> (db1, Some b')
                 | Some (charge, line) \<Rightarrow>
                     if meal_ledger_read (md_ledger db1) charge \<noteq> None
                          \<and> meal_ledger_read (md_ledger db1) (ml_id line) = None
                     then (db1\<lparr>md_ledger := insert_row ml_id line (md_ledger db1)\<rparr>, Some b')
                     else (db1, Some b'))))"

text \<open>
  One round of the booking loop: \<open>Inl\<close> continues with the next round, \<open>Inr\<close> answers.  \<open>rivals\<close> is
  what other requests commit between the reads of the round and its claim.
\<close>

definition book_claim ::
  "(meal_db \<Rightarrow> meal_db) \<Rightarrow> meal_db \<Rightarrow> meal_booking_id \<Rightarrow> ustr \<Rightarrow> int \<Rightarrow> menu \<Rightarrow> int
     \<Rightarrow> meal_db \<times> meal_booking aresult option" where
  "book_claim rivals db b booked_by now fresh attempt =
     (if attempt > MAX_MEAL_BOOKING_ATTEMPTS
      then (db, Some (Inl (Conflict (u ''this seat has been booked and cancelled its maximum number of times''))))
      else (case price_snapshot db (mb_menu b) of
              Inl e \<Rightarrow> (db, Some (Inl e))
            | Inr price \<Rightarrow>
                (let row = \<lparr>bk_id = b, bk_booked_by = booked_by, bk_status = Booked, bk_attempt = attempt,
                            bk_price_minor = price, bk_cancelled_at = None, bk_created_at = now\<rparr>
                 in (case claim_and_place (rivals db) (mb_menu b) (case_option UNLIMITED id (mn_capacity fresh))
                            (get_version fresh) row price (charge_for row booked_by now) of
                       (db', Inl e) \<Rightarrow> (db', Some (Inl e))
                     | (db', Inr (Made made)) \<Rightarrow> (db', Some (Inr made))
                     | (db', Inr Duplicate) \<Rightarrow> (db', None)
                     | (db', Inr Full) \<Rightarrow>
                         (db', (case menu_read db' (mb_menu b) of
                                  None \<Rightarrow> Some (Inl NotFound)
                                | Some m \<Rightarrow>
                                    if get_version m \<noteq> get_version fresh then None
                                    else Some (Inl (Conflict (u ''the menu is fully booked'')))))))))"

definition book_round ::
  "(ustr \<Rightarrow> int option) \<Rightarrow> (meal_db \<Rightarrow> meal_db) \<Rightarrow> meal_db \<Rightarrow> meal_booking_id \<Rightarrow> ustr \<Rightarrow> meal_cutoff \<Rightarrow> int
     \<Rightarrow> meal_db \<times> meal_booking aresult option" where
  "book_round parse_day rivals db b booked_by cutoff now =
     (case menu_read db (mb_menu b) of
        None \<Rightarrow> (db, Some (Inl NotFound))
      | Some fresh \<Rightarrow>
          (case and_then (check_day_not_past parse_day now (mn_date fresh))
                  (\<lambda>_. check_cutoff parse_day now (mn_date fresh) (mn_slot fresh) cutoff) of
             Inl e \<Rightarrow> (db, Some (Inl e))
           | Inr _ \<Rightarrow>
               (case booking_read db b of
                  Some held \<Rightarrow>
                    if bk_status held = Booked
                    then (let db1 = rivals (db\<lparr>md_ledger := charge_booking (md_ledger db) held booked_by now\<rparr>)
                          in (db1, case booking_read db1 b of
                                     Some live \<Rightarrow> if bk_status live = Booked then Some (Inr live) else None
                                   | None \<Rightarrow> None))
                    else book_claim rivals db b booked_by now fresh (bk_attempt held + 1)
                | None \<Rightarrow> book_claim rivals db b booked_by now fresh 1)))"

fun book_rounds ::
  "nat \<Rightarrow> nat \<Rightarrow> (ustr \<Rightarrow> int option) \<Rightarrow> (nat \<Rightarrow> meal_db \<Rightarrow> meal_db) \<Rightarrow> meal_db \<Rightarrow> meal_booking_id \<Rightarrow> ustr
     \<Rightarrow> meal_cutoff \<Rightarrow> (nat \<Rightarrow> int) \<Rightarrow> meal_db \<times> meal_booking aresult" where
  "book_rounds 0 k parse_day rivals db b booked_by cutoff clock =
     (db, Inl (Conflict (u ''the menu kept changing underneath this booking'')))"
| "book_rounds (Suc rounds) k parse_day rivals db b booked_by cutoff clock =
     (case book_round parse_day (rivals k) db b booked_by cutoff (clock k) of
        (db', Some r) \<Rightarrow> (db', r)
      | (db', None) \<Rightarrow> book_rounds rounds (Suc k) parse_day rivals db' b booked_by cutoff clock)"

definition book ::
  "(ustr \<Rightarrow> int option) \<Rightarrow> (nat \<Rightarrow> meal_db \<Rightarrow> meal_db) \<Rightarrow> meal_db \<Rightarrow> meal_booking_id \<Rightarrow> ustr
     \<Rightarrow> meal_cutoff \<Rightarrow> (nat \<Rightarrow> int) \<Rightarrow> meal_db \<times> meal_booking aresult" where
  "book parse_day rivals db b booked_by cutoff clock =
     book_rounds CAP_WRITE_TRIES 0 parse_day rivals db b booked_by cutoff clock"

definition refundable_after_lost_flip :: "meal_booking \<Rightarrow> meal_booking \<Rightarrow> bool aresult" where
  "refundable_after_lost_flip seen live =
     (if bk_status live = Booked
      then Inl (Conflict (u ''the seat was booked again while this cancellation ran''))
      else Inr (bk_attempt live = bk_attempt seen))"

text \<open>Cancelling; \<open>rivals\<close> is what other requests commit between the read and the release.\<close>

definition cancel ::
  "(ustr \<Rightarrow> int option) \<Rightarrow> (meal_db \<Rightarrow> meal_db) \<Rightarrow> meal_db \<Rightarrow> meal_booking_id \<Rightarrow> meal_cutoff \<Rightarrow> ustr \<Rightarrow> int
     \<Rightarrow> meal_db \<times> meal_booking aresult" where
  "cancel parse_day rivals db b cutoff recorded_by now =
     (case booking_read db b of
        None \<Rightarrow> (db, Inl NotFound)
      | Some fresh \<Rightarrow>
          if bk_status fresh = Cancelled
          then (db\<lparr>md_ledger := reverse_booking (md_ledger db) fresh recorded_by now\<rparr>, Inr fresh)
          else (case menu_read db (mb_menu b) of
                  None \<Rightarrow> (db, Inl NotFound)
                | Some m \<Rightarrow>
                    (case check_cutoff parse_day now (mn_date m) (mn_slot m) cutoff of
                       Inl e \<Rightarrow> (db, Inl e)
                     | Inr _ \<Rightarrow>
                         (case release_seat (rivals db) fresh recorded_by now of
                            (db1, Some saved) \<Rightarrow>
                              (db1\<lparr>md_ledger := reverse_booking (md_ledger db1) saved recorded_by now\<rparr>, Inr saved)
                          | (db1, None) \<Rightarrow>
                              (case booking_read db1 b of
                                 None \<Rightarrow> (db1, Inl NotFound)
                               | Some live \<Rightarrow>
                                   (case refundable_after_lost_flip fresh live of
                                      Inl e \<Rightarrow> (db1, Inl e)
                                    | Inr False \<Rightarrow> (db1, Inr live)
                                    | Inr True \<Rightarrow>
                                        (db1\<lparr>md_ledger := reverse_booking (md_ledger db1) live recorded_by now\<rparr>,
                                         Inr live)))))))"

end
