(* ===== verification/Meals_Properties.thy ===== *)
theory Meals_Properties
  imports Meals
begin

text \<open>
  What the canteen guarantees under interleaved requests: a menu is never over-booked, and a student
  owes exactly for the seats currently held.  The step relation is the set of committed
  transactions; \<open>book\<close> and \<open>cancel\<close> are sequences of them with reads in between, so what holds of
  every step holds of every interleaving.  One path of the claim leaves the seat counter too high;
  it is exhibited as a run.
\<close>

section \<open>The ledger as an append-only table\<close>

interpretation meal_append: append_only meal_ledger_read meal_append ml_id "\<lambda>_ _. True"
  by unfold_locales
    (auto simp: meal_ledger_read_def meal_append_def Let_def table_simps split: option.splits)

interpretation meal_fold: signed_fold meal_kind_sign MEAL_LEDGER_KINDS
proof
  show "set MEAL_LEDGER_KINDS = UNIV"
  proof
    show "UNIV \<subseteq> set MEAL_LEDGER_KINDS"
    proof
      fix k show "k \<in> set MEAL_LEDGER_KINDS" by (cases k) (simp_all add: MEAL_LEDGER_KINDS_def)
    qed
  qed simp
  show "meal_kind_sign k = 1 \<or> meal_kind_sign k = -1" for k by (cases k) simp_all
qed (simp add: MEAL_LEDGER_KINDS_def)

definition msigned :: "meal_ledger \<Rightarrow> int" where
  "msigned l = meal_kind_sign (ml_kind l) * ml_amount_minor l"

lemma meal_balance_lines:
  "meal_balance_of rows s = sum_list (map msigned (filter (\<lambda>l. ml_student l = s) rows))"
proof -
  have "signed_sum meal_kind_sign (map (\<lambda>l. (ml_kind l, ml_amount_minor l)) ls) = sum_list (map msigned ls)" for ls
    by (induction ls) (simp_all add: msigned_def)
  then show ?thesis by (simp add: meal_balance_of_def meal_fold.grouped_equals_lines)
qed

lemma meal_read_None: "meal_ledger_read rows k = None \<longleftrightarrow> k \<notin> ml_id ` set rows"
  by (simp add: meal_ledger_read_def find_row_None_iff)

lemma meal_append_eq:
  "meal_append rows row =
     (case meal_ledger_read rows (ml_id row) of Some l \<Rightarrow> (rows, Inr l) | None \<Rightarrow> (rows @ [row], Inr row))"
  by (auto simp: meal_append_def Let_def meal_ledger_read_def table_simps insert_row_def find_row_append
      find_row_single split: option.split)

lemma fst_meal_append: "fst (meal_append rows row) = insert_row ml_id row rows"
  by (auto simp: meal_append_eq insert_row_def meal_ledger_read_def split: option.split)


section \<open>Replacing a row of a keyed table\<close>

definition put_row :: "('r \<Rightarrow> 'k) \<Rightarrow> 'k \<Rightarrow> 'r \<Rightarrow> 'r list \<Rightarrow> 'r list" where
  "put_row key k r rows = map (\<lambda>x. if key x = k then r else x) rows"

lemma put_row_absent: "k \<notin> key ` set rows \<Longrightarrow> put_row key k r rows = rows"
  unfolding put_row_def by (induction rows) auto

lemma sum_put_row:
  fixes f :: "'r \<Rightarrow> int"
  assumes "keyed key rows" "find_row key rows k = Some b"
  shows "sum_list (map f (put_row key k r rows)) = sum_list (map f rows) - f b + f r"
  using assms
proof (induction rows)
  case (Cons x rows)
  show ?case
  proof (cases "key x = k")
    case True
    then have "k \<notin> key ` set rows" using Cons.prems(1) by (auto simp: keyed_def)
    with True Cons.prems(2) put_row_absent [of k key rows r] show ?thesis
      by (auto simp: put_row_def find_row_def)
  next
    case False
    with Cons show ?thesis by (auto simp: put_row_def find_row_def keyed_def)
  qed
qed simp

lemma keyed_put_row: "keyed key rows \<Longrightarrow> key r = k \<Longrightarrow> keyed key (put_row key k r rows)"
proof -
  assume "keyed key rows" "key r = k"
  moreover have "map key (put_row key k r rows) = map key rows" using \<open>key r = k\<close> by (auto simp: put_row_def)
  ultimately show ?thesis unfolding keyed_def by metis
qed

lemma set_put_row: "x \<in> set (put_row key k r rows) \<Longrightarrow> x = r \<or> (x \<in> set rows \<and> key x \<noteq> k)"
  by (auto simp: put_row_def)

lemma mem_put_row: "x \<in> set rows \<Longrightarrow> key x \<noteq> k \<Longrightarrow> x \<in> set (put_row key k r rows)"
  by (auto simp: put_row_def)

lemma put_row_mem: "find_row key rows k = Some b \<Longrightarrow> r \<in> set (put_row key k r rows)"
  using find_row_SomeD by (fastforce simp: put_row_def)


section \<open>The invariants\<close>

definition seat :: "ustr \<Rightarrow> meal_booking \<Rightarrow> int" where
  "seat m b = (if bk_status b = Booked \<and> mb_menu (bk_id b) = m then 1 else 0)"

definition seats_held :: "meal_db \<Rightarrow> ustr \<Rightarrow> int" where
  "seats_held db m = sum_list (map (seat m) (md_bookings db))"

definition seats_ok :: "meal_db \<Rightarrow> bool" where
  "seats_ok db \<longleftrightarrow>
     keyed mn_id (md_menus db) \<and> keyed bk_id (md_bookings db) \<and>
     (\<forall>m \<in> set (md_menus db). seats_held db (mn_id m) \<le> mn_seats_booked m) \<and>
     (\<forall>m. m \<notin> mn_id ` set (md_menus db) \<longrightarrow> seats_held db m = 0)"

definition held_price :: "ustr \<Rightarrow> meal_booking \<Rightarrow> int" where
  "held_price s b = (if bk_status b = Booked \<and> mb_student (bk_id b) = s then case_option 0 id (bk_price_minor b) else 0)"

definition seats_owed :: "meal_db \<Rightarrow> ustr \<Rightarrow> int" where
  "seats_owed db s = sum_list (map (held_price s) (md_bookings db))"

definition credited :: "meal_ledger list \<Rightarrow> ustr \<Rightarrow> int" where
  "credited rows s =
     sum_list (map ml_amount_minor (filter (\<lambda>l. ml_student l = s \<and> ml_kind l = MCredit) rows))"

definition booking_id_ok :: "meal_booking_id \<Rightarrow> bool" where
  "booking_id_ok b \<longleftrightarrow> uuid_key (mb_student b)"

definition credit_id :: "ustr \<Rightarrow> bool" where
  "credit_id k \<longleftrightarrow> uuid_key k \<or>
     (\<exists>s r. uuid_key s \<and> validate_request_key r = Inr () \<and> k = credit_for_request s r)"

definition money_ok :: "meal_db \<Rightarrow> bool" where
  "money_ok db \<longleftrightarrow>
     keyed ml_id (md_ledger db) \<and> keyed bk_id (md_bookings db) \<and>
     (\<forall>b \<in> set (md_bookings db). booking_id_ok (bk_id b)) \<and>
     (\<forall>l \<in> set (md_ledger db). credit_id (ml_id l) \<or>
        (\<exists>b \<in> set (md_bookings db). \<exists>k \<le> bk_attempt b. \<exists>x. ml_id l = for_attempt (bk_id b) k x)) \<and>
     (\<forall>b \<in> set (md_bookings db). bk_status b = Booked \<longrightarrow>
        (for_attempt (bk_id b) (bk_attempt b) MCharge \<in> ml_id ` set (md_ledger db)
           \<longleftrightarrow> bk_price_minor b \<noteq> None) \<and>
        for_attempt (bk_id b) (bk_attempt b) MReversal \<notin> ml_id ` set (md_ledger db)) \<and>
     (\<forall>b \<in> set (md_bookings db). bk_status b = Cancelled \<and>
        for_attempt (bk_id b) (bk_attempt b) MCharge \<in> ml_id ` set (md_ledger db) \<longrightarrow>
        for_attempt (bk_id b) (bk_attempt b) MReversal \<in> ml_id ` set (md_ledger db)) \<and>
     (\<forall>s. meal_balance_of (md_ledger db) s = credited (md_ledger db) s - seats_owed db s)"

text \<open>
  The committed transactions.  A claim comes from any earlier read of the row; a release from a row
  whose price is the stored one if the attempt still is.
\<close>

definition same_attempt_price :: "meal_db \<Rightarrow> meal_booking \<Rightarrow> bool" where
  "same_attempt_price db b \<longleftrightarrow>
     (case booking_read db (bk_id b) of
        None \<Rightarrow> True
      | Some c \<Rightarrow> bk_attempt c = bk_attempt b \<longrightarrow> bk_price_minor c = bk_price_minor b)"

text \<open>A dish handed to an edit names the menu it was written with: no operation moves a dish.\<close>

definition dish_known :: "meal_db \<Rightarrow> menu_dish \<Rightarrow> bool" where
  "dish_known db dish \<longleftrightarrow> (\<forall>d \<in> set (md_dishes db). di_id d = di_id dish \<longrightarrow> di_menu d = di_menu dish)"

inductive meal_step :: "meal_db \<Rightarrow> meal_db \<Rightarrow> bool" where
  s_create: "meal_step db (fst (menu_create db date slot capacity by' now))"
| s_update: "meal_step db (fst (menu_update db key capacity))"
| s_delete: "meal_step db (fst (menu_delete db m))"
| s_add_dish: "fresh \<notin> di_id ` set (md_dishes db) \<Longrightarrow>
    meal_step db (fst (add_dish db key name description price tags fresh now))"
| s_dish_update: "dish_known db dish \<Longrightarrow>
    meal_step db (fst (dish_update db dish name' description' price' tags'))"
| s_dish_delete: "dish_known db dish \<Longrightarrow> meal_step db (fst (dish_delete db dish))"
| s_claim: "booking_id_ok (bk_id row) \<Longrightarrow> bk_status row = Booked \<Longrightarrow>
    meal_step db (fst (claim_and_place db (mb_menu (bk_id row)) cap seen row (bk_price_minor row)
      (charge_for row by' now)))"
| s_release: "same_attempt_price db b \<Longrightarrow> meal_step db (fst (release_seat db b by' now))"
| s_charge: "booking_read db i = Some b \<Longrightarrow> bk_status b = Booked \<Longrightarrow>
    meal_step db (db\<lparr>md_ledger := charge_booking (md_ledger db) b by' now\<rparr>)"
| s_reverse: "booking_read db i = Some b \<Longrightarrow> bk_status b = Cancelled \<Longrightarrow>
    meal_step db (db\<lparr>md_ledger := reverse_booking (md_ledger db) b by' now\<rparr>)"
| s_credit: "uuid_key student \<Longrightarrow> uuid_key fresh \<Longrightarrow>
    (\<And>k. key = Some k \<Longrightarrow> validate_request_key k = Inr ()) \<Longrightarrow>
    meal_step db (db\<lparr>md_ledger := fst (meal_credit (md_ledger db) student amount mtd nt key by' fresh now)\<rparr>)"

inductive meal_reachable :: "meal_db \<Rightarrow> bool" where
  m_empty: "meal_reachable \<lparr>md_menus = [], md_slot_refs = refs, md_dishes = [], md_dish_tags = [],
     md_attendance = [], md_bookings = [], md_ledger = []\<rparr>"
| m_step: "meal_reachable db \<Longrightarrow> meal_step db db' \<Longrightarrow> meal_reachable db'"
| m_other: "meal_reachable db \<Longrightarrow> meal_reachable (db\<lparr>md_attendance := at, md_slot_refs := rs\<rparr>)"

section \<open>The claim\<close>

definition take_seat :: "ustr \<Rightarrow> meal_db \<Rightarrow> meal_db" where
  "take_seat m db = db\<lparr>md_menus := map (\<lambda>x. if mn_id x = m
     then x\<lparr>mn_seats_booked := mn_seats_booked x + 1\<rparr> else x) (md_menus db)\<rparr>"

definition bill_line :: "meal_ledger option \<Rightarrow> meal_db \<Rightarrow> meal_db" where
  "bill_line charge db = (case charge of None \<Rightarrow> db
     | Some line \<Rightarrow> db\<lparr>md_ledger := insert_row ml_id line (md_ledger db)\<rparr>)"

definition open_seat :: "meal_db \<Rightarrow> ustr \<Rightarrow> int \<Rightarrow> int \<Rightarrow> bool" where
  "open_seat db m cap seen \<longleftrightarrow>
     (\<exists>mn. menu_read db m = Some mn \<and> mn_seats_booked mn < cap \<and> get_version mn = seen)"

definition revive :: "meal_booking \<Rightarrow> meal_booking \<Rightarrow> int option \<Rightarrow> meal_booking" where
  "revive b row price = b\<lparr>bk_status := Booked, bk_attempt := bk_attempt row,
     bk_price_minor := price, bk_cancelled_at := None\<rparr>"

lemma take_seat_simps [simp]:
  "md_bookings (take_seat m db) = md_bookings db" "md_ledger (take_seat m db) = md_ledger db"
  "booking_read (take_seat m db) i = booking_read db i"
  by (simp_all add: take_seat_def booking_read_def)

lemma bill_line_simps [simp]:
  "md_bookings (bill_line c db) = md_bookings db" "md_menus (bill_line c db) = md_menus db"
  by (cases c; simp add: bill_line_def)+

text \<open>Every outcome of a claim.\<close>

lemma claim_cases:
  obtains
    (held) b where "booking_read db (bk_id row) = Some b" "bk_status b = Booked"
      "claim_and_place db m cap seen row price charge = (db, Inr Duplicate)"
  | (full) "\<not> open_seat db m cap seen"
      "claim_and_place db m cap seen row price charge = (db, Inr Full)"
  | (stale) b where "open_seat db m cap seen" "booking_read db (bk_id row) = Some b"
      "bk_status b = Cancelled" "bk_attempt b \<noteq> bk_attempt row - 1"
      "claim_and_place db m cap seen row price charge = (take_seat m db, Inr Duplicate)"
  | (revived) b where "open_seat db m cap seen" "booking_read db (bk_id row) = Some b"
      "bk_status b = Cancelled" "bk_attempt b = bk_attempt row - 1"
      "claim_and_place db m cap seen row price charge =
         (bill_line charge ((take_seat m db)\<lparr>md_bookings :=
            put_row bk_id (bk_id row) (revive b row price) (md_bookings db)\<rparr>), Inr (Made (revive b row price)))"
  | (inserted) "open_seat db m cap seen" "booking_read db (bk_id row) = None"
      "claim_and_place db m cap seen row price charge =
         (bill_line charge ((take_seat m db)\<lparr>md_bookings := md_bookings db @ [row\<lparr>bk_price_minor := price\<rparr>]\<rparr>),
          Inr (Made (row\<lparr>bk_price_minor := price\<rparr>)))"
proof (cases "booking_read db (bk_id row)")
  case None
  show ?thesis
  proof (cases "open_seat db m cap seen")
    case True
    with None have "claim_body m cap seen row price charge db =
        (bill_line charge ((take_seat m db)\<lparr>md_bookings := md_bookings db @ [row\<lparr>bk_price_minor := price\<rparr>]\<rparr>),
          Inr (Made (row\<lparr>bk_price_minor := price\<rparr>)))"
      by (auto simp: claim_body_def open_seat_def take_seat_def bill_line_def booking_read_def Let_def
          split: option.split)
    with True None inserted show ?thesis by (simp add: claim_and_place_def run_tx_def)
  next
    case False
    with None have "claim_body m cap seen row price charge db = (db, Inr Full)"
      by (auto simp: claim_body_def open_seat_def split: option.split)
    with False full show ?thesis by (simp add: claim_and_place_def run_tx_def)
  qed
next
  case (Some b)
  show ?thesis
  proof (cases "bk_status b")
    case Booked
    with Some have "claim_body m cap seen row price charge db = (db, Inr Duplicate)"
      by (simp add: claim_body_def)
    with Some Booked held show ?thesis by (simp add: claim_and_place_def run_tx_def)
  next
    case Cancelled
    show ?thesis
    proof (cases "open_seat db m cap seen")
      case True
      show ?thesis
      proof (cases "bk_attempt b = bk_attempt row - 1")
        case att: True
        have "claim_body m cap seen row price charge db =
            (bill_line charge ((take_seat m db)\<lparr>md_bookings :=
              put_row bk_id (bk_id row) (revive b row price) (md_bookings db)\<rparr>), Inr (Made (revive b row price)))"
          using True Some Cancelled att
          by (auto simp: claim_body_def open_seat_def take_seat_def bill_line_def booking_read_def Let_def
              put_row_def revive_def split: option.split)
        with True Some Cancelled att revived show ?thesis by (simp add: claim_and_place_def run_tx_def)
      next
        case att: False
        have "claim_body m cap seen row price charge db = (take_seat m db, Inr Duplicate)"
          using True Some Cancelled att
          by (auto simp: claim_body_def open_seat_def take_seat_def booking_read_def Let_def split: option.split)
        with True Some Cancelled att stale show ?thesis by (simp add: claim_and_place_def run_tx_def)
      qed
    next
      case False
      with Some Cancelled have "claim_body m cap seen row price charge db = (db, Inr Full)"
        by (auto simp: claim_body_def open_seat_def split: option.split)
      with False full show ?thesis by (simp add: claim_and_place_def run_tx_def)
    qed
  qed
qed

lemma take_seat_menus:
  "x \<in> set (md_menus (take_seat m db)) \<Longrightarrow>
   \<exists>y \<in> set (md_menus db). mn_id x = mn_id y \<and> mn_capacity x = mn_capacity y \<and>
     mn_seats_booked x = mn_seats_booked y + (if mn_id y = m then 1 else 0)"
  by (auto simp: take_seat_def)

lemma take_seat_ids: "map mn_id (md_menus (take_seat m db)) = map mn_id (md_menus db)"
  by (auto simp: take_seat_def)

lemma seats_ok_take:
  assumes ok: "seats_ok db" and open': "menu_read db m = Some mn" and "keyed bk_id bs" "0 \<le> d" "d \<le> 1"
    and held: "\<And>x. sum_list (map (seat x) bs) = seats_held db x + (if x = m then d else 0)"
  shows "seats_ok ((take_seat m db)\<lparr>md_bookings := bs\<rparr>)"
proof -
  have ids: "mn_id ` set (md_menus (take_seat m db)) = mn_id ` set (md_menus db)"
    using take_seat_ids [of m db] by (metis image_set)
  have mem: "m \<in> mn_id ` set (md_menus db)"
    using open' by (auto simp: menu_read_def dest!: find_row_SomeD)
  have "keyed mn_id (md_menus (take_seat m db))"
    using ok take_seat_ids [of m db] by (simp add: seats_ok_def keyed_def)
  moreover have "sum_list (map (seat (mn_id x)) bs) \<le> mn_seats_booked x"
    if "x \<in> set (md_menus (take_seat m db))" for x
  proof -
    from take_seat_menus [OF that] obtain y where y: "y \<in> set (md_menus db)" "mn_id x = mn_id y"
      "mn_seats_booked x = mn_seats_booked y + (if mn_id y = m then 1 else 0)" by blast
    with ok have "seats_held db (mn_id y) \<le> mn_seats_booked y" by (simp add: seats_ok_def)
    with y held [of "mn_id x"] assms(4,5) show ?thesis by auto
  qed
  moreover have "sum_list (map (seat x) bs) = 0" if "x \<notin> mn_id ` set (md_menus db)" for x
    using ok that held [of x] mem by (auto simp: seats_ok_def)
  ultimately show ?thesis
    using assms(3) by (simp add: seats_ok_def seats_held_def ids)
qed

lemma seats_ok_bill [simp]: "seats_ok (bill_line c db) = seats_ok db"
  by (simp add: seats_ok_def seats_held_def)

lemma booking_read_SomeD: "booking_read db i = Some b \<Longrightarrow> b \<in> set (md_bookings db) \<and> bk_id b = i"
  by (auto simp: booking_read_def dest: find_row_SomeD)

lemma seats_claim:
  assumes ok: "seats_ok db" and row: "bk_status row = Booked" "mb_menu (bk_id row) = m"
  shows "seats_ok (fst (claim_and_place db m cap seen row price charge))"
proof -
  have keyed: "keyed bk_id (md_bookings db)" using ok by (simp add: seats_ok_def)
  show ?thesis
  proof (cases rule: claim_cases [of db row m cap seen price charge])
    case (held b)
    with ok show ?thesis by simp
  next
    case full
    with ok show ?thesis by simp
  next
    case (stale b)
    then obtain mn where "menu_read db m = Some mn" by (auto simp: open_seat_def)
    from seats_ok_take [OF ok this keyed, of 0] have "seats_ok ((take_seat m db)\<lparr>md_bookings := md_bookings db\<rparr>)"
      by (simp add: seats_held_def)
    with stale(5) show ?thesis by (simp add: take_seat_def)
  next
    case (revived b)
    then obtain mn where mn: "menu_read db m = Some mn" by (auto simp: open_seat_def)
    have find: "find_row bk_id (md_bookings db) (bk_id row) = Some b" using revived by (simp add: booking_read_def)
    have b: "bk_id b = bk_id row" using booking_read_SomeD [OF revived(2)] by simp
    let ?r = "revive b row price"
    have r: "bk_id ?r = bk_id row" using b by (simp add: revive_def)
    have "seats_ok ((take_seat m db)\<lparr>md_bookings := put_row bk_id (bk_id row) ?r (md_bookings db)\<rparr>)"
    proof (rule seats_ok_take [OF ok mn keyed_put_row [OF keyed r], of 1])
      fix x show "sum_list (map (seat x) (put_row bk_id (bk_id row) ?r (md_bookings db)))
          = seats_held db x + (if x = m then 1 else 0)"
        using sum_put_row [OF keyed find, of "seat x" ?r] revived(3) row(2) b r
        by (simp add: seats_held_def seat_def) (simp add: revive_def)
    qed simp_all
    with revived(5) show ?thesis by simp
  next
    case inserted
    then obtain mn where mn: "menu_read db m = Some mn" by (auto simp: open_seat_def)
    have "bk_id row \<notin> bk_id ` set (md_bookings db)"
      using inserted(2) by (simp add: booking_read_def find_row_None_iff)
    then have "keyed bk_id (md_bookings db @ [row\<lparr>bk_price_minor := price\<rparr>])"
      using keyed by (simp add: keyed_def)
    from seats_ok_take [OF ok mn this, of 1]
    have "seats_ok ((take_seat m db)\<lparr>md_bookings := md_bookings db @ [row\<lparr>bk_price_minor := price\<rparr>]\<rparr>)"
      using row by (simp add: seats_held_def seat_def)
    with inserted(3) show ?thesis by simp
  qed
qed

text \<open>A claim that is answered with a booking took a seat below the capacity it was given.\<close>

lemma claim_made_below_cap:
  assumes "seats_ok db" "claim_and_place db m cap seen row price charge = (db', Inr (Made b'))"
  shows "\<exists>mn \<in> set (md_menus db'). mn_id mn = m \<and> mn_seats_booked mn \<le> cap"
proof -
  have md: "md_menus db' = md_menus (take_seat m db)" and "open_seat db m cap seen"
    using assms(2) by (cases rule: claim_cases [of db row m cap seen price charge]; auto)+
  then obtain mn where mn: "mn \<in> set (md_menus db)" "mn_id mn = m" "mn_seats_booked mn < cap"
    by (auto simp: open_seat_def menu_read_def dest: find_row_SomeD)
  let ?x = "mn\<lparr>mn_seats_booked := mn_seats_booked mn + 1\<rparr>"
  have "?x \<in> set (md_menus db')" using mn(1,2) by (force simp: md take_seat_def)
  with mn show ?thesis by (intro bexI [of _ ?x]) simp_all
qed


section \<open>Release and menus\<close>

lemma release_cases:
  obtains (lost) "release_seat db b by' now = (db, None)"
  | (freed) c where "booking_read db (bk_id b) = Some c" "bk_status c = Booked" "bk_attempt c = bk_attempt b"
      "md_bookings (fst (release_seat db b by' now)) = put_row bk_id (bk_id b)
         (c\<lparr>bk_status := Cancelled, bk_cancelled_at := Some now\<rparr>) (md_bookings db)"
      "md_menus (fst (release_seat db b by' now)) = map (\<lambda>x. if mn_id x = mb_menu (bk_id b)
         then x\<lparr>mn_seats_booked := max (mn_seats_booked x - 1) 0\<rparr> else x) (md_menus db)"
      "md_ledger (fst (release_seat db b by' now)) = reverse_booking (md_ledger db) b by' now"
proof (cases "booking_read db (bk_id b)")
  case None
  with lost show ?thesis by (simp add: release_seat_def)
next
  case (Some c)
  show ?thesis
  proof (cases "bk_status c = Booked \<and> bk_attempt c = bk_attempt b")
    case True
    have led: "md_ledger (fst (release_seat db b by' now)) = reverse_booking (md_ledger db) b by' now"
      using Some True
      by (auto simp: release_seat_def reverse_booking_def Let_def fst_meal_append insert_row_def meal_ledger_read_def
          split: option.splits prod.splits)
    show ?thesis
      by (rule freed [OF Some _ _ _ _ led])
        (use Some True in \<open>auto simp: release_seat_def put_row_def Let_def split: option.splits prod.splits\<close>)
  next
    case False
    with Some lost show ?thesis by (auto simp: release_seat_def)
  qed
qed

lemma seats_release: "seats_ok db \<Longrightarrow> seats_ok (fst (release_seat db b by' now))"
proof -
  assume ok: "seats_ok db"
  have keyed: "keyed bk_id (md_bookings db)" using ok by (simp add: seats_ok_def)
  show ?thesis
  proof (cases rule: release_cases [of db b by' now])
    case lost
    with ok show ?thesis by simp
  next
    case (freed c)
    let ?r = "c\<lparr>bk_status := Cancelled, bk_cancelled_at := Some now\<rparr>"
    let ?db = "fst (release_seat db b by' now)"
    have find: "find_row bk_id (md_bookings db) (bk_id b) = Some c" using freed(1) by (simp add: booking_read_def)
    have c: "bk_id c = bk_id b" using booking_read_SomeD [OF freed(1)] by simp
    have held: "seats_held ?db x = seats_held db x - (if x = mb_menu (bk_id b) then 1 else 0)" for x
      using sum_put_row [OF keyed find, of "seat x" ?r] freed(2) c
      by (simp add: seats_held_def freed(4) seat_def)
    have ids: "map mn_id (md_menus ?db) = map mn_id (md_menus db)" by (auto simp: freed(5))
    then have set_ids: "mn_id ` set (md_menus ?db) = mn_id ` set (md_menus db)" by (metis image_set)
    have k: "keyed bk_id (md_bookings ?db)" using keyed_put_row [OF keyed, of ?r] c by (simp add: freed(4))
    have "mb_menu (bk_id b) \<in> mn_id ` set (md_menus db)"
    proof (rule ccontr)
      assume "\<not> ?thesis"
      then have "seats_held db (mb_menu (bk_id b)) = 0" using ok by (simp add: seats_ok_def)
      moreover have "0 \<le> seats_held ?db (mb_menu (bk_id b))"
        unfolding seats_held_def by (intro sum_list_nonneg) (auto simp: seat_def)
      ultimately show False using held by simp
    qed
    moreover have "seats_held ?db (mn_id x) \<le> mn_seats_booked x" if "x \<in> set (md_menus ?db)" for x
    proof -
      from that obtain y where y: "y \<in> set (md_menus db)" "mn_id x = mn_id y"
        "mn_seats_booked x = (if mn_id y = mb_menu (bk_id b) then max (mn_seats_booked y - 1) 0 else mn_seats_booked y)"
        by (auto simp: freed(5))
      with ok have "seats_held db (mn_id y) \<le> mn_seats_booked y" by (simp add: seats_ok_def)
      with y held show ?thesis by auto
    qed
    ultimately show ?thesis
      using ok k held set_ids ids by (auto simp: seats_ok_def keyed_def)
  qed
qed

lemma seats_cong:
  "md_bookings db' = md_bookings db \<Longrightarrow> md_menus db' = md_menus db \<Longrightarrow> seats_ok db' = seats_ok db"
  by (simp add: seats_ok_def seats_held_def)

lemma seats_ok_ledger: "seats_ok (db\<lparr>md_ledger := rows\<rparr>) = seats_ok db"
  by (simp add: seats_ok_def seats_held_def)

lemma seats_create: "seats_ok db \<Longrightarrow> seats_ok (fst (menu_create db date slot cap by' now))"
proof -
  assume ok: "seats_ok db"
  let ?db = "fst (menu_create db date slot cap by' now)"
  have "(md_bookings ?db = md_bookings db \<and> md_menus ?db = md_menus db) \<or>
    (\<exists>m. mn_seats_booked m = 0 \<and> mn_id m \<notin> mn_id ` set (md_menus db) \<and>
       md_bookings ?db = md_bookings db \<and> md_menus ?db = md_menus db @ [m])"
    by (auto simp: menu_create_def run_tx_def Let_def menu_read_def find_row_None_iff split: option.splits)
  then show ?thesis
  proof
    assume "\<exists>m. mn_seats_booked m = 0 \<and> mn_id m \<notin> mn_id ` set (md_menus db) \<and>
       md_bookings ?db = md_bookings db \<and> md_menus ?db = md_menus db @ [m]"
    then obtain m where "mn_seats_booked m = 0" "mn_id m \<notin> mn_id ` set (md_menus db)"
      "md_bookings ?db = md_bookings db" "md_menus ?db = md_menus db @ [m]" by blast
    with ok show ?thesis by (auto simp: seats_ok_def seats_held_def keyed_def)
  qed (use ok seats_cong in blast)
qed

lemma seats_update: "seats_ok db \<Longrightarrow> seats_ok (fst (menu_update db key capacity))"
proof -
  assume ok: "seats_ok db"
  let ?db = "fst (menu_update db key capacity)"
  have "?db = db \<or> (\<exists>m m'. menu_read db key = Some m \<and> mn_id m' = mn_id m \<and> mn_seats_booked m' = mn_seats_booked m \<and>
      ?db = db\<lparr>md_menus := put_row mn_id key m' (md_menus db)\<rparr>)"
  proof (cases "\<exists>cap m. capacity = Some cap \<and> menu_read db key = Some m")
    case True
    then obtain cap m where cm: "capacity = Some cap" "menu_read db key = Some m" by blast
    show ?thesis
      by (intro disjI2 exI [of _ m] exI [of _ "m\<lparr>mn_capacity := cap, mn_version := Some (get_version m + 1)\<rparr>"])
        (simp add: menu_update_def put_row_def Let_def cm)
  next
    case False
    then show ?thesis by (auto simp: menu_update_def split: option.splits)
  qed
  then show ?thesis
  proof
    assume "\<exists>m m'. menu_read db key = Some m \<and> mn_id m' = mn_id m \<and> mn_seats_booked m' = mn_seats_booked m \<and>
      ?db = db\<lparr>md_menus := put_row mn_id key m' (md_menus db)\<rparr>"
    then obtain m m' where m: "m \<in> set (md_menus db)" "mn_id m = key" "mn_id m' = key"
      "mn_seats_booked m' = mn_seats_booked m" "?db = db\<lparr>md_menus := put_row mn_id key m' (md_menus db)\<rparr>"
      by (auto simp: menu_read_def dest: find_row_SomeD)
    have ids: "map mn_id (put_row mn_id key m' (md_menus db)) = map mn_id (md_menus db)"
      using m(3) by (auto simp: put_row_def)
    then have "mn_id ` set (put_row mn_id key m' (md_menus db)) = mn_id ` set (md_menus db)" by (metis image_set)
    moreover have "seats_held db (mn_id x) \<le> mn_seats_booked x" if "x \<in> set (put_row mn_id key m' (md_menus db))" for x
      using set_put_row [OF that] ok m by (auto simp: seats_ok_def)
    ultimately show ?thesis
      using ok ids unfolding m(5) by (simp add: seats_ok_def seats_held_def keyed_def)
  qed (use ok in simp)
qed

lemma seats_delete: "seats_ok db \<Longrightarrow> seats_ok (fst (menu_delete db m))"
proof -
  assume ok: "seats_ok db"
  let ?db = "fst (menu_delete db m)"
  show ?thesis
  proof (cases "md_menus ?db = md_menus db")
    case True
    moreover have "md_bookings ?db = md_bookings db" by (auto simp: menu_delete_def Let_def split: option.split)
    ultimately show ?thesis using ok seats_cong by blast
  next
    case False
    then obtain row where row: "menu_read db (mn_id m) = Some row" "mn_seats_booked row = 0"
      and db: "md_menus ?db = filter (\<lambda>x. mn_id x \<noteq> mn_id m) (md_menus db)" "md_bookings ?db = md_bookings db"
      by (auto simp: menu_delete_def Let_def split: option.splits if_splits)
    have r: "row \<in> set (md_menus db)" "mn_id row = mn_id m"
      using row(1) by (auto simp: menu_read_def dest: find_row_SomeD)
    have "0 \<le> seats_held db (mn_id m)" unfolding seats_held_def by (intro sum_list_nonneg) (auto simp: seat_def)
    moreover have "seats_held db (mn_id m) \<le> 0" using ok r row(2) by (auto simp: seats_ok_def)
    ultimately have zero: "seats_held db (mn_id m) = 0" by simp
    have held: "seats_held ?db x = seats_held db x" for x by (simp add: seats_held_def db)
    have "seats_held db x = 0" if "x \<notin> mn_id ` set (filter (\<lambda>x. mn_id x \<noteq> mn_id m) (md_menus db))" for x
      using ok zero that by (cases "x = mn_id m") (auto simp: seats_ok_def)
    with ok show ?thesis by (auto simp: seats_ok_def held db keyed_def distinct_map_filter)
  qed
qed

lemma seats_ok_view:
  assumes "md_bookings db' = md_bookings db"
    and v: "map (\<lambda>m. (mn_id m, mn_seats_booked m)) (md_menus db') = map (\<lambda>m. (mn_id m, mn_seats_booked m)) (md_menus db)"
  shows "seats_ok db' = seats_ok db"
proof -
  have ids: "map mn_id (md_menus db') = map mn_id (md_menus db)" "mn_id ` set (md_menus db') = mn_id ` set (md_menus db)"
    using arg_cong [OF v, of "map fst"] arg_cong [OF v, of "\<lambda>x. fst ` set x"] by (simp_all add: comp_def image_image)
  have view: "(\<forall>m \<in> set (md_menus d). f (mn_id m) \<le> mn_seats_booked m) \<longleftrightarrow>
      list_all (\<lambda>p. f (fst p) \<le> snd p) (map (\<lambda>m. (mn_id m, mn_seats_booked m)) (md_menus d))" for d f
    by (simp add: list_all_iff)
  have "(\<forall>m \<in> set (md_menus db'). f (mn_id m) \<le> mn_seats_booked m) \<longleftrightarrow>
      (\<forall>m \<in> set (md_menus db). f (mn_id m) \<le> mn_seats_booked m)" for f
    unfolding view v ..
  from this [of "\<lambda>i. sum_list (map (seat i) (md_bookings db))"] ids show ?thesis by (simp add: seats_ok_def seats_held_def keyed_def assms(1))
qed

lemma bump_version_view [simp]:
  "map (\<lambda>m. (mn_id m, mn_seats_booked m)) (bump_version key ms) = map (\<lambda>m. (mn_id m, mn_seats_booked m)) ms"
  by (simp add: bump_version_def)

lemma run_tx_cases: "P d \<Longrightarrow> P (fst (f d)) \<Longrightarrow> P (fst (run_tx f d))"
  by (auto simp: run_tx_def split: prod.splits sum.splits)

text \<open>What a dish operation leaves: nothing changed, or a moved revision with new dishes and tags.\<close>

definition dish_write :: "ustr \<Rightarrow> menu_dish list \<Rightarrow> (ustr \<times> ustr) list \<Rightarrow> meal_db \<Rightarrow> meal_db" where
  "dish_write m ds ts db = db\<lparr>md_menus := bump_version m (md_menus db), md_dishes := ds, md_dish_tags := ts\<rparr>"

lemma dish_write_simps [simp]:
  "md_bookings (dish_write m ds ts db) = md_bookings db" "md_ledger (dish_write m ds ts db) = md_ledger db"
  "md_menus (dish_write m ds ts db) = bump_version m (md_menus db)" "md_dishes (dish_write m ds ts db) = ds"
  by (simp_all add: dish_write_def)

lemma dish_write_same: "dish_write m (md_dishes db) (md_dish_tags db) db = db\<lparr>md_menus := bump_version m (md_menus db)\<rparr>"
  by (simp add: dish_write_def)

lemma add_dish_writes:
  "\<exists>dish ts'. di_menu dish = key \<and> fst (add_dish db key n d p ts fresh now) \<in>
     {db, dish_write key (md_dishes db @ [dish]) ts' db, dish_write key (md_dishes db) (md_dish_tags db) db}"
proof -
  let ?dish = "\<lparr>di_id = fresh, di_menu = key, di_name = n, di_description = d, di_price_minor = p, di_created_at = now\<rparr>"
  have "fst (add_dish db key n d p ts fresh now) \<in>
     {db, dish_write key (md_dishes db @ [?dish]) (md_dish_tags db @ map (\<lambda>t. (fresh, t)) ts) db,
      dish_write key (md_dishes db) (md_dish_tags db) db}"
    unfolding add_dish_def dish_create_def dish_write_same
    by (rule run_tx_cases) (auto simp: Let_def dish_write_def)
  then show ?thesis by (intro exI [of _ ?dish]) auto
qed

lemma dish_update_writes:
  "\<exists>f ts. (\<forall>d. di_menu (f d) = di_menu d) \<and> fst (dish_update db dish n' d' p' ts') \<in>
     {db, dish_write (di_menu dish) (map (\<lambda>d. if di_id d = di_id dish then f d else d) (md_dishes db)) ts db,
      dish_write (di_menu dish) (md_dishes db) (md_dish_tags db) db}"
proof -
  let ?f = "\<lambda>d. d\<lparr>di_name := case_option (di_name d) id n', di_description := case_option (di_description d) id d',
    di_price_minor := case_option (di_price_minor d) id p'\<rparr>"
  let ?ts = "case ts' of None \<Rightarrow> md_dish_tags db
    | Some t \<Rightarrow> filter (\<lambda>t. fst t \<noteq> di_id dish) (md_dish_tags db) @ map (\<lambda>x. (di_id dish, x)) t"
  have "fst (dish_update db dish n' d' p' ts') \<in> {db,
      dish_write (di_menu dish) (map (\<lambda>d. if di_id d = di_id dish then ?f d else d) (md_dishes db)) ?ts db,
      dish_write (di_menu dish) (md_dishes db) (md_dish_tags db) db}"
    unfolding dish_update_def dish_write_same
    by (rule run_tx_cases) (auto simp: Let_def dish_write_def split: option.split)
  then show ?thesis by (intro exI [of _ ?f] exI [of _ ?ts]) simp
qed

lemma dish_delete_writes:
  "\<exists>ts. fst (dish_delete db dish) \<in>
     {db, dish_write (di_menu dish) (filter (\<lambda>d. di_id d \<noteq> di_id dish) (md_dishes db)) ts db,
      dish_write (di_menu dish) (md_dishes db) (md_dish_tags db) db}"
  unfolding dish_delete_def dish_write_same
  by (rule exI [of _ "filter (\<lambda>t. fst t \<noteq> di_id dish) (md_dish_tags db)"], rule run_tx_cases)
    (auto simp: Let_def dish_write_def split: option.split)

lemma seats_dish_write: "seats_ok (dish_write m ds ts db) = seats_ok db"
  by (rule seats_ok_view) simp_all

lemma dish_frame:
  "md_bookings (fst (add_dish db key n d p ts fresh now)) = md_bookings db \<and>
   md_ledger (fst (add_dish db key n d p ts fresh now)) = md_ledger db"
  "md_bookings (fst (dish_update db dish n' d' p' ts')) = md_bookings db \<and>
   md_ledger (fst (dish_update db dish n' d' p' ts')) = md_ledger db"
  "md_bookings (fst (dish_delete db dish)) = md_bookings db \<and> md_ledger (fst (dish_delete db dish)) = md_ledger db"
  using add_dish_writes [of key db n d p ts fresh now] dish_update_writes [of db dish n' d' p' ts']
    dish_delete_writes [of db dish]
  by fastforce+

lemma seats_dish:
  "seats_ok (fst (add_dish db key n d p ts fresh now)) = seats_ok db"
  "seats_ok (fst (dish_update db dish n' d' p' ts')) = seats_ok db"
  "seats_ok (fst (dish_delete db dish)) = seats_ok db"
  using add_dish_writes [of key db n d p ts fresh now] dish_update_writes [of db dish n' d' p' ts']
    dish_delete_writes [of db dish]
  by (fastforce simp: seats_dish_write)+

lemma meal_step_seats: "meal_step db db' \<Longrightarrow> seats_ok db \<Longrightarrow> seats_ok db'"
proof (induction rule: meal_step.induct)
  case (s_claim row db cap seen by' now)
  then show ?case by (simp add: seats_claim)
qed (simp_all add: seats_create seats_update seats_delete seats_release seats_dish seats_ok_ledger)

lemma meal_reachable_seats: "meal_reachable db \<Longrightarrow> seats_ok db"
proof (induction rule: meal_reachable.induct)
  case (m_empty refs)
  then show ?case by (simp add: seats_ok_def seats_held_def keyed_def)
next
  case (m_other db at rs)
  then show ?case by (simp add: seats_ok_def seats_held_def)
qed (rule meal_step_seats)


section \<open>Money\<close>

lemma money_okD:
  assumes "money_ok db"
  shows "keyed ml_id (md_ledger db)" "keyed bk_id (md_bookings db)"
    "\<And>b. b \<in> set (md_bookings db) \<Longrightarrow> booking_id_ok (bk_id b)"
    "\<And>l. l \<in> set (md_ledger db) \<Longrightarrow> credit_id (ml_id l) \<or>
        (\<exists>b \<in> set (md_bookings db). \<exists>k \<le> bk_attempt b. \<exists>x. ml_id l = for_attempt (bk_id b) k x)"
    "\<And>b. b \<in> set (md_bookings db) \<Longrightarrow> bk_status b = Booked \<Longrightarrow>
        (for_attempt (bk_id b) (bk_attempt b) MCharge \<in> ml_id ` set (md_ledger db)
           \<longleftrightarrow> bk_price_minor b \<noteq> None) \<and>
        for_attempt (bk_id b) (bk_attempt b) MReversal \<notin> ml_id ` set (md_ledger db)"
    "\<And>b. b \<in> set (md_bookings db) \<Longrightarrow> bk_status b = Cancelled \<Longrightarrow>
        for_attempt (bk_id b) (bk_attempt b) MCharge \<in> ml_id ` set (md_ledger db) \<Longrightarrow>
        for_attempt (bk_id b) (bk_attempt b) MReversal \<in> ml_id ` set (md_ledger db)"
    "\<And>s. meal_balance_of (md_ledger db) s = credited (md_ledger db) s - seats_owed db s"
  using assms unfolding money_ok_def by auto

lemma credit_id_not_attempt: "credit_id k \<Longrightarrow> booking_id_ok b \<Longrightarrow> k \<noteq> for_attempt b n x"
  using for_attempt_not_uuid for_attempt_neq_credit
  by (auto simp: credit_id_def booking_id_ok_def)

text \<open>No line carries an attempt a booking has not reached yet.\<close>

lemma attempt_not_used:
  assumes ok: "money_ok db" and i: "booking_id_ok i"
    and new: "\<And>b. booking_read db i = Some b \<Longrightarrow> bk_attempt b < k"
  shows "for_attempt i k x \<notin> ml_id ` set (md_ledger db)"
proof
  assume "for_attempt i k x \<in> ml_id ` set (md_ledger db)"
  then obtain l where l: "l \<in> set (md_ledger db)" "ml_id l = for_attempt i k x" by auto
  with money_okD(4) [OF ok l(1)] credit_id_not_attempt [OF _ i] obtain b j y where
    b: "b \<in> set (md_bookings db)" "j \<le> bk_attempt b" "for_attempt i k x = for_attempt (bk_id b) j y" by metis
  then have "bk_id b = i" "j = k"
    using for_attempt_inject [of i "bk_id b" k x j y] i money_okD(3) [OF ok b(1)] by (auto simp: booking_id_ok_def)
  with b(1) keyed_find_row [OF money_okD(2) [OF ok] b(1)] new [of b] b(2) show False by (simp add: booking_read_def)
qed

lemma balance_snoc:
  "meal_balance_of (rows @ [l]) s = meal_balance_of rows s + (if ml_student l = s then msigned l else 0)"
  by (simp add: meal_balance_lines)

lemma credited_snoc:
  "credited (rows @ [l]) s = credited rows s
     + (if ml_student l = s \<and> ml_kind l = MCredit then ml_amount_minor l else 0)"
  by (simp add: credited_def)

lemma money_cong:
  "md_bookings db' = md_bookings db \<Longrightarrow> md_ledger db' = md_ledger db \<Longrightarrow> money_ok db' = money_ok db"
  by (simp add: money_ok_def seats_owed_def)

lemma attempt_ids_neq:
  "booking_id_ok a \<Longrightarrow> booking_id_ok b \<Longrightarrow>
   for_attempt a m x = for_attempt b n y \<longleftrightarrow> a = b \<and> m = n \<and> x = y"
  by (simp add: for_attempt_inject booking_id_ok_def)

lemma bill_line_ledger:
  assumes "\<And>x. for_attempt (bk_id r) (bk_attempt r) x \<notin> ml_id ` set (md_ledger db)"
  shows "md_ledger (bill_line (charge_for r by' now) db) = md_ledger db @
    (case bk_price_minor r of None \<Rightarrow> [] | Some p \<Rightarrow> [the (charge_for r by' now)])"
  using assms by (cases "bk_price_minor r") (simp_all add: bill_line_def charge_for_def insert_row_fresh)

lemma money_place:
  assumes ok: "money_ok db" and r: "booking_id_ok (bk_id r)" "bk_status r = Booked"
    and fresh: "\<And>x. for_attempt (bk_id r) (bk_attempt r) x \<notin> ml_id ` set (md_ledger db)"
    and bs: "keyed bk_id bs" "r \<in> set bs" "\<And>x. x \<in> set bs \<Longrightarrow> x = r \<or> x \<in> set (md_bookings db) \<and> bk_id x \<noteq> bk_id r"
      "\<And>x. x \<in> set (md_bookings db) \<Longrightarrow> bk_id x \<noteq> bk_id r \<Longrightarrow> x \<in> set bs"
      "\<And>x. x \<in> set (md_bookings db) \<Longrightarrow> bk_id x = bk_id r \<Longrightarrow> bk_attempt x \<le> bk_attempt r"
      "\<And>s. sum_list (map (held_price s) bs) = seats_owed db s + held_price s r"
    and db': "md_bookings db' = bs" "md_ledger db' = md_ledger db"
  shows "money_ok (bill_line (charge_for r by' now) db')"
proof -
  define new where "new = (case bk_price_minor r of None \<Rightarrow> [] | Some p \<Rightarrow> [the (charge_for r by' now)])"
  have led: "md_ledger (bill_line (charge_for r by' now) db') = md_ledger db @ new"
    using bill_line_ledger [of r db' by' now] fresh db' by (simp add: new_def)
  have new_ids: "ml_id ` set new = (if bk_price_minor r = None then {} else {for_attempt (bk_id r) (bk_attempt r) MCharge})"
    by (auto simp: new_def charge_for_def split: option.split)
  have others: "for_attempt (bk_id x) k y \<in> ml_id ` set (md_ledger db @ new) \<longleftrightarrow>
      for_attempt (bk_id x) k y \<in> ml_id ` set (md_ledger db)"
    if "x \<in> set (md_bookings db)" "bk_id x \<noteq> bk_id r" for x k y
    using that attempt_ids_neq [OF money_okD(3) [OF ok that(1)] r(1)] by (auto simp: image_Un new_ids)
  have mine: "for_attempt (bk_id r) (bk_attempt r) y \<in> ml_id ` set (md_ledger db @ new) \<longleftrightarrow>
      y = MCharge \<and> bk_price_minor r \<noteq> None" for y
    using fresh [of y] attempt_ids_neq [OF r(1) r(1)] by (auto simp: image_Un new_ids)
  have "keyed ml_id (md_ledger db @ new)"
    using money_okD(1) [OF ok] fresh [of MCharge] unfolding new_def keyed_def
    by (auto simp: charge_for_def split: option.split)
  moreover have "credit_id (ml_id l) \<or> (\<exists>b \<in> set bs. \<exists>k \<le> bk_attempt b. \<exists>x. ml_id l = for_attempt (bk_id b) k x)"
    if "l \<in> set (md_ledger db @ new)" for l
  proof (cases "l \<in> set (md_ledger db)")
    case True
    from money_okD(4) [OF ok this] show ?thesis
    proof
      assume "\<exists>b \<in> set (md_bookings db). \<exists>k \<le> bk_attempt b. \<exists>x. ml_id l = for_attempt (bk_id b) k x"
      then obtain b k x where b: "b \<in> set (md_bookings db)" "k \<le> bk_attempt b" "ml_id l = for_attempt (bk_id b) k x" by blast
      show ?thesis
      proof (cases "bk_id b = bk_id r")
        case True
        with b bs(5) [OF b(1) True] bs(2) show ?thesis by (metis order_trans)
      next
        case False
        with b bs(4) show ?thesis by blast
      qed
    qed blast
  next
    case False
    with that have "ml_id l \<in> ml_id ` set new" by auto
    then have "ml_id l = for_attempt (bk_id r) (bk_attempt r) MCharge" by (auto simp: new_ids split: if_splits)
    with bs(2) show ?thesis by blast
  qed
  moreover have "meal_balance_of (md_ledger db @ new) s = credited (md_ledger db @ new) s - sum_list (map (held_price s) bs)" for s
    using money_okD(7) [OF ok, of s] bs(6) [of s] r(2)
    by (auto simp: new_def charge_for_def balance_snoc credited_snoc msigned_def held_price_def split: option.split)
  moreover have "booking_id_ok (bk_id b)" if "b \<in> set bs" for b
    using bs(3) [OF that] r(1) money_okD(3) [OF ok] by blast
  moreover have "(for_attempt (bk_id b) (bk_attempt b) MCharge \<in> ml_id ` set (md_ledger db @ new) \<longleftrightarrow> bk_price_minor b \<noteq> None) \<and>
        for_attempt (bk_id b) (bk_attempt b) MReversal \<notin> ml_id ` set (md_ledger db @ new)"
    if "b \<in> set bs" "bk_status b = Booked" for b
    using bs(3) [OF that(1)]
  proof
    assume "b = r"
    then show ?thesis using mine by simp
  next
    assume b: "b \<in> set (md_bookings db) \<and> bk_id b \<noteq> bk_id r"
    then show ?thesis using others [of b] money_okD(5) [OF ok _ that(2)] by simp
  qed
  moreover have "for_attempt (bk_id b) (bk_attempt b) MReversal \<in> ml_id ` set (md_ledger db @ new)"
    if "b \<in> set bs" "bk_status b = Cancelled" "for_attempt (bk_id b) (bk_attempt b) MCharge \<in> ml_id ` set (md_ledger db @ new)" for b
  proof -
    have "b \<in> set (md_bookings db) \<and> bk_id b \<noteq> bk_id r" using bs(3) [OF that(1)] that(2) r(2) by auto
    then show ?thesis using others [of b] money_okD(6) [OF ok _ that(2)] that(3) by simp
  qed
  ultimately show ?thesis
    unfolding money_ok_def led seats_owed_def bill_line_simps db' using bs(1) by blast
qed

lemma money_claim:
  assumes ok: "money_ok db" and row: "booking_id_ok (bk_id row)" "bk_status row = Booked"
  shows "money_ok (fst (claim_and_place db m cap seen row (bk_price_minor row) (charge_for row by' now)))"
proof (cases rule: claim_cases [of db row m cap seen "bk_price_minor row" "charge_for row by' now"])
  case (held b)
  with ok show ?thesis by simp
next
  case full
  with ok show ?thesis by simp
next
  case (stale b)
  with ok money_cong [of "take_seat m db" db] show ?thesis by simp
next
  case (revived b)
  let ?r = "revive b row (bk_price_minor row)"
  have find: "find_row bk_id (md_bookings db) (bk_id row) = Some b" using revived(2) by (simp add: booking_read_def)
  have b: "b \<in> set (md_bookings db)" "bk_id b = bk_id row" using booking_read_SomeD [OF revived(2)] by auto
  have r: "bk_id ?r = bk_id row" "bk_status ?r = Booked" "bk_attempt ?r = bk_attempt row"
    "bk_price_minor ?r = bk_price_minor row" using b by (simp_all add: revive_def)
  have "charge_for row by' now = charge_for ?r by' now" by (simp add: charge_for_def r)
  moreover have "money_ok (bill_line (charge_for ?r by' now)
      ((take_seat m db)\<lparr>md_bookings := put_row bk_id (bk_id row) ?r (md_bookings db)\<rparr>))"
  proof (rule money_place [OF ok, of ?r "put_row bk_id (bk_id row) ?r (md_bookings db)"])
    show "for_attempt (bk_id ?r) (bk_attempt ?r) x \<notin> ml_id ` set (md_ledger db)" for x
      unfolding r using revived(2,4) by (intro attempt_not_used [OF ok row(1)]) simp
    show "keyed bk_id (put_row bk_id (bk_id row) ?r (md_bookings db))"
      using money_okD(2) [OF ok] r(1) by (rule keyed_put_row)
    show "sum_list (map (held_price s) (put_row bk_id (bk_id row) ?r (md_bookings db)))
        = seats_owed db s + held_price s ?r" for s
      using sum_put_row [OF money_okD(2) [OF ok] find, of "held_price s" ?r] revived(3)
      by (simp add: seats_owed_def held_price_def)
    show "bk_attempt x \<le> bk_attempt ?r" if "x \<in> set (md_bookings db)" "bk_id x = bk_id ?r" for x
      using keyed_find_row [OF money_okD(2) [OF ok] that(1)] that(2) find r revived(4) by simp
  qed (use row r find in \<open>auto dest: set_put_row intro: mem_put_row put_row_mem\<close>)
  ultimately show ?thesis using revived(5) by simp
next
  case inserted
  have none: "bk_id row \<notin> bk_id ` set (md_bookings db)"
    using inserted(2) by (simp add: booking_read_def find_row_None_iff)
  then have other: "bk_id x \<noteq> bk_id row" if "x \<in> set (md_bookings db)" for x
    using that imageI [of x "set (md_bookings db)" bk_id] by metis
  have "money_ok (bill_line (charge_for row by' now) ((take_seat m db)\<lparr>md_bookings := md_bookings db @ [row]\<rparr>))"
  proof (rule money_place [OF ok, of row "md_bookings db @ [row]"])
    show "for_attempt (bk_id row) (bk_attempt row) x \<notin> ml_id ` set (md_ledger db)" for x
      using inserted(2) by (intro attempt_not_used [OF ok row(1)]) simp
    show "keyed bk_id (md_bookings db @ [row])" using none money_okD(2) [OF ok] by (simp add: keyed_def)
  qed (use row other in \<open>auto simp: seats_owed_def\<close>)
  with inserted(3) show ?thesis by simp
qed

lemma money_release:
  assumes ok: "money_ok db" and price: "same_attempt_price db b"
  shows "money_ok (fst (release_seat db b by' now))"
proof (cases rule: release_cases [of db b by' now])
  case lost
  with ok show ?thesis by simp
next
  case (freed c)
  let ?db = "fst (release_seat db b by' now)"
  let ?r = "c\<lparr>bk_status := Cancelled, bk_cancelled_at := Some now\<rparr>"
  let ?bs = "put_row bk_id (bk_id b) ?r (md_bookings db)"
  have find: "find_row bk_id (md_bookings db) (bk_id b) = Some c" using freed(1) by (simp add: booking_read_def)
  have c: "c \<in> set (md_bookings db)" "bk_id c = bk_id b" using booking_read_SomeD [OF freed(1)] by auto
  have pr: "bk_price_minor b = bk_price_minor c" using price freed(1,3) by (simp add: same_attempt_price_def)
  have idok: "booking_id_ok (bk_id b)" using money_okD(3) [OF ok c(1)] c(2) by simp
  note open' = money_okD(5) [OF ok c(1) freed(2), unfolded c(2) freed(3)]
  define new where "new = (case reversal_for b by' now of None \<Rightarrow> [] | Some (_, l) \<Rightarrow> [l])"
  have led: "md_ledger ?db = md_ledger db @ new"
    using open' unfolding freed(6) reverse_booking_def new_def
    by (auto simp: reversal_for_def pr Let_def fst_meal_append insert_row_fresh meal_read_None split: option.splits)
  have new_ids: "ml_id ` set new = (if bk_price_minor c = None then {} else {for_attempt (bk_id b) (bk_attempt b) MReversal})"
    by (auto simp: new_def reversal_for_def pr Let_def split: option.split)
  have others: "for_attempt (bk_id x) k y \<in> ml_id ` set (md_ledger db @ new) \<longleftrightarrow>
      for_attempt (bk_id x) k y \<in> ml_id ` set (md_ledger db)"
    if "x \<in> set (md_bookings db)" "bk_id x \<noteq> bk_id b" for x k y
    using that attempt_ids_neq [OF money_okD(3) [OF ok that(1)] idok] by (auto simp: image_Un new_ids)
  have bs: "x = ?r \<or> x \<in> set (md_bookings db) \<and> bk_id x \<noteq> bk_id b" if "x \<in> set ?bs" for x
    using set_put_row [OF that] by auto
  have rin: "?r \<in> set ?bs" using find by (rule put_row_mem)
  have "keyed ml_id (md_ledger db @ new)"
    using money_okD(1) [OF ok] open' unfolding keyed_def
    by (auto simp: new_def reversal_for_def Let_def split: option.splits)
  moreover have "credit_id (ml_id l) \<or> (\<exists>b \<in> set ?bs. \<exists>k \<le> bk_attempt b. \<exists>x. ml_id l = for_attempt (bk_id b) k x)"
    if "l \<in> set (md_ledger db @ new)" for l
  proof (cases "l \<in> set (md_ledger db)")
    case True
    from money_okD(4) [OF ok this] show ?thesis
    proof
      assume "\<exists>b \<in> set (md_bookings db). \<exists>k \<le> bk_attempt b. \<exists>x. ml_id l = for_attempt (bk_id b) k x"
      then obtain d k x where d: "d \<in> set (md_bookings db)" "k \<le> bk_attempt d" "ml_id l = for_attempt (bk_id d) k x" by blast
      show ?thesis
      proof (cases "bk_id d = bk_id b")
        case True
        with keyed_find_row [OF money_okD(2) [OF ok] d(1)] find have "d = c" by simp
        with d rin show ?thesis by (intro disjI2 bexI [of _ ?r]) auto
      next
        case False
        with d mem_put_row [of d "md_bookings db" bk_id "bk_id b" ?r] show ?thesis by blast
      qed
    qed blast
  next
    case False
    with that have "ml_id l \<in> ml_id ` set new" by auto
    then have "ml_id l = for_attempt (bk_id ?r) (bk_attempt ?r) MReversal"
      using c(2) freed(3) by (auto simp: new_ids split: if_splits)
    then show ?thesis using rin by blast
  qed
  moreover have "meal_balance_of (md_ledger db @ new) s = credited (md_ledger db @ new) s - sum_list (map (held_price s) ?bs)" for s
  proof -
    have "sum_list (map (held_price s) ?bs) = seats_owed db s - held_price s c"
      using sum_put_row [OF money_okD(2) [OF ok] find, of "held_price s" ?r] by (simp add: seats_owed_def held_price_def)
    with money_okD(7) [OF ok, of s] freed(2) c(2) show ?thesis
      by (auto simp: new_def reversal_for_def pr Let_def balance_snoc credited_snoc msigned_def held_price_def
          split: option.split)
  qed
  moreover have "booking_id_ok (bk_id x)" if "x \<in> set ?bs" for x
    using bs [OF that] idok c(2) money_okD(3) [OF ok] by auto
  moreover have "(for_attempt (bk_id x) (bk_attempt x) MCharge \<in> ml_id ` set (md_ledger db @ new) \<longleftrightarrow> bk_price_minor x \<noteq> None) \<and>
        for_attempt (bk_id x) (bk_attempt x) MReversal \<notin> ml_id ` set (md_ledger db @ new)"
    if "x \<in> set ?bs" "bk_status x = Booked" for x
  proof -
    have "x \<in> set (md_bookings db) \<and> bk_id x \<noteq> bk_id b" using bs [OF that(1)] that(2) by auto
    then show ?thesis using others [of x] money_okD(5) [OF ok _ that(2)] by simp
  qed
  moreover have "for_attempt (bk_id x) (bk_attempt x) MReversal \<in> ml_id ` set (md_ledger db @ new)"
    if "x \<in> set ?bs" "bk_status x = Cancelled" "for_attempt (bk_id x) (bk_attempt x) MCharge \<in> ml_id ` set (md_ledger db @ new)" for x
    using bs [OF that(1)]
  proof
    assume "x = ?r"
    then show ?thesis
      using that(3) open' c(2) freed(3) attempt_ids_neq [OF idok idok]
      by (auto simp: image_Un new_ids split: if_splits)
  next
    assume "x \<in> set (md_bookings db) \<and> bk_id x \<noteq> bk_id b"
    then show ?thesis using others [of x] money_okD(6) [OF ok _ that(2)] that(3) by simp
  qed
  moreover have "keyed bk_id ?bs" using keyed_put_row [OF money_okD(2) [OF ok], of ?r] c(2) by simp
  ultimately show ?thesis unfolding money_ok_def led seats_owed_def freed(4) by blast
qed

lemma money_charge:
  assumes "money_ok db" "booking_read db i = Some b" "bk_status b = Booked"
  shows "charge_booking (md_ledger db) b by' now = md_ledger db"
  using money_okD(5) [OF assms(1) _ assms(3)] booking_read_SomeD [OF assms(2)]
  by (auto simp: charge_booking_def charge_for_def fst_meal_append insert_row_present split: option.split)

lemma money_reverse:
  assumes "money_ok db" "booking_read db i = Some b" "bk_status b = Cancelled"
  shows "reverse_booking (md_ledger db) b by' now = md_ledger db"
  using money_okD(6) [OF assms(1) _ assms(3)] booking_read_SomeD [OF assms(2)]
  by (auto simp: reverse_booking_def reversal_for_def Let_def fst_meal_append insert_row_present meal_read_None
      split: option.split)

lemma money_credit:
  assumes ok: "money_ok db" and "uuid_key student" "uuid_key fresh"
    and key: "\<And>k. key = Some k \<Longrightarrow> validate_request_key k = Inr ()"
  shows "money_ok (db\<lparr>md_ledger := fst (meal_credit (md_ledger db) student amount mtd nt key by' fresh now)\<rparr>)"
proof -
  define id where "id = (case key of Some k \<Rightarrow> credit_for_request student k | None \<Rightarrow> fresh)"
  define row where "row = \<lparr>ml_id = id, ml_student = student, ml_kind = MCredit, ml_amount_minor = amount,
      ml_source = None, ml_method = mtd, ml_note = nt, ml_recorded_by = by', ml_created_at = now\<rparr>"
  have cid: "credit_id id" using assms(2,3) key unfolding credit_id_def id_def by (cases key) auto
  have run: "fst (meal_credit (md_ledger db) student amount mtd nt key by' fresh now) = insert_row ml_id row (md_ledger db)"
    unfolding fst_meal_append [symmetric] meal_credit_def row_def id_def
    by (auto split: prod.split sum.split)
  show ?thesis
  proof (cases "id \<in> ml_id ` set (md_ledger db)")
    case True
    then have "insert_row ml_id row (md_ledger db) = md_ledger db" by (simp add: row_def insert_row_present)
    with ok run show ?thesis by simp
  next
    case False
    then have led: "insert_row ml_id row (md_ledger db) = md_ledger db @ [row]" by (simp add: row_def insert_row_fresh)
    have neq: "for_attempt (bk_id b) n x \<noteq> id" if "b \<in> set (md_bookings db)" for b n x
      using credit_id_not_attempt [OF cid money_okD(3) [OF ok that]] by metis
    show ?thesis
      unfolding run led money_ok_def
      using ok False cid neq
      by (auto simp: money_ok_def balance_snoc credited_snoc msigned_def seats_owed_def keyed_def row_def)
  qed
qed

lemma meal_step_money: "meal_step db db' \<Longrightarrow> money_ok db \<Longrightarrow> money_ok db'"
proof (induction rule: meal_step.induct)
  case (s_create db date slot capacity by' now)
  have "md_bookings (fst (menu_create db date slot capacity by' now)) = md_bookings db"
    "md_ledger (fst (menu_create db date slot capacity by' now)) = md_ledger db"
    by (auto simp: menu_create_def run_tx_def Let_def split: option.split)
  with s_create money_cong show ?case by blast
next
  case (s_update db key capacity)
  have "md_bookings (fst (menu_update db key capacity)) = md_bookings db"
    "md_ledger (fst (menu_update db key capacity)) = md_ledger db"
    by (auto simp: menu_update_def Let_def split: option.split)
  with s_update money_cong show ?case by blast
next
  case (s_delete db m)
  have "md_bookings (fst (menu_delete db m)) = md_bookings db" "md_ledger (fst (menu_delete db m)) = md_ledger db"
    by (auto simp: menu_delete_def Let_def split: option.split)
  with s_delete money_cong show ?case by blast
next
  case s_add_dish
  then show ?case using money_cong dish_frame(1) by blast
next
  case s_dish_update
  then show ?case using money_cong dish_frame(2) by blast
next
  case s_dish_delete
  then show ?case using money_cong dish_frame(3) by blast
next
  case (s_claim row db cap seen by' now)
  then show ?case by (simp add: money_claim)
next
  case (s_release db b by' now)
  then show ?case by (simp add: money_release)
next
  case (s_charge db i b by' now)
  then show ?case by (simp add: money_charge)
next
  case (s_reverse db i b by' now)
  then show ?case by (simp add: money_reverse)
next
  case (s_credit student fresh key db amount mtd nt by' now)
  then show ?case by (simp add: money_credit)
qed

lemma meal_reachable_money: "meal_reachable db \<Longrightarrow> money_ok db"
proof (induction rule: meal_reachable.induct)
  case (m_empty refs)
  then show ?case by (simp add: money_ok_def keyed_def meal_balance_lines credited_def seats_owed_def)
next
  case (m_other db at rs)
  then show ?case by (simp add: money_ok_def seats_owed_def)
qed (rule meal_step_money)


section \<open>A worked canteen\<close>

text \<open>
  A menu with one seat.  The student's own request reads that there is no booking; before its claim,
  the parent's request books the seat and cancels it again.
\<close>

definition demo_day :: "ustr \<Rightarrow> int option" where
  "demo_day s = (if s = u ''2026-03-02'' then Some 20514 else None)"

definition demo_booking :: meal_booking_id where
  "demo_booking = \<lparr>mb_menu = menu_key_for_slot (u ''2026-03-02'') (u ''lunch''), mb_student = replicate 36 98\<rparr>"

definition no_cutoff :: meal_cutoff where
  "no_cutoff = \<lparr>mc_minutes = None, mc_slots = []\<rparr>"

definition demo_menu :: meal_db where
  "demo_menu = fst (menu_create \<lparr>md_menus = [], md_slot_refs = [], md_dishes = [], md_dish_tags = [],
     md_attendance = [], md_bookings = [], md_ledger = []\<rparr> (u ''2026-03-02'') (u ''lunch'') (Some 1) [109] 0)"

definition parent_books :: "meal_db \<Rightarrow> meal_db" where
  "parent_books db = fst (book demo_day (\<lambda>_ d. d) db demo_booking [112] no_cutoff (\<lambda>_. 1))"

definition parent_cancels :: "meal_db \<Rightarrow> meal_db" where
  "parent_cancels db = fst (cancel demo_day (\<lambda>d. d) db demo_booking no_cutoff [112] 2)"

definition rivals_once :: "nat \<Rightarrow> meal_db \<Rightarrow> meal_db" where
  "rivals_once n db = (if n = 0 then parent_cancels (parent_books db) else db)"

section \<open>Properties\<close>

text \<open>
  C23. No over-booking.  In every state the canteen's transactions can reach, in any interleaving and
  with any stale reads, a menu's seat counter is at least the number of bookings that hold a seat;
  and a claim that is answered with a booking leaves the counter within the capacity it was given, so
  no more seats are held than the menu has.
\<close>

theorem no_overbooking:
  assumes "meal_reachable db" "booking_id_ok (bk_id row)" "bk_status row = Booked"
    and "claim_and_place db (mb_menu (bk_id row)) cap seen row (bk_price_minor row) (charge_for row by' now)
      = (db', Inr (Made b'))"
  shows "(\<forall>m \<in> set (md_menus db'). seats_held db' (mn_id m) \<le> mn_seats_booked m) \<and>
    seats_held db' (mb_menu (bk_id row)) \<le> cap"
proof -
  have "meal_step db db'" using s_claim [OF assms(2,3), of db cap seen by' now] assms(4) by simp
  then have "seats_ok db'" using meal_reachable_seats [OF m_step [OF assms(1)]] by blast
  moreover obtain mn where "mn \<in> set (md_menus db')" "mn_id mn = mb_menu (bk_id row)" "mn_seats_booked mn \<le> cap"
    using claim_made_below_cap [OF meal_reachable_seats [OF assms(1)] assms(4)] by blast
  ultimately show ?thesis by (fastforce simp: seats_ok_def)
qed

lemma demo_menu_reachable: "meal_reachable demo_menu"
  unfolding demo_menu_def by (rule m_step [OF m_empty s_create])

definition demo_row :: meal_booking where
  "demo_row = \<lparr>bk_id = demo_booking, bk_booked_by = [112], bk_status = Booked, bk_attempt = 1,
     bk_price_minor = Some 500, bk_cancelled_at = None, bk_created_at = 1\<rparr>"

theorem no_overbooking_witness:
  "\<exists>db'. claim_and_place demo_menu (mb_menu demo_booking) 1 0 demo_row (Some 500) (charge_for demo_row [112] 1)
      = (db', Inr (Made demo_row)) \<and> seats_held db' (mb_menu demo_booking) \<le> 1"
proof -
  let ?c = "claim_and_place demo_menu (mb_menu demo_booking) 1 0 demo_row (Some 500) (charge_for demo_row [112] 1)"
  have "snd ?c = Inr (Made demo_row)" by code_simp
  then have c: "?c = (fst ?c, Inr (Made demo_row))" by (simp add: prod_eq_iff)
  have id: "booking_id_ok (bk_id demo_row)" by code_simp
  have f: "bk_status demo_row = Booked" "bk_price_minor demo_row = Some 500" "bk_id demo_row = demo_booking"
    by (simp_all add: demo_row_def)
  from no_overbooking [OF demo_menu_reachable id f(1), unfolded f, OF c] c show ?thesis by blast
qed

text \<open>
  C24. A student owes for the seats held, and nothing else.  In every state the canteen's
  transactions can reach, the balance the database sums per kind is the student's credits less the
  prices of the bookings currently holding a seat: a cancelled booking costs nothing, a
  booking is charged once however often it is retried, and a re-booking is charged at its own price.
\<close>

theorem meal_balance_is_credits_less_seats:
  assumes "meal_reachable db"
  shows "meal_balance_of (md_ledger db) s = credited (md_ledger db) s - seats_owed db s"
  using money_okD(7) [OF meal_reachable_money [OF assms]] .

theorem meal_balance_is_credits_less_seats_witness:
  "meal_balance_of (md_ledger (fst (claim_and_place demo_menu (mb_menu demo_booking) 1 0 demo_row (Some 500)
      (charge_for demo_row [112] 1)))) (replicate 36 98) = - 500"
proof -
  let ?db = "fst (claim_and_place demo_menu (mb_menu demo_booking) 1 0 demo_row (Some 500) (charge_for demo_row [112] 1))"
  have id: "booking_id_ok (bk_id demo_row)" by code_simp
  have f: "bk_status demo_row = Booked" "bk_price_minor demo_row = Some 500" "bk_id demo_row = demo_booking"
    by (simp_all add: demo_row_def)
  have "meal_reachable ?db"
    using m_step [OF demo_menu_reachable s_claim [OF id f(1), of demo_menu 1 0 "[112]" 1]] by (simp add: f)
  from meal_balance_is_credits_less_seats [OF this, of "replicate 36 98"]
  have "meal_balance_of (md_ledger ?db) (replicate 36 98)
      = credited (md_ledger ?db) (replicate 36 98) - seats_owed ?db (replicate 36 98)" .
  also have "credited (md_ledger ?db) (replicate 36 98) = 0" by code_simp
  also have "seats_owed ?db (replicate 36 98) = 500" by code_simp
  finally show ?thesis by simp
qed

text \<open>
  C26. A seat can be lost.  The claim takes the seat before it knows whether the row can be placed,
  and its transaction commits the answer that it cannot.  With one seat, a request that read the
  booking before another request of the same student booked and cancelled it takes the seat without a
  row, is then told that the menu is fully booked, and leaves the menu full with nobody seated.
\<close>

theorem claim_leaks_a_seat:
  "\<exists>db'. book demo_day rivals_once demo_menu demo_booking [115] no_cutoff (\<lambda>_. 3)
        = (db', Inl (Conflict (u ''the menu is fully booked''))) \<and>
     map mn_capacity (md_menus db') = [Some 1] \<and> map mn_seats_booked (md_menus db') = [1] \<and>
     seats_held db' (mb_menu demo_booking) = 0"
proof -
  let ?r = "book demo_day rivals_once demo_menu demo_booking [115] no_cutoff (\<lambda>_. 3)"
  have "case ?r of (db', r) \<Rightarrow> r = Inl (Conflict (u ''the menu is fully booked'')) \<and>
      map mn_capacity (md_menus db') = [Some 1] \<and> map mn_seats_booked (md_menus db') = [1] \<and>
      seats_held db' (mb_menu demo_booking) = 0" by code_simp
  then show ?thesis by (auto split: prod.splits)
qed

end
