(* ===== verification/Menu_Revision.thy ===== *)
theory Menu_Revision
  imports Meals_Properties
begin

text \<open>
  The menu's revision number as the fence of a booking.  A booking prices the menu and reads its
  capacity in one round trip and claims the seat in a later one, at the revision it read; every
  write that moves the price or the capacity moves the revision.  The lemmas follow each committed
  transaction; the properties say when the fence holds and when it does not.
\<close>

section \<open>What a transaction does to one menu\<close>

definition dishes_on :: "meal_db \<Rightarrow> ustr \<Rightarrow> menu_dish list" where
  "dishes_on db m = filter (\<lambda>d. di_menu d = m) (md_dishes db)"

text \<open>The menu stays, and its revision grows or everything the revision guards stays as it was.\<close>

definition fenced :: "ustr \<Rightarrow> meal_db \<Rightarrow> meal_db \<Rightarrow> bool" where
  "fenced m db db' \<longleftrightarrow> (\<forall>x. menu_read db m = Some x \<longrightarrow>
     (\<exists>y. menu_read db' m = Some y \<and> get_version x \<le> get_version y \<and>
        (get_version y = get_version x \<longrightarrow>
           mn_capacity y = mn_capacity x \<and> dishes_on db' m = dishes_on db m)))"

lemma fenced_refl: "fenced m db db" by (simp add: fenced_def)

lemma fenced_trans:
  assumes "fenced m a b" "fenced m b c"
  shows "fenced m a c"
  unfolding fenced_def
proof (intro allI impI)
  fix x assume "menu_read a m = Some x"
  with assms(1) obtain y where y: "menu_read b m = Some y" "get_version x \<le> get_version y"
    "get_version y = get_version x \<longrightarrow> mn_capacity y = mn_capacity x \<and> dishes_on b m = dishes_on a m"
    unfolding fenced_def by blast
  with assms(2) obtain z where z: "menu_read c m = Some z" "get_version y \<le> get_version z"
    "get_version z = get_version y \<longrightarrow> mn_capacity z = mn_capacity y \<and> dishes_on c m = dishes_on b m"
    unfolding fenced_def by blast
  with y show "\<exists>y. menu_read c m = Some y \<and> get_version x \<le> get_version y \<and>
        (get_version y = get_version x \<longrightarrow> mn_capacity y = mn_capacity x \<and> dishes_on c m = dishes_on a m)"
    by (intro exI [of _ z]) auto
qed

lemma fenced_same:
  assumes "\<And>x. menu_read db m = Some x \<Longrightarrow> \<exists>y. menu_read db' m = Some y \<and> get_version y = get_version x \<and>
      mn_capacity y = mn_capacity x"
    and "md_dishes db' = md_dishes db"
  shows "fenced m db db'"
  unfolding fenced_def dishes_on_def assms(2) using assms(1) by force

lemma find_row_map:
  assumes "\<And>x. key (f x) = key x"
  shows "find_row key (map f rows) k = map_option f (find_row key rows k)"
  by (induction rows) (simp_all add: find_row_def assms)

lemma menu_read_map:
  "(\<And>x. mn_id (f x) = mn_id x) \<Longrightarrow>
   menu_read (db\<lparr>md_menus := map f (md_menus db)\<rparr>) m = map_option f (menu_read db m)"
  by (simp add: menu_read_def find_row_map)

lemma version_simps [simp]:
  "get_version (x\<lparr>mn_seats_booked := n\<rparr>) = get_version x"
  "get_version (x\<lparr>mn_version := Some v\<rparr>) = v"
  "get_version (x\<lparr>mn_capacity := c, mn_version := Some v\<rparr>) = v"
  by (simp_all add: get_version_def)

lemma menu_read_bump:
  "menu_read (dish_write k ds ts db) m
     = map_option (\<lambda>x. if mn_id x = k then x\<lparr>mn_version := Some (get_version x + 1)\<rparr> else x) (menu_read db m)"
  unfolding menu_read_def dish_write_simps bump_version_def by (rule find_row_map) simp

lemma menu_read_id: "menu_read db m = Some x \<Longrightarrow> mn_id x = m"
  by (auto simp: menu_read_def dest: find_row_SomeD)

lemma fenced_dish_write:
  assumes "k \<noteq> m \<Longrightarrow> filter (\<lambda>d. di_menu d = m) ds = dishes_on db m"
  shows "fenced m db (dish_write k ds ts db)"
  unfolding fenced_def menu_read_bump using assms menu_read_id [of db m]
  by (auto simp: dishes_on_def)

lemma fenced_cases: "x \<in> {a, b, c} \<Longrightarrow> P a \<Longrightarrow> P b \<Longrightarrow> P c \<Longrightarrow> P x" by auto

section \<open>Every transaction but the menu's own deletion\<close>

lemma fenced_create: "fenced m db (fst (menu_create db date slot cap by' now))"
proof (rule fenced_same)
  show "md_dishes (fst (menu_create db date slot cap by' now)) = md_dishes db"
    by (auto simp: menu_create_def run_tx_def Let_def split: option.split)
next
  fix x assume "menu_read db m = Some x"
  then have "menu_read (fst (menu_create db date slot cap by' now)) m = Some x"
    by (auto simp: menu_create_def run_tx_def Let_def menu_read_def find_row_append split: option.split)
  then show "\<exists>y. menu_read (fst (menu_create db date slot cap by' now)) m = Some y \<and> get_version y = get_version x \<and>
      mn_capacity y = mn_capacity x" by blast
qed

lemma fenced_update: "fenced m db (fst (menu_update db key capacity))"
proof (cases "\<exists>cap r. capacity = Some cap \<and> menu_read db key = Some r")
  case True
  then obtain cap r where cr: "capacity = Some cap" "menu_read db key = Some r" by blast
  let ?r = "r\<lparr>mn_capacity := cap, mn_version := Some (get_version r + 1)\<rparr>"
  have id: "mn_id r = key" using menu_read_id [OF cr(2)] .
  have "menu_read (fst (menu_update db key capacity)) m = map_option (\<lambda>x. if mn_id x = key then ?r else x) (menu_read db m)"
    using id by (simp add: menu_update_def cr Let_def) (rule menu_read_map, simp)
  moreover have "dishes_on (fst (menu_update db key capacity)) m = dishes_on db m"
    by (simp add: menu_update_def cr Let_def dishes_on_def)
  ultimately show ?thesis using menu_read_id [of db m] cr(2) id unfolding fenced_def by (auto split: if_splits)
next
  case False
  then have "fst (menu_update db key capacity) = db" by (auto simp: menu_update_def split: option.split)
  then show ?thesis by (simp add: fenced_refl)
qed

lemma fenced_delete: "mn_id x \<noteq> m \<Longrightarrow> fenced m db (fst (menu_delete db x))"
proof (cases "fst (menu_delete db x) = db")
  case False
  assume other: "mn_id x \<noteq> m"
  from False have d: "md_menus (fst (menu_delete db x)) = filter (\<lambda>y. mn_id y \<noteq> mn_id x) (md_menus db)"
    "md_dishes (fst (menu_delete db x)) = filter (\<lambda>y. di_menu y \<noteq> mn_id x) (md_dishes db)"
    by (auto simp: menu_delete_def Let_def split: option.splits if_splits)
  have "find_row mn_id (filter (\<lambda>y. mn_id y \<noteq> mn_id x) ms) m = find_row mn_id ms m" for ms
    using other by (induction ms) (auto simp: find_row_def)
  moreover have "filter (\<lambda>d. di_menu d = m) (filter (\<lambda>y. di_menu y \<noteq> mn_id x) ds) = filter (\<lambda>d. di_menu d = m) ds" for ds
    using other by (induction ds) auto
  ultimately have "menu_read (fst (menu_delete db x)) m = menu_read db m" "dishes_on (fst (menu_delete db x)) m = dishes_on db m"
    unfolding menu_read_def dishes_on_def d by blast+
  then show ?thesis by (simp add: fenced_def)
qed (simp add: fenced_refl)

lemma fenced_add_dish: "fenced m db (fst (add_dish db key n d p ts fresh now))"
proof -
  obtain dish ts' where w: "di_menu dish = key" "fst (add_dish db key n d p ts fresh now) \<in>
     {db, dish_write key (md_dishes db @ [dish]) ts' db, dish_write key (md_dishes db) (md_dish_tags db) db}"
    using add_dish_writes by blast
  show ?thesis using w(1)
    by (rule_tac fenced_cases [OF w(2), of "fenced m db"]) (auto intro!: fenced_dish_write fenced_refl simp: dishes_on_def)
qed

lemma fenced_dish_update:
  assumes "dish_known db dish"
  shows "fenced m db (fst (dish_update db dish n' d' p' ts'))"
proof -
  obtain f ts where w: "\<And>d. di_menu (f d) = di_menu d" "fst (dish_update db dish n' d' p' ts') \<in>
     {db, dish_write (di_menu dish) (map (\<lambda>d. if di_id d = di_id dish then f d else d) (md_dishes db)) ts db,
      dish_write (di_menu dish) (md_dishes db) (md_dish_tags db) db}"
    using dish_update_writes [of db dish n' d' p' ts'] by blast
  have "filter (\<lambda>d. di_menu d = m) (map (\<lambda>d. if di_id d = di_id dish then f d else d) ds) = filter (\<lambda>d. di_menu d = m) ds"
    if "di_menu dish \<noteq> m" "\<forall>d \<in> set ds. di_id d = di_id dish \<longrightarrow> di_menu d = di_menu dish" for ds
    using that w(1) by (induction ds) auto
  with assms show ?thesis
    by (rule_tac fenced_cases [OF w(2), of "fenced m db"])
      (auto intro!: fenced_dish_write fenced_refl simp: dishes_on_def dish_known_def)
qed

lemma fenced_dish_delete:
  assumes "dish_known db dish"
  shows "fenced m db (fst (dish_delete db dish))"
proof -
  obtain ts where w: "fst (dish_delete db dish) \<in>
     {db, dish_write (di_menu dish) (filter (\<lambda>d. di_id d \<noteq> di_id dish) (md_dishes db)) ts db,
      dish_write (di_menu dish) (md_dishes db) (md_dish_tags db) db}"
    using dish_delete_writes [of db dish] by blast
  have "filter (\<lambda>d. di_menu d = m) (filter (\<lambda>d. di_id d \<noteq> di_id dish) ds) = filter (\<lambda>d. di_menu d = m) ds"
    if "di_menu dish \<noteq> m" "\<forall>d \<in> set ds. di_id d = di_id dish \<longrightarrow> di_menu d = di_menu dish" for ds
    using that by (induction ds) auto
  with assms show ?thesis
    by (rule_tac fenced_cases [OF w, of "fenced m db"])
      (auto intro!: fenced_dish_write fenced_refl simp: dishes_on_def dish_known_def simp del: filter_filter)
qed

lemma fenced_claim: "fenced m db (fst (claim_and_place db k cap seen row price charge))"
proof -
  have d: "md_dishes (fst (claim_body k cap seen row price charge db)) = md_dishes db"
    by (auto simp: claim_body_def Let_def split: option.split)
  have r: "menu_read (fst (claim_body k cap seen row price charge db)) m = menu_read db m \<or>
      menu_read (fst (claim_body k cap seen row price charge db)) m
        = map_option (\<lambda>x. if mn_id x = k then x\<lparr>mn_seats_booked := mn_seats_booked x + 1\<rparr> else x) (menu_read db m)"
    by (auto simp: claim_body_def Let_def menu_read_def find_row_map split: option.split)
  have "fenced m db (fst (claim_body k cap seen row price charge db))"
    by (rule fenced_same [OF _ d]) (use r in auto)
  then show ?thesis unfolding claim_and_place_def by (rule run_tx_cases [of "fenced m db", OF fenced_refl])
qed

lemma fenced_release: "fenced m db (fst (release_seat db b by' now))"
proof (rule fenced_same)
  show "md_dishes (fst (release_seat db b by' now)) = md_dishes db"
    by (auto simp: release_seat_def Let_def split: option.split)
  have "menu_read (fst (release_seat db b by' now)) m = menu_read db m \<or>
      menu_read (fst (release_seat db b by' now)) m = map_option (\<lambda>x. if mn_id x = mb_menu (bk_id b)
        then x\<lparr>mn_seats_booked := max (mn_seats_booked x - 1) 0\<rparr> else x) (menu_read db m)"
    by (auto simp: release_seat_def Let_def menu_read_def find_row_map split: option.split)
  then show "\<exists>y. menu_read (fst (release_seat db b by' now)) m = Some y \<and> get_version y = get_version x \<and>
      mn_capacity y = mn_capacity x" if "menu_read db m = Some x" for x
    using that by auto
qed

lemma fenced_ledger: "fenced m db (db\<lparr>md_ledger := rows\<rparr>)"
  by (rule fenced_same) (simp_all add: menu_read_def)

text \<open>
  The interleavings of other requests that do not delete the menu itself.
\<close>

inductive menu_kept :: "ustr \<Rightarrow> meal_db \<Rightarrow> meal_db \<Rightarrow> bool" for m where
  k_start: "menu_kept m db db"
| k_step: "menu_kept m db db1 \<Longrightarrow> meal_step db1 db2 \<Longrightarrow> menu_read db2 m \<noteq> None \<Longrightarrow> menu_kept m db db2"

lemma fenced_delete_kept:
  assumes "menu_read (fst (menu_delete db x)) m \<noteq> None"
  shows "fenced m db (fst (menu_delete db x))"
proof (cases "mn_id x = m \<and> fst (menu_delete db x) \<noteq> db")
  case True
  then have "md_menus (fst (menu_delete db x)) = filter (\<lambda>y. mn_id y \<noteq> m) (md_menus db)"
    by (auto simp: menu_delete_def Let_def split: option.splits if_splits)
  then have "menu_read (fst (menu_delete db x)) m = None" by (auto simp: menu_read_def find_row_None_iff)
  with assms show ?thesis by simp
qed (use fenced_delete fenced_refl in auto)

lemma fenced_step: "meal_step db db' \<Longrightarrow> menu_read db' m \<noteq> None \<Longrightarrow> fenced m db db'"
  by (induction rule: meal_step.induct)
    (simp_all add: fenced_create fenced_update fenced_delete_kept fenced_add_dish fenced_dish_update fenced_dish_delete
      fenced_claim fenced_release fenced_ledger)

lemma fenced_kept: "menu_kept m db db' \<Longrightarrow> fenced m db db'"
  by (induction rule: menu_kept.induct) (use fenced_refl fenced_step fenced_trans in blast)+

lemma made_at_revision:
  assumes "claim_and_place db m cap seen row price charge = (db', Inr (Made b))"
  shows "\<exists>x. menu_read db m = Some x \<and> mn_seats_booked x < cap \<and> get_version x = seen"
  using assms unfolding claim_and_place_def run_tx_Inr
  by (auto simp: claim_body_def Let_def split: option.splits if_splits)

lemma made_price:
  assumes "claim_and_place db m cap seen row price charge = (db', Inr (Made b))"
  shows "bk_price_minor b = price"
  using assms unfolding claim_and_place_def run_tx_Inr
  by (auto simp: claim_body_def Let_def split: option.splits if_splits)

section \<open>Properties\<close>

text \<open>
  C25. A seat is taken at the current price.  A booking prices the menu and reads its capacity; other
  requests then commit any transactions at all, dish edits and capacity changes included, that leave
  the menu in place; if the claim is then answered with a seat, the price on the booking is what the
  menu costs now and the capacity the seat was counted against is the menu's capacity now.
\<close>

theorem seat_price_is_current:
  assumes "menu_read db m = Some fresh" and "price_snapshot db m = Inr price" and "menu_kept m db now_db"
    and "claim_and_place now_db m (case_option UNLIMITED id (mn_capacity fresh)) (get_version fresh) row price charge
      = (db', Inr (Made b))"
  shows "price_snapshot now_db m = Inr (bk_price_minor b) \<and>
    (\<exists>x. menu_read now_db m = Some x \<and> mn_capacity x = mn_capacity fresh \<and>
       mn_seats_booked x < case_option UNLIMITED id (mn_capacity x))"
proof -
  obtain x where x: "menu_read now_db m = Some x" "mn_seats_booked x < case_option UNLIMITED id (mn_capacity fresh)"
    "get_version x = get_version fresh"
    using made_at_revision [OF assms(4)] by blast
  have "mn_capacity x = mn_capacity fresh \<and> dishes_on now_db m = dishes_on db m"
    using fenced_kept [OF assms(3)] assms(1) x(1,3) by (auto simp: fenced_def)
  with x assms(2) made_price [OF assms(4)] show ?thesis by (simp add: price_snapshot_def dishes_on_def)
qed

text \<open>A menu with one dish, and what a kitchen does to it between a booking's reads and its claim.\<close>

definition one_dish :: "int \<Rightarrow> meal_db \<Rightarrow> meal_db" where
  "one_dish price db = fst (add_dish db (mb_menu demo_booking) (u ''soup'') None price [] (u ''d1'') 1)"

definition republish :: "meal_db \<Rightarrow> meal_db" where
  "republish db = fst (menu_create (case menu_read db (mb_menu demo_booking) of
      Some m \<Rightarrow> fst (menu_delete db m) | None \<Rightarrow> db) (u ''2026-03-02'') (u ''lunch'') (Some 1) [109] 2)"

definition republishes_once :: "nat \<Rightarrow> meal_db \<Rightarrow> meal_db" where
  "republishes_once n db = (if n = 0 then one_dish 300 (republish db) else db)"

theorem seat_price_is_current_witness:
  "\<exists>db' b. claim_and_place (one_dish 500 demo_menu) (mb_menu demo_booking) 1 1 demo_row (Some 500)
        (charge_for demo_row [112] 1) = (db', Inr (Made b)) \<and>
      price_snapshot (one_dish 500 demo_menu) (mb_menu demo_booking) = Inr (bk_price_minor b)"
proof -
  let ?db = "one_dish 500 demo_menu" and ?m = "mb_menu demo_booking"
  let ?c = "claim_and_place ?db ?m 1 1 demo_row (Some 500) (charge_for demo_row [112] 1)"
  have "snd ?c = Inr (Made demo_row)" by code_simp
  then have c: "?c = (fst ?c, Inr (Made demo_row))" by (simp add: prod_eq_iff)
  have "map_option (\<lambda>x. (mn_capacity x, get_version x)) (menu_read ?db ?m) = Some (Some 1, 1)" by code_simp
  then obtain fresh where f: "menu_read ?db ?m = Some fresh" "mn_capacity fresh = Some 1" "get_version fresh = 1" by auto
  have p: "price_snapshot ?db ?m = Inr (Some 500)" by code_simp
  have "price_snapshot ?db ?m = Inr (bk_price_minor demo_row)"
    using seat_price_is_current [OF f(1) p k_start, of demo_row "charge_for demo_row [112] 1" "fst ?c" demo_row] c f(2,3)
    by simp
  with c show ?thesis by blast
qed

text \<open>
  C27. The fence has a gap.  The revision of a menu that is deleted and published again starts over,
  under the same key.  A student prices a menu at 100; the kitchen deletes it, publishes it again
  and puts a dish at 300 on it; the claim meets the revision it read and the student holds a seat
  booked and charged at 100 on a menu that costs 300.
\<close>

theorem republished_menu_keeps_old_price:
  "\<exists>db' b. book demo_day republishes_once (one_dish 100 demo_menu) demo_booking [115] no_cutoff (\<lambda>_. 3) = (db', Inr b) \<and>
     bk_price_minor b = Some 100 \<and> price_snapshot db' (mb_menu demo_booking) = Inr (Some 300) \<and>
     map ml_amount_minor (md_ledger db') = [100]"
proof -
  let ?r = "book demo_day republishes_once (one_dish 100 demo_menu) demo_booking [115] no_cutoff (\<lambda>_. 3)"
  have "case ?r of (db', Inr b) \<Rightarrow> bk_price_minor b = Some 100 \<and>
      price_snapshot db' (mb_menu demo_booking) = Inr (Some 300) \<and> map ml_amount_minor (md_ledger db') = [100]
    | _ \<Rightarrow> False" by code_simp
  then show ?thesis by (auto split: prod.splits sum.splits)
qed

end
