(* ===== verification/School_Modules.thy ===== *)
theory School_Modules
  imports Errors "HOL-Library.List_Lexorder" "HOL-Library.Char_ord"
begin

text \<open>
  Per-school module entitlements (\<open>src/src/module.rs\<close>, \<open>src/src/web/module_gate.rs\<close>):
  which modules exist, what each requires, how they are packaged, the set a school has,
  and the gate that refuses a disabled module's routes.  A \<open>ModuleSet\<close> is a set; its
  iteration order is the declaration order, as in the source's \<open>BTreeSet\<close>.
\<close>

section \<open>Modules and packages\<close>

datatype package = Academics | Communication | Operations | AiPackage

definition MODULE_ALL :: "module list" where
  "MODULE_ALL = [Chatbot, Notes, Messages, Events, Appointments, Courses, CourseNotes,
     Classes, Sessions, Exams, Marks, Meals, Payments, Work, Pomodoro, Questions,
     BankQuestions, Attendance, Subjects, Homework, Boards]"

definition module_try_from_str :: "string \<Rightarrow> module vresult" where
  "module_try_from_str value =
     ok_or (Unknown ''module'' (u value)) (find (\<lambda>m. module_as_str m = value) MODULE_ALL)"

fun requires :: "module \<Rightarrow> module list" where
  "requires Subjects = [Courses]"
| "requires CourseNotes = [Courses]"
| "requires Sessions = [Courses]"
| "requires Exams = [Courses, Subjects]"
| "requires Homework = [Courses, Subjects]"
| "requires Classes = [Courses]"
| "requires Marks = [Exams]"
| "requires Attendance = [Events, Sessions]"
| "requires _ = []"

fun package_of :: "module \<Rightarrow> package" where
  "package_of Courses = Academics"
| "package_of Subjects = Academics"
| "package_of Sessions = Academics"
| "package_of Exams = Academics"
| "package_of Marks = Academics"
| "package_of Homework = Academics"
| "package_of Classes = Academics"
| "package_of CourseNotes = Academics"
| "package_of Attendance = Academics"
| "package_of BankQuestions = Academics"
| "package_of Notes = Communication"
| "package_of Messages = Communication"
| "package_of Events = Communication"
| "package_of Appointments = Communication"
| "package_of Questions = Communication"
| "package_of Boards = Communication"
| "package_of Meals = Operations"
| "package_of Payments = Operations"
| "package_of Work = Operations"
| "package_of Pomodoro = Operations"
| "package_of Chatbot = AiPackage"

definition dependents :: "module \<Rightarrow> module list" where
  "dependents self = filter (\<lambda>other. self \<in> set (requires other)) MODULE_ALL"

definition PACKAGE_ALL :: "package list" where
  "PACKAGE_ALL = [Academics, Communication, Operations, AiPackage]"

fun package_as_str :: "package \<Rightarrow> string" where
  "package_as_str Academics = ''academics''"
| "package_as_str Communication = ''communication''"
| "package_as_str Operations = ''operations''"
| "package_as_str AiPackage = ''ai''"

definition package_try_from_str :: "string \<Rightarrow> package vresult" where
  "package_try_from_str value =
     ok_or (Unknown ''package'' (u value)) (find (\<lambda>p. package_as_str p = value) PACKAGE_ALL)"

definition package_modules :: "package \<Rightarrow> module list" where
  "package_modules self = filter (\<lambda>m. package_of m = self) MODULE_ALL"


section \<open>A school's set\<close>

type_synonym module_set = "module set"

definition set_iter :: "module_set \<Rightarrow> module list" where
  "set_iter self = filter (\<lambda>m. m \<in> self) MODULE_ALL"

fun from_names :: "string list \<Rightarrow> module_set vresult" where
  "from_names [] = Inr {}"
| "from_names (name # names) =
     and_then (module_try_from_str name) (\<lambda>m.
       and_then (from_names names) (\<lambda>s. Inr (insert m s)))"

definition set_names :: "module_set \<Rightarrow> string list" where
  "set_names self = sort (map module_as_str (set_iter self))"

definition missing_requirements :: "module_set \<Rightarrow> (module \<times> module) list" where
  "missing_requirements self =
     concat (map (\<lambda>m. map (\<lambda>needed. (m, needed)) (filter (\<lambda>needed. needed \<notin> self) (requires m)))
       (set_iter self))"

fun join_with :: "ustr \<Rightarrow> ustr list \<Rightarrow> ustr" where
  "join_with sep [] = []"
| "join_with sep [s] = s"
| "join_with sep (s # ss) = s @ sep @ join_with sep ss"

definition set_validate :: "module_set \<Rightarrow> unit aresult" where
  "set_validate self =
     (let missing = missing_requirements self in
      if missing = [] then Inr ()
      else Inl (ConflictOwned (join_with (u ''; '')
        (map (\<lambda>(m, needed). u (module_as_str m) @ u '' requires '' @ u (module_as_str needed)
           @ u '', which is not enabled'') missing))))"

text \<open>
  The gate around a router nest: the tenant is resolved, then the module looked up.
  \<open>tenant\<close> is the outcome of resolving the request's school, \<open>next\<close> the inner handler.
\<close>

definition gate_check :: "module_set aresult \<Rightarrow> module \<Rightarrow> 'r aresult \<Rightarrow> 'r aresult" where
  "gate_check tenant m inner =
     (case tenant of
        Inl err \<Rightarrow> Inl err
      | Inr modules \<Rightarrow> if m \<notin> modules then Inl (ModuleDisabled m) else inner)"


section \<open>Facts\<close>

lemma MODULE_ALL_complete: "set MODULE_ALL = UNIV"
proof
  show "UNIV \<subseteq> set MODULE_ALL"
  proof
    fix m :: module
    show "m \<in> set MODULE_ALL" by (cases m) (simp_all add: MODULE_ALL_def)
  qed
qed simp

lemma MODULE_ALL_distinct: "distinct MODULE_ALL"
  by (simp add: MODULE_ALL_def)

lemma set_set_iter [simp]: "set (set_iter s) = s"
  by (simp add: set_iter_def MODULE_ALL_complete)

lemma module_as_str_inject: "module_as_str a = module_as_str b \<longleftrightarrow> a = b"
  by (cases a; cases b) simp_all

lemma find_unique: "(\<And>y. P y \<longleftrightarrow> y = x) \<Longrightarrow> x \<in> set xs \<Longrightarrow> find P xs = Some x"
  by (induction xs) auto

lemma module_try_from_str_as_str [simp]: "module_try_from_str (module_as_str m) = Inr m"
  using find_unique [of "\<lambda>y. module_as_str y = module_as_str m" m MODULE_ALL]
  by (simp add: module_try_from_str_def module_as_str_inject MODULE_ALL_complete)

lemma from_names_map: "from_names (map module_as_str ms) = Inr (set ms)"
  by (induction ms) simp_all

lemma from_names_perm:
  assumes "set xs = module_as_str ` s"
  shows "from_names xs = Inr s"
proof -
  define f where "f x = (THE m. module_as_str m = x)" for x
  have f: "f (module_as_str m) = m" for m
    unfolding f_def by (simp add: module_as_str_inject)
  have "map module_as_str (map f xs) = xs"
    using assms f by (auto intro!: map_idI)
  then have "from_names xs = Inr (set (map f xs))" by (metis from_names_map)
  also have "set (map f xs) = s" using assms f by (auto simp: image_image)
  finally show ?thesis .
qed

lemma missing_requirements_iff:
  "(m, n) \<in> set (missing_requirements s) \<longleftrightarrow> m \<in> s \<and> n \<in> set (requires m) \<and> n \<notin> s"
  by (auto simp: missing_requirements_def)

lemma requires_rank:
  "n \<in> set (requires m) \<Longrightarrow> m \<noteq> n"
  by (cases m) auto

section \<open>Properties\<close>

text \<open>
  A school's module set is accepted exactly when it is closed under requirements; its stored
  names parse back to the same set; and the gate of an accepted set lets a module's routes through
  only if every module it requires is open too.
\<close>

theorem module_set_closed:
  "(set_validate s = Inr () \<longleftrightarrow> (\<forall>m \<in> s. set (requires m) \<subseteq> s)) \<and>
   from_names (set_names s) = Inr s \<and>
   (set_validate s = Inr () \<and> gate_check (Inr s) m inner = Inr r \<longrightarrow>
      (\<forall>n \<in> set (requires m). gate_check (Inr s) n inner = Inr r))"
proof -
  have "missing_requirements s = [] \<longleftrightarrow> (\<forall>m \<in> s. set (requires m) \<subseteq> s)"
  proof
    assume "missing_requirements s = []"
    then show "\<forall>m \<in> s. set (requires m) \<subseteq> s" using missing_requirements_iff [of _ _ s] by auto
  next
    assume closed: "\<forall>m \<in> s. set (requires m) \<subseteq> s"
    have "x \<notin> set (missing_requirements s)" for x
      using closed missing_requirements_iff [of "fst x" "snd x" s] by auto
    then show "missing_requirements s = []" by (cases "missing_requirements s") auto
  qed
  then have "set_validate s = Inr () \<longleftrightarrow> (\<forall>m \<in> s. set (requires m) \<subseteq> s)"
    by (simp add: set_validate_def Let_def)
  moreover have "from_names (set_names s) = Inr s"
    by (rule from_names_perm) (simp add: set_names_def)
  ultimately show ?thesis by (auto simp: gate_check_def split: if_splits)
qed

theorem module_set_closed_witness: "set_validate {Courses, Subjects} = Inr () \<and> set_validate {Subjects} \<noteq> Inr ()"
  using module_set_closed [of "{Courses, Subjects}" Courses "Inr ()" "()"]
    module_set_closed [of "{Subjects}" Courses "Inr ()" "()"] by simp

end
