(* ===== verification/Exam.thy ===== *)
theory Exam
  imports Database_Tx Validate Roles
begin

text \<open>
  Exams and what a student does with one: the schedule, the sitting and its deadline, questions and
  their choices, answers and their automatic score (\<open>exam.rs\<close>, \<open>exam_attempt.rs\<close>, \<open>exam_question.rs\<close>,
  \<open>exam_answer.rs\<close> and \<open>exam_result.rs\<close> under \<open>src/src/domain\<close>).

  Ids are their printed keys.  A static reason text is its UTF-8 bytes, so the dash of the source is
  the three bytes \<open>DASH\<close> in a reason and the code point 8212 in a message.
\<close>

definition DASH :: string where "DASH = [CHR 0xE2, CHR 0x80, CHR 0x94]"

definition CAS_UPDATE_RETRIES :: nat where "CAS_UPDATE_RETRIES = 3"
definition MAX_EXAM_TITLE_LEN :: nat where "MAX_EXAM_TITLE_LEN = 200"
definition MAX_EXAM_DESCRIPTION_LEN :: nat where "MAX_EXAM_DESCRIPTION_LEN = 2000"
definition MAX_QUESTION_TEXT_LEN :: nat where "MAX_QUESTION_TEXT_LEN = 2000"
definition MIN_QUESTION_CHOICES :: nat where "MIN_QUESTION_CHOICES = 2"
definition MAX_QUESTION_CHOICES :: nat where "MAX_QUESTION_CHOICES = 10"
definition MAX_CHOICE_TEXT_LEN :: nat where "MAX_CHOICE_TEXT_LEN = 500"
definition MAX_ANSWER_TEXT_LEN :: nat where "MAX_ANSWER_TEXT_LEN = 10000"
definition HIGH_MARK_MIN :: int where "HIGH_MARK_MIN = 90"


section \<open>The exam\<close>

record exam_kind_def =
  ek_name :: ustr
  ek_weight :: int

record exam_schedule =
  sc_mode :: "ustr option"
  sc_starts_at :: "int option"
  sc_ends_at :: "int option"
  sc_duration_ms :: "int option"

record exam =
  ex_id :: ustr
  ex_creator :: ustr
  ex_class_course :: ustr
  ex_term :: ustr
  ex_title :: ustr
  ex_description :: ustr
  ex_kind :: ustr
  ex_mode :: "ustr option"
  ex_starts_at :: "int option"
  ex_ends_at :: "int option"
  ex_duration_ms :: "int option"
  ex_max_attempts :: int
  ex_allow_rejoin :: bool
  ex_allow_review :: bool
  ex_draft :: bool
  ex_result_count :: int

definition exam_title_try_new :: "ustr \<Rightarrow> ustr vresult" where
  "exam_title_try_new value = and_then (validate_required ''title'' value MAX_EXAM_TITLE_LEN) (\<lambda>_. Inr value)"

definition exam_description_try_new :: "ustr \<Rightarrow> ustr vresult" where
  "exam_description_try_new value =
     and_then (validate_optional ''description'' value MAX_EXAM_DESCRIPTION_LEN) (\<lambda>_. Inr value)"

definition exam_kind_try_new :: "ustr \<Rightarrow> exam_kind_def list \<Rightarrow> ustr vresult" where
  "exam_kind_try_new value allowed =
     (if \<not> list_ex (\<lambda>kind. ek_name kind = value) allowed
      then Inl (Invalid ''kind'' ''is not one of this school's exam kinds (see GET /settings)'')
      else Inr value)"

definition exam_mode_try_new :: "ustr \<Rightarrow> ustr vresult" where
  "exam_mode_try_new value = and_then (validate_exam_mode value) (\<lambda>_. Inr value)"

definition exam_duration_try_new :: "int \<Rightarrow> int vresult" where
  "exam_duration_try_new value = and_then (validate_exam_duration value) (\<lambda>_. Inr value)"

definition attempt_limit_try_new :: "int \<Rightarrow> int vresult" where
  "attempt_limit_try_new value = and_then (validate_attempt_limit value) (\<lambda>_. Inr value)"

definition is_unlimited :: "int \<Rightarrow> bool" where
  "is_unlimited limit \<longleftrightarrow> limit = UNLIMITED_EXAM_ATTEMPTS"

definition allows_another :: "int \<Rightarrow> nat \<Rightarrow> bool" where
  "allows_another limit used \<longleftrightarrow> is_unlimited limit \<or> int used < limit"

text \<open>
  Comparing the two ends as the source does: both are present where it compares them.
\<close>

definition schedule_window :: "ustr \<Rightarrow> int option \<Rightarrow> int option \<Rightarrow> int option \<Rightarrow> unit vresult" where
  "schedule_window m starts_at ends_at duration_ms =
     (case (starts_at, ends_at) of
        (None, _) \<Rightarrow> Inl (Invalid ''starts_at'' ''required for a scheduled exam'')
      | (_, None) \<Rightarrow> Inl (Invalid ''ends_at'' ''required for a scheduled exam'')
      | (Some starts, Some ends) \<Rightarrow>
          if ends \<le> starts then Inl (Invalid ''ends_at'' ''must be after starts_at'')
          else if m = u ''async'' \<and> duration_ms = None
          then Inl (Invalid ''duration_ms'' ''required for an async exam'')
          else if m = u ''sync'' \<and> duration_ms \<noteq> None
          then Inl (Invalid ''duration_ms'' ''only async and open exams take a duration'')
          else (case duration_ms of
                  None \<Rightarrow> Inr ()
                | Some duration \<Rightarrow>
                    if duration > saturating_sub ends starts
                    then Inl (Invalid ''duration_ms'' ''must fit within the starts_at..ends_at window'')
                    else Inr ()))"

definition schedule_try_new ::
  "ustr option \<Rightarrow> int option \<Rightarrow> int option \<Rightarrow> int option \<Rightarrow> exam_schedule vresult" where
  "schedule_try_new mode starts_at ends_at duration_ms =
     and_then
       (case mode of
          None \<Rightarrow>
            if starts_at \<noteq> None \<or> ends_at \<noteq> None \<or> duration_ms \<noteq> None
            then Inl (Invalid ''mode'' ''starts_at, ends_at, and duration_ms require a mode (sync, async, or open)'')
            else Inr ()
        | Some m \<Rightarrow>
            if m = u ''open''
            then (if starts_at \<noteq> None \<or> ends_at \<noteq> None
                  then Inl (Invalid ''starts_at''
                         (''an open exam has no window '' @ DASH @ '' drop starts_at/ends_at or pick sync/async''))
                  else Inr ())
            else schedule_window m starts_at ends_at duration_ms)
       (\<lambda>_. Inr \<lparr>sc_mode = mode, sc_starts_at = starts_at, sc_ends_at = ends_at, sc_duration_ms = duration_ms\<rparr>)"

definition schedule :: "exam \<Rightarrow> exam_schedule" where
  "schedule e = \<lparr>sc_mode = ex_mode e, sc_starts_at = ex_starts_at e, sc_ends_at = ex_ends_at e,
     sc_duration_ms = ex_duration_ms e\<rparr>"

definition redraft_error :: app_error where
  "redraft_error = Conflict (u ''cannot turn a published exam back into a draft after attempts or results exist'')"


section \<open>The sitting\<close>

record exam_attempt =
  at_exam :: ustr
  at_user :: ustr
  at_seq :: int
  at_started_at :: int
  at_finished_at :: "int option"
  at_left_at :: "int option"

datatype attempt_status = InProgress | Submitted | AttemptExpired

fun attempt_status_as_str :: "attempt_status \<Rightarrow> ustr" where
  "attempt_status_as_str InProgress = u ''in_progress''"
| "attempt_status_as_str Submitted = u ''submitted''"
| "attempt_status_as_str AttemptExpired = u ''expired''"

definition deadline :: "exam_attempt \<Rightarrow> exam \<Rightarrow> int option" where
  "deadline a e =
     (let by_duration = map_option (\<lambda>duration. saturating_add (at_started_at a) duration) (ex_duration_ms e) in
      case (ex_ends_at e, by_duration) of
        (Some ends_at, Some cap) \<Rightarrow> Some (min ends_at cap)
      | (Some ends_at, None) \<Rightarrow> Some ends_at
      | (None, Some cap) \<Rightarrow> Some cap
      | (None, None) \<Rightarrow> None)"

definition status :: "exam_attempt \<Rightarrow> exam \<Rightarrow> int \<Rightarrow> attempt_status" where
  "status a e now =
     (if at_finished_at a \<noteq> None then Submitted
      else (case deadline a e of
              Some d \<Rightarrow> if now \<ge> d then AttemptExpired else InProgress
            | None \<Rightarrow> InProgress))"

definition ensure_sittable :: "exam \<Rightarrow> unit aresult" where
  "ensure_sittable e =
     (if ex_draft e then Inl NotFound
      else if ex_mode e = None
      then Inl (Conflict (u ''this exam is not scheduled '' @ [8212]
             @ u '' there is nothing to sit (give it a mode: sync, async, or open)''))
      else Inr ())"

definition check_rejoin :: "exam \<Rightarrow> exam_attempt \<Rightarrow> unit aresult" where
  "check_rejoin e a =
     (if at_left_at a \<noteq> None \<and> \<not> ex_allow_rejoin e
      then Inl (Conflict (u ''you left the exam and rejoin is closed '' @ [8212] @ u '' ask your teacher to reopen it''))
      else Inr ())"


section \<open>Questions\<close>

record choice =
  ch_id :: ustr
  ch_text :: ustr

record choice_input =
  ci_id :: "ustr option"
  ci_text :: ustr

record question_spec =
  qs_kind :: ustr
  qs_choices :: "choice list option"
  qs_correct :: "ustr option"

record exam_question =
  qu_id :: ustr
  qu_exam :: ustr
  qu_subject :: ustr
  qu_text :: ustr
  qu_kind :: ustr
  qu_points :: int
  qu_choices :: "choice list option"
  qu_correct :: "ustr option"
  qu_from_bank :: "ustr option"
  qu_banked_as :: "ustr option"

definition question_text_try_new :: "ustr \<Rightarrow> ustr vresult" where
  "question_text_try_new value = and_then (validate_required ''text'' value MAX_QUESTION_TEXT_LEN) (\<lambda>_. Inr value)"

definition question_points_try_new :: "int \<Rightarrow> int vresult" where
  "question_points_try_new value = and_then (validate_question_points value) (\<lambda>_. Inr value)"

definition choice_text_try_new :: "ustr \<Rightarrow> ustr vresult" where
  "choice_text_try_new value = and_then (validate_required ''choice'' value MAX_CHOICE_TEXT_LEN) (\<lambda>_. Inr value)"

text \<open>
  The loop over the given choices.  \<open>gen\<close> is the id generator's output, one id per call; the key the
  client sent for a choice is kept with the id it became.
\<close>

fun resolve_choices ::
  "choice list \<Rightarrow> (ustr \<times> ustr) list \<Rightarrow> choice list \<Rightarrow> ustr list \<Rightarrow> choice_input list
     \<Rightarrow> (choice list \<times> (ustr \<times> ustr) list) vresult" where
  "resolve_choices existing keys resolved gen [] = Inr (resolved, keys)"
| "resolve_choices existing keys resolved gen (input # inputs) =
     (case ci_id input of
        Some key \<Rightarrow>
          if list_ex (\<lambda>k. fst k = key) keys then Inl (Invalid ''choices'' ''duplicate choice id'')
          else
            (let (cid, gen') = (case find_row ch_id existing key of
                                 Some c \<Rightarrow> (ch_id c, gen)
                               | None \<Rightarrow> (hd gen, tl gen))
             in and_then (choice_text_try_new (ci_text input)) (\<lambda>t.
                  resolve_choices existing (keys @ [(key, cid)]) (resolved @ [\<lparr>ch_id = cid, ch_text = t\<rparr>]) gen' inputs))
      | None \<Rightarrow>
          and_then (choice_text_try_new (ci_text input)) (\<lambda>t.
            resolve_choices existing keys (resolved @ [\<lparr>ch_id = hd gen, ch_text = t\<rparr>]) (tl gen) inputs))"

definition question_spec_try_new ::
  "ustr \<Rightarrow> choice_input list option \<Rightarrow> ustr option \<Rightarrow> choice list \<Rightarrow> ustr list \<Rightarrow> question_spec vresult" where
  "question_spec_try_new kind choices correct existing gen =
     (case choices of
        Some inputs \<Rightarrow>
          if kind = u ''text'' then Inl (Invalid ''choices'' ''only choice questions take choices'')
          else if \<not> (MIN_QUESTION_CHOICES \<le> length inputs \<and> length inputs \<le> MAX_QUESTION_CHOICES)
          then Inl (Invalid ''choices'' ''must list 2 to 10 choices'')
          else and_then (resolve_choices existing [] [] gen inputs) (\<lambda>(resolved, keys).
            case correct of
              None \<Rightarrow> Inl (Invalid ''correct'' ''required for a choice question'')
            | Some c \<Rightarrow>
                (case find (\<lambda>k. fst k = c) keys of
                   None \<Rightarrow> Inl (Invalid ''correct'' ''must name one of the choices'')
                 | Some (_, cid) \<Rightarrow> Inr \<lparr>qs_kind = kind, qs_choices = Some resolved, qs_correct = Some cid\<rparr>))
      | None \<Rightarrow>
          if kind = u ''text''
          then (if correct \<noteq> None then Inl (Invalid ''correct'' ''only choice questions take a correct choice'')
                else Inr \<lparr>qs_kind = kind, qs_choices = None, qs_correct = None\<rparr>)
          else Inl (Invalid ''choices'' ''required for a choice question''))"


section \<open>Answers, marks and the score\<close>

record exam_answer =
  an_exam :: ustr
  an_question :: ustr
  an_user :: ustr
  an_seq :: int
  an_selected :: "ustr option"
  an_text :: "ustr option"
  an_updated_at :: int

record exam_result =
  er_exam :: ustr
  er_user :: ustr
  er_seq :: int
  er_mark :: int
  er_graded_by :: ustr

definition answer_text_try_new :: "ustr \<Rightarrow> ustr vresult" where
  "answer_text_try_new value = and_then (validate_optional ''text'' value MAX_ANSWER_TEXT_LEN) (\<lambda>_. Inr value)"

definition is_correct :: "exam_answer \<Rightarrow> exam_question \<Rightarrow> bool option" where
  "is_correct a q = map_option (\<lambda>correct. an_selected a = Some correct) (qu_correct q)"

fun auto_score_loop :: "exam_answer list \<Rightarrow> int \<Rightarrow> int \<Rightarrow> exam_question list \<Rightarrow> int \<times> int" where
  "auto_score_loop answers earned possible [] = (earned, possible)"
| "auto_score_loop answers earned possible (q # qs) =
     (case qu_correct q of
        None \<Rightarrow> auto_score_loop answers earned possible qs
      | Some correct \<Rightarrow>
          auto_score_loop answers
            (if list_ex (\<lambda>a. an_question a = qu_id q \<and> an_selected a = Some correct) answers
             then earned + qu_points q else earned)
            (possible + qu_points q) qs)"

definition auto_score :: "exam_question list \<Rightarrow> exam_answer list \<Rightarrow> int \<times> int" where
  "auto_score questions answers = auto_score_loop answers 0 0 questions"

definition mark_try_new :: "int \<Rightarrow> int vresult" where
  "mark_try_new value = and_then (validate_mark value) (\<lambda>_. Inr value)"

definition draft_error :: app_error where
  "draft_error = Conflict (u ''this exam is a draft '' @ [8212] @ u '' publish it before grading'')"

definition retired_kind_error :: "ustr \<Rightarrow> app_error" where
  "retired_kind_error kind = ConflictOwned (u ''the '' @ [39] @ kind @ [39]
     @ u '' exam kind has been removed from the school'' @ [39] @ u ''s settings '' @ [8212]
     @ u '' add it back before grading this exam'')"

text \<open>
  The fold to the latest sitting of every (exam, student) pair: the keys in the order they are
  first seen, and the best row of each.
\<close>

fun latest_loop ::
  "(ustr \<times> ustr) list \<Rightarrow> ((ustr \<times> ustr) \<rightharpoonup> exam_result) \<Rightarrow> exam_result list
     \<Rightarrow> (ustr \<times> ustr) list \<times> ((ustr \<times> ustr) \<rightharpoonup> exam_result)" where
  "latest_loop order best [] = (order, best)"
| "latest_loop order best (row # rows) =
     (let key = (er_exam row, er_user row) in
      case best key of
        Some existing \<Rightarrow>
          if er_seq existing \<ge> er_seq row then latest_loop order best rows
          else latest_loop order (best(key \<mapsto> row)) rows
      | None \<Rightarrow> latest_loop (order @ [key]) (best(key \<mapsto> row)) rows)"

definition latest_per_pair :: "exam_result list \<Rightarrow> exam_result list" where
  "latest_per_pair rows =
     (let (order, best) = latest_loop [] Map.empty rows in map (\<lambda>key. the (best key)) order)"

end
