(* ===== verification/Ref_Count.thy ===== *)
theory Ref_Count
  imports Prelude
begin

text \<open>
  Counters that count rows of another table.  Several tables carry a column that says how many rows
  elsewhere name them: a subject its exam questions, a term its exams, an exam its marks, an exam
  kind the marks given under it, a meal slot its menus.  The column is what guards the deletion of
  the counted row, so it has to be exact.  \<open>on_row\<close> is an \<open>UPDATE ... WHERE key = k\<close>; the locale
  states what the counter column and the reference column have to satisfy and derives that claiming
  with an insert and releasing with a delete keep the counters exact.
\<close>

definition on_row :: "('r \<Rightarrow> 'k) \<Rightarrow> 'k \<Rightarrow> ('r \<Rightarrow> 'r) \<Rightarrow> 'r list \<Rightarrow> 'r list" where
  "on_row key k f rows = map (\<lambda>x. if key x = k then f x else x) rows"

definition refs_to :: "('r \<Rightarrow> 'k) \<Rightarrow> 'k \<Rightarrow> 'r list \<Rightarrow> int" where
  "refs_to ref k rows = int (length (filter (\<lambda>r. ref r = k) rows))"

definition counts_exact :: "('c \<Rightarrow> 'k) \<Rightarrow> ('c \<Rightarrow> int) \<Rightarrow> ('r \<Rightarrow> 'k) \<Rightarrow> 'c list \<Rightarrow> 'r list \<Rightarrow> bool" where
  "counts_exact key count ref cs rs \<longleftrightarrow> (\<forall>c \<in> set cs. count c = refs_to ref (key c) rs)"

lemma refs_to_Nil [simp]: "refs_to ref k [] = 0"
  by (simp add: refs_to_def)

lemma refs_to_append [simp]: "refs_to ref k (xs @ ys) = refs_to ref k xs + refs_to ref k ys"
  by (simp add: refs_to_def)

lemma refs_to_single [simp]: "refs_to ref k [r] = (if ref r = k then 1 else 0)"
  by (simp add: refs_to_def)

lemma refs_to_Cons: "refs_to ref k (r # rs) = (if ref r = k then 1 else 0) + refs_to ref k rs"
  by (simp add: refs_to_def)

lemma refs_to_nonneg [simp]: "0 \<le> refs_to ref k rs"
  by (simp add: refs_to_def)

lemma refs_to_split: "refs_to ref k rs = refs_to ref k (filter P rs) + refs_to ref k (filter (\<lambda>r. \<not> P r) rs)"
  by (induction rs) (simp_all add: refs_to_def)

lemma refs_to_cong: "(\<And>r. r \<in> set rs \<Longrightarrow> ref r = ref' r) \<Longrightarrow> refs_to ref k rs = refs_to ref' k rs"
  unfolding refs_to_def by (induction rs) auto

lemma refs_to_map: "(\<And>r. ref (f r) = ref r) \<Longrightarrow> refs_to ref k (map f rs) = refs_to ref k rs"
  by (induction rs) (simp_all add: refs_to_Cons)

lemma refs_to_zero: "refs_to ref k rs = 0 \<longleftrightarrow> k \<notin> ref ` set rs"
  by (auto simp: refs_to_def filter_empty_conv)

lemma refs_to_only: "(\<And>r. r \<in> set rs \<Longrightarrow> ref r = j) \<Longrightarrow> refs_to ref k rs = (if k = j then int (length rs) else 0)"
  by (induction rs) (auto simp: refs_to_Cons)

lemma set_on_row: "x \<in> set (on_row key k f rows) \<Longrightarrow> \<exists>y \<in> set rows. x = (if key y = k then f y else y)"
  by (auto simp: on_row_def)

lemma map_on_row: "(\<And>x. g (f x) = g x) \<Longrightarrow> map g (on_row key k f rows) = map g rows"
  by (simp add: on_row_def)

lemma keyed_on_row: "(\<And>x. key (f x) = key x) \<Longrightarrow> keyed key (on_row key k f rows) = keyed key rows"
  by (simp add: keyed_def map_on_row)

lemma find_on_row:
  assumes "\<And>x. key (f x) = key x"
  shows "find_row key (on_row key k f rows) j = map_option (\<lambda>x. if j = k then f x else x) (find_row key rows j)"
  by (induction rows) (auto simp: find_row_def on_row_def assms)

lemma refs_to_on_row: "(\<And>x. ref (f x) = ref x) \<Longrightarrow> refs_to ref j (on_row key k f rows) = refs_to ref j rows"
  unfolding on_row_def by (rule refs_to_map) simp

lemma keyed_filter: "keyed key rows \<Longrightarrow> keyed key (filter P rows)"
  by (auto simp: keyed_def distinct_map_filter)

lemma keyed_snoc: "keyed key (rows @ [r]) \<longleftrightarrow> keyed key rows \<and> key r \<notin> key ` set rows"
  by (auto simp: keyed_def)

text \<open>A counter column: setting it keeps the row's key.\<close>

locale counter =
  fixes key :: "'c \<Rightarrow> 'k" and count :: "'c \<Rightarrow> int" and set_count :: "int \<Rightarrow> 'c \<Rightarrow> 'c"
  assumes key_set: "key (set_count n c) = key c"
    and count_set: "count (set_count n c) = n"
begin

lemma exact_claim:
  assumes "counts_exact key count ref cs rs" "ref r = k"
  shows "counts_exact key count ref (on_row key k (\<lambda>c. set_count (count c + 1) c) cs) (rs @ [r])"
  using assms by (auto simp: counts_exact_def on_row_def key_set count_set)

lemma exact_release:
  assumes "counts_exact key count ref cs rs"
    and "\<And>c. c \<in> set cs \<Longrightarrow> n (key c) = refs_to ref (key c) (filter P rs)"
  shows "counts_exact key count ref
    (map (\<lambda>c. if n (key c) = 0 then c else set_count (max (count c - n (key c)) 0) c) cs) (filter (\<lambda>r. \<not> P r) rs)"
  unfolding counts_exact_def
proof
  fix c assume "c \<in> set (map (\<lambda>c. if n (key c) = 0 then c else set_count (max (count c - n (key c)) 0) c) cs)"
  then obtain d where d: "d \<in> set cs" "c = (if n (key d) = 0 then d else set_count (max (count d - n (key d)) 0) d)"
    by auto
  have "count d = refs_to ref (key d) (filter P rs) + refs_to ref (key d) (filter (\<lambda>r. \<not> P r) rs)"
    using assms(1) d(1) refs_to_split [of ref "key d" rs P] by (simp add: counts_exact_def)
  with d assms(2) [OF d(1)] show "count c = refs_to ref (key c) (filter (\<lambda>r. \<not> P r) rs)"
    by (auto simp: key_set count_set)
qed

lemma exact_release_one:
  assumes "counts_exact key count ref cs rs"
    and "\<And>r. r \<in> set rs \<Longrightarrow> P r \<Longrightarrow> ref r = k"
    and "m = int (length (filter P rs))"
  shows "counts_exact key count ref (on_row key k (\<lambda>c. set_count (max (count c - m) 0) c) cs)
    (filter (\<lambda>r. \<not> P r) rs)"
proof -
  have only: "refs_to ref j (filter P rs) = (if j = k then m else 0)" for j
    using assms(2) refs_to_only [of "filter P rs" ref k j] assms(3) by auto
  have split: "refs_to ref j rs = (if j = k then m else 0) + refs_to ref j (filter (\<lambda>r. \<not> P r) rs)" for j
    using refs_to_split [of ref j rs P] only by simp
  show ?thesis
    unfolding counts_exact_def
  proof
    fix c assume "c \<in> set (on_row key k (\<lambda>c. set_count (max (count c - m) 0) c) cs)"
    then obtain d where d: "d \<in> set cs" "c = (if key d = k then set_count (max (count d - m) 0) d else d)"
      by (auto dest: set_on_row)
    moreover have "count d = refs_to ref (key d) rs" using assms(1) d(1) by (simp add: counts_exact_def)
    ultimately show "count c = refs_to ref (key c) (filter (\<lambda>r. \<not> P r) rs)"
      using split [of "key d"] by (auto simp: key_set count_set)
  qed
qed

lemma exact_new:
  assumes "counts_exact key count ref cs rs" "count c = 0" "key c \<notin> ref ` set rs"
  shows "counts_exact key count ref (cs @ [c]) rs"
  using assms by (auto simp: counts_exact_def refs_to_zero)

end

text \<open>Two tables at once: an edit that keeps keys and counts, or references, keeps exactness.\<close>

lemma counts_exact_refs:
  "counts_exact key count ref cs rs \<Longrightarrow> (\<And>k. refs_to ref k rs' = refs_to ref k rs) \<Longrightarrow> counts_exact key count ref cs rs'"
  by (simp add: counts_exact_def)

lemma counts_exact_on_row:
  assumes "counts_exact key count ref cs rs" "\<And>x. key (f x) = key x" "\<And>x. count (f x) = count x"
  shows "counts_exact key count ref (on_row key' k f cs) rs"
  using assms by (auto simp: counts_exact_def on_row_def)

lemma counts_exact_filter: "counts_exact key count ref cs rs \<Longrightarrow> counts_exact key count ref (filter P cs) rs"
  by (auto simp: counts_exact_def)

end
