(* ===== verification/Exam_Store.thy ===== *)
theory Exam_Store
  imports Exam Ref_Count
begin

text \<open>
  The tables behind exams and the operations on them: \<open>exam.rs\<close>, \<open>exam_attempt.rs\<close>,
  \<open>exam_question.rs\<close>, \<open>exam_answer.rs\<close>, \<open>exam_result.rs\<close> and \<open>exam_audience.rs\<close> of \<open>src/src/db\<close> and
  the workflows over them in \<open>src/src/service\<close>.

  A transaction is one atomic step.  Where a workflow reads first and writes in a later transaction,
  the function \<open>rivals\<close> is whatever other requests commit in between.  \<open>clock\<close> gives the readings of
  the clock a call makes, in order.  Ids a call mints are arguments.  The badge table, which the
  workflows refresh after the fact and whose failures they only log, is left out.
\<close>

section \<open>Tables\<close>

record app_user =
  us_id :: ustr
  us_role :: role
  us_exam_sat_total :: int
  us_marks_given_total :: int
  us_high_mark_total :: int

record subject_row =
  sj_id :: ustr
  sj_exam_question_count :: int

record term_row =
  tm_id :: ustr
  tm_year :: ustr
  tm_exam_count :: int

record kind_ref =
  kr_name :: ustr
  kr_count :: int
  kr_retired :: bool

record course_row =
  co_id :: ustr
  co_kind :: ustr

record class_group_row =
  cg_id :: ustr
  cg_year :: "ustr option"

record academic_year_row =
  ay_id :: ustr
  ay_archived_at :: "int option"

record class_course_row =
  cc_id :: ustr
  cc_class :: ustr
  cc_course :: ustr

record exam_db =
  xd_exams :: "exam list"
  xd_attempts :: "exam_attempt list"
  xd_questions :: "exam_question list"
  xd_answers :: "exam_answer list"
  xd_results :: "exam_result list"
  xd_audience :: "(ustr \<times> ustr) list"
  xd_enrollment :: "(ustr \<times> ustr) list"
  xd_question_images :: "(ustr \<times> ustr \<times> ustr) list"
  xd_answer_images :: "(ustr \<times> ustr \<times> ustr) list"
  xd_bank_sources :: "(ustr \<times> ustr option) list"
  xd_subjects :: "subject_row list"
  xd_terms :: "term_row list"
  xd_kind_refs :: "kind_ref list"
  xd_users :: "app_user list"
  xd_courses :: "course_row list"
  xd_classes :: "class_group_row list"
  xd_years :: "academic_year_row list"
  xd_instances :: "class_course_row list"
  xd_exam_kinds :: "exam_kind_def list"

type_synonym sitting_key = "ustr \<times> ustr \<times> int"

definition at_key :: "exam_attempt \<Rightarrow> sitting_key" where
  "at_key a = (at_exam a, at_user a, at_seq a)"

definition er_key :: "exam_result \<Rightarrow> sitting_key" where
  "er_key r = (er_exam r, er_user r, er_seq r)"

definition an_key :: "exam_answer \<Rightarrow> sitting_key" where
  "an_key a = (an_question a, an_user a, an_seq a)"

definition fk_error :: "string \<Rightarrow> app_error" where
  "fk_error name = from_sqlx (DatabaseError (Some ''23503'') (Some name))"


section \<open>The academic year guard\<close>

definition year_of :: "exam_db \<Rightarrow> ustr \<Rightarrow> ustr option" where
  "year_of db instance_id =
     (case find_row cc_id (xd_instances db) instance_id of
        None \<Rightarrow> None
      | Some i \<Rightarrow> (case find_row cg_id (xd_classes db) (cc_class i) of None \<Rightarrow> None | Some c \<Rightarrow> cg_year c))"

definition year_archived_error :: app_error where
  "year_archived_error = ConflictCoded (u ''academic_year_archived'')
     (u ''this academic year is archived '' @ [8212] @ u '' past years are read-only'')"

definition year_require_open :: "exam_db \<Rightarrow> ustr \<Rightarrow> unit aresult" where
  "year_require_open db y =
     (case find_row ay_id (xd_years db) y of
        Some year \<Rightarrow> if ay_archived_at year \<noteq> None then Inl year_archived_error else Inr ()
      | None \<Rightarrow> Inr ())"

definition instance_require_open :: "exam_db \<Rightarrow> ustr \<Rightarrow> unit aresult" where
  "instance_require_open db i = (case year_of db i of Some y \<Rightarrow> year_require_open db y | None \<Rightarrow> Inr ())"

definition class_course_of :: "exam_db \<Rightarrow> exam \<Rightarrow> class_course_row aresult" where
  "class_course_of db e =
     ok_or (Internal (u ''exam references a missing class instance''))
       (find_row cc_id (xd_instances db) (ex_class_course e))"

definition exam_require_open :: "exam_db \<Rightarrow> exam \<Rightarrow> unit aresult" where
  "exam_require_open db e = and_then (class_course_of db e) (\<lambda>i. instance_require_open db (cc_id i))"


section \<open>Exams\<close>

definition exam_read :: "exam_db \<Rightarrow> ustr \<Rightarrow> exam option" where
  "exam_read db key = find_row ex_id (xd_exams db) key"

definition any_for_exam :: "exam_db \<Rightarrow> ustr \<Rightarrow> bool" where
  "any_for_exam db e = list_ex (\<lambda>a. at_exam a = e) (xd_attempts db)"

definition any_result :: "exam_db \<Rightarrow> ustr \<Rightarrow> bool" where
  "any_result db e = list_ex (\<lambda>r. er_exam r = e) (xd_results db)"

definition result_count :: "exam_db \<Rightarrow> ustr \<Rightarrow> int aresult" where
  "result_count db e = map_err from_sqlx (ok_or RowNotFound (map_option ex_result_count (exam_read db e)))"

definition term_gone_error :: app_error where
  "term_gone_error = Validation (Invalid ''term_id'' ''term does not exist'')"

definition exam_insert_in :: "exam \<Rightarrow> exam_db \<Rightarrow> exam_db \<times> exam aresult" where
  "exam_insert_in e db =
     (if find_row tm_id (xd_terms db) (ex_term e) = None then (db, Inl term_gone_error)
      else if find_row us_id (xd_users db) (ex_creator e) = None
           \<or> find_row cc_id (xd_instances db) (ex_class_course e) = None
      then (db, Inl NotFound)
      else (db\<lparr>xd_terms := on_row tm_id (ex_term e) (\<lambda>t. t\<lparr>tm_exam_count := tm_exam_count t + 1\<rparr>) (xd_terms db),
               xd_exams := xd_exams db @ [e],
               xd_audience := xd_audience db @ [(ex_id e, ex_class_course e)]\<rparr>, Inr e))"

definition exam_db_create ::
  "exam_db \<Rightarrow> ustr \<Rightarrow> ustr \<Rightarrow> ustr \<Rightarrow> ustr \<Rightarrow> ustr \<Rightarrow> ustr \<Rightarrow> exam_schedule \<Rightarrow> int \<Rightarrow> bool \<Rightarrow> bool \<Rightarrow> bool \<Rightarrow> ustr
     \<Rightarrow> exam_db \<times> exam aresult" where
  "exam_db_create db creator class_course term title description kind sc max_attempts rejoin review draft fresh =
     run_tx (exam_insert_in
       \<lparr>ex_id = fresh, ex_creator = creator, ex_class_course = class_course, ex_term = term, ex_title = title,
        ex_description = description, ex_kind = kind, ex_mode = sc_mode sc, ex_starts_at = sc_starts_at sc,
        ex_ends_at = sc_ends_at sc, ex_duration_ms = sc_duration_ms sc, ex_max_attempts = max_attempts,
        ex_allow_rejoin = rejoin, ex_allow_review = review, ex_draft = draft, ex_result_count = 0\<rparr>) db"

definition exam_create ::
  "exam_db \<Rightarrow> ustr \<Rightarrow> ustr \<Rightarrow> ustr \<Rightarrow> ustr \<Rightarrow> ustr \<Rightarrow> ustr \<Rightarrow> exam_schedule \<Rightarrow> int \<Rightarrow> bool \<Rightarrow> bool \<Rightarrow> bool \<Rightarrow> ustr
     \<Rightarrow> exam_db \<times> exam aresult" where
  "exam_create db creator class_course term title description kind sc max_attempts rejoin review draft fresh =
     (let checks =
        and_then (ok_or NotFound (find_row cc_id (xd_instances db) class_course)) (\<lambda>i.
        and_then (ok_or (Internal (u ''the instance references a missing course''))
                   (find_row co_id (xd_courses db) (cc_course i))) (\<lambda>c.
        if co_kind c \<noteq> u ''course''
        then Inl (Validation (Invalid ''course''
               (''only a ders can carry exams '' @ DASH @ '' a club or et'' @ [CHR 0xC3, CHR 0xBC] @ ''t is joined, not sat'')))
        else
        and_then (ok_or term_gone_error (find_row tm_id (xd_terms db) term)) (\<lambda>t.
        if year_of db class_course \<noteq> Some (tm_year t)
        then Inl (Validation (Invalid ''term'' ''the term belongs to another academic year than this class''))
        else instance_require_open db class_course)))
      in (case checks of
            Inl e \<Rightarrow> (db, Inl e)
          | Inr _ \<Rightarrow> exam_db_create db creator class_course term title description kind sc max_attempts
                       rejoin review draft fresh))"

text \<open>
  The compare-and-set of a PATCH: it writes only while every column it replaces reads as in
  \<open>expected\<close>.  The mark counter is compared with its value in the same transaction.
\<close>

definition same_columns :: "exam \<Rightarrow> exam \<Rightarrow> bool" where
  "same_columns x e \<longleftrightarrow>
     ex_title x = ex_title e \<and> ex_description x = ex_description e \<and> ex_kind x = ex_kind e \<and>
     ex_mode x = ex_mode e \<and> ex_starts_at x = ex_starts_at e \<and> ex_ends_at x = ex_ends_at e \<and>
     ex_duration_ms x = ex_duration_ms e \<and> ex_max_attempts x = ex_max_attempts e \<and>
     ex_allow_rejoin x = ex_allow_rejoin e \<and> ex_allow_review x = ex_allow_review e \<and> ex_draft x = ex_draft e"

definition merged_into :: "exam \<Rightarrow> exam \<Rightarrow> exam" where
  "merged_into new x = x\<lparr>ex_title := ex_title new, ex_description := ex_description new, ex_kind := ex_kind new,
     ex_mode := ex_mode new, ex_starts_at := ex_starts_at new, ex_ends_at := ex_ends_at new,
     ex_duration_ms := ex_duration_ms new, ex_max_attempts := ex_max_attempts new,
     ex_allow_rejoin := ex_allow_rejoin new, ex_allow_review := ex_allow_review new, ex_draft := ex_draft new\<rparr>"

definition update_if_unchanged :: "exam_db \<Rightarrow> exam \<Rightarrow> exam \<Rightarrow> exam_db \<times> exam option aresult" where
  "update_if_unchanged db expected new =
     run_tx (\<lambda>db.
       if (ex_draft new \<and> \<not> ex_draft expected) \<and> (any_for_exam db (ex_id expected) \<or> any_result db (ex_id expected))
       then (db, Inl redraft_error)
       else
         (let was_results = (case exam_read db (ex_id expected) of Some x \<Rightarrow> ex_result_count x | None \<Rightarrow> 0) in
          case exam_read db (ex_id expected) of
            None \<Rightarrow> (db, Inr None)
          | Some x \<Rightarrow>
              if \<not> (same_columns x expected \<and> ex_result_count x = was_results) then (db, Inr None)
              else (db\<lparr>xd_exams := on_row ex_id (ex_id expected) (merged_into new) (xd_exams db)\<rparr>,
                    Inr (Some (merged_into new x))))) db"

record exam_patch =
  pa_title :: "ustr option"
  pa_description :: "ustr option"
  pa_kind :: "ustr option"
  pa_mode :: "ustr option option"
  pa_starts_at :: "int option option"
  pa_ends_at :: "int option option"
  pa_duration_ms :: "int option option"
  pa_max_attempts :: "int option"
  pa_allow_rejoin :: "bool option"
  pa_allow_review :: "bool option"
  pa_draft :: "bool option"

text \<open>The merge of a patch over the row just read, its schedule validated as a whole.\<close>

definition merge_patch :: "exam_patch \<Rightarrow> exam \<Rightarrow> exam aresult" where
  "merge_patch patch cur =
     and_then (map_err Validation (schedule_try_new
         (case_option (ex_mode cur) id (pa_mode patch)) (case_option (ex_starts_at cur) id (pa_starts_at patch))
         (case_option (ex_ends_at cur) id (pa_ends_at patch)) (case_option (ex_duration_ms cur) id (pa_duration_ms patch))))
       (\<lambda>sc. Inr (cur\<lparr>ex_title := case_option (ex_title cur) id (pa_title patch),
            ex_description := case_option (ex_description cur) id (pa_description patch),
            ex_kind := case_option (ex_kind cur) id (pa_kind patch),
            ex_mode := sc_mode sc, ex_starts_at := sc_starts_at sc, ex_ends_at := sc_ends_at sc,
            ex_duration_ms := sc_duration_ms sc,
            ex_max_attempts := case_option (ex_max_attempts cur) id (pa_max_attempts patch),
            ex_allow_rejoin := case_option (ex_allow_rejoin cur) id (pa_allow_rejoin patch),
            ex_allow_review := case_option (ex_allow_review cur) id (pa_allow_review patch),
            ex_draft := case_option (ex_draft cur) id (pa_draft patch)\<rparr>))"

definition update_gates :: "exam_db \<Rightarrow> exam \<Rightarrow> exam \<Rightarrow> unit aresult" where
  "update_gates db cur new =
     (if ex_mode new \<noteq> ex_mode cur \<and> any_for_exam db (ex_id cur)
      then Inl (Conflict (u ''cannot change the exam mode after attempts have started''))
      else if ex_draft new \<and> \<not> ex_draft cur \<and> (any_for_exam db (ex_id cur) \<or> any_result db (ex_id cur))
      then Inl redraft_error
      else if ex_kind new \<noteq> ex_kind cur
      then and_then (result_count db (ex_id cur)) (\<lambda>n.
             if n > 0 then Inl (Conflict (u ''cannot change the kind of an exam that already has marks'')) else Inr ())
      else Inr ())"

text \<open>\<open>rivals k\<close> acts between the gates of round \<open>k\<close> and its compare-and-set.\<close>

fun exam_update_rounds ::
  "nat \<Rightarrow> nat \<Rightarrow> (nat \<Rightarrow> exam_db \<Rightarrow> exam_db) \<Rightarrow> exam_db \<Rightarrow> ustr \<Rightarrow> exam_patch \<Rightarrow> exam_db \<times> exam aresult" where
  "exam_update_rounds 0 k rivals db key patch =
     (db, Inl (Conflict (u ''the exam kept changing underneath this update '' @ [8212] @ u '' try again'')))"
| "exam_update_rounds (Suc left) k rivals db key patch =
     (case exam_read db key of
        None \<Rightarrow> (db, Inl NotFound)
      | Some cur \<Rightarrow>
          (case and_then (exam_require_open db cur) (\<lambda>_.
                  and_then (merge_patch patch cur) (\<lambda>new.
                    and_then (update_gates db cur new) (\<lambda>_. Inr new))) of
             Inl e \<Rightarrow> (db, Inl e)
           | Inr new \<Rightarrow>
               (case update_if_unchanged (rivals k db) cur new of
                  (db', Inl e) \<Rightarrow> (db', Inl e)
                | (db', Inr (Some updated)) \<Rightarrow> (db', Inr updated)
                | (db', Inr None) \<Rightarrow> exam_update_rounds left (Suc k) rivals db' key patch)))"

definition exam_update ::
  "(nat \<Rightarrow> exam_db \<Rightarrow> exam_db) \<Rightarrow> exam_db \<Rightarrow> ustr \<Rightarrow> exam_patch \<Rightarrow> exam_db \<times> exam aresult" where
  "exam_update rivals db key patch = exam_update_rounds CAS_UPDATE_RETRIES 0 rivals db key patch"

text \<open>The cascade of a deletion, in the order of its statements.\<close>

definition exam_delete_in ::
  "ustr \<Rightarrow> exam_db \<Rightarrow> exam_db \<times> (exam \<times> ustr list \<times> ustr list) aresult" where
  "exam_delete_in key db =
     (case exam_read db key of
        None \<Rightarrow> (db, Inl NotFound)
      | Some e \<Rightarrow>
          (let image_files = map (\<lambda>(_, _, f). f) (filter (\<lambda>(x, _, _). x = key) (xd_question_images db));
               answer_files = map (\<lambda>(_, _, f). f) (filter (\<lambda>(x, _, _). x = key) (xd_answer_images db));
               n = int (length (filter (\<lambda>r. er_exam r = key) (xd_results db)));
               subs = (\<lambda>s. refs_to qu_subject s (filter (\<lambda>q. qu_exam q = key) (xd_questions db)))
           in (db\<lparr>xd_kind_refs := (if n = 0 then xd_kind_refs db
                    else on_row kr_name (ex_kind e) (\<lambda>k. k\<lparr>kr_count := max (kr_count k - n) 0\<rparr>) (xd_kind_refs db)),
                  xd_results := filter (\<lambda>r. \<not> er_exam r = key) (xd_results db),
                  xd_attempts := filter (\<lambda>a. \<not> at_exam a = key) (xd_attempts db),
                  xd_answers := filter (\<lambda>a. \<not> an_exam a = key) (xd_answers db),
                  xd_answer_images := filter (\<lambda>(x, _, _). \<not> x = key) (xd_answer_images db),
                  xd_question_images := filter (\<lambda>(x, _, _). \<not> x = key) (xd_question_images db),
                  xd_subjects := map (\<lambda>s. if subs (sj_id s) = 0 then s
                      else s\<lparr>sj_exam_question_count := max (sj_exam_question_count s - subs (sj_id s)) 0\<rparr>)
                    (xd_subjects db),
                  xd_questions := filter (\<lambda>q. \<not> qu_exam q = key) (xd_questions db),
                  xd_bank_sources := map (\<lambda>(b, s). (b, if s = Some key then None else s)) (xd_bank_sources db),
                  xd_audience := filter (\<lambda>a. \<not> fst a = key) (xd_audience db),
                  xd_exams := filter (\<lambda>x. \<not> ex_id x = key) (xd_exams db),
                  xd_terms := on_row tm_id (ex_term e) (\<lambda>t. t\<lparr>tm_exam_count := max (tm_exam_count t - 1) 0\<rparr>) (xd_terms db)\<rparr>,
               Inr (e, image_files, answer_files))))"

definition exam_delete :: "exam_db \<Rightarrow> exam \<Rightarrow> exam_db \<times> (ustr list \<times> ustr list) aresult" where
  "exam_delete db target =
     (case exam_require_open db target of
        Inl e \<Rightarrow> (db, Inl e)
      | Inr _ \<Rightarrow>
          (case run_tx (exam_delete_in (ex_id target)) db of
             (db', Inl e) \<Rightarrow> (db', Inl e)
           | (db', Inr (_, images, answers)) \<Rightarrow> (db', Inr (images, answers))))"


section \<open>Sittings\<close>

definition attempt_read :: "exam_db \<Rightarrow> sitting_key \<Rightarrow> exam_attempt option" where
  "attempt_read db key = find_row at_key (xd_attempts db) key"

definition list_for_user :: "exam_db \<Rightarrow> ustr \<Rightarrow> ustr \<Rightarrow> exam_attempt list" where
  "list_for_user db e user =
     rev (sort_key at_seq (filter (\<lambda>a. at_exam a = e \<and> at_user a = user) (xd_attempts db)))"

definition read_latest_for_user :: "exam_db \<Rightarrow> ustr \<Rightarrow> ustr \<Rightarrow> exam_attempt option" where
  "read_latest_for_user db e user = (case list_for_user db e user of [] \<Rightarrow> None | a # _ \<Rightarrow> Some a)"

definition attempt_finish :: "exam_db \<Rightarrow> exam_attempt \<Rightarrow> int \<Rightarrow> exam_db \<times> exam_attempt aresult" where
  "attempt_finish db a now =
     (case attempt_read db (at_key a) of
        None \<Rightarrow> (db, Inl NotFound)
      | Some x \<Rightarrow>
          (db\<lparr>xd_attempts := on_row at_key (at_key a) (\<lambda>y. y\<lparr>at_finished_at := Some now\<rparr>) (xd_attempts db)\<rparr>,
           Inr (x\<lparr>at_finished_at := Some now\<rparr>)))"

definition set_left :: "exam_db \<Rightarrow> exam_attempt \<Rightarrow> int option \<Rightarrow> exam_db \<times> exam_attempt aresult" where
  "set_left db a left_at =
     (case attempt_read db (at_key a) of
        None \<Rightarrow> (db, Inl NotFound)
      | Some x \<Rightarrow>
          (db\<lparr>xd_attempts := on_row at_key (at_key a) (\<lambda>y. y\<lparr>at_left_at := left_at\<rparr>) (xd_attempts db)\<rparr>,
           Inr (x\<lparr>at_left_at := left_at\<rparr>)))"

text \<open>The condition of the conditional stamp, as its \<open>WHERE\<close> spells it.\<close>

definition stamp_where :: "exam \<Rightarrow> exam_attempt \<Rightarrow> int \<Rightarrow> bool" where
  "stamp_where e a now \<longleftrightarrow>
     at_left_at a = None \<and> at_finished_at a = None \<and>
     (case ex_duration_ms e of None \<Rightarrow> True | Some d \<Rightarrow> now < at_started_at a + d) \<and>
     (ex_duration_ms e \<noteq> None \<or> (case ex_ends_at e of None \<Rightarrow> True | Some ends \<Rightarrow> now < ends))"

definition stamp_left_if_running :: "exam_db \<Rightarrow> sitting_key \<Rightarrow> int \<Rightarrow> exam_db" where
  "stamp_left_if_running db key now =
     (case exam_read db (fst key) of
        None \<Rightarrow> db
      | Some e \<Rightarrow>
          db\<lparr>xd_attempts := on_row at_key key (\<lambda>a. if stamp_where e a now then a\<lparr>at_left_at := Some now\<rparr> else a)
            (xd_attempts db)\<rparr>)"

definition freeze_gate :: "exam_db \<Rightarrow> ustr \<Rightarrow> unit aresult" where
  "freeze_gate db e =
     (if exam_read db e = None then Inl NotFound
      else if any_for_exam db e then Inl (Conflict (u ''cannot change questions after attempts have started''))
      else Inr ())"

definition window_gate :: "exam \<Rightarrow> int \<Rightarrow> unit aresult" where
  "window_gate e now =
     (if (case ex_starts_at e of None \<Rightarrow> False | Some starts_at \<Rightarrow> now < starts_at)
      then Inl (Conflict (u ''the exam has not started yet''))
      else if (case ex_ends_at e of None \<Rightarrow> False | Some ends_at \<Rightarrow> now \<ge> ends_at)
      then Inl (Conflict (u ''the exam has already ended''))
      else Inr ())"

definition guard_start :: "exam_db \<Rightarrow> ustr \<Rightarrow> int \<Rightarrow> unit aresult" where
  "guard_start db e now =
     (case exam_read db e of
        None \<Rightarrow> Inl NotFound
      | Some row \<Rightarrow> and_then (ensure_sittable row) (\<lambda>_. window_gate row now))"

definition attempt_create_in ::
  "exam_db \<Rightarrow> exam_attempt \<Rightarrow> bool \<Rightarrow> exam_db \<times> exam_attempt claimed aresult" where
  "attempt_create_in db a count_sitting =
     (if find_row us_id (xd_users db) (at_user a) = None then (db, Inr Full)
      else if attempt_read db (at_key a) \<noteq> None then (db, Inr Duplicate)
      else
        (let row = a\<lparr>at_finished_at := None, at_left_at := None\<rparr> in
         (db\<lparr>xd_users := on_row us_id (at_user a)
               (\<lambda>x. x\<lparr>us_exam_sat_total := us_exam_sat_total x + (if count_sitting then 1 else 0)\<rparr>) (xd_users db),
             xd_attempts := xd_attempts db @ [row]\<rparr>, Inr (Made row))))"

definition attempt_create ::
  "exam_db \<Rightarrow> exam_attempt \<Rightarrow> bool \<Rightarrow> int \<Rightarrow> exam_db \<times> exam_attempt claimed aresult" where
  "attempt_create db a count_sitting now =
     run_tx (\<lambda>db. case guard_start db (at_exam a) now of
                    Inl e \<Rightarrow> (db, Inl e)
                  | Inr _ \<Rightarrow> attempt_create_in db a count_sitting) db"

definition start ::
  "(exam_db \<Rightarrow> exam_db) \<Rightarrow> (nat \<Rightarrow> int) \<Rightarrow> exam_db \<Rightarrow> exam \<Rightarrow> ustr \<Rightarrow> exam_db \<times> (exam_attempt \<times> bool) aresult" where
  "start rivals clock db e user =
     (let attempts = list_for_user db (ex_id e) user;
          go = (\<lambda>seq.
            (case attempt_create (rivals db) \<lparr>at_exam = ex_id e, at_user = user, at_seq = seq,
                     at_started_at = clock 1, at_finished_at = None, at_left_at = None\<rparr> (seq = 1) (clock 2) of
               (db', Inl err) \<Rightarrow> (db', Inl err)
             | (db', Inr (Made created)) \<Rightarrow> (db', Inr (created, True))
             | (db', Inr Duplicate) \<Rightarrow>
                 (db', (case read_latest_for_user db' (ex_id e) user of
                          Some existing \<Rightarrow>
                            if status existing e (clock 3) = InProgress then Inr (existing, False)
                            else Inl (Internal (u ''failed to start exam attempt''))
                        | None \<Rightarrow> Inl (Internal (u ''failed to start exam attempt''))))
             | (db', Inr Full) \<Rightarrow>
                 (db', Inl (Internal (u ''cannot start an exam attempt: the student'' @ [39] @ u ''s account row is missing'')))))
      in (case attempts of
            [] \<Rightarrow> go 1
          | latest # _ \<Rightarrow>
              if status latest e (clock 0) = InProgress then (db, Inr (latest, False))
              else if \<not> allows_another (ex_max_attempts e) (length attempts)
              then (db, Inl (Conflict (u ''no attempts remaining '' @ [8212] @ u '' this exam'' @ [39]
                          @ u ''s attempt limit is used up'')))
              else go (at_seq latest + 1)))"

definition ensure_student :: "app_user \<Rightarrow> unit aresult" where
  "ensure_student user =
     (if us_role user \<noteq> Student then Inl (Forbidden (u ''only students can sit exams'')) else Inr ())"

definition ensure_student_now :: "exam_db \<Rightarrow> ustr \<Rightarrow> unit aresult" where
  "ensure_student_now db user =
     and_then (ok_or Unauthorized (find_row us_id (xd_users db) user)) ensure_student"

definition enrolled :: "exam_db \<Rightarrow> ustr \<Rightarrow> ustr \<Rightarrow> bool" where
  "enrolled db e user =
     list_ex (\<lambda>(x, c). x = e \<and> list_ex (\<lambda>(c', v). c' = c \<and> v = user) (xd_enrollment db)) (xd_audience db)"

definition ensure_enrolled :: "exam_db \<Rightarrow> exam \<Rightarrow> ustr \<Rightarrow> unit aresult" where
  "ensure_enrolled db e user =
     (if enrolled db (ex_id e) user then Inr ()
      else Inl (Forbidden (u ''you are not enrolled in this exam'' @ [39] @ u ''s course'')))"

definition start_attempt ::
  "(exam_db \<Rightarrow> exam_db) \<Rightarrow> int \<Rightarrow> (nat \<Rightarrow> int) \<Rightarrow> exam_db \<Rightarrow> ustr \<Rightarrow> app_user
     \<Rightarrow> exam_db \<times> (exam \<times> exam_attempt \<times> bool) aresult" where
  "start_attempt rivals now clock db exam_id user =
     (case and_then (ok_or NotFound (exam_read db exam_id)) (\<lambda>e.
             and_then (ensure_sittable e) (\<lambda>_.
             and_then (ensure_student user) (\<lambda>_.
             and_then (ensure_enrolled db e (us_id user)) (\<lambda>_.
             and_then (exam_require_open db e) (\<lambda>_.
             and_then (window_gate e now) (\<lambda>_. Inr e)))))) of
        Inl err \<Rightarrow> (db, Inl err)
      | Inr e \<Rightarrow>
          (case start rivals clock db e (us_id user) of
             (db', Inl err) \<Rightarrow> (db', Inl err)
           | (db', Inr (a, created)) \<Rightarrow> (db', Inr (e, a, created))))"

definition finish_attempt ::
  "exam_db \<Rightarrow> exam \<Rightarrow> ustr \<Rightarrow> int \<Rightarrow> int \<Rightarrow> exam_db \<times> exam_attempt aresult" where
  "finish_attempt db e user now stamp =
     (case and_then (ok_or NotFound (read_latest_for_user db (ex_id e) user)) (\<lambda>a.
             if at_finished_at a \<noteq> None then Inl (Conflict (u ''the attempt is already submitted''))
             else if (case deadline a e of None \<Rightarrow> False | Some d \<Rightarrow> now \<ge> d)
             then Inl (Conflict (u ''time is up '' @ [8212] @ u '' the attempt has expired''))
             else and_then (exam_require_open db e) (\<lambda>_. Inr a)) of
        Inl err \<Rightarrow> (db, Inl err)
      | Inr a \<Rightarrow> attempt_finish db a stamp)"

definition writable_attempt :: "exam_db \<Rightarrow> exam \<Rightarrow> ustr \<Rightarrow> int \<Rightarrow> exam_attempt aresult" where
  "writable_attempt db e user now =
     and_then (ok_or NotFound (read_latest_for_user db (ex_id e) user)) (\<lambda>a.
       case status a e now of
         Submitted \<Rightarrow> Inl (Conflict (u ''the attempt is already submitted''))
       | AttemptExpired \<Rightarrow> Inl (Conflict (u ''time is up '' @ [8212] @ u '' the attempt has expired''))
       | InProgress \<Rightarrow> Inr a)"


section \<open>Answers\<close>

definition check_answer :: "exam_question \<Rightarrow> ustr option \<Rightarrow> ustr option \<Rightarrow> (ustr option \<times> ustr option) aresult" where
  "check_answer q selected text =
     (if qu_kind q = u ''choice''
      then (if text \<noteq> None
            then Inl (Validation (Invalid ''text'' ''a choice question takes selected, not text''))
            else (case selected of
                    None \<Rightarrow> Inl (Validation (Invalid ''selected'' ''required for a choice question''))
                  | Some key \<Rightarrow>
                      and_then (ok_or (Validation (Invalid ''selected'' (''must name one of the question'' @ [CHR 0x27] @ ''s choices'')))
                          (find_row ch_id (case_option [] (\<lambda>cs. cs) (qu_choices q)) key))
                        (\<lambda>picked. Inr (Some (ch_id picked), None))))
      else (if selected \<noteq> None
            then Inl (Validation (Invalid ''selected'' ''a text question takes text, not selected''))
            else (case text of
                    None \<Rightarrow> Inl (Validation (Invalid ''text'' ''required for a text question''))
                  | Some t \<Rightarrow> and_then (map_err Validation (answer_text_try_new t)) (\<lambda>v. Inr (None, Some v)))))"

definition answer_save_in ::
  "exam_question \<Rightarrow> ustr \<Rightarrow> int \<Rightarrow> ustr option \<Rightarrow> ustr option \<Rightarrow> int \<Rightarrow> exam_db \<Rightarrow> exam_db \<times> exam_answer aresult" where
  "answer_save_in q user seq selected text now db =
     (if exam_read db (qu_exam q) = None then (db, Inl NotFound)
      else if \<not> list_ex (\<lambda>x. qu_id x = qu_id q \<and> qu_exam x = qu_exam q) (xd_questions db)
      then (db, Inl (fk_error ''exam_answer_exam_question_fkey''))
      else if find_row us_id (xd_users db) user = None then (db, Inl (fk_error ''exam_answer_app_user_fkey''))
      else
        (let row = \<lparr>an_exam = qu_exam q, an_question = qu_id q, an_user = user, an_seq = seq,
                     an_selected = selected, an_text = text, an_updated_at = now\<rparr> in
         case find_row an_key (xd_answers db) (an_key row) of
           None \<Rightarrow> (db\<lparr>xd_answers := xd_answers db @ [row]\<rparr>, Inr row)
         | Some old \<Rightarrow>
             (let new = old\<lparr>an_selected := selected, an_text := text, an_updated_at := now\<rparr> in
              (db\<lparr>xd_answers := on_row an_key (an_key row) (\<lambda>_. new) (xd_answers db)\<rparr>, Inr new))))"

definition answer_save ::
  "exam_db \<Rightarrow> exam_question \<Rightarrow> ustr \<Rightarrow> int \<Rightarrow> ustr option \<Rightarrow> ustr option \<Rightarrow> int \<Rightarrow> exam_db \<times> exam_answer aresult" where
  "answer_save db q user seq selected text now =
     (case check_answer q selected text of
        Inl e \<Rightarrow> (db, Inl e)
      | Inr (s, t) \<Rightarrow> run_tx (answer_save_in q user seq s t now) db)"

definition question_of_exam :: "exam_db \<Rightarrow> ustr \<Rightarrow> ustr \<Rightarrow> exam_question aresult" where
  "question_of_exam db e qid =
     and_then (ok_or NotFound (find_row qu_id (xd_questions db) qid)) (\<lambda>q.
       if qu_exam q \<noteq> e then Inl NotFound else Inr q)"

definition save_answer_in ::
  "exam_db \<Rightarrow> exam \<Rightarrow> exam_attempt \<Rightarrow> ustr \<Rightarrow> ustr option \<Rightarrow> ustr option \<Rightarrow> int \<Rightarrow> exam_db \<times> exam_answer aresult" where
  "save_answer_in db e a qid selected text now =
     (case and_then (ensure_student_now db (at_user a)) (\<lambda>_.
             and_then (ensure_enrolled db e (at_user a)) (\<lambda>_.
             and_then (check_rejoin e a) (\<lambda>_.
             and_then (exam_require_open db e) (\<lambda>_. question_of_exam db (ex_id e) qid)))) of
        Inl err \<Rightarrow> (db, Inl err)
      | Inr q \<Rightarrow> answer_save db q (at_user a) (at_seq a) selected text now)"

definition save_answer_checked ::
  "(exam_db \<Rightarrow> exam_db) \<Rightarrow> exam_db \<Rightarrow> exam \<Rightarrow> app_user \<Rightarrow> ustr \<Rightarrow> ustr option \<Rightarrow> ustr option \<Rightarrow> int \<Rightarrow> int
     \<Rightarrow> exam_db \<times> exam_answer aresult" where
  "save_answer_checked rivals db e user qid selected text now stamp =
     (case and_then (ensure_student user) (\<lambda>_. writable_attempt db e (us_id user) now) of
        Inl err \<Rightarrow> (db, Inl err)
      | Inr a \<Rightarrow> save_answer_in (rivals db) e a qid selected text stamp)"


section \<open>Questions\<close>

definition dead_subject :: app_error where
  "dead_subject = Validation (Invalid ''subject_id'' ''subject does not exist'')"

definition claim_subject :: "ustr \<Rightarrow> subject_row list \<Rightarrow> subject_row list" where
  "claim_subject s rows = on_row sj_id s (\<lambda>x. x\<lparr>sj_exam_question_count := sj_exam_question_count x + 1\<rparr>) rows"

definition release_subject :: "ustr \<Rightarrow> subject_row list \<Rightarrow> subject_row list" where
  "release_subject s rows =
     on_row sj_id s (\<lambda>x. x\<lparr>sj_exam_question_count := max (sj_exam_question_count x - 1) 0\<rparr>) rows"

definition question_insert ::
  "exam_db \<Rightarrow> ustr \<Rightarrow> ustr \<Rightarrow> ustr \<Rightarrow> int \<Rightarrow> question_spec \<Rightarrow> ustr option \<Rightarrow> ustr \<Rightarrow> exam_db \<times> exam_question aresult" where
  "question_insert db e subject text points spec from_bank fresh =
     run_tx (\<lambda>db. case freeze_gate db e of
         Inl err \<Rightarrow> (db, Inl err)
       | Inr _ \<Rightarrow>
           if find_row sj_id (xd_subjects db) subject = None then (db, Inl dead_subject)
           else if (case from_bank of None \<Rightarrow> False | Some b \<Rightarrow> b \<notin> fst ` set (xd_bank_sources db))
           then (db, Inl (fk_error ''exam_question_from_bank_fkey''))
           else
             (let q = \<lparr>qu_id = fresh, qu_exam = e, qu_subject = subject, qu_text = text, qu_kind = qs_kind spec,
                       qu_points = points, qu_choices = qs_choices spec, qu_correct = qs_correct spec,
                       qu_from_bank = from_bank, qu_banked_as = None\<rparr>
              in (db\<lparr>xd_subjects := claim_subject subject (xd_subjects db),
                     xd_questions := xd_questions db @ [q]\<rparr>, Inr q))) db"

definition question_update ::
  "exam_db \<Rightarrow> exam_question \<Rightarrow> ustr \<Rightarrow> ustr \<Rightarrow> int \<Rightarrow> question_spec \<Rightarrow> exam_db \<times> exam_question aresult" where
  "question_update db q subject text points spec =
     run_tx (\<lambda>db. case freeze_gate db (qu_exam q) of
         Inl err \<Rightarrow> (db, Inl err)
       | Inr _ \<Rightarrow>
           (let retag = (subject \<noteq> qu_subject q);
                rows1 = (if retag then release_subject (qu_subject q) (xd_subjects db) else xd_subjects db);
                rows2 = (if retag then claim_subject subject rows1 else rows1)
            in if retag \<and> find_row sj_id rows1 subject = None then (db, Inl dead_subject)
               else (case find_row qu_id (xd_questions db) (qu_id q) of
                       None \<Rightarrow> (db, Inl NotFound)
                     | Some x \<Rightarrow>
                         if qu_subject x \<noteq> qu_subject q
                         then (db, Inl (Conflict (u ''the subject this question was read on changed since; re-read and retry'')))
                         else
                           (let new = x\<lparr>qu_subject := subject, qu_text := text, qu_points := points,
                                        qu_kind := qs_kind spec, qu_choices := qs_choices spec, qu_correct := qs_correct spec\<rparr>
                            in (db\<lparr>xd_subjects := rows2,
                                   xd_questions := on_row qu_id (qu_id q) (\<lambda>_. new) (xd_questions db)\<rparr>, Inr new))))) db"

definition link_banked_as :: "exam_db \<Rightarrow> exam_question \<Rightarrow> ustr \<Rightarrow> exam_db \<times> exam_question aresult" where
  "link_banked_as db q template =
     (case find_row qu_id (xd_questions db) (qu_id q) of
        None \<Rightarrow> (db, Inl NotFound)
      | Some x \<Rightarrow>
          if template \<notin> fst ` set (xd_bank_sources db) then (db, Inl (fk_error ''exam_question_banked_as_fkey''))
          else (db\<lparr>xd_questions := on_row qu_id (qu_id q) (\<lambda>y. y\<lparr>qu_banked_as := Some template\<rparr>) (xd_questions db)\<rparr>,
           Inr (x\<lparr>qu_banked_as := Some template\<rparr>)))"

definition question_delete :: "exam_db \<Rightarrow> exam_question \<Rightarrow> exam_db \<times> exam_question aresult" where
  "question_delete db q =
     run_tx (\<lambda>db. case freeze_gate db (qu_exam q) of
         Inl err \<Rightarrow> (db, Inl err)
       | Inr _ \<Rightarrow>
           (let db1 = db\<lparr>xd_answers := filter (\<lambda>a. \<not> an_question a = qu_id q) (xd_answers db),
                         xd_question_images := filter (\<lambda>(_, x, _). \<not> x = qu_id q) (xd_question_images db)\<rparr> in
            case find_row qu_id (xd_questions db1) (qu_id q) of
              None \<Rightarrow> (db1, Inl NotFound)
            | Some x \<Rightarrow>
                (db1\<lparr>xd_questions := filter (\<lambda>y. \<not> qu_id y = qu_id q) (xd_questions db1),
                     xd_subjects := release_subject (qu_subject x) (xd_subjects db1)\<rparr>, Inr x))) db"


section \<open>Marks\<close>

text \<open>The upsert of the kind's reference counter: nothing when the kind is retired.\<close>

definition bump_kind :: "kind_ref list \<Rightarrow> ustr \<Rightarrow> kind_ref list option" where
  "bump_kind refs name =
     (case find_row kr_name refs name of
        None \<Rightarrow> Some (refs @ [\<lparr>kr_name = name, kr_count = 1, kr_retired = False\<rparr>])
      | Some r \<Rightarrow> if kr_retired r then None
                  else Some (on_row kr_name name (\<lambda>x. x\<lparr>kr_count := kr_count x + 1\<rparr>) refs))"

definition high_of :: "int \<Rightarrow> int" where
  "high_of mark = (if mark \<ge> HIGH_MARK_MIN then 1 else 0)"

text \<open>The counters a first mark of a sitting claims, and the mark itself.\<close>

definition claim_mark :: "exam_db \<Rightarrow> ustr \<Rightarrow> ustr \<Rightarrow> ustr \<Rightarrow> exam_db aresult" where
  "claim_mark db e grader kind =
     (case bump_kind (xd_kind_refs db) kind of
        None \<Rightarrow> Inl (retired_kind_error kind)
      | Some refs \<Rightarrow>
          Inr (db\<lparr>xd_kind_refs := refs,
                  xd_exams := on_row ex_id e (\<lambda>x. x\<lparr>ex_result_count := ex_result_count x + 1\<rparr>) (xd_exams db),
                  xd_users := on_row us_id grader (\<lambda>x. x\<lparr>us_marks_given_total := us_marks_given_total x + 1\<rparr>)
                    (xd_users db)\<rparr>))"

definition put_mark :: "exam_result \<Rightarrow> exam_result list \<Rightarrow> exam_result list" where
  "put_mark row rows =
     (case find_row er_key rows (er_key row) of
        None \<Rightarrow> rows @ [row]
      | Some _ \<Rightarrow> on_row er_key (er_key row) (\<lambda>x. x\<lparr>er_mark := er_mark row, er_graded_by := er_graded_by row\<rparr>) rows)"

definition grade_in ::
  "ustr \<Rightarrow> ustr \<Rightarrow> int \<Rightarrow> int \<Rightarrow> ustr \<Rightarrow> ustr \<Rightarrow> exam_db \<Rightarrow> exam_db \<times> exam_result aresult" where
  "grade_in e user seq mark grader kind db =
     (case exam_read db e of
        None \<Rightarrow> (db, Inl NotFound)
      | Some x \<Rightarrow>
          if ex_draft x then (db, Inl draft_error)
          else
            (let before = map_option er_mark (find_row er_key (xd_results db) (e, user, seq));
                 row = \<lparr>er_exam = e, er_user = user, er_seq = seq, er_mark = mark, er_graded_by = grader\<rparr>
             in (case (if before = None then claim_mark db e grader kind else Inr db) of
                   Inl err \<Rightarrow> (db, Inl err)
                 | Inr db1 \<Rightarrow>
                     (let stored = (case before of None \<Rightarrow> -1 | Some m \<Rightarrow> m);
                          high = high_of mark - high_of stored;
                          db2 = (if high \<noteq> 0
                                 then db1\<lparr>xd_users := on_row us_id user
                                   (\<lambda>y. y\<lparr>us_high_mark_total := max (us_high_mark_total y + high) 0\<rparr>) (xd_users db1)\<rparr>
                                 else db1)
                      in if find_row us_id (xd_users db2) user = None then (db2, Inl (fk_error ''exam_result_app_user_fkey''))
                         else if find_row us_id (xd_users db2) grader = None
                         then (db2, Inl (fk_error ''exam_result_graded_by_fkey''))
                         else (db2\<lparr>xd_results := put_mark row (xd_results db2)\<rparr>, Inr row)))))"

definition db_grade ::
  "exam_db \<Rightarrow> ustr \<Rightarrow> ustr \<Rightarrow> int \<Rightarrow> int \<Rightarrow> ustr \<Rightarrow> ustr \<Rightarrow> exam_db \<times> exam_result aresult" where
  "db_grade db e user seq mark grader kind = run_tx (grade_in e user seq mark grader kind) db"

definition grade ::
  "(exam_db \<Rightarrow> exam_db) \<Rightarrow> exam_db \<Rightarrow> ustr \<Rightarrow> ustr \<Rightarrow> ustr \<Rightarrow> int \<Rightarrow> exam_db \<times> exam_result aresult" where
  "grade rivals db exam_id grader target mark =
     (case and_then (ok_or NotFound (exam_read db exam_id)) (\<lambda>e.
             and_then (exam_require_open db e) (\<lambda>_.
             if ex_draft e then Inl draft_error
             else if \<not> list_ex (\<lambda>k. ek_name k = ex_kind e) (xd_exam_kinds db) then Inl (retired_kind_error (ex_kind e))
             else
             and_then (map_err Validation (mark_try_new mark)) (\<lambda>m.
             if target = grader then Inl (Forbidden (u ''grading yourself is not allowed''))
             else
             and_then (ok_or (Validation (Invalid ''user_id'' ''target user does not exist''))
                        (find_row us_id (xd_users db) target)) (\<lambda>t.
             if us_role t \<noteq> Student then Inl (Validation (Invalid ''user_id'' ''only students can be graded''))
             else if \<not> enrolled db exam_id target
             then Inl (Validation (Invalid ''user_id'' ''target user is not enrolled in this course''))
             else Inr (ex_kind e, m,
                       case read_latest_for_user db exam_id target of None \<Rightarrow> 1 | Some a \<Rightarrow> at_seq a))))) of
        Inl err \<Rightarrow> (db, Inl err)
      | Inr (kind, m, seq) \<Rightarrow> db_grade (rivals db) exam_id target seq m grader kind)"

fun per_grader :: "(ustr \<times> int) list \<Rightarrow> exam_result list \<Rightarrow> (ustr \<times> int) list" where
  "per_grader acc [] = acc"
| "per_grader acc (row # rows) =
     per_grader
       (if list_ex (\<lambda>p. fst p = er_graded_by row) acc
        then map (\<lambda>p. if fst p = er_graded_by row then (fst p, snd p + 1) else p) acc
        else acc @ [(er_graded_by row, 1)]) rows"

fun give_back :: "(ustr \<times> int) list \<Rightarrow> app_user list \<Rightarrow> app_user list" where
  "give_back [] users = users"
| "give_back ((g, n) # rest) users =
     give_back rest
       (on_row us_id g (\<lambda>x. x\<lparr>us_marks_given_total := max (us_marks_given_total x - n) 0\<rparr>) users)"

definition db_remove :: "exam_db \<Rightarrow> ustr \<Rightarrow> ustr \<Rightarrow> ustr \<Rightarrow> exam_db \<times> exam_result option aresult" where
  "db_remove db e user kind =
     run_tx (\<lambda>db.
       let gone = sort_key er_seq (filter (\<lambda>r. er_exam r = e \<and> er_user r = user) (xd_results db));
           n = int (length gone);
           high = int (length (filter (\<lambda>r. er_mark r \<ge> HIGH_MARK_MIN) gone)) in
       if gone = [] then (db, Inr None)
       else
         (let users1 = (if high > 0
                        then on_row us_id user (\<lambda>x. x\<lparr>us_high_mark_total := max (us_high_mark_total x - high) 0\<rparr>) (xd_users db)
                        else xd_users db)
          in (db\<lparr>xd_results := filter (\<lambda>r. \<not> (er_exam r = e \<and> er_user r = user)) (xd_results db),
                 xd_kind_refs := on_row kr_name kind (\<lambda>k. k\<lparr>kr_count := max (kr_count k - n) 0\<rparr>) (xd_kind_refs db),
                 xd_exams := on_row ex_id e (\<lambda>x. x\<lparr>ex_result_count := max (ex_result_count x - n) 0\<rparr>) (xd_exams db),
                 xd_users := give_back (per_grader [] gone) users1\<rparr>, Inr (Some (hd gone))))) db"

definition remove_result :: "exam_db \<Rightarrow> exam \<Rightarrow> ustr \<Rightarrow> exam_db \<times> exam_result option aresult" where
  "remove_result db e target =
     (case exam_require_open db e of
        Inl err \<Rightarrow> (db, Inl err)
      | Inr _ \<Rightarrow> db_remove db (ex_id e) target (ex_kind e))"


section \<open>The audience\<close>

definition add_audience :: "exam_db \<Rightarrow> exam \<Rightarrow> ustr \<Rightarrow> exam_db \<times> unit aresult" where
  "add_audience db e target =
     (case and_then (ok_or NotFound (find_row cc_id (xd_instances db) (ex_class_course e))) (\<lambda>owner.
             and_then (ok_or NotFound (find_row cc_id (xd_instances db) target)) (\<lambda>t.
             if cc_id t = cc_id owner
             then Inl (Validation (Invalid ''instance'' (''this instance owns the exam '' @ DASH
                    @ '' an audience is another instance, and deleting the exam is what ends the owner'' @ [CHR 0x27] @ ''s'')))
             else if cc_course t \<noteq> cc_course owner
             then Inl (Validation (Invalid ''instance'' (''the instance teaches another course than the exam'' @ [CHR 0x27] @ ''s'')))
             else if year_of db (cc_id owner) \<noteq> year_of db target
             then Inl (Validation (Invalid ''instance''
                    (''the instance belongs to another academic year than the exam'' @ [CHR 0x27] @ ''s'')))
             else instance_require_open db target)) of
        Inl err \<Rightarrow> (db, Inl err)
      | Inr _ \<Rightarrow>
          if exam_read db (ex_id e) = None then (db, Inl NotFound)
          else (db\<lparr>xd_audience := (if (ex_id e, target) \<in> set (xd_audience db) then xd_audience db
                                   else xd_audience db @ [(ex_id e, target)])\<rparr>, Inr ()))"

definition remove_audience :: "exam_db \<Rightarrow> exam \<Rightarrow> ustr \<Rightarrow> exam_db \<times> unit aresult" where
  "remove_audience db e target =
     (if ex_class_course e = target
      then (db, Inl (Validation (Invalid ''instance'' (''the owner instance is not an audience '' @ DASH
              @ '' an exam cannot lose the instance it belongs to; delete the exam instead''))))
      else (case exam_require_open db e of
              Inl err \<Rightarrow> (db, Inl err)
            | Inr _ \<Rightarrow>
                if (ex_id e, target) \<in> set (xd_audience db)
                then (db\<lparr>xd_audience := filter (\<lambda>p. \<not> p = (ex_id e, target)) (xd_audience db)\<rparr>, Inr ())
                else (db, Inl NotFound)))"

end
