(* ===== verification/Exam_Sittings.thy ===== *)
theory Exam_Sittings
  imports Exam_Store
begin

text \<open>
  Sittings.  The numbers of a student's sittings at an exam are 1, 2, 3, ... without a gap, whatever
  requests race, and never more than the exam allows; a fresh sitting has time on its clock; the
  conditional walk-out stamp agrees with the sitting's status except where an exam has both a window
  and a duration.
\<close>

section \<open>The numbers of the sittings\<close>

definition sittings :: "exam_db \<Rightarrow> ustr \<Rightarrow> ustr \<Rightarrow> exam_attempt list" where
  "sittings db e user = filter (\<lambda>a. at_exam a = e \<and> at_user a = user) (xd_attempts db)"

definition sittings_ok :: "int \<Rightarrow> ustr \<Rightarrow> exam_db \<Rightarrow> bool" where
  "sittings_ok limit e db \<longleftrightarrow>
     (\<forall>user. distinct (map at_seq (sittings db e user)) \<and>
        at_seq ` set (sittings db e user) = {1 .. int (length (sittings db e user))} \<and>
        (is_unlimited limit \<or> int (length (sittings db e user)) \<le> limit))"

text \<open>Sittings are only ever added.\<close>

definition grows :: "int \<Rightarrow> ustr \<Rightarrow> exam_db \<Rightarrow> exam_db \<Rightarrow> bool" where
  "grows limit e db db' \<longleftrightarrow> sittings_ok limit e db' \<and>
     (\<forall>user. length (sittings db e user) \<le> length (sittings db' e user))"

lemma grows_refl: "sittings_ok limit e db \<Longrightarrow> grows limit e db db"
  by (simp add: grows_def)

lemma grows_trans: "grows limit e a b \<Longrightarrow> grows limit e b c \<Longrightarrow> grows limit e a c"
  by (auto simp: grows_def intro: order_trans)

lemma length_list_for_user [simp]: "length (list_for_user db e user) = length (sittings db e user)"
  by (simp add: list_for_user_def sittings_def)

lemma set_list_for_user [simp]: "set (list_for_user db e user) = set (sittings db e user)"
  by (simp add: list_for_user_def sittings_def)

lemma latest_seq:
  assumes ok: "sittings_ok limit e db" and l: "list_for_user db e user = a # rest"
  shows "at_seq a = int (length (sittings db e user))" "0 < length (sittings db e user)"
proof -
  let ?s = "sittings db e user"
  show pos: "0 < length ?s" using length_list_for_user [of db e user] l by (metis length_Cons zero_less_Suc)
  have rng: "at_seq ` set ?s = {1 .. int (length ?s)}" using ok by (auto simp: sittings_ok_def)
  have srt: "sort_key at_seq ?s = rev (a # rest)"
    using l by (simp add: list_for_user_def sittings_def rev_swap)
  have "sorted (map at_seq (rev rest @ [a]))" using sorted_sort_key [of at_seq ?s] srt by simp
  then have "\<forall>x \<in> set rest. at_seq x \<le> at_seq a" by (auto simp: sorted_append)
  then have "\<forall>x \<in> set (a # rest). at_seq x \<le> at_seq a" by auto
  then have top: "\<forall>x \<in> set ?s. at_seq x \<le> at_seq a" using set_list_for_user [of db e user] unfolding l by metis
  moreover have "a \<in> set ?s" using set_list_for_user [of db e user] l by force
  then have "at_seq a \<in> {1 .. int (length ?s)}" using rng by blast
  moreover have "int (length ?s) \<in> at_seq ` set ?s" unfolding rng using pos by (simp add: Suc_le_eq)
  ultimately show "at_seq a = int (length ?s)" by force
qed

lemma seq_taken:
  assumes "sittings_ok limit e db" "1 \<le> k" "k \<le> int (length (sittings db e user))"
  shows "attempt_read db (e, user, k) \<noteq> None"
proof -
  have "k \<in> at_seq ` set (sittings db e user)" using assms by (auto simp: sittings_ok_def)
  then obtain a where "a \<in> set (xd_attempts db)" "at_key a = (e, user, k)"
    by (auto simp: sittings_def at_key_def)
  then show ?thesis unfolding attempt_read_def find_row_None_iff by (metis imageI)
qed

text \<open>The one transaction that adds a sitting, given a number read at some earlier moment.\<close>

lemma attempt_create_eq:
  "attempt_create db a c now =
     (case guard_start db (at_exam a) now of Inl e \<Rightarrow> (db, Inl e) | Inr _ \<Rightarrow> attempt_create_in db a c)"
proof (cases "guard_start db (at_exam a) now")
  case (Inr v)
  have "\<exists>d r. attempt_create_in db a c = (d, Inr r)"
    by (cases "find_row us_id (xd_users db) (at_user a) = None"; cases "attempt_read db (at_key a) = None")
      (simp_all add: attempt_create_in_def Let_def)
  with Inr show ?thesis by (auto simp: attempt_create_def run_tx_def)
qed (simp add: attempt_create_def run_tx_def)

lemma create_cases:
  obtains (same) "fst (attempt_create db a c now) = db" "\<And>row. snd (attempt_create db a c now) \<noteq> Inr (Made row)"
  | (made) x users row where "exam_read db (at_exam a) = Some x" "window_gate x now = Inr ()" "ensure_sittable x = Inr ()"
      "attempt_read db (at_key a) = None" "row = a\<lparr>at_finished_at := None, at_left_at := None\<rparr>"
      "attempt_create db a c now = (db\<lparr>xd_users := users, xd_attempts := xd_attempts db @ [row]\<rparr>, Inr (Made row))"
proof (cases "guard_start db (at_exam a) now")
  case (Inl e)
  then show thesis by (intro same) (simp_all add: attempt_create_eq)
next
  case (Inr v)
  then obtain x where g: "exam_read db (at_exam a) = Some x" "window_gate x now = Inr ()" "ensure_sittable x = Inr ()"
    by (auto simp: guard_start_def split: option.splits)
  consider "find_row us_id (xd_users db) (at_user a) = None \<or> attempt_read db (at_key a) \<noteq> None"
    | "find_row us_id (xd_users db) (at_user a) \<noteq> None" "attempt_read db (at_key a) = None" by blast
  then show thesis
  proof cases
    case 1
    then have "attempt_create_in db a c = (db, Inr Full) \<or> attempt_create_in db a c = (db, Inr Duplicate)"
      by (auto simp: attempt_create_in_def)
    with Inr show thesis by (intro same) (auto simp: attempt_create_eq)
  next
    case 2
    with Inr show thesis by (intro made [OF g 2(2) refl]) (simp add: attempt_create_eq attempt_create_in_def Let_def)
  qed
qed

lemma create_grows:
  assumes ok: "sittings_ok limit e db" and k: "k \<le> length (sittings db e (at_user a))"
    and a: "at_exam a = e" "at_seq a = int k + 1" and room: "k = 0 \<or> allows_another limit k" and lim: "0 \<le> limit"
  shows "grows limit e db (fst (attempt_create db a c now))"
proof (cases rule: create_cases [of db a c now])
  case same
  then show ?thesis using grows_refl [OF ok] by simp
next
  case (made x users row)
  have kn: "k = length (sittings db e (at_user a))"
  proof (rule ccontr)
    assume "k \<noteq> length (sittings db e (at_user a))"
    then have "attempt_read db (e, at_user a, int k + 1) \<noteq> None" using seq_taken [OF ok] k by simp
    with made(4) a show False by (simp add: at_key_def)
  qed
  let ?db = "db\<lparr>xd_users := users, xd_attempts := xd_attempts db @ [row]\<rparr>"
  have s: "sittings ?db e v = (if v = at_user a then sittings db e v @ [row] else sittings db e v)" for v
    using made(5) a by (simp add: sittings_def)
  have "sittings_ok limit e ?db"
    unfolding sittings_ok_def
  proof (intro allI conjI)
    fix v
    have okv: "distinct (map at_seq (sittings db e v))" "at_seq ` set (sittings db e v) = {1 .. int (length (sittings db e v))}"
      "is_unlimited limit \<or> int (length (sittings db e v)) \<le> limit"
      using ok by (auto simp: sittings_ok_def)
    have r: "at_seq row = int k + 1" using made(5) a by simp
    show "distinct (map at_seq (sittings ?db e v))"
    proof (cases "v = at_user a")
      case True
      have "at_seq row \<notin> at_seq ` set (sittings db e v)" unfolding okv(2) using r kn True by simp
      with True okv(1) show ?thesis by (simp add: s)
    qed (simp add: s okv(1))
    show "at_seq ` set (sittings ?db e v) = {1 .. int (length (sittings ?db e v))}"
    proof (cases "v = at_user a")
      case True
      then have "at_seq ` set (sittings ?db e v) = insert (int (length (sittings db e v)) + 1) {1 .. int (length (sittings db e v))}"
        using okv(2) r kn by (simp add: s)
      also have "\<dots> = {1 .. int (length (sittings ?db e v))}" using True by (auto simp: s)
      finally show ?thesis .
    qed (simp add: s okv(2))
    show "is_unlimited limit \<or> int (length (sittings ?db e v)) \<le> limit"
      using okv(3) room lim kn by (auto simp: s allows_another_def is_unlimited_def UNLIMITED_EXAM_ATTEMPTS_def)
  qed
  then show ?thesis using made(6) by (simp add: grows_def s)
qed

lemma start_grows:
  assumes ok: "sittings_ok (ex_max_attempts x) (ex_id x) db" and r: "grows (ex_max_attempts x) (ex_id x) db (rivals db)"
    and lim: "0 \<le> ex_max_attempts x"
  shows "grows (ex_max_attempts x) (ex_id x) db (fst (start rivals clock db x user))"
proof -
  let ?l = "list_for_user db (ex_id x) user"
  let ?row = "\<lambda>k. \<lparr>at_exam = ex_id x, at_user = user, at_seq = int k + 1, at_started_at = clock 1,
      at_finished_at = None, at_left_at = None\<rparr>"
  have ok': "sittings_ok (ex_max_attempts x) (ex_id x) (rivals db)" using r by (simp add: grows_def)
  have go: "grows (ex_max_attempts x) (ex_id x) db (fst (attempt_create (rivals db) (?row k) c (clock 2)))"
    if "k \<le> length (sittings db (ex_id x) user)" "k = 0 \<or> allows_another (ex_max_attempts x) k" for k c
  proof -
    have "k \<le> length (sittings (rivals db) (ex_id x) user)" using that(1) r by (meson grows_def le_trans)
    then show ?thesis using create_grows [OF ok', of k "?row k"] that(2) lim grows_trans [OF r] by simp
  qed
  show ?thesis
  proof (cases ?l)
    case Nil
    then have "fst (start rivals clock db x user) = fst (attempt_create (rivals db) (?row 0) True (clock 2))"
      by (auto simp: start_def Let_def split: prod.split sum.split claimed.split)
    with go [of 0] show ?thesis by simp
  next
    case (Cons latest rest)
    note seq = latest_seq [OF ok Cons]
    let ?n = "length (sittings db (ex_id x) user)"
    have len: "Suc (length rest) = ?n" using length_list_for_user [of db "ex_id x" user] Cons by simp
    consider "fst (start rivals clock db x user) = db"
      | "allows_another (ex_max_attempts x) ?n"
        "fst (start rivals clock db x user)
          = fst (attempt_create (rivals db) (?row ?n) (int ?n + 1 = 1) (clock 2))"
      using Cons seq(1) len by (cases "status latest x (clock 0) = InProgress \<or> \<not> allows_another (ex_max_attempts x) ?n")
        (auto simp: start_def Let_def split: prod.split sum.split claimed.split)
    then show ?thesis using go [of ?n] grows_refl [OF ok] by cases simp_all
  qed
qed


section \<open>The clock of a sitting\<close>

lemma deadline_after_start:
  assumes "window_gate x now = Inr ()" "at_started_at a \<le> now"
    and "\<And>d. ex_duration_ms x = Some d \<Longrightarrow> 0 < d \<and> is_i64 (at_started_at a + d)"
    and "deadline a x = Some d"
  shows "at_started_at a < d"
proof -
  have ends: "now < e" if "ex_ends_at x = Some e" for e
    using assms(1) that by (auto simp: window_gate_def split: option.splits if_splits)
  have dur: "at_started_at a < saturating_add (at_started_at a) m" if "ex_duration_ms x = Some m" for m
    using assms(3) [OF that] by (simp add: saturating_add_def)
  show ?thesis
    using assms(2,4) ends dur unfolding deadline_def Let_def
    by (cases "ex_ends_at x"; cases "ex_duration_ms x") force+
qed

lemma running_until_deadline:
  "at_finished_at a = None \<Longrightarrow> (\<And>d. deadline a x = Some d \<Longrightarrow> t < d) \<Longrightarrow> status a x t = InProgress"
  by (auto simp: status_def split: option.split)

lemma start_created:
  assumes "start rivals clock db x user = (db', Inr (a, True))"
  obtains k c where "k = (case list_for_user db (ex_id x) user of [] \<Rightarrow> 0 | latest # _ \<Rightarrow> at_seq latest)"
    "attempt_create (rivals db) \<lparr>at_exam = ex_id x, at_user = user, at_seq = k + 1, at_started_at = clock 1,
       at_finished_at = None, at_left_at = None\<rparr> c (clock 2) = (db', Inr (Made a))"
  using assms that
  by (cases "list_for_user db (ex_id x) user")
    (auto simp: start_def Let_def split: prod.splits sum.splits claimed.splits option.splits if_splits)

lemma insort_snoc: "f x \<le> f a \<Longrightarrow> insort_key f x (ys @ [a]) = insort_key f x ys @ [a]"
  by (induction ys) auto

lemma sort_key_snoc: "(\<And>b. b \<in> set xs \<Longrightarrow> f b \<le> f a) \<Longrightarrow> sort_key f (xs @ [a]) = sort_key f xs @ [a]"
  by (induction xs) (auto simp: insort_snoc)

lemma latest_of_snoc:
  assumes "\<And>b. b \<in> set (sittings db e user) \<Longrightarrow> at_seq b < at_seq a" "at_exam a = e" "at_user a = user"
    and "xd_attempts db' = xd_attempts db @ [a]"
  shows "read_latest_for_user db' e user = Some a"
proof -
  have "sittings db' e user = sittings db e user @ [a]" using assms(2,3,4) by (simp add: sittings_def)
  then have "list_for_user db' e user = rev (sort_key at_seq (sittings db e user @ [a]))"
    by (simp add: list_for_user_def sittings_def)
  also have "\<dots> = a # rev (sort_key at_seq (sittings db e user))"
    using assms(1) by (simp add: sort_key_snoc less_imp_le)
  finally have "list_for_user db' e user = a # rev (sort_key at_seq (sittings db e user))" .
  then show ?thesis by (simp add: read_latest_for_user_def)
qed

lemma created_is_latest:
  assumes ok: "sittings_ok limit e db" and mk: "attempt_create db row c now = (db', Inr (Made a))"
    and row: "at_exam row = e" "at_seq row = int k + 1" and k: "k \<le> length (sittings db e (at_user row))"
  shows "read_latest_for_user db' e (at_user row) = Some a" "exam_read db' e = exam_read db e"
    "\<exists>x. exam_read db e = Some x \<and> window_gate x now = Inr ()"
    "a = row\<lparr>at_finished_at := None, at_left_at := None\<rparr>"
proof -
  obtain x users where m: "exam_read db e = Some x" "window_gate x now = Inr ()"
      "attempt_read db (at_key row) = None" "a = row\<lparr>at_finished_at := None, at_left_at := None\<rparr>"
      "db' = db\<lparr>xd_users := users, xd_attempts := xd_attempts db @ [a]\<rparr>"
    using mk row(1) by (cases rule: create_cases [of db row c now]) auto
  show "exam_read db' e = exam_read db e" using m(5) by (simp add: exam_read_def)
  show "\<exists>x. exam_read db e = Some x \<and> window_gate x now = Inr ()" using m(1,2) by blast
  show a: "a = row\<lparr>at_finished_at := None, at_left_at := None\<rparr>" using m(4) .
  have "k = length (sittings db e (at_user row))"
  proof (rule ccontr)
    assume "k \<noteq> length (sittings db e (at_user row))"
    then have "attempt_read db (e, at_user row, int k + 1) \<noteq> None" using seq_taken [OF ok] k by simp
    with m(3) row show False by (simp add: at_key_def)
  qed
  moreover have "at_seq b \<le> int (length (sittings db e (at_user row)))" if "b \<in> set (sittings db e (at_user row))" for b
  proof -
    have "at_seq b \<in> {1 .. int (length (sittings db e (at_user row)))}" using ok that unfolding sittings_ok_def by blast
    then show ?thesis by simp
  qed
  ultimately show "read_latest_for_user db' e (at_user row) = Some a"
    using row a m(5) by (intro latest_of_snoc [where db = db]) force+
qed

lemma start_created_latest:
  assumes ok: "sittings_ok (ex_max_attempts x) (ex_id x) db" and r: "grows (ex_max_attempts x) (ex_id x) db (rivals db)"
    and st: "start rivals clock db x user = (db', Inr (a, True))"
  shows "read_latest_for_user db' (ex_id x) user = Some a" "at_started_at a = clock 1" "at_finished_at a = None"
    "\<exists>y. exam_read db' (ex_id x) = Some y \<and> window_gate y (clock 2) = Inr ()"
proof -
  obtain k c where k: "k = (case list_for_user db (ex_id x) user of [] \<Rightarrow> 0 | latest # _ \<Rightarrow> at_seq latest)"
    and mk: "attempt_create (rivals db) \<lparr>at_exam = ex_id x, at_user = user, at_seq = k + 1, at_started_at = clock 1,
       at_finished_at = None, at_left_at = None\<rparr> c (clock 2) = (db', Inr (Made a))"
    using start_created [OF st] by blast
  have kn: "k = int (length (sittings db (ex_id x) user))"
    using k latest_seq [OF ok] length_list_for_user [of db "ex_id x" user]
    by (cases "list_for_user db (ex_id x) user") (auto simp del: length_list_for_user)
  have "length (sittings db (ex_id x) user) \<le> length (sittings (rivals db) (ex_id x) user)"
    "sittings_ok (ex_max_attempts x) (ex_id x) (rivals db)"
    using r by (auto simp: grows_def)
  note L = created_is_latest [OF this(2) mk [unfolded kn], simplified, OF refl this(1)]
  show "read_latest_for_user db' (ex_id x) user = Some a" "at_started_at a = clock 1" "at_finished_at a = None"
    using L(1,4) by simp_all
  show "\<exists>y. exam_read db' (ex_id x) = Some y \<and> window_gate y (clock 2) = Inr ()" using L(2,3) by auto
qed


section \<open>A worked exam\<close>

definition demo_exam :: exam where
  "demo_exam = \<lparr>ex_id = u ''e'', ex_creator = u ''t'', ex_class_course = u ''i'', ex_term = u ''term'',
     ex_title = u ''Algebra'', ex_description = [], ex_kind = u ''yazili'', ex_mode = Some (u ''async''),
     ex_starts_at = Some 0, ex_ends_at = Some 1000000, ex_duration_ms = Some 600000, ex_max_attempts = 1,
     ex_allow_rejoin = False, ex_allow_review = False, ex_draft = False, ex_result_count = 0\<rparr>"

definition demo_person :: "string \<Rightarrow> role \<Rightarrow> app_user" where
  "demo_person name r = \<lparr>us_id = u name, us_role = r, us_exam_sat_total = 0, us_marks_given_total = 0,
     us_high_mark_total = 0\<rparr>"

definition demo_school :: exam_db where
  "demo_school = \<lparr>xd_exams = [demo_exam], xd_attempts = [], xd_questions = [], xd_answers = [], xd_results = [],
     xd_audience = [(u ''e'', u ''i'')], xd_enrollment = [(u ''i'', u ''s'')], xd_question_images = [],
     xd_answer_images = [], xd_bank_sources = [], xd_subjects = [\<lparr>sj_id = u ''m'', sj_exam_question_count = 0\<rparr>],
     xd_terms = [\<lparr>tm_id = u ''term'', tm_year = u ''y'', tm_exam_count = 1\<rparr>], xd_kind_refs = [],
     xd_users = [demo_person ''s'' Student, demo_person ''t'' Teacher, demo_person ''v'' Teacher],
     xd_courses = [\<lparr>co_id = u ''c'', co_kind = u ''course''\<rparr>],
     xd_classes = [\<lparr>cg_id = u ''9A'', cg_year = Some (u ''y'')\<rparr>],
     xd_years = [\<lparr>ay_id = u ''y'', ay_archived_at = None\<rparr>],
     xd_instances = [\<lparr>cc_id = u ''i'', cc_class = u ''9A'', cc_course = u ''c''\<rparr>],
     xd_exam_kinds = [\<lparr>ek_name = u ''yazili'', ek_weight = 60\<rparr>, \<lparr>ek_name = u ''sozlu'', ek_weight = 40\<rparr>]\<rparr>"

text \<open>The student's second click of \<^emph>\<open>start\<close>, answered before the first one's transaction.\<close>

definition second_click :: "exam_db \<Rightarrow> exam_db" where
  "second_click db = fst (start (\<lambda>d. d) (\<lambda>_. 5) db demo_exam (u ''s''))"

lemma demo_sittings_ok: "sittings_ok 1 (u ''e'') demo_school"
  by (simp add: sittings_ok_def sittings_def demo_school_def is_unlimited_def)

lemma demo_exam_simps: "ex_id demo_exam = u ''e''" "ex_max_attempts demo_exam = 1" "ex_duration_ms demo_exam = Some 600000"
  by (simp_all add: demo_exam_def)

lemma second_click_grows: "grows 1 (u ''e'') demo_school (second_click demo_school)"
  unfolding second_click_def
  using start_grows [of demo_exam demo_school "\<lambda>d. d" "\<lambda>_. 5" "u ''s''"] demo_sittings_ok grows_refl
  by (simp add: demo_exam_simps)


section \<open>Properties\<close>

text \<open>
  C28. The attempt limit holds under races.  A student's sittings at an exam are numbered 1, 2, 3 and so
  on without a gap and are no more than the exam's limit.  Starting keeps this, whatever other
  requests do between its reading of the sittings and its own transaction, as long as they keep it
  too and remove no sitting; and starting removes none, so racing starts may be nested to any depth.
\<close>

theorem attempt_limit_holds:
  assumes "0 \<le> ex_max_attempts x" and "sittings_ok (ex_max_attempts x) (ex_id x) db"
    and "grows (ex_max_attempts x) (ex_id x) db (rivals db)"
  shows "sittings_ok (ex_max_attempts x) (ex_id x) (fst (start rivals clock db x user)) \<and>
    grows (ex_max_attempts x) (ex_id x) db (fst (start rivals clock db x user))"
  using start_grows [OF assms(2), of rivals clock user, OF assms(3,1)] by (simp add: grows_def)

theorem attempt_limit_holds_witness:
  "grows 1 (u ''e'') demo_school (second_click demo_school) \<and>
   sittings_ok 1 (u ''e'') (fst (start second_click (\<lambda>_. 5) demo_school demo_exam (u ''s''))) \<and>
   length (xd_attempts (fst (start second_click (\<lambda>_. 5) demo_school demo_exam (u ''s'')))) = 1"
proof -
  have "length (xd_attempts (fst (start second_click (\<lambda>_. 5) demo_school demo_exam (u ''s'')))) = 1" by code_simp
  then show ?thesis
    using attempt_limit_holds [of demo_exam demo_school second_click "\<lambda>_. 5" "u ''s''"] second_click_grows demo_sittings_ok
    by (simp add: demo_exam_simps)
qed

text \<open>
  A fresh sitting can be written.  When starting answers that it created a sitting, the student's
  answers are accepted at the moment the sitting's clock started and at every later moment before its
  deadline: the new sitting is the latest one, it is unsubmitted, and an exam that passed the window
  check leaves it time.  The judgement uses the exam as stored now, whatever happened to it meanwhile.
\<close>

theorem fresh_sitting_is_writable:
  assumes "exam_read db key = Some e" and "sittings_ok (ex_max_attempts e) key db"
    and "grows (ex_max_attempts e) key db (rivals db)"
    and "start_attempt rivals now clock db key user = (db', Inr (e', a, True))"
    and "exam_read db' key = Some x" and "clock 1 \<le> clock 2"
    and "\<forall>d. ex_duration_ms x = Some d \<longrightarrow> 0 < d \<and> is_i64 (clock 1 + d)"
  shows "writable_attempt db' x (us_id user) (clock 1) = Inr a \<and>
    (\<forall>t. (\<forall>d. deadline a x = Some d \<longrightarrow> t < d) \<longrightarrow> writable_attempt db' x (us_id user) t = Inr a)"
proof -
  have id: "ex_id e = key" "ex_id x = key"
    using assms(1,5) by (auto simp: exam_read_def dest: find_row_SomeD)
  have st: "start rivals clock db e (us_id user) = (db', Inr (a, True))"
    using assms(1,4) by (auto simp: start_attempt_def split: sum.splits prod.splits)
  note L = start_created_latest [OF _ _ st, unfolded id, OF assms(2) assms(3)]
  have w: "writable_attempt db' x (us_id user) t = Inr a" if "\<And>d. deadline a x = Some d \<Longrightarrow> t < d" for t
    using running_until_deadline [of a x t] L(1,3) that by (simp add: writable_attempt_def id)
  moreover have "clock 1 < d" if "deadline a x = Some d" for d
    using deadline_after_start [of x "clock 2" a d] that L(2,4) assms(5-7) by auto
  ultimately show ?thesis by blast
qed

theorem fresh_sitting_is_writable_witness:
  "\<exists>db' a. start_attempt second_click 5 (\<lambda>_. 5) demo_school (u ''e'') (demo_person ''s'' Student) = (db', Inr (demo_exam, a, False)) \<and>
     (\<exists>db' a. start_attempt (\<lambda>d. d) 5 (\<lambda>_. 5) demo_school (u ''e'') (demo_person ''s'' Student) = (db', Inr (demo_exam, a, True)) \<and>
        writable_attempt db' demo_exam (u ''s'') 5 = Inr a \<and> deadline a demo_exam = Some 600005)"
proof -
  let ?r = "start_attempt second_click 5 (\<lambda>_. 5) demo_school (u ''e'') (demo_person ''s'' Student)"
  let ?q = "start_attempt (\<lambda>d. d) 5 (\<lambda>_. 5) demo_school (u ''e'') (demo_person ''s'' Student)"
  let ?a = "\<lparr>at_exam = u ''e'', at_user = u ''s'', at_seq = 1, at_started_at = 5, at_finished_at = None, at_left_at = None\<rparr>"
  have "snd ?r = Inr (demo_exam, ?a, False)" by code_simp
  then have r: "?r = (fst ?r, Inr (demo_exam, ?a, False))" by (simp add: prod_eq_iff)
  have "snd ?q = Inr (demo_exam, ?a, True)" by code_simp
  then have q: "?q = (fst ?q, Inr (demo_exam, ?a, True))" by (simp add: prod_eq_iff)
  have d: "deadline ?a demo_exam = Some 600005" by code_simp
  have e: "exam_read (fst ?q) (u ''e'') = Some demo_exam" "exam_read demo_school (u ''e'') = Some demo_exam" by code_simp+
  have "writable_attempt (fst ?q) demo_exam (us_id (demo_person ''s'' Student)) 5 = Inr ?a"
    using fresh_sitting_is_writable [OF e(2) _ _ q e(1)] demo_sittings_ok grows_refl [OF demo_sittings_ok]
    by (simp add: demo_exam_simps i64_defs)
  then have "writable_attempt (fst ?q) demo_exam (u ''s'') 5 = Inr ?a" by (simp add: demo_person_def)
  with r q d show ?thesis by blast
qed

text \<open>
  The walk-out stamp and the sitting's status.  Leaving the exam room stamps a sitting only while
  it runs.  The condition of that write is spelled a second time, in SQL; it says the same as the
  status whenever the exam does not have both a window and a duration.
\<close>

theorem stamp_agrees_with_status:
  assumes "ex_duration_ms e = None \<or> ex_ends_at e = None"
    and "\<forall>d. ex_duration_ms e = Some d \<longrightarrow> is_i64 (at_started_at a + d)"
  shows "stamp_where e a now \<longleftrightarrow> at_left_at a = None \<and> status a e now = InProgress"
  using assms
  by (cases "ex_duration_ms e"; cases "ex_ends_at e")
    (auto simp: stamp_where_def status_def deadline_def saturating_add_def split: option.split)

theorem stamp_agrees_with_status_witness:
  "stamp_where (demo_exam\<lparr>ex_ends_at := None\<rparr>)
     \<lparr>at_exam = [], at_user = [], at_seq = 1, at_started_at = 5, at_finished_at = None, at_left_at = None\<rparr> 600004 \<and>
   \<not> stamp_where (demo_exam\<lparr>ex_ends_at := None\<rparr>)
     \<lparr>at_exam = [], at_user = [], at_seq = 1, at_started_at = 5, at_finished_at = None, at_left_at = None\<rparr> 600005"
proof -
  let ?e = "demo_exam\<lparr>ex_ends_at := None\<rparr>"
  let ?a = "\<lparr>at_exam = [], at_user = [], at_seq = 1, at_started_at = 5, at_finished_at = None, at_left_at = None\<rparr>"
  have "stamp_where ?e ?a n \<longleftrightarrow> at_left_at ?a = None \<and> status ?a ?e n = InProgress" for n
    by (rule stamp_agrees_with_status) (simp_all add: demo_exam_def i64_defs)
  moreover have "status ?a ?e 600004 = InProgress" "status ?a ?e 600005 \<noteq> InProgress" by code_simp+
  ultimately show ?thesis by simp
qed

text \<open>
  Where the two differ.  At an exam with a window and a duration a student who starts late runs
  out of time when the window closes.  The SQL condition looks at the duration alone, so it stamps a
  sitting that has already expired as walked out of.
\<close>

theorem stamp_outlives_the_window:
  "\<exists>a. status a demo_exam 1000001 = AttemptExpired \<and> stamp_where demo_exam a 1000001"
  by (rule exI [of _ "\<lparr>at_exam = u ''e'', at_user = u ''s'', at_seq = 1, at_started_at = 900000, at_finished_at = None,
      at_left_at = None\<rparr>"]) code_simp

end
