(* ===== verification/Exam_Counters.thy ===== *)
theory Exam_Counters
  imports Exam_Sittings
begin

text \<open>
  The counters of the exam tables are exact in every reachable state: a subject's count of exam
  questions, a term's count of exams, an exam's count of marks.  Each is an interpretation of the
  counter contract of \<open>Ref_Count\<close>, and the proof is that every transaction keeps all of them.
\<close>

interpretation subj: counter sj_id sj_exam_question_count "\<lambda>n s. s\<lparr>sj_exam_question_count := n\<rparr>"
  by unfold_locales simp_all

interpretation termc: counter tm_id tm_exam_count "\<lambda>n t. t\<lparr>tm_exam_count := n\<rparr>"
  by unfold_locales simp_all

interpretation examc: counter ex_id ex_result_count "\<lambda>n x. x\<lparr>ex_result_count := n\<rparr>"
  by unfold_locales simp_all

definition exam_counts_ok :: "exam_db \<Rightarrow> bool" where
  "exam_counts_ok db \<longleftrightarrow>
     keyed ex_id (xd_exams db) \<and> keyed qu_id (xd_questions db) \<and> keyed er_key (xd_results db) \<and>
     counts_exact sj_id sj_exam_question_count qu_subject (xd_subjects db) (xd_questions db) \<and>
     counts_exact tm_id tm_exam_count ex_term (xd_terms db) (xd_exams db) \<and>
     counts_exact ex_id ex_result_count er_exam (xd_exams db) (xd_results db) \<and>
     er_exam ` set (xd_results db) \<subseteq> ex_id ` set (xd_exams db)"

text \<open>The committed transactions, with any arguments a stale read could give them.\<close>

inductive exam_step :: "exam_db \<Rightarrow> exam_db \<Rightarrow> bool" where
  x_create: "fresh \<notin> ex_id ` set (xd_exams db) \<Longrightarrow>
    exam_step db (fst (exam_db_create db creator cc trm title descr kind sc mx rejoin review draft fresh))"
| x_update: "exam_step db (fst (update_if_unchanged db expected new))"
| x_delete: "exam_step db (fst (exam_delete db target))"
| x_attempt: "exam_step db (fst (attempt_create db a c now))"
| x_finish: "exam_step db (fst (attempt_finish db a now))"
| x_left: "exam_step db (fst (set_left db a left))"
| x_stamp: "exam_step db (stamp_left_if_running db key now)"
| x_answer: "exam_step db (fst (answer_save db q user seq sel txt now))"
| x_insert: "fresh \<notin> qu_id ` set (xd_questions db) \<Longrightarrow>
    exam_step db (fst (question_insert db e subject txt points spec from_bank fresh))"
| x_question: "exam_step db (fst (question_update db q subject txt points spec))"
| x_link: "exam_step db (fst (link_banked_as db q template))"
| x_qdelete: "exam_step db (fst (question_delete db q))"
| x_grade: "exam_step db (fst (db_grade db e user seq mark grader kind))"
| x_remove: "exam_step db (fst (db_remove db e user kind))"
| x_add_audience: "exam_step db (fst (add_audience db x target))"
| x_remove_audience: "exam_step db (fst (remove_audience db x target))"

inductive exam_reachable :: "exam_db \<Rightarrow> bool" where
  xr_empty: "xd_exams db = [] \<Longrightarrow> xd_questions db = [] \<Longrightarrow> xd_results db = [] \<Longrightarrow>
    (\<forall>s \<in> set (xd_subjects db). sj_exam_question_count s = 0) \<Longrightarrow> (\<forall>t \<in> set (xd_terms db). tm_exam_count t = 0) \<Longrightarrow>
    exam_reachable db"
| xr_step: "exam_reachable db \<Longrightarrow> exam_step db db' \<Longrightarrow> exam_reachable db'"


section \<open>Frames\<close>

lemma run_tx_inv: "P d \<Longrightarrow> (\<And>d' v. f d = (d', Inr v) \<Longrightarrow> P d') \<Longrightarrow> P (fst (run_tx f d))"
  by (auto simp: run_tx_def split: prod.split sum.split)

lemma counts_tx:
  "exam_counts_ok d \<Longrightarrow> (\<And>d' v. f d = (d', Inr v) \<Longrightarrow> exam_counts_ok d') \<Longrightarrow> exam_counts_ok (fst (run_tx f d))"
  by (rule run_tx_inv)

lemma counts_frame:
  assumes "exam_counts_ok db" "xd_exams db' = xd_exams db" "xd_questions db' = xd_questions db"
    "xd_results db' = xd_results db" "xd_subjects db' = xd_subjects db" "xd_terms db' = xd_terms db"
  shows "exam_counts_ok db'"
  using assms by (simp add: exam_counts_ok_def)

lemma counts_upd [simp]:
  "exam_counts_ok (db\<lparr>xd_answers := as\<rparr>) = exam_counts_ok db" "exam_counts_ok (db\<lparr>xd_attempts := ts\<rparr>) = exam_counts_ok db"
  "exam_counts_ok (db\<lparr>xd_audience := au\<rparr>) = exam_counts_ok db"
  by (simp_all add: exam_counts_ok_def)

lemma refs_to_replace:
  assumes "keyed key rows" "find_row key rows k = Some x"
  shows "refs_to ref j (on_row key k (\<lambda>_. new) rows)
    = refs_to ref j rows - (if ref x = j then 1 else 0) + (if ref new = j then 1 else 0)"
  using assms
proof (induction rows)
  case (Cons r rows)
  show ?case
  proof (cases "key r = k")
    case True
    then have "k \<notin> key ` set rows" using Cons.prems(1) by (auto simp: keyed_def)
    then have "on_row key k (\<lambda>_. new) rows = rows" unfolding on_row_def by (induction rows) auto
    with True Cons.prems(2) show ?thesis by (auto simp: on_row_def find_row_def refs_to_Cons)
  next
    case False
    with Cons show ?thesis by (auto simp: on_row_def find_row_def keyed_def refs_to_Cons)
  qed
qed simp

lemma keyed_unique: "keyed key rows \<Longrightarrow> find_row key rows k = Some x \<Longrightarrow> r \<in> set rows \<Longrightarrow> key r = k \<Longrightarrow> r = x"
  using keyed_find_row by fastforce

lemma keyed_filter_one: "keyed key rows \<Longrightarrow> find_row key rows k = Some x \<Longrightarrow> filter (\<lambda>r. key r = k) rows = [x]"
proof (induction rows)
  case (Cons r rows)
  then show ?case
    by (cases "key r = k") (auto simp: find_row_def keyed_def filter_empty_conv image_iff)
qed simp


section \<open>Each transaction keeps the counters\<close>

lemma counts_create:
  assumes ok: "exam_counts_ok db" and fresh: "fresh \<notin> ex_id ` set (xd_exams db)"
  shows "exam_counts_ok (fst (exam_db_create db creator cc trm title descr kind sc mx rejoin review draft fresh))"
  unfolding exam_db_create_def
proof (rule counts_tx [OF ok])
  fix d v
  let ?e = "\<lparr>ex_id = fresh, ex_creator = creator, ex_class_course = cc, ex_term = trm, ex_title = title,
        ex_description = descr, ex_kind = kind, ex_mode = sc_mode sc, ex_starts_at = sc_starts_at sc,
        ex_ends_at = sc_ends_at sc, ex_duration_ms = sc_duration_ms sc, ex_max_attempts = mx,
        ex_allow_rejoin = rejoin, ex_allow_review = review, ex_draft = draft, ex_result_count = 0\<rparr>"
  assume "exam_insert_in ?e db = (d, Inr v)"
  then have d: "xd_terms d = on_row tm_id trm (\<lambda>t. t\<lparr>tm_exam_count := tm_exam_count t + 1\<rparr>) (xd_terms db)"
    "xd_exams d = xd_exams db @ [?e]" "xd_questions d = xd_questions db" "xd_results d = xd_results db"
    "xd_subjects d = xd_subjects db"
    by (auto simp: exam_insert_in_def split: if_splits)
  have "fresh \<notin> er_exam ` set (xd_results db)" using ok fresh by (auto simp: exam_counts_ok_def)
  then have "counts_exact ex_id ex_result_count er_exam (xd_exams d) (xd_results d)"
    using ok examc.exact_new [of er_exam "xd_exams db" "xd_results db" ?e] by (simp add: exam_counts_ok_def d)
  moreover have "counts_exact tm_id tm_exam_count ex_term (xd_terms d) (xd_exams d)"
    using ok termc.exact_claim [of ex_term "xd_terms db" "xd_exams db" ?e trm] by (simp add: exam_counts_ok_def d)
  ultimately show "exam_counts_ok d"
    using ok fresh by (auto simp: exam_counts_ok_def d(2-5) keyed_snoc)
qed

lemma update_writes:
  "fst (update_if_unchanged db expected new) \<in>
     {db, db\<lparr>xd_exams := on_row ex_id (ex_id expected) (merged_into new) (xd_exams db)\<rparr>}"
  unfolding update_if_unchanged_def by (rule run_tx_inv) (auto simp: Let_def split: if_splits option.splits)

lemma merged_keeps [simp]:
  "ex_id (merged_into new x) = ex_id x" "ex_term (merged_into new x) = ex_term x"
  "ex_result_count (merged_into new x) = ex_result_count x"
  by (simp_all add: merged_into_def)

lemma exam_ids_on_row: "(\<And>x. ex_id (f x) = ex_id x) \<Longrightarrow> ex_id ` set (on_row key k f rows) = ex_id ` set rows"
  by (metis list.set_map map_on_row)

lemma counts_update:
  assumes ok: "exam_counts_ok db"
  shows "exam_counts_ok (fst (update_if_unchanged db expected new))"
proof -
  let ?xs = "on_row ex_id (ex_id expected) (merged_into new) (xd_exams db)"
  have "counts_exact tm_id tm_exam_count ex_term (xd_terms db) ?xs"
    using ok by (auto simp: exam_counts_ok_def refs_to_on_row elim: counts_exact_refs)
  then have "exam_counts_ok (db\<lparr>xd_exams := ?xs\<rparr>)"
    using ok by (simp add: exam_counts_ok_def keyed_on_row counts_exact_on_row exam_ids_on_row)
  with ok update_writes [of db expected new] show ?thesis by auto
qed

lemma counts_delete:
  assumes ok: "exam_counts_ok db"
  shows "exam_counts_ok (fst (exam_delete db target))"
proof -
  let ?k = "ex_id target"
  have "exam_counts_ok (fst (run_tx (exam_delete_in ?k) db))"
  proof (rule counts_tx [OF ok])
    fix d v
    assume run: "exam_delete_in ?k db = (d, Inr v)"
    then obtain e where e: "exam_read db ?k = Some e" by (auto simp: exam_delete_in_def split: option.splits)
    then have f: "find_row ex_id (xd_exams db) ?k = Some e" by (simp add: exam_read_def)
    let ?n = "\<lambda>s. refs_to qu_subject s (filter (\<lambda>q. qu_exam q = ?k) (xd_questions db))"
    have d: "xd_results d = filter (\<lambda>r. \<not> er_exam r = ?k) (xd_results db)"
      "xd_questions d = filter (\<lambda>q. \<not> qu_exam q = ?k) (xd_questions db)"
      "xd_exams d = filter (\<lambda>x. \<not> ex_id x = ?k) (xd_exams db)"
      "xd_subjects d = map (\<lambda>s. if ?n (sj_id s) = 0 then s
         else s\<lparr>sj_exam_question_count := max (sj_exam_question_count s - ?n (sj_id s)) 0\<rparr>) (xd_subjects db)"
      "xd_terms d = on_row tm_id (ex_term e) (\<lambda>t. t\<lparr>tm_exam_count := max (tm_exam_count t - 1) 0\<rparr>) (xd_terms db)"
      using run e by (auto simp: exam_delete_in_def Let_def)
    have "counts_exact sj_id sj_exam_question_count qu_subject (xd_subjects d) (xd_questions d)"
      unfolding d using ok by (intro subj.exact_release) (auto simp: exam_counts_ok_def)
    moreover have "counts_exact tm_id tm_exam_count ex_term (xd_terms d) (xd_exams d)"
    proof -
      have kx: "keyed ex_id (xd_exams db)" using ok by (simp add: exam_counts_ok_def)
      show ?thesis unfolding d
        using ok keyed_unique [OF kx f] keyed_filter_one [OF kx f]
        by (intro termc.exact_release_one) (auto simp: exam_counts_ok_def)
    qed
    moreover have other: "refs_to er_exam j (filter (\<lambda>r. \<not> er_exam r = ?k) rs) = refs_to er_exam j rs" if "j \<noteq> ?k" for j and rs :: "exam_result list"
      using that by (induction rs) (auto simp: refs_to_Cons)
    have "counts_exact ex_id ex_result_count er_exam (xd_exams d) (xd_results d)"
      unfolding counts_exact_def
    proof
      fix x assume "x \<in> set (xd_exams d)"
      then have x: "x \<in> set (xd_exams db)" "ex_id x \<noteq> ?k" by (auto simp: d(3))
      then have "ex_result_count x = refs_to er_exam (ex_id x) (xd_results db)"
        using ok by (simp add: exam_counts_ok_def counts_exact_def)
      then show "ex_result_count x = refs_to er_exam (ex_id x) (xd_results d)" using other [OF x(2)] d(1) by simp
    qed
    ultimately show "exam_counts_ok d"
      using ok by (auto simp: exam_counts_ok_def d(1-3) keyed_filter)
  qed
  then show ?thesis using ok by (auto simp: exam_delete_def split: sum.split prod.splits)
qed

lemma counts_question_insert:
  assumes ok: "exam_counts_ok db" and fresh: "fresh \<notin> qu_id ` set (xd_questions db)"
  shows "exam_counts_ok (fst (question_insert db e subject txt points spec from_bank fresh))"
  unfolding question_insert_def
proof (rule counts_tx [OF ok], goal_cases)
  case (1 d v)
  then obtain q where d: "d = db\<lparr>xd_subjects := claim_subject subject (xd_subjects db), xd_questions := xd_questions db @ [q]\<rparr>"
    "qu_subject q = subject" "qu_id q = fresh"
    by (auto simp: Let_def split: sum.splits if_splits option.splits)
  have "counts_exact sj_id sj_exam_question_count qu_subject (xd_subjects d) (xd_questions d)"
    using ok subj.exact_claim [of qu_subject "xd_subjects db" "xd_questions db" q subject] d
    by (simp add: exam_counts_ok_def claim_subject_def)
  then show ?case using ok fresh d by (auto simp: exam_counts_ok_def keyed_snoc)
qed

lemma counts_question_delete:
  assumes ok: "exam_counts_ok db"
  shows "exam_counts_ok (fst (question_delete db q))"
  unfolding question_delete_def
proof (rule counts_tx [OF ok], goal_cases)
  case (1 d v)
  then obtain x where x: "find_row qu_id (xd_questions db) (qu_id q) = Some x"
    and d: "xd_questions d = filter (\<lambda>y. \<not> qu_id y = qu_id q) (xd_questions db)"
      "xd_subjects d = release_subject (qu_subject x) (xd_subjects db)"
      "xd_exams d = xd_exams db" "xd_results d = xd_results db" "xd_terms d = xd_terms db"
    by (auto simp: Let_def split: sum.splits if_splits option.splits)
  have k: "keyed qu_id (xd_questions db)" using ok by (simp add: exam_counts_ok_def)
  have "counts_exact sj_id sj_exam_question_count qu_subject (xd_subjects d) (xd_questions d)"
    unfolding d release_subject_def using ok keyed_unique [OF k x] keyed_filter_one [OF k x]
    by (intro subj.exact_release_one) (auto simp: exam_counts_ok_def)
  then show ?case using ok d by (auto simp: exam_counts_ok_def keyed_filter)
qed

lemma counts_question_update:
  assumes ok: "exam_counts_ok db"
  shows "exam_counts_ok (fst (question_update db q subject txt points spec))"
  unfolding question_update_def
proof (rule counts_tx [OF ok], goal_cases)
  case (1 d v)
  then obtain x where x: "find_row qu_id (xd_questions db) (qu_id q) = Some x" "qu_subject x = qu_subject q"
    and new: "qu_id v = qu_id x" "qu_subject v = subject"
    and d: "xd_questions d = on_row qu_id (qu_id q) (\<lambda>_. v) (xd_questions db)"
      "xd_subjects d = (if subject \<noteq> qu_subject q
         then claim_subject subject (release_subject (qu_subject q) (xd_subjects db)) else xd_subjects db)"
      "xd_exams d = xd_exams db" "xd_results d = xd_results db" "xd_terms d = xd_terms db"
    by (auto simp: Let_def split: sum.splits if_splits option.splits)
  have k: "keyed qu_id (xd_questions db)" using ok by (simp add: exam_counts_ok_def)
  have idx: "qu_id x = qu_id q" "x \<in> set (xd_questions db)" using x(1) by (auto dest: find_row_SomeD)
  have one: "1 \<le> refs_to qu_subject (qu_subject q) (xd_questions db)"
  proof -
    have "qu_subject q \<in> qu_subject ` set (xd_questions db)" using idx(2) x(2) by (metis imageI)
    then have "refs_to qu_subject (qu_subject q) (xd_questions db) \<noteq> 0" using refs_to_zero by metis
    with refs_to_nonneg [of qu_subject "qu_subject q" "xd_questions db"] show ?thesis by linarith
  qed
  have "counts_exact sj_id sj_exam_question_count qu_subject (xd_subjects d) (xd_questions d)"
    unfolding counts_exact_def d(1) refs_to_replace [OF k x(1)]
  proof
    fix c assume "c \<in> set (xd_subjects d)"
    then obtain y where y: "y \<in> set (xd_subjects db)" "sj_id c = sj_id y"
      "sj_exam_question_count c = (if subject = qu_subject q then sj_exam_question_count y
         else if sj_id y = subject then sj_exam_question_count y + 1
         else if sj_id y = qu_subject q then max (sj_exam_question_count y - 1) 0 else sj_exam_question_count y)"
      unfolding d(2) claim_subject_def release_subject_def on_row_def by (auto split: if_splits)
    moreover have "sj_exam_question_count y = refs_to qu_subject (sj_id y) (xd_questions db)"
      using ok y(1) by (simp add: exam_counts_ok_def counts_exact_def)
    ultimately show "sj_exam_question_count c = refs_to qu_subject (sj_id c) (xd_questions db)
        - (if qu_subject x = sj_id c then 1 else 0) + (if qu_subject v = sj_id c then 1 else 0)"
      using one x(2) new(2) by (cases "sj_id y = qu_subject q") auto
  qed
  moreover have "keyed qu_id (xd_questions d)"
  proof -
    have "map qu_id (xd_questions d) = map qu_id (xd_questions db)" unfolding d on_row_def using new idx by simp
    with k show ?thesis by (simp add: keyed_def)
  qed
  ultimately show ?case using ok d by (auto simp: exam_counts_ok_def)
qed

lemma put_mark_keeps:
  assumes "keyed er_key rows"
  shows "keyed er_key (put_mark row rows)"
    "er_exam ` set (put_mark row rows) \<subseteq> insert (er_exam row) (er_exam ` set rows)"
    "refs_to er_exam k (put_mark row rows) = refs_to er_exam k rows +
       (if find_row er_key rows (er_key row) = None \<and> er_exam row = k then 1 else 0)"
proof -
  have "keyed er_key (put_mark row rows) \<and> er_exam ` set (put_mark row rows) \<subseteq> insert (er_exam row) (er_exam ` set rows) \<and>
    refs_to er_exam k (put_mark row rows) = refs_to er_exam k rows +
       (if find_row er_key rows (er_key row) = None \<and> er_exam row = k then 1 else 0)"
  proof (cases "find_row er_key rows (er_key row)")
    case None
    then have "put_mark row rows = rows @ [row]" by (simp add: put_mark_def)
    moreover have "er_key row \<notin> er_key ` set rows" using None by (simp add: find_row_None_iff)
    ultimately have "put_mark row rows = rows @ [row]" "er_key row \<notin> er_key ` set rows" by simp_all
    with None assms show ?thesis by (auto simp: keyed_snoc)
  next
    case (Some old)
    then have p: "put_mark row rows = on_row er_key (er_key row)
        (\<lambda>x. x\<lparr>er_mark := er_mark row, er_graded_by := er_graded_by row\<rparr>) rows" by (simp add: put_mark_def)
    have "keyed er_key (put_mark row rows)"
      unfolding p using assms by (subst keyed_on_row) (simp_all add: er_key_def)
    moreover have "er_exam ` set (put_mark row rows) \<subseteq> er_exam ` set rows"
      unfolding p by (auto simp: on_row_def)
    moreover have "refs_to er_exam k (put_mark row rows) = refs_to er_exam k rows"
      unfolding p by (simp add: refs_to_on_row)
    ultimately show ?thesis using Some by auto
  qed
  then show "keyed er_key (put_mark row rows)"
    "er_exam ` set (put_mark row rows) \<subseteq> insert (er_exam row) (er_exam ` set rows)"
    "refs_to er_exam k (put_mark row rows) = refs_to er_exam k rows +
       (if find_row er_key rows (er_key row) = None \<and> er_exam row = k then 1 else 0)"
    by blast+
qed

lemma grade_in_writes:
  assumes "grade_in e user seq mark grader kind db = (d, Inr v)"
  shows "e \<in> ex_id ` set (xd_exams db)"
    "xd_exams d = (if find_row er_key (xd_results db) (e, user, seq) = None
       then on_row ex_id e (\<lambda>x. x\<lparr>ex_result_count := ex_result_count x + 1\<rparr>) (xd_exams db) else xd_exams db)"
    "xd_results d = put_mark \<lparr>er_exam = e, er_user = user, er_seq = seq, er_mark = mark, er_graded_by = grader\<rparr> (xd_results db)"
    "xd_questions d = xd_questions db" "xd_subjects d = xd_subjects db" "xd_terms d = xd_terms db"
proof -
  obtain x where x: "exam_read db e = Some x" using assms by (auto simp: grade_in_def split: option.splits)
  then show "e \<in> ex_id ` set (xd_exams db)" by (auto simp: exam_read_def dest: find_row_SomeD)
  show "xd_exams d = (if find_row er_key (xd_results db) (e, user, seq) = None
       then on_row ex_id e (\<lambda>x. x\<lparr>ex_result_count := ex_result_count x + 1\<rparr>) (xd_exams db) else xd_exams db)"
    "xd_results d = put_mark \<lparr>er_exam = e, er_user = user, er_seq = seq, er_mark = mark, er_graded_by = grader\<rparr> (xd_results db)"
    "xd_questions d = xd_questions db" "xd_subjects d = xd_subjects db" "xd_terms d = xd_terms db"
    using assms x by (auto simp: grade_in_def Let_def claim_mark_def split: option.splits if_splits sum.splits)
qed

lemma counts_grade:
  assumes ok: "exam_counts_ok db"
  shows "exam_counts_ok (fst (db_grade db e user seq mark grader kind))"
  unfolding db_grade_def
proof (rule counts_tx [OF ok])
  fix d v
  assume "grade_in e user seq mark grader kind db = (d, Inr v)"
  note d = grade_in_writes [OF this]
  let ?row = "\<lparr>er_exam = e, er_user = user, er_seq = seq, er_mark = mark, er_graded_by = grader\<rparr>"
  have k: "keyed er_key (xd_results db)" using ok by (simp add: exam_counts_ok_def)
  note pm = put_mark_keeps [OF k, where row = ?row]
  have key: "er_key ?row = (e, user, seq)" by (simp add: er_key_def)
  have "counts_exact ex_id ex_result_count er_exam (xd_exams d) (xd_results d)"
    using ok pm(3) unfolding counts_exact_def d(2,3) key
    by (auto simp: exam_counts_ok_def counts_exact_def on_row_def)
  moreover have "counts_exact tm_id tm_exam_count ex_term (xd_terms d) (xd_exams d)"
    using ok by (auto simp: exam_counts_ok_def d(2,6) refs_to_on_row elim: counts_exact_refs)
  moreover have "ex_id ` set (xd_exams d) = ex_id ` set (xd_exams db)" by (simp add: d(2) exam_ids_on_row)
  moreover have "er_exam ` set (xd_results d) \<subseteq> ex_id ` set (xd_exams db)"
    using ok d(1) pm(2) unfolding d(3) by (simp add: exam_counts_ok_def) blast
  moreover have "keyed ex_id (xd_exams d)" using ok by (simp add: exam_counts_ok_def d(2) keyed_on_row)
  ultimately show "exam_counts_ok d"
    using ok pm(1) by (simp add: exam_counts_ok_def d(3-5))
qed

lemma counts_remove:
  assumes ok: "exam_counts_ok db"
  shows "exam_counts_ok (fst (db_remove db e user kind))"
  unfolding db_remove_def
proof (rule counts_tx [OF ok], goal_cases)
  case (1 d v)
  let ?P = "\<lambda>r. er_exam r = e \<and> er_user r = user"
  let ?n = "int (length (filter ?P (xd_results db)))"
  show ?case
  proof (cases "filter ?P (xd_results db) = []")
    case True
    with 1 ok show ?thesis by (simp add: Let_def)
  next
    case False
    let ?g = "sort_key er_seq (filter ?P (xd_results db))"
    have "set ?g = set (filter ?P (xd_results db))" by (rule set_sort)
    with False have ne: "?g \<noteq> []" by (metis set_empty)
    have d: "xd_results d = filter (\<lambda>r. \<not> ?P r) (xd_results db)"
      "xd_exams d = on_row ex_id e (\<lambda>x. x\<lparr>ex_result_count := max (ex_result_count x - ?n) 0\<rparr>) (xd_exams db)"
      "xd_questions d = xd_questions db" "xd_subjects d = xd_subjects db" "xd_terms d = xd_terms db"
      using 1 [symmetric] ne by (simp_all add: Let_def split del: if_split)
    have "counts_exact ex_id ex_result_count er_exam (xd_exams d) (xd_results d)"
      unfolding d using ok by (intro examc.exact_release_one) (auto simp: exam_counts_ok_def)
    moreover have "counts_exact tm_id tm_exam_count ex_term (xd_terms d) (xd_exams d)"
      using ok by (auto simp: exam_counts_ok_def d(2,5) refs_to_on_row elim: counts_exact_refs)
    moreover have "ex_id ` set (xd_exams d) = ex_id ` set (xd_exams db)" by (simp add: d(2) exam_ids_on_row)
    moreover have "er_exam ` set (xd_results d) \<subseteq> er_exam ` set (xd_results db)" by (auto simp: d(1))
    ultimately show ?thesis
      using ok by (auto simp: exam_counts_ok_def d(1-4) keyed_on_row keyed_filter)
  qed
qed

lemma exam_step_counts: "exam_step db db' \<Longrightarrow> exam_counts_ok db \<Longrightarrow> exam_counts_ok db'"
proof (induction rule: exam_step.induct)
  case (x_attempt db a c now)
  then show ?case by (cases rule: create_cases [of db a c now]) (auto elim: counts_frame)
next
  case (x_answer db q user seq sel tx now)
  have "exam_counts_ok (fst (run_tx (answer_save_in q user seq s t now) db))" for s t
    by (rule counts_tx [OF x_answer.prems])
      (use x_answer.prems in \<open>auto simp: answer_save_in_def Let_def split: if_splits option.splits\<close>)
  with x_answer show ?case by (auto simp: answer_save_def split: sum.split prod.split)
next
  case (x_link db q template)
  let ?qs = "on_row qu_id (qu_id q) (\<lambda>y. y\<lparr>qu_banked_as := Some template\<rparr>) (xd_questions db)"
  have "counts_exact sj_id sj_exam_question_count qu_subject (xd_subjects db) ?qs"
    using x_link by (auto simp: exam_counts_ok_def refs_to_on_row elim: counts_exact_refs)
  with x_link show ?case by (auto simp: link_banked_as_def exam_counts_ok_def keyed_on_row split: option.split)
next
  case (x_finish db a now)
  then show ?case by (auto simp: attempt_finish_def split: option.split)
next
  case (x_left db a left)
  then show ?case by (auto simp: set_left_def split: option.split)
next
  case (x_stamp db key now)
  then show ?case by (auto simp: stamp_left_if_running_def split: option.split)
next
  case (x_add_audience db x target)
  then show ?case by (auto simp: add_audience_def split: sum.split)
next
  case (x_remove_audience db x target)
  then show ?case by (auto simp: remove_audience_def split: sum.split)
qed (simp_all add: counts_create counts_update counts_delete counts_question_insert counts_question_update
    counts_question_delete counts_grade counts_remove)

lemma exam_reachable_counts: "exam_reachable db \<Longrightarrow> exam_counts_ok db"
proof (induction rule: exam_reachable.induct)
  case (xr_empty db)
  then show ?case by (simp add: exam_counts_ok_def keyed_def counts_exact_def)
qed (rule exam_step_counts)

end
