(* ===== verification/Exam_Properties.thy ===== *)
theory Exam_Properties
  imports Exam_Counters
begin

text \<open>
  The properties of the exam tables that rest on the counters and on the transactions' guards, and
  those of questions and scores.
\<close>

section \<open>An atomic patch\<close>

text \<open>What a PATCH promises: the patch is merged over the stored row and the result stored, in one step.\<close>

definition patch_atomically :: "exam_patch \<Rightarrow> ustr \<Rightarrow> exam_db \<Rightarrow> exam_db \<times> exam aresult" where
  "patch_atomically patch key db =
     (case exam_read db key of
        None \<Rightarrow> (db, Inl NotFound)
      | Some x \<Rightarrow>
          (case merge_patch patch x of
             Inl e \<Rightarrow> (db, Inl e)
           | Inr new \<Rightarrow> (db\<lparr>xd_exams := on_row ex_id key (merged_into new) (xd_exams db)\<rparr>, Inr new)))"

text \<open>The database after the rivals of the rounds up to \<open>n\<close>.\<close>

primrec after_rivals :: "(nat \<Rightarrow> exam_db \<Rightarrow> exam_db) \<Rightarrow> nat \<Rightarrow> exam_db \<Rightarrow> nat \<Rightarrow> exam_db" where
  "after_rivals rivals k db 0 = rivals k db"
| "after_rivals rivals k db (Suc n) = after_rivals rivals (Suc k) (rivals k db) n"

lemma merged_into_twice [simp]: "merged_into (merged_into new x) = merged_into new"
  by (rule ext) (simp add: merged_into_def)

lemma merge_patch_same:
  assumes "same_columns x cur" "merge_patch patch cur = Inr new"
  shows "merge_patch patch x = Inr (merged_into new x)"
proof -
  have same: "ex_title x = ex_title cur" "ex_description x = ex_description cur" "ex_kind x = ex_kind cur"
    "ex_mode x = ex_mode cur" "ex_starts_at x = ex_starts_at cur" "ex_ends_at x = ex_ends_at cur"
    "ex_duration_ms x = ex_duration_ms cur" "ex_max_attempts x = ex_max_attempts cur"
    "ex_allow_rejoin x = ex_allow_rejoin cur" "ex_allow_review x = ex_allow_review cur" "ex_draft x = ex_draft cur"
    using assms(1) by (simp_all add: same_columns_def)
  show ?thesis
    using assms(2) unfolding merge_patch_def same
    by (clarsimp simp: merged_into_def)
qed

lemma update_if_unchanged_Some:
  assumes "update_if_unchanged db cur new = (db', Inr (Some e))"
  shows "\<exists>x. exam_read db (ex_id cur) = Some x \<and> same_columns x cur \<and> e = merged_into new x \<and>
    db' = db\<lparr>xd_exams := on_row ex_id (ex_id cur) (merged_into new) (xd_exams db)\<rparr>"
  using assms unfolding update_if_unchanged_def run_tx_Inr
  by (auto simp: Let_def split: if_splits option.splits)

lemma update_if_unchanged_None: "update_if_unchanged db cur new = (db', Inr None) \<Longrightarrow> db' = db"
  unfolding update_if_unchanged_def run_tx_Inr by (auto simp: Let_def split: if_splits option.splits)

lemma exam_update_rounds_atomic:
  assumes "exam_update_rounds left k rivals db key patch = (db', Inr e)"
  shows "\<exists>n < left. patch_atomically patch key (after_rivals rivals k db n) = (db', Inr e)"
  using assms
proof (induction left arbitrary: k db)
  case (Suc left)
  from Suc.prems obtain cur new where cur: "exam_read db key = Some cur" "merge_patch patch cur = Inr new"
    by (auto split: option.splits sum.splits)
  then have id: "ex_id cur = key" by (auto simp: exam_read_def dest: find_row_SomeD)
  obtain d r where u: "update_if_unchanged (rivals k db) cur new = (d, r)" by force
  show ?case
  proof (cases r)
    case (Inl err)
    with Suc.prems cur u show ?thesis by (auto split: sum.splits)
  next
    case (Inr o')
    show ?thesis
    proof (cases o')
      case None
      then have "d = rivals k db" using u Inr update_if_unchanged_None by blast
      with Suc.prems cur u Inr None have "exam_update_rounds left (Suc k) rivals (rivals k db) key patch = (db', Inr e)"
        by (auto split: sum.splits)
      from Suc.IH [OF this] obtain n where "n < left"
        "patch_atomically patch key (after_rivals rivals (Suc k) (rivals k db) n) = (db', Inr e)" by blast
      then show ?thesis by (intro exI [of _ "Suc n"]) simp
    next
      case (Some e')
      with Suc.prems cur u Inr have "e' = e" "d = db'" by (auto split: sum.splits)
      with u Inr Some obtain x where x: "exam_read (rivals k db) key = Some x" "same_columns x cur" "e = merged_into new x"
        "db' = (rivals k db)\<lparr>xd_exams := on_row ex_id key (merged_into new) (xd_exams (rivals k db))\<rparr>"
        using update_if_unchanged_Some [of "rivals k db" cur new db' e] id by auto
      from x merge_patch_same [OF x(2) cur(2)] have "patch_atomically patch key (rivals k db) = (db', Inr e)"
        by (simp add: patch_atomically_def)
      then show ?thesis by (intro exI [of _ 0]) simp
    qed
  qed
qed simp


section \<open>Choices\<close>

definition choices_ok :: "choice list \<Rightarrow> choice list \<Rightarrow> (ustr \<times> ustr) list \<Rightarrow> ustr list \<Rightarrow> bool" where
  "choices_ok existing resolved keys gen \<longleftrightarrow>
     distinct (map ch_id resolved) \<and> distinct gen \<and> set gen \<inter> ch_id ` set existing = {} \<and>
     ch_id ` set resolved \<inter> set gen = {} \<and> ch_id ` set resolved \<inter> ch_id ` set existing \<subseteq> fst ` set keys \<and>
     snd ` set keys \<subseteq> ch_id ` set resolved \<and> (\<forall>c \<in> set resolved. choice_text_try_new (ch_text c) = Inr (ch_text c))"

lemma choice_text_self: "choice_text_try_new t = Inr v \<Longrightarrow> v = t"
  by (auto simp: choice_text_try_new_def)

lemma choices_ok_new:
  assumes "choices_ok existing resolved keys (g # gen)" "choice_text_try_new t = Inr v"
  shows "choices_ok existing (resolved @ [\<lparr>ch_id = g, ch_text = v\<rparr>]) keys gen"
    "choices_ok existing (resolved @ [\<lparr>ch_id = g, ch_text = v\<rparr>]) (keys @ [(key, g)]) gen"
  using assms choice_text_self [OF assms(2)] by (auto simp: choices_ok_def)

lemma choices_ok_kept:
  assumes "choices_ok existing resolved keys gen" "find_row ch_id existing key = Some c"
    "key \<notin> fst ` set keys" "choice_text_try_new t = Inr v"
  shows "choices_ok existing (resolved @ [\<lparr>ch_id = ch_id c, ch_text = v\<rparr>]) (keys @ [(key, ch_id c)]) gen"
proof -
  have c: "ch_id c = key" "ch_id c \<in> ch_id ` set existing" using assms(2) by (auto dest: find_row_SomeD)
  then have "ch_id c \<notin> ch_id ` set resolved" "ch_id c \<notin> set gen" using assms(1,3) by (auto simp: choices_ok_def)
  with c assms choice_text_self [OF assms(4)] show ?thesis by (auto simp: choices_ok_def)
qed

lemma resolve_choices_ok:
  assumes "resolve_choices existing keys resolved gen inputs = Inr (cs, ks)" "length inputs \<le> length gen"
    "choices_ok existing resolved keys gen"
  shows "length cs = length resolved + length inputs \<and> (\<exists>gen'. choices_ok existing cs ks gen')"
  using assms
proof (induction existing keys resolved gen inputs rule: resolve_choices.induct)
  case (1 existing keys resolved gen)
  then show ?case by auto
next
  case (2 existing keys resolved gen input inputs)
  obtain g gs where g: "gen = g # gs" using "2.prems"(2) by (cases gen) auto
  obtain v where v: "choice_text_try_new (ci_text input) = Inr v"
    using "2.prems"(1) by (auto simp: Let_def split: option.splits if_splits prod.splits)
  show ?case
  proof (cases "ci_id input")
    case None
    then show ?thesis using "2.prems" "2.IH"(1) [OF None, of v] v g choices_ok_new(1) [OF "2.prems"(3) [unfolded g] v]
      by simp
  next
    case (Some key)
    then have nk: "\<not> list_ex (\<lambda>k. fst k = key) keys" using "2.prems"(1) by (auto split: if_splits)
    then have nk': "key \<notin> fst ` set keys" by (auto simp: list_ex_iff)
    show ?thesis
    proof (cases "find_row ch_id existing key")
      case None
      then show ?thesis
        using "2.prems" "2.IH"(2) [OF Some nk, of "(g, gs)" g gs v] Some nk v g
          choices_ok_new(2) [OF "2.prems"(3) [unfolded g] v, of key] by simp
    next
      case (Some c)
      then show ?thesis
        using "2.prems" "2.IH"(2) [OF \<open>ci_id input = Some key\<close> nk, of "(ch_id c, gen)" "ch_id c" gen v] nk v
          \<open>ci_id input = Some key\<close> choices_ok_kept [OF "2.prems"(3) Some nk' v] by simp
    qed
  qed
qed


section \<open>Questions and their scores\<close>

text \<open>What a stored question looks like: a text question has no choices; a choice question has
  two to ten with different ids, and the correct one is among them.\<close>

definition spec_ok :: "question_spec \<Rightarrow> bool" where
  "spec_ok s \<longleftrightarrow>
     (case (qs_choices s, qs_correct s) of
        (None, None) \<Rightarrow> qs_kind s = u ''text''
      | (Some cs, Some c) \<Rightarrow> qs_kind s \<noteq> u ''text'' \<and> 2 \<le> length cs \<and> length cs \<le> 10 \<and>
          distinct (map ch_id cs) \<and> c \<in> ch_id ` set cs
      | _ \<Rightarrow> False)"

lemma spec_of_choices:
  assumes "resolve_choices existing [] [] gen inputs = Inr (cs, ks)" "length inputs \<le> length gen"
    "distinct gen" "set gen \<inter> ch_id ` set existing = {}"
  shows "length cs = length inputs" "distinct (map ch_id cs)" "snd ` set ks \<subseteq> ch_id ` set cs"
  using resolve_choices_ok [OF assms(1,2)] assms(3,4) by (auto simp: choices_ok_def)

lemma auto_score_loop_eq:
  "auto_score_loop answers earned possible qs =
     (earned + (\<Sum>q \<leftarrow> filter (\<lambda>q. \<exists>a \<in> set answers. an_question a = qu_id q \<and> is_correct a q = Some True) qs. qu_points q),
      possible + (\<Sum>q \<leftarrow> filter (\<lambda>q. qu_correct q \<noteq> None) qs. qu_points q))"
  by (induction qs arbitrary: earned possible)
    (auto simp: is_correct_def list_ex_iff split: option.splits)

lemma filtered_sum_le:
  assumes "\<And>q. q \<in> set qs \<Longrightarrow> P q \<Longrightarrow> Q q" "\<forall>q \<in> set qs. (0 :: int) < f q"
  shows "(\<Sum>q \<leftarrow> filter P qs. f q) \<le> (\<Sum>q \<leftarrow> filter Q qs. f q)"
    "(\<Sum>q \<leftarrow> filter P qs. f q) = (\<Sum>q \<leftarrow> filter Q qs. f q) \<longleftrightarrow> (\<forall>q \<in> set qs. Q q \<longrightarrow> P q)"
proof -
  have "(\<Sum>q \<leftarrow> filter P qs. f q) \<le> (\<Sum>q \<leftarrow> filter Q qs. f q) \<and>
    ((\<Sum>q \<leftarrow> filter P qs. f q) = (\<Sum>q \<leftarrow> filter Q qs. f q) \<longleftrightarrow> (\<forall>q \<in> set qs. Q q \<longrightarrow> P q))"
    using assms
  proof (induction qs)
    case (Cons q qs)
    have pos: "0 < f q" and imp: "P q \<longrightarrow> Q q" using Cons.prems by auto
    have IH: "(\<Sum>q \<leftarrow> filter P qs. f q) \<le> (\<Sum>q \<leftarrow> filter Q qs. f q)"
      "((\<Sum>q \<leftarrow> filter P qs. f q) = (\<Sum>q \<leftarrow> filter Q qs. f q)) = (\<forall>q \<in> set qs. Q q \<longrightarrow> P q)"
      using Cons by auto
    show ?case using pos imp IH by (cases "Q q"; cases "P q") auto
  qed simp
  then show "(\<Sum>q \<leftarrow> filter P qs. f q) \<le> (\<Sum>q \<leftarrow> filter Q qs. f q)"
    "(\<Sum>q \<leftarrow> filter P qs. f q) = (\<Sum>q \<leftarrow> filter Q qs. f q) \<longleftrightarrow> (\<forall>q \<in> set qs. Q q \<longrightarrow> P q)" by blast+
qed

lemma filtered_sum_bound:
  assumes "\<forall>q \<in> set qs. (0 :: int) < f q \<and> f q \<le> 100"
  shows "0 \<le> (\<Sum>q \<leftarrow> filter P qs. f q) \<and> (\<Sum>q \<leftarrow> filter P qs. f q) \<le> 100 * int (length qs)"
  using assms by (induction qs) auto


section \<open>The latest sitting of each student\<close>

definition pair_of :: "exam_result \<Rightarrow> ustr \<times> ustr" where
  "pair_of r = (er_exam r, er_user r)"

definition is_latest :: "exam_result list \<Rightarrow> exam_result \<Rightarrow> bool" where
  "is_latest rows r \<longleftrightarrow> r \<in> set rows \<and> (\<forall>x \<in> set rows. pair_of x = pair_of r \<longrightarrow> er_seq x \<le> er_seq r)"

definition latest_inv :: "exam_result list \<Rightarrow> (ustr \<times> ustr) list \<Rightarrow> ((ustr \<times> ustr) \<rightharpoonup> exam_result) \<Rightarrow> bool" where
  "latest_inv seen order best \<longleftrightarrow>
     distinct order \<and> set order = pair_of ` set seen \<and> dom best = set order \<and>
     (\<forall>k r. best k = Some r \<longrightarrow> pair_of r = k \<and> is_latest seen r)"

lemma is_latest_snoc:
  "is_latest seen r \<Longrightarrow> pair_of r \<noteq> pair_of row \<or> er_seq row \<le> er_seq r \<Longrightarrow> is_latest (seen @ [row]) r"
  by (auto simp: is_latest_def)

lemma latest_inv_step:
  assumes inv: "latest_inv seen order best"
  shows "best (pair_of row) = Some r \<Longrightarrow> er_seq row \<le> er_seq r \<Longrightarrow> latest_inv (seen @ [row]) order best"
    "best (pair_of row) = Some r \<Longrightarrow> \<not> er_seq row \<le> er_seq r \<Longrightarrow>
       latest_inv (seen @ [row]) order (best(pair_of row \<mapsto> row))"
    "best (pair_of row) = None \<Longrightarrow> latest_inv (seen @ [row]) (order @ [pair_of row]) (best(pair_of row \<mapsto> row))"
proof goal_cases
  case 1
  then have "pair_of row \<in> pair_of ` set seen" "pair_of r = pair_of row" using inv unfolding latest_inv_def by blast+
  moreover have "is_latest (seen @ [row]) x" if "best k = Some x" for k x
    using that 1 inv unfolding latest_inv_def by (intro is_latest_snoc) (fastforce, metis option.inject)
  ultimately show ?case using inv unfolding latest_inv_def by (simp add: insert_absorb)
next
  case 2
  then have r: "pair_of row \<in> pair_of ` set seen" "pair_of r = pair_of row" "is_latest seen r"
    using inv unfolding latest_inv_def by blast+
  with 2 have "is_latest (seen @ [row]) row" unfolding is_latest_def by fastforce
  with r inv show ?case unfolding latest_inv_def by (auto simp: is_latest_snoc)
next
  case 3
  then have new: "pair_of row \<notin> pair_of ` set seen" using inv unfolding latest_inv_def by blast
  then have "is_latest (seen @ [row]) row" unfolding is_latest_def by (auto, metis imageI)
  with new inv show ?case unfolding latest_inv_def by (auto simp: is_latest_snoc)
qed

lemma latest_loop_inv:
  assumes "latest_inv seen order best" "latest_loop order best rows = (order', best')"
  shows "latest_inv (seen @ rows) order' best'"
  using assms
proof (induction rows arbitrary: seen order best)
  case (Cons row rows)
  have k: "(er_exam row, er_user row) = pair_of row" by (simp add: pair_of_def)
  note step = latest_inv_step [OF Cons.prems(1), of row]
  have "latest_inv ((seen @ [row]) @ rows) order' best'"
  proof (cases "best (pair_of row)")
    case None
    with Cons.prems(2) k have "latest_loop (order @ [pair_of row]) (best(pair_of row \<mapsto> row)) rows = (order', best')"
      by (simp add: Let_def)
    then show ?thesis by (rule Cons.IH [OF step(3) [OF None]])
  next
    case (Some r)
    show ?thesis
    proof (cases "er_seq row \<le> er_seq r")
      case True
      from Cons.IH [OF step(1) [OF Some True]] Cons.prems(2) Some True k show ?thesis by (simp add: Let_def)
    next
      case False
      with Some Cons.prems(2) k have "latest_loop order (best(pair_of row \<mapsto> row)) rows = (order', best')"
        by (simp add: Let_def)
      then show ?thesis by (rule Cons.IH [OF step(2) [OF Some False]])
    qed
  qed
  then show ?case by simp
qed simp

lemma latest_per_pair_inv:
  obtains order best where "latest_inv rows order best" "latest_per_pair rows = map (\<lambda>k. the (best k)) order"
proof -
  obtain order best where l: "latest_loop [] Map.empty rows = (order, best)" by force
  have "latest_inv [] [] Map.empty" by (simp add: latest_inv_def)
  from latest_loop_inv [OF this l] l show thesis by (intro that [of order best]) (simp_all add: latest_per_pair_def)
qed

lemma latest_entry: "latest_inv rows order best \<Longrightarrow> k \<in> set order \<Longrightarrow> \<exists>r. best k = Some r \<and> pair_of r = k \<and> is_latest rows r"
  unfolding latest_inv_def by blast


section \<open>Properties\<close>

text \<open>
  C29. The reference counters are exact.  In every state that transactions can reach, run in any order
  and on whatever stale rows their callers read, a subject counts its exam questions, a term its
  exams and an exam its marks.  These columns are what guards deleting a subject or a term and
  changing an exam's kind.
\<close>

theorem exam_counters_exact:
  assumes "exam_reachable db"
  shows "(\<forall>s \<in> set (xd_subjects db). sj_exam_question_count s =
           int (length (filter (\<lambda>q. qu_subject q = sj_id s) (xd_questions db)))) \<and>
    (\<forall>t \<in> set (xd_terms db). tm_exam_count t = int (length (filter (\<lambda>x. ex_term x = tm_id t) (xd_exams db)))) \<and>
    (\<forall>x \<in> set (xd_exams db). ex_result_count x = int (length (filter (\<lambda>r. er_exam r = ex_id x) (xd_results db))))"
  using exam_reachable_counts [OF assms] by (simp add: exam_counts_ok_def counts_exact_def refs_to_def)

definition empty_school :: exam_db where
  "empty_school = demo_school\<lparr>xd_exams := [], xd_audience := [],
     xd_terms := [\<lparr>tm_id = u ''term'', tm_year = u ''y'', tm_exam_count = 0\<rparr>]\<rparr>"

definition demo_spec :: question_spec where
  "demo_spec = \<lparr>qs_kind = u ''text'', qs_choices = None, qs_correct = None\<rparr>"

definition after_create :: exam_db where
  "after_create = fst (exam_db_create empty_school (u ''t'') (u ''i'') (u ''term'') (u ''Algebra'') [] (u ''yazili'')
     (schedule demo_exam) 1 False False False (u ''e''))"

definition after_question :: exam_db where
  "after_question = fst (question_insert after_create (u ''e'') (u ''m'') (u ''2+2?'') 5 demo_spec None (u ''q''))"

definition after_mark :: exam_db where
  "after_mark = fst (db_grade after_question (u ''e'') (u ''s'') 1 95 (u ''t'') (u ''yazili''))"

lemma after_mark_reachable: "exam_reachable after_mark"
proof -
  have "exam_reachable empty_school" by (rule xr_empty) (simp_all add: empty_school_def demo_school_def)
  then have "exam_reachable after_create"
    unfolding after_create_def by (rule xr_step) (rule x_create, simp add: empty_school_def)
  moreover have "xd_questions after_create = []" by code_simp
  ultimately have "exam_reachable after_question"
    unfolding after_question_def by (rule_tac xr_step) (assumption, rule x_insert, simp)
  then show ?thesis unfolding after_mark_def by (rule xr_step) (rule x_grade)
qed

theorem exam_counters_exact_witness:
  "exam_reachable after_mark \<and> map sj_exam_question_count (xd_subjects after_mark) = [1] \<and>
   map (\<lambda>s. int (length (filter (\<lambda>q. qu_subject q = sj_id s) (xd_questions after_mark)))) (xd_subjects after_mark) = [1] \<and>
   map tm_exam_count (xd_terms after_mark) = [1] \<and> map ex_result_count (xd_exams after_mark) = [1]"
proof -
  have "map sj_exam_question_count (xd_subjects after_mark) = [1]" "map tm_exam_count (xd_terms after_mark) = [1]"
    "map ex_result_count (xd_exams after_mark) = [1]" by code_simp+
  moreover have "map sj_exam_question_count (xd_subjects after_mark) =
      map (\<lambda>s. int (length (filter (\<lambda>q. qu_subject q = sj_id s) (xd_questions after_mark)))) (xd_subjects after_mark)"
    using exam_counters_exact [OF after_mark_reachable] by (intro map_cong refl) blast
  ultimately show ?thesis using after_mark_reachable by simp
qed

text \<open>
  Questions freeze.  Once a student has started an exam, its questions cannot be added, changed or
  deleted: each of the three is refused with a conflict and writes nothing.
\<close>

theorem questions_freeze:
  assumes "exam_read db (qu_exam q) \<noteq> None" and "any_for_exam db (qu_exam q)"
  shows "question_insert db (qu_exam q) subject t points spec from_bank fresh =
           (db, Inl (Conflict (u ''cannot change questions after attempts have started''))) \<and>
    question_update db q subject t points spec =
           (db, Inl (Conflict (u ''cannot change questions after attempts have started''))) \<and>
    question_delete db q = (db, Inl (Conflict (u ''cannot change questions after attempts have started'')))"
  using assms by (simp add: question_insert_def question_update_def question_delete_def freeze_gate_def run_tx_def)

definition demo_question :: exam_question where
  "demo_question = \<lparr>qu_id = u ''q'', qu_exam = u ''e'', qu_subject = u ''m'', qu_text = u ''2+2?'', qu_kind = u ''text'',
     qu_points = 5, qu_choices = None, qu_correct = None, qu_from_bank = None, qu_banked_as = None\<rparr>"

theorem questions_freeze_witness:
  "snd (question_delete after_question demo_question) = Inr demo_question \<and>
   question_delete (second_click after_question) demo_question =
     (second_click after_question, Inl (Conflict (u ''cannot change questions after attempts have started'')))"
proof -
  have "snd (question_delete after_question demo_question) = Inr demo_question" by code_simp
  moreover have "exam_read (second_click after_question) (qu_exam demo_question) \<noteq> None"
    "any_for_exam (second_click after_question) (qu_exam demo_question)" by code_simp+
  ultimately show ?thesis using questions_freeze [of "second_click after_question" demo_question] by blast
qed

text \<open>
  C30. A PATCH is atomic.  An exam PATCH merges its fields over a row it read earlier and writes the whole
  row by compare-and-set, at most three times.  Whenever it answers with an exam, there is a round
  such that the patch merged over the row stored at that round's write is what was written: no
  other request's change to the row is lost, whatever happened between reading and writing.
\<close>

theorem exam_patch_is_atomic:
  assumes "exam_update rivals db key patch = (db', Inr e)"
  shows "\<exists>n < CAS_UPDATE_RETRIES. patch_atomically patch key (after_rivals rivals 0 db n) = (db', Inr e)"
  using exam_update_rounds_atomic assms unfolding exam_update_def .

definition no_patch :: exam_patch where
  "no_patch = \<lparr>pa_title = None, pa_description = None, pa_kind = None, pa_mode = None, pa_starts_at = None,
     pa_ends_at = None, pa_duration_ms = None, pa_max_attempts = None, pa_allow_rejoin = None,
     pa_allow_review = None, pa_draft = None\<rparr>"

text \<open>Another request renames the exam in the first round.\<close>

definition renamed :: "nat \<Rightarrow> exam_db \<Rightarrow> exam_db" where
  "renamed k db = (if k = 0 then fst (exam_update (\<lambda>_ d. d) db (u ''e'') (no_patch\<lparr>pa_title := Some (u ''Geometry'')\<rparr>)) else db)"

theorem exam_patch_is_atomic_witness:
  "\<exists>db' e. exam_update renamed demo_school (u ''e'') (no_patch\<lparr>pa_max_attempts := Some 3\<rparr>) = (db', Inr e) \<and>
     ex_title e = u ''Geometry'' \<and> ex_max_attempts e = 3 \<and>
     (\<exists>n < CAS_UPDATE_RETRIES. patch_atomically (no_patch\<lparr>pa_max_attempts := Some 3\<rparr>) (u ''e'')
        (after_rivals renamed 0 demo_school n) = (db', Inr e))"
proof -
  let ?r = "exam_update renamed demo_school (u ''e'') (no_patch\<lparr>pa_max_attempts := Some 3\<rparr>)"
  let ?e = "demo_exam\<lparr>ex_title := u ''Geometry'', ex_max_attempts := 3\<rparr>"
  have "snd ?r = Inr ?e" by code_simp
  then have r: "?r = (fst ?r, Inr ?e)" by (simp add: prod_eq_iff)
  from r exam_patch_is_atomic [OF r] show ?thesis
    by (intro exI [of _ "fst ?r"] exI [of _ ?e]) simp
qed

definition student_starts :: "nat \<Rightarrow> exam_db \<Rightarrow> exam_db" where
  "student_starts k db = second_click db"

definition teacher_marks :: "nat \<Rightarrow> exam_db \<Rightarrow> exam_db" where
  "teacher_marks k db = fst (grade (\<lambda>d. d) db (u ''e'') (u ''t'') (u ''s'') 80)"

definition to_open :: exam_patch where
  "to_open = no_patch\<lparr>pa_mode := Some (Some (u ''open'')), pa_starts_at := Some None, pa_ends_at := Some None\<rparr>"

definition to_sozlu :: exam_patch where
  "to_sozlu = no_patch\<lparr>pa_kind := Some (u ''sozlu'')\<rparr>"

text \<open>
  C32. Two guards of a PATCH are outside its write.  Changing the mode of an exam someone has started and
  changing the kind of an exam that has marks are refused when the start or the mark is there at the
  check; but a student who starts, or a teacher who marks, between the check and the write is not
  noticed, since neither touches a column the write compares.  The exam then has a sitting under a
  mode it did not have when the sitting started, and a mark counted under a kind it no longer has.
\<close>

theorem patch_guards_race:
  "snd (exam_update (\<lambda>_ d. d) (student_starts 0 demo_school) (u ''e'') to_open) =
     Inl (Conflict (u ''cannot change the exam mode after attempts have started'')) \<and>
   snd (exam_update (\<lambda>_ d. d) (teacher_marks 0 demo_school) (u ''e'') to_sozlu) =
     Inl (Conflict (u ''cannot change the kind of an exam that already has marks'')) \<and>
   (\<exists>db' e. exam_update student_starts demo_school (u ''e'') to_open = (db', Inr e) \<and>
     ex_mode e = Some (u ''open'') \<and> any_for_exam db' (u ''e'')) \<and>
   (\<exists>db' e. exam_update teacher_marks demo_school (u ''e'') to_sozlu = (db', Inr e) \<and>
     ex_kind e = u ''sozlu'' \<and> any_result db' (u ''e'') \<and>
     map kr_name (xd_kind_refs (fst (remove_result db' e (u ''s'')))) = [u ''yazili''] \<and>
     map kr_count (xd_kind_refs (fst (remove_result db' e (u ''s'')))) = [1] \<and>
     xd_results (fst (remove_result db' e (u ''s''))) = [])" (is "?A \<and> ?B \<and> ?C \<and> ?D")
proof (intro conjI)
  show ?A by code_simp
  show ?B by code_simp
  let ?r = "exam_update student_starts demo_school (u ''e'') to_open"
  have "case ?r of (db', Inr e) \<Rightarrow> ex_mode e = Some (u ''open'') \<and> any_for_exam db' (u ''e'') | _ \<Rightarrow> False"
    by code_simp
  then show ?C by (auto split: prod.splits sum.splits)
  let ?r = "exam_update teacher_marks demo_school (u ''e'') to_sozlu"
  have "case ?r of (db', Inr e) \<Rightarrow> ex_kind e = u ''sozlu'' \<and> any_result db' (u ''e'') \<and>
     (case fst (remove_result db' e (u ''s'')) of db'' \<Rightarrow>
        map kr_name (xd_kind_refs db'') = [u ''yazili''] \<and> map kr_count (xd_kind_refs db'') = [1] \<and> xd_results db'' = [])
    | _ \<Rightarrow> False" by code_simp
  then show ?D by (auto split: prod.splits sum.splits)
qed

definition regraded :: exam_db where
  "regraded =
     fst (db_grade (fst (db_remove (fst (db_grade (fst (db_grade demo_school
       (u ''e'') (u ''s'') 1 80 (u ''t'') (u ''yazili''))) (u ''e'') (u ''s'') 1 85 (u ''v'') (u ''yazili'')))
       (u ''e'') (u ''s'') (u ''yazili''))) (u ''e'') (u ''s'') 1 80 (u ''t'') (u ''yazili''))"

text \<open>
  A teacher's count of marks given drifts.  A first mark counts for its grader; a second teacher's
  regrade takes the mark over without moving the count, and removing the mark takes it off the
  second teacher, whose count was zero.  The first teacher's count is then one too high: after
  marking, being regraded, a removal and marking again it says two where one mark is stored.
\<close>

theorem marks_given_drifts:
  "map er_graded_by (xd_results regraded) = [u ''t''] \<and>
   map_option us_marks_given_total (find_row us_id (xd_users regraded) (u ''t'')) = Some 2"
  by code_simp

text \<open>
  C31. What question validation lets through is well formed.  When the ids it mints are new, a choice
  question comes out with two to ten choices, all with different ids, the correct one among them,
  whatever ids the client sent for new and kept choices; a text question comes out with none.
\<close>

theorem question_spec_is_well_formed:
  assumes "question_spec_try_new kind choices correct existing gen = Inr s"
    and "distinct gen" and "set gen \<inter> ch_id ` set existing = {}" and "10 \<le> length gen"
  shows "spec_ok s"
proof (cases choices)
  case None
  with assms(1) show ?thesis by (auto simp: question_spec_try_new_def spec_ok_def split: if_splits)
next
  case (Some inputs)
  then obtain cs ks c c' cid where r: "resolve_choices existing [] [] gen inputs = Inr (cs, ks)"
    and n: "2 \<le> length inputs" "length inputs \<le> 10" and k: "kind \<noteq> u ''text''"
    and f: "find (\<lambda>k. fst k = c) ks = Some (c', cid)"
    and s: "s = \<lparr>qs_kind = kind, qs_choices = Some cs, qs_correct = Some cid\<rparr>"
    using assms(1)
    by (auto simp: question_spec_try_new_def MIN_QUESTION_CHOICES_def MAX_QUESTION_CHOICES_def
        split: if_splits option.splits prod.splits)
  have "length inputs \<le> length gen" using n assms(4) by linarith
  note ok = spec_of_choices [OF r this assms(2,3)]
  have "(c', cid) \<in> set ks" using f by (metis find_Some_iff nth_mem)
  then have "cid \<in> ch_id ` set cs" using ok(3) by force
  with ok n k s show ?thesis by (simp add: spec_ok_def)
qed

definition demo_choices :: "choice list" where
  "demo_choices = [\<lparr>ch_id = u ''kept'', ch_text = u ''3''\<rparr>]"

definition demo_inputs :: "choice_input list" where
  "demo_inputs = [\<lparr>ci_id = Some (u ''kept''), ci_text = u ''4''\<rparr>, \<lparr>ci_id = Some (u ''x''), ci_text = u ''5''\<rparr>,
     \<lparr>ci_id = None, ci_text = u ''6''\<rparr>]"

theorem question_spec_is_well_formed_witness:
  "\<exists>s. question_spec_try_new (u ''choice'') (Some demo_inputs) (Some (u ''x'')) demo_choices
         (map (\<lambda>n. [n]) [0..<10]) = Inr s \<and>
     map (map ch_id) (case qs_choices s of None \<Rightarrow> [] | Some cs \<Rightarrow> [cs]) = [[u ''kept'', [0], [1]]] \<and> spec_ok s"
proof -
  let ?s = "\<lparr>qs_kind = u ''choice'', qs_choices = Some [\<lparr>ch_id = u ''kept'', ch_text = u ''4''\<rparr>,
      \<lparr>ch_id = [0], ch_text = u ''5''\<rparr>, \<lparr>ch_id = [1], ch_text = u ''6''\<rparr>], qs_correct = Some [0]\<rparr>"
  let ?g = "map (\<lambda>n. [n]) [0..<10]"
  have r: "question_spec_try_new (u ''choice'') (Some demo_inputs) (Some (u ''x'')) demo_choices ?g = Inr ?s" by code_simp
  have "distinct ?g" "set ?g \<inter> ch_id ` set demo_choices = {}" "10 \<le> length ?g" by code_simp+
  from question_spec_is_well_formed [OF r this] r show ?thesis by (intro exI [of _ ?s]) simp
qed

text \<open>
  The automatic score.  It lies between zero and the points there are to earn, those lie within a
  hundred a question, and it is full exactly when every question that has a correct choice is
  answered with it; questions without one count for neither side.
\<close>

theorem auto_score_bounds:
  assumes "\<forall>q \<in> set qs. 0 < qu_points q \<and> qu_points q \<le> 100" and "auto_score qs answers = (earned, possible)"
  shows "0 \<le> earned \<and> earned \<le> possible \<and> possible \<le> 100 * int (length qs) \<and>
    (earned = possible \<longleftrightarrow> (\<forall>q \<in> set qs. qu_correct q \<noteq> None \<longrightarrow>
           (\<exists>a \<in> set answers. an_question a = qu_id q \<and> is_correct a q = Some True)))"
proof -
  let ?P = "\<lambda>q. \<exists>a \<in> set answers. an_question a = qu_id q \<and> is_correct a q = Some True"
  let ?Q = "\<lambda>q. qu_correct q \<noteq> None"
  have e: "earned = (\<Sum>q \<leftarrow> filter ?P qs. qu_points q)" "possible = (\<Sum>q \<leftarrow> filter ?Q qs. qu_points q)"
    using assms(2) by (simp_all add: auto_score_def auto_score_loop_eq)
  have imp: "?P q \<Longrightarrow> ?Q q" for q by (auto simp: is_correct_def)
  have pos: "\<forall>q \<in> set qs. 0 < qu_points q" using assms(1) by blast
  note le = filtered_sum_le [of qs ?P ?Q qu_points, OF imp pos]
  have "0 \<le> earned" "possible \<le> 100 * int (length qs)"
    unfolding e using filtered_sum_bound [OF assms(1)] by blast+
  moreover have "earned \<le> possible" "earned = possible \<longleftrightarrow> (\<forall>q \<in> set qs. ?Q q \<longrightarrow> ?P q)"
    unfolding e by (rule le(1), assumption) (rule le(2), assumption)
  ultimately show ?thesis by blast
qed

theorem auto_score_bounds_witness:
  "\<exists>earned possible.
     auto_score [demo_question, demo_question\<lparr>qu_id := u ''r'', qu_correct := Some (u ''c'')\<rparr>]
       [\<lparr>an_exam = u ''e'', an_question = u ''r'', an_user = u ''s'', an_seq = 1, an_selected = Some (u ''c''), an_text = None,
         an_updated_at = 0\<rparr>] = (earned, possible) \<and> earned = 5 \<and> earned \<le> possible"
proof -
  let ?qs = "[demo_question, demo_question\<lparr>qu_id := u ''r'', qu_correct := Some (u ''c'')\<rparr>]"
  let ?as = "[\<lparr>an_exam = u ''e'', an_question = u ''r'', an_user = u ''s'', an_seq = 1, an_selected = Some (u ''c''), an_text = None,
         an_updated_at = 0\<rparr>]"
  have r: "auto_score ?qs ?as = (5, 5)" by code_simp
  have "\<forall>q \<in> set ?qs. 0 < qu_points q \<and> qu_points q \<le> 100" by (simp add: demo_question_def)
  from auto_score_bounds [OF this r] r show ?thesis by blast
qed

text \<open>
  Folding marks to the latest sitting.  The fold keeps exactly one mark per exam and student that has
  any, and it is the one of the highest sitting.
\<close>

theorem latest_per_pair_correct:
  "distinct (map pair_of (latest_per_pair rows)) \<and>
   pair_of ` set (latest_per_pair rows) = pair_of ` set rows \<and>
   set (latest_per_pair rows) \<subseteq> Collect (is_latest rows)"
proof -
  obtain order best where inv: "latest_inv rows order best" and l: "latest_per_pair rows = map (\<lambda>k. the (best k)) order"
    by (rule latest_per_pair_inv)
  note entry = latest_entry [OF inv]
  have m: "map pair_of (latest_per_pair rows) = order"
    unfolding l map_map by (rule map_idI) (use entry in fastforce)
  then have "distinct (map pair_of (latest_per_pair rows))" using inv by (simp add: latest_inv_def)
  moreover have "pair_of ` set (latest_per_pair rows) = set order" using m by (metis list.set_map)
  then have "pair_of ` set (latest_per_pair rows) = pair_of ` set rows" using inv by (simp add: latest_inv_def)
  moreover have "set (latest_per_pair rows) \<subseteq> Collect (is_latest rows)" unfolding l using entry by fastforce
  ultimately show ?thesis by blast
qed

end
