(* ===== verification/Rate_Limit.thy ===== *)
theory Rate_Limit
  imports Errors "HOL-Library.Word" "HOL-Library.Multiset"
begin

text \<open>
  The fixed-window rate limiter of \<open>src/src/rate_limit.rs\<close>: the bucket of a client, admission, what
  happens when the map of buckets is full, and the rounds that share the counters through the
  database.

  An instant is its distance from some origin in nanoseconds, and \<open>duration_since\<close> saturates at zero
  as subtraction of naturals does.  Counters are \<open>u32\<close> and keep their width: \<open>+\<close> and \<open>-\<close> wrap, and
  the invariant shows that no operation of the code ever does.  The hash map is the list of its
  entries in the order of its iterator; a rehash may put them into any other order at any time.
  \<open>digest\<close> is the hex of the first eight bytes of SHA-256, code outside the repository.  Telemetry
  is left out.
\<close>

type_synonym u32 = "32 word"

definition PURGE_AT :: nat where "PURGE_AT = 10000"
definition RATE_LIMIT_OVERFLOW_MAX :: u32 where "RATE_LIMIT_OVERFLOW_MAX = 60000"
definition RATE_SYNC_MAX_KEYS :: nat where "RATE_SYNC_MAX_KEYS = 512"
definition NANOS_PER_SEC :: nat where "NANOS_PER_SEC = 1000000000"
definition WINDOW :: nat where "WINDOW = 60 * NANOS_PER_SEC"


section \<open>Buckets\<close>

record bucket =
  bu_window_start :: nat
  bu_count :: u32
  bu_pushed :: u32
  bu_remote :: u32
  bu_epoch :: "int option"

definition opened_at :: "nat \<Rightarrow> bucket" where
  "opened_at now = \<lparr>bu_window_start = now, bu_count = 0, bu_pushed = 0, bu_remote = 0, bu_epoch = None\<rparr>"

definition u32_saturating_add :: "u32 \<Rightarrow> u32 \<Rightarrow> u32" where
  "u32_saturating_add x y = (if uint x + uint y < 2 ^ 32 then x + y else - 1)"

definition spent :: "bucket \<Rightarrow> u32" where
  "spent b = max (bu_count b) (u32_saturating_add (bu_remote b) (bu_count b - bu_pushed b))"

definition lapsed :: "nat \<Rightarrow> bucket \<Rightarrow> bool" where
  "lapsed now b \<longleftrightarrow> WINDOW \<le> now - bu_window_start b"

text \<open>
  The whole seconds until the window resets.  The source goes through \<open>f64\<close>; a duration of at most a
  minute in nanoseconds stays clear of the next whole second there, so its ceiling is the exact one.
\<close>

definition retry_after :: "nat \<Rightarrow> bucket \<Rightarrow> nat" where
  "retry_after now b =
     (let remaining = WINDOW - (now - bu_window_start b)
      in max ((remaining + NANOS_PER_SEC - 1) div NANOS_PER_SEC) 1)"

record 'k limiter =
  rl_max :: u32
  rl_buckets :: "('k \<times> bucket) list"
  rl_overflow :: bucket

definition new_limiter :: "u32 \<Rightarrow> nat \<Rightarrow> 'k limiter" where
  "new_limiter mx now = \<lparr>rl_max = mx, rl_buckets = [], rl_overflow = opened_at now\<rparr>"


section \<open>Admission\<close>

definition check_overflow :: "nat \<Rightarrow> bucket \<Rightarrow> bucket \<times> (nat, unit) result" where
  "check_overflow now b0 =
     (let b = (if lapsed now b0 then opened_at now else b0) in
      if bu_count b < RATE_LIMIT_OVERFLOW_MAX then (b\<lparr>bu_count := bu_count b + 1\<rparr>, Inr ())
      else (b, Inl (retry_after now b)))"

fun evict_retain :: "nat \<Rightarrow> u32 \<Rightarrow> u32 \<Rightarrow> ('k \<times> bucket) list \<Rightarrow> ('k \<times> bucket) list" where
  "evict_retain budget mx cutoff [] = []"
| "evict_retain budget mx cutoff (e # es) =
     (if 0 < budget \<and> spent (snd e) < mx \<and> spent (snd e) \<le> cutoff
      then evict_retain (budget - 1) mx cutoff es
      else e # evict_retain budget mx cutoff es)"

definition evict_cheapest :: "('k \<times> bucket) list \<Rightarrow> nat \<Rightarrow> u32 \<Rightarrow> ('k \<times> bucket) list" where
  "evict_cheapest bs target mx =
     (if length bs \<le> target then bs
      else
        (let spents = filter (\<lambda>s. s < mx) (map (spent \<circ> snd) bs);
             excess = min (length bs - target) (length spents)
         in if excess = 0 then bs else evict_retain excess mx (sort spents ! (excess - 1)) bs))"

definition purge :: "nat \<Rightarrow> u32 \<Rightarrow> ('k \<times> bucket) list \<Rightarrow> ('k \<times> bucket) list" where
  "purge now mx bs =
     (let live = filter (\<lambda>e. \<not> lapsed now (snd e)) bs
      in if PURGE_AT \<le> length live then evict_cheapest live (PURGE_AT - PURGE_AT div 4) mx else live)"

definition put_bucket :: "'k \<Rightarrow> bucket \<Rightarrow> ('k \<times> bucket) list \<Rightarrow> ('k \<times> bucket) list" where
  "put_bucket k b bs =
     (if k \<in> fst ` set bs then map (\<lambda>e. if fst e = k then (k, b) else e) bs else bs @ [(k, b)])"

definition meter :: "u32 \<Rightarrow> 'k \<Rightarrow> nat \<Rightarrow> ('k \<times> bucket) list \<Rightarrow> ('k \<times> bucket) list \<times> (nat, unit) result" where
  "meter mx key now bs =
     (let found = (case map_of bs key of None \<Rightarrow> opened_at now | Some b \<Rightarrow> b);
          b = (if lapsed now found then opened_at now else found)
      in if spent b < mx
         then (put_bucket key (b\<lparr>bu_count := bu_count b + 1\<rparr>) bs, Inr ())
         else (put_bucket key b bs, Inl (retry_after now b)))"

definition check_key :: "'k limiter \<Rightarrow> 'k \<Rightarrow> nat \<Rightarrow> 'k limiter \<times> (nat, unit) result" where
  "check_key l key now =
     (if rl_max l = 0 then (l, Inr ())
      else
        (let full = (PURGE_AT \<le> length (rl_buckets l) \<and> key \<notin> fst ` set (rl_buckets l));
             bs = (if full then purge now (rl_max l) (rl_buckets l) else rl_buckets l)
         in if full \<and> PURGE_AT \<le> length bs
            then (let (ob, r) = check_overflow now (rl_overflow l) in (l\<lparr>rl_buckets := bs, rl_overflow := ob\<rparr>, r))
            else (let (bs', r) = meter (rl_max l) key now bs in (l\<lparr>rl_buckets := bs'\<rparr>, r))))"

definition enforce_user :: "ustr limiter \<Rightarrow> ustr \<Rightarrow> nat \<Rightarrow> ustr limiter \<times> unit aresult" where
  "enforce_user l user_id now = (let (l', r) = check_key l user_id now in (l', map_err TooManyRequests r))"


section \<open>Sharing\<close>

record 'k pending =
  pe_key :: 'k
  pe_delta :: u32
  pe_counted :: u32
  pe_window_start :: nat

definition roll_epoch :: "int \<Rightarrow> bucket \<Rightarrow> bucket" where
  "roll_epoch epoch b =
     (if bu_epoch b = Some epoch then b
      else b\<lparr>bu_pushed := (if bu_epoch b = None then bu_pushed b else bu_count b), bu_remote := 0, bu_epoch := Some epoch\<rparr>)"

text \<open>The first half of a round, under the lock: at most \<open>n\<close> live buckets report.\<close>

fun sync_collect ::
  "nat \<Rightarrow> int \<Rightarrow> nat \<Rightarrow> ('k \<times> bucket) list \<Rightarrow> ('k \<times> bucket) list \<times> 'k pending list" where
  "sync_collect now epoch n [] = ([], [])"
| "sync_collect now epoch n ((k, b) # bs) =
     (if 0 < n \<and> 0 < bu_count b \<and> \<not> lapsed now b
      then
        (let b' = roll_epoch epoch b;
             (bs', ps) = sync_collect now epoch (n - 1) bs
         in ((k, b') # bs',
             \<lparr>pe_key = k, pe_delta = bu_count b' - bu_pushed b', pe_counted = bu_count b',
              pe_window_start = bu_window_start b'\<rparr> # ps))
      else (let (bs', ps) = sync_collect now epoch n bs in ((k, b) # bs', ps)))"

definition row_key :: "('k \<Rightarrow> ustr) \<Rightarrow> ustr \<Rightarrow> 'k \<Rightarrow> int \<Rightarrow> ustr" where
  "row_key digest tier key epoch = tier @ u ''_'' @ digest key @ u ''_'' @ show_int epoch"

text \<open>
  The one statement of a round.  A table row is its hits and its window.  Two values under one id make
  the database refuse the statement, and so does a total out of range.
\<close>

type_synonym rate_table = "ustr \<rightharpoonup> int \<times> int"

definition hits_of :: "rate_table \<Rightarrow> ustr \<Rightarrow> int" where
  "hits_of t i = (case t i of None \<Rightarrow> 0 | Some (h, _) \<Rightarrow> h)"

definition fold_hits :: "int \<Rightarrow> (ustr \<times> u32) list \<Rightarrow> rate_table \<Rightarrow> (rate_table \<times> (ustr \<times> int) list) option" where
  "fold_hits epoch vals t =
     (if distinct (map fst vals) \<and> list_all (\<lambda>(i, d). is_i64 (hits_of t i + uint d)) vals
      then Some
        (foldr (\<lambda>(i, d) t'. t'(i \<mapsto> (hits_of t i + uint d, case t i of None \<Rightarrow> epoch | Some (_, w) \<Rightarrow> w))) vals t,
         map (\<lambda>(i, d). (i, hits_of t i + uint d)) vals)
      else None)"

text \<open>The second half: the totals that came back, taken only by the bucket that reported.\<close>

definition take_total :: "int \<Rightarrow> 'k pending \<Rightarrow> int \<Rightarrow> bucket \<Rightarrow> bucket" where
  "take_total epoch p tot b =
     (if bu_epoch b \<noteq> Some epoch \<or> bu_window_start b \<noteq> pe_window_start p then b
      else b\<lparr>bu_pushed := pe_counted p, bu_remote := word_of_int (min (max tot 0) (2 ^ 32 - 1))\<rparr>)"

fun sync_apply ::
  "int \<Rightarrow> ('k \<Rightarrow> int option) \<Rightarrow> 'k pending list \<Rightarrow> ('k \<times> bucket) list \<Rightarrow> ('k \<times> bucket) list" where
  "sync_apply epoch totals [] bs = bs"
| "sync_apply epoch totals (p # ps) bs =
     sync_apply epoch totals ps
       (case totals (pe_key p) of
          None \<Rightarrow> bs
        | Some tot \<Rightarrow> map (\<lambda>e. if fst e = pe_key p then (fst e, take_total epoch p tot (snd e)) else e) bs)"

text \<open>A round.  \<open>rivals\<close> is what requests do to the buckets while the statement is in flight.\<close>

definition sync_once ::
  "('k \<Rightarrow> ustr) \<Rightarrow> ustr \<Rightarrow> (('k \<times> bucket) list \<Rightarrow> ('k \<times> bucket) list) \<Rightarrow> nat \<Rightarrow> int
     \<Rightarrow> ('k \<times> bucket) list \<Rightarrow> rate_table \<Rightarrow> ('k \<times> bucket) list \<times> rate_table" where
  "sync_once digest tier rivals now epoch bs t =
     (let (bs1, ps) = sync_collect now epoch RATE_SYNC_MAX_KEYS bs in
      if ps = [] then (rivals bs1, t)
      else
        (case fold_hits epoch (map (\<lambda>p. (row_key digest tier (pe_key p) epoch, pe_delta p)) ps) t of
           None \<Rightarrow> (rivals bs1, t)
         | Some (t', rows) \<Rightarrow>
             (sync_apply epoch (\<lambda>k. map_of rows (row_key digest tier k epoch)) ps (rivals bs1), t')))"

definition sweep :: "int \<Rightarrow> rate_table \<Rightarrow> rate_table" where
  "sweep epoch t = (\<lambda>i. case t i of Some (h, w) \<Rightarrow> if w < epoch then None else Some (h, w) | None \<Rightarrow> None)"

definition current_epoch :: "int \<Rightarrow> int" where
  "current_epoch now_ms = (now_ms div 60000) * 60000"

end
