(* ===== verification/Rate_Limit_Properties.thy ===== *)
theory Rate_Limit_Properties
  imports Rate_Limit
begin

text \<open>
  The limiter as a system: requests, rehashes of the map and the two halves of a sharing round, in any
  interleaving.  The invariant says that the map stays within its bound and that no counter wraps; an
  exhausted bucket survives every flood until its window ends; and what eviction drops.
\<close>

section \<open>The system\<close>

text \<open>The limiter with the round that is in flight, if any: there is one sharing task per limiter.\<close>

record 'k rate_sys =
  rs_limiter :: "'k limiter"
  rs_flight :: "(int \<times> 'k pending list) option"

definition set_buckets :: "('k \<times> bucket) list \<Rightarrow> 'k rate_sys \<Rightarrow> 'k rate_sys" where
  "set_buckets bs s = s\<lparr>rs_limiter := (rs_limiter s)\<lparr>rl_buckets := bs\<rparr>\<rparr>"

definition buckets_of :: "'k rate_sys \<Rightarrow> ('k \<times> bucket) list" where
  "buckets_of s = rl_buckets (rs_limiter s)"

text \<open>A step at an instant.  The totals that come back are any: other processes write the table too.\<close>

inductive rate_step :: "nat \<Rightarrow> 'k rate_sys \<Rightarrow> 'k rate_sys \<Rightarrow> bool" where
  r_check: "rate_step now s (s\<lparr>rs_limiter := fst (check_key (rs_limiter s) key now)\<rparr>)"
| r_rehash: "mset bs = mset (buckets_of s) \<Longrightarrow> rate_step now s (set_buckets bs s)"
| r_collect: "rs_flight s = None \<Longrightarrow> sync_collect now epoch n (buckets_of s) = (bs, ps) \<Longrightarrow>
    rate_step now s ((set_buckets bs s)\<lparr>rs_flight := Some (epoch, ps)\<rparr>)"
| r_apply: "rs_flight s = Some (epoch, ps) \<Longrightarrow>
    rate_step now s ((set_buckets (sync_apply epoch totals ps (buckets_of s)) s)\<lparr>rs_flight := None\<rparr>)"

inductive rate_run :: "nat \<Rightarrow> 'k rate_sys \<Rightarrow> 'k rate_sys \<Rightarrow> bool" for bound :: nat where
  run_stop: "rate_run bound s s"
| run_step: "rate_run bound s s' \<Longrightarrow> rate_step now s' s'' \<Longrightarrow> now < bound \<Longrightarrow> rate_run bound s s''"

definition rate_start :: "u32 \<Rightarrow> nat \<Rightarrow> 'k rate_sys" where
  "rate_start mx now = \<lparr>rs_limiter = new_limiter mx now, rs_flight = None\<rparr>"

definition bucket_ok :: "u32 \<Rightarrow> bucket \<Rightarrow> bool" where
  "bucket_ok mx b \<longleftrightarrow> bu_pushed b \<le> bu_count b \<and> bu_count b \<le> mx"

definition buckets_ok :: "u32 \<Rightarrow> ('k \<times> bucket) list \<Rightarrow> bool" where
  "buckets_ok mx bs \<longleftrightarrow> distinct (map fst bs) \<and> length bs \<le> PURGE_AT \<and> (\<forall>e \<in> set bs. bucket_ok mx (snd e))"

text \<open>A bucket that will take a total has counted at least what it reported.\<close>

definition flight_ok :: "(int \<times> 'k pending list) option \<Rightarrow> ('k \<times> bucket) list \<Rightarrow> bool" where
  "flight_ok f bs \<longleftrightarrow> (\<forall>epoch ps p b. f = Some (epoch, ps) \<longrightarrow> p \<in> set ps \<longrightarrow> (pe_key p, b) \<in> set bs \<longrightarrow>
     bu_epoch b = Some epoch \<longrightarrow> bu_window_start b = pe_window_start p \<longrightarrow> pe_counted p \<le> bu_count b)"

definition rate_ok :: "'k rate_sys \<Rightarrow> bool" where
  "rate_ok s \<longleftrightarrow> buckets_ok (rl_max (rs_limiter s)) (buckets_of s) \<and> flight_ok (rs_flight s) (buckets_of s) \<and>
     bu_count (rl_overflow (rs_limiter s)) \<le> RATE_LIMIT_OVERFLOW_MAX"


section \<open>Evicting\<close>

lemma evict_retain_set: "set (evict_retain n mx c es) \<subseteq> set es"
  by (induction n mx c es rule: evict_retain.induct) auto

lemma evict_retain_distinct: "distinct (map fst es) \<Longrightarrow> distinct (map fst (evict_retain n mx c es))"
proof (induction n mx c es rule: evict_retain.induct)
  case (2 n mx c e es)
  then show ?case using evict_retain_set [of n mx c es] by auto
qed simp

lemma evict_retain_keeps: "e \<in> set es \<Longrightarrow> mx \<le> spent (snd e) \<or> c < spent (snd e) \<Longrightarrow> e \<in> set (evict_retain n mx c es)"
  by (induction n mx c es rule: evict_retain.induct) auto

lemma evict_retain_length:
  "length (evict_retain n mx c es) + min n (length (filter (\<lambda>e. spent (snd e) < mx \<and> spent (snd e) \<le> c) es)) = length es"
  by (induction n mx c es rule: evict_retain.induct) auto

lemma nth_smallest_bound:
  fixes xs :: "'a :: linorder list"
  assumes "0 < n" "n \<le> length xs"
  shows "n \<le> length (filter (\<lambda>x. x \<le> sort xs ! (n - 1)) xs)"
proof -
  let ?c = "sort xs ! (n - 1)"
  have le: "\<forall>x \<in> set (take n (sort xs)). x \<le> ?c"
  proof
    fix x assume "x \<in> set (take n (sort xs))"
    then obtain i where "i < n" "i < length xs" "x = sort xs ! i" by (auto simp: in_set_conv_nth)
    then show "x \<le> ?c" using assms by (auto intro: sorted_nth_mono)
  qed
  have "n = length (filter (\<lambda>x. x \<le> ?c) (take n (sort xs)))" using le assms(2) by (simp add: filter_True)
  also have "\<dots> \<le> length (filter (\<lambda>x. x \<le> ?c) (take n (sort xs) @ drop n (sort xs)))"
    unfolding filter_append length_append by (rule le_add1)
  also have "\<dots> = length (filter (\<lambda>x. x \<le> ?c) (sort xs))" by (simp only: append_take_drop_id)
  also have "\<dots> = length (filter (\<lambda>x. x \<le> ?c) xs)" by (metis filter_sort length_sort)
  finally show ?thesis .
qed

lemma evict_cheapest_set: "set (evict_cheapest bs target mx) \<subseteq> set bs"
  by (simp add: evict_cheapest_def Let_def evict_retain_set)

lemma evict_cheapest_distinct: "distinct (map fst bs) \<Longrightarrow> distinct (map fst (evict_cheapest bs target mx))"
  by (simp add: evict_cheapest_def Let_def evict_retain_distinct)

lemma evict_cheapest_keeps: "e \<in> set bs \<Longrightarrow> mx \<le> spent (snd e) \<Longrightarrow> e \<in> set (evict_cheapest bs target mx)"
  by (simp add: evict_cheapest_def Let_def evict_retain_keeps)

lemma purge_set: "set (purge now mx bs) \<subseteq> set bs"
proof -
  have "set (evict_cheapest (filter P bs) t mx) \<subseteq> set bs" for P t
    using evict_cheapest_set [of "filter P bs" t mx] by auto
  then show ?thesis by (simp add: purge_def Let_def)
qed

lemma purge_distinct: "distinct (map fst bs) \<Longrightarrow> distinct (map fst (purge now mx bs))"
  by (simp add: purge_def Let_def evict_cheapest_distinct distinct_map_filter)

lemma purge_keeps: "e \<in> set bs \<Longrightarrow> \<not> lapsed now (snd e) \<Longrightarrow> mx \<le> spent (snd e) \<Longrightarrow> e \<in> set (purge now mx bs)"
  by (simp add: purge_def Let_def evict_cheapest_keeps)


section \<open>The invariant\<close>

lemma unat_inc: "(c :: u32) < mx \<Longrightarrow> unat (c + 1) = unat c + 1"
proof -
  assume "c < mx"
  moreover have "unat mx < 2 ^ 32" using unsigned_less [of mx] by simp
  ultimately show "unat (c + 1) = unat c + 1" by (simp add: word_less_nat_alt unat_word_ariths)
qed

lemma spent_ge_count: "bu_count b \<le> spent b"
  by (simp add: spent_def)

lemma opened_ok [simp]: "bucket_ok mx (opened_at now)" "bu_epoch (opened_at now) = None" "bu_count (opened_at now) = 0"
  by (simp_all add: bucket_ok_def opened_at_def)

lemma admitted_ok:
  assumes "bucket_ok mx b" "spent b < mx"
  shows "bucket_ok mx (b\<lparr>bu_count := bu_count b + 1\<rparr>)" "bu_count b \<le> bu_count b + 1"
proof -
  have "bu_count b < mx" using assms(2) spent_ge_count by (rule le_less_trans [rotated])
  note n = unat_inc [OF this] and m = \<open>bu_count b < mx\<close>
  show "bucket_ok mx (b\<lparr>bu_count := bu_count b + 1\<rparr>)" "bu_count b \<le> bu_count b + 1"
    using assms(1) n m by (auto simp: bucket_ok_def word_le_nat_alt word_less_nat_alt)
qed

lemma put_bucket_set: "e \<in> set (put_bucket k b bs) \<Longrightarrow> e = (k, b) \<or> (e \<in> set bs \<and> fst e \<noteq> k)"
  by (auto simp: put_bucket_def image_iff split: if_splits)

lemma put_bucket_keeps: "e \<in> set bs \<Longrightarrow> fst e \<noteq> k \<Longrightarrow> e \<in> set (put_bucket k b bs)"
  by (force simp: put_bucket_def)

lemma put_bucket_in: "(k, b) \<in> set (put_bucket k b bs)"
  by (force simp: put_bucket_def)

lemma put_bucket_distinct: "distinct (map fst bs) \<Longrightarrow> distinct (map fst (put_bucket k b bs))"
proof -
  have "map fst (map (\<lambda>e. if fst e = k then (k, b) else e) bs) = map fst bs" by simp
  then show "distinct (map fst bs) \<Longrightarrow> distinct (map fst (put_bucket k b bs))"
    unfolding put_bucket_def by (auto simp del: map_map)
qed

lemma put_bucket_length: "length (put_bucket k b bs) = (if k \<in> fst ` set bs then length bs else Suc (length bs))"
  by (simp add: put_bucket_def)

text \<open>
  What a request does to the map: it refuses a newcomer at a full map, or it drops some buckets and
  writes one, which continues a bucket that was there or is new.
\<close>

definition continues :: "bucket \<Rightarrow> bucket \<Rightarrow> bool" where
  "continues b b' \<longleftrightarrow> bu_epoch b' = bu_epoch b \<and> bu_window_start b' = bu_window_start b \<and> bu_count b \<le> bu_count b'"

lemma meter_cases:
  assumes "\<forall>e \<in> set bs. bucket_ok mx (snd e)"
  obtains b b' where "meter mx key now bs = (put_bucket key b' bs, if spent b < mx then Inr () else Inl (retry_after now b))"
    "(b = opened_at now \<and> (\<forall>x. map_of bs key = Some x \<longrightarrow> lapsed now x)) \<or> (map_of bs key = Some b \<and> \<not> lapsed now b)"
    "bucket_ok mx b'" "continues b b'"
    "b' = (if spent b < mx then b\<lparr>bu_count := bu_count b + 1\<rparr> else b)"
proof -
  let ?found = "case map_of bs key of None \<Rightarrow> opened_at now | Some b \<Rightarrow> b"
  let ?b = "if lapsed now ?found then opened_at now else ?found"
  let ?b' = "if spent ?b < mx then ?b\<lparr>bu_count := bu_count ?b + 1\<rparr> else ?b"
  have b: "(?b = opened_at now \<and> (\<forall>x. map_of bs key = Some x \<longrightarrow> lapsed now x)) \<or>
      (map_of bs key = Some ?b \<and> \<not> lapsed now ?b)"
    by (simp split: option.split)
  then have ok: "bucket_ok mx ?b" using assms by (fastforce dest: map_of_SomeD)
  have "bucket_ok mx ?b'" "continues ?b ?b'" using ok admitted_ok [OF ok] by (auto simp: continues_def)
  moreover have "meter mx key now bs = (put_bucket key ?b' bs, if spent ?b < mx then Inr () else Inl (retry_after now ?b))"
    by (simp add: meter_def Let_def)
  ultimately show thesis using b by (intro that [of ?b' ?b]) simp_all
qed

lemma check_key_cases:
  assumes "rl_max l \<noteq> 0" "\<forall>e \<in> set (rl_buckets l). bucket_ok (rl_max l) (snd e)"
  obtains (refused) ob r where "check_key l key now =
      (l\<lparr>rl_buckets := purge now (rl_max l) (rl_buckets l), rl_overflow := ob\<rparr>, r)"
      "check_overflow now (rl_overflow l) = (ob, r)" "key \<notin> fst ` set (rl_buckets l)"
  | (metered) bs b b' where "check_key l key now = (l\<lparr>rl_buckets := put_bucket key b' bs\<rparr>,
        if spent b < rl_max l then Inr () else Inl (retry_after now b))"
      "bs = rl_buckets l \<or> (bs = purge now (rl_max l) (rl_buckets l) \<and> key \<notin> fst ` set (rl_buckets l))"
      "length bs < PURGE_AT \<or> key \<in> fst ` set bs"
      "(b = opened_at now \<and> (\<forall>x. map_of bs key = Some x \<longrightarrow> lapsed now x)) \<or> (map_of bs key = Some b \<and> \<not> lapsed now b)"
      "bucket_ok (rl_max l) b'" "continues b b'"
      "b' = (if spent b < rl_max l then b\<lparr>bu_count := bu_count b + 1\<rparr> else b)"
proof -
  let ?full = "PURGE_AT \<le> length (rl_buckets l) \<and> key \<notin> fst ` set (rl_buckets l)"
  let ?bs = "if ?full then purge now (rl_max l) (rl_buckets l) else rl_buckets l"
  show thesis
  proof (cases "?full \<and> PURGE_AT \<le> length ?bs")
    case True
    then have t: ?full "PURGE_AT \<le> length (purge now (rl_max l) (rl_buckets l))" by auto
    obtain ob r where "check_overflow now (rl_overflow l) = (ob, r)" by force
    with t assms(1) show thesis by (intro refused [of ob r]) (auto simp: check_key_def Let_def)
  next
    case False
    have "\<forall>e \<in> set ?bs. bucket_ok (rl_max l) (snd e)"
      using assms(2) purge_set [of now "rl_max l" "rl_buckets l"] by (auto split: if_splits)
    then obtain b b' where m: "meter (rl_max l) key now ?bs =
        (put_bucket key b' ?bs, if spent b < rl_max l then Inr () else Inl (retry_after now b))"
      "(b = opened_at now \<and> (\<forall>x. map_of ?bs key = Some x \<longrightarrow> lapsed now x)) \<or> (map_of ?bs key = Some b \<and> \<not> lapsed now b)"
      "bucket_ok (rl_max l) b'" "continues b b'"
      "b' = (if spent b < rl_max l then b\<lparr>bu_count := bu_count b + 1\<rparr> else b)"
      by (rule meter_cases)
    have "check_key l key now = (l\<lparr>rl_buckets := put_bucket key b' ?bs\<rparr>,
        if spent b < rl_max l then Inr () else Inl (retry_after now b))"
      unfolding check_key_def Let_def if_not_P [OF False] if_not_P [OF assms(1)] m(1) by simp
    moreover have "length ?bs < PURGE_AT \<or> key \<in> fst ` set ?bs" using False by auto
    ultimately show thesis using m(2-5) by (intro metered [of b' ?bs b]) auto
  qed
qed


lemma rate_okI:
  assumes "buckets_ok (rl_max (rs_limiter s)) (buckets_of s)" "flight_ok (rs_flight s) (buckets_of s)"
    "bu_count (rl_overflow (rs_limiter s)) \<le> RATE_LIMIT_OVERFLOW_MAX"
  shows "rate_ok s"
  using assms by (simp add: rate_ok_def)

lemma buckets_ok_purge: "buckets_ok mx bs \<Longrightarrow> length (purge now mx bs) \<le> PURGE_AT \<Longrightarrow> buckets_ok mx (purge now mx bs)"
  using purge_set [of now mx bs] by (auto simp: buckets_ok_def purge_distinct)

lemma evict_retain_shorter: "length (evict_retain n mx c es) \<le> length es"
  using evict_retain_length [of n mx c es] by linarith

lemma purge_shorter: "length (purge now mx bs) \<le> length bs"
proof -
  have "length (evict_cheapest xs t mx) \<le> length xs" for xs :: "('a \<times> bucket) list" and t
    by (simp add: evict_cheapest_def Let_def evict_retain_shorter)
  then have "length (evict_cheapest (filter P bs) t mx) \<le> length bs" for P t
    using length_filter_le le_trans by blast
  then show ?thesis by (simp add: purge_def Let_def)
qed

lemma flight_ok_subset: "flight_ok f bs \<Longrightarrow> set bs' \<subseteq> set bs \<Longrightarrow> flight_ok f bs'"
  unfolding flight_ok_def by blast

lemma flight_ok_put:
  assumes "flight_ok f bs" "b = opened_at now \<or> (key, b) \<in> set bs" "continues b b'"
  shows "flight_ok f (put_bucket key b' bs)"
  unfolding flight_ok_def
proof (intro allI impI)
  fix epoch ps p x
  assume a: "f = Some (epoch, ps)" "p \<in> set ps" "(pe_key p, x) \<in> set (put_bucket key b' bs)"
    "bu_epoch x = Some epoch" "bu_window_start x = pe_window_start p"
  show "pe_counted p \<le> bu_count x"
  proof (cases "(pe_key p, x) = (key, b')")
    case True
    with a assms(3) have e: "bu_epoch b = Some epoch" "bu_window_start b = pe_window_start p" "bu_count b \<le> bu_count x"
      by (auto simp: continues_def)
    with assms(2) have "(pe_key p, b) \<in> set bs" using True by auto
    with a e assms(1) have "pe_counted p \<le> bu_count b" unfolding flight_ok_def by blast
    then show ?thesis using e(3) by (rule order_trans)
  next
    case False
    with put_bucket_set [OF a(3)] have "(pe_key p, x) \<in> set bs" by auto
    with a assms(1) show ?thesis unfolding flight_ok_def by blast
  qed
qed

lemma buckets_ok_put:
  assumes "buckets_ok mx bs" "length bs < PURGE_AT \<or> key \<in> fst ` set bs" "bucket_ok mx b'"
  shows "buckets_ok mx (put_bucket key b' bs)"
  unfolding buckets_ok_def
proof (intro conjI ballI)
  show "distinct (map fst (put_bucket key b' bs))" "length (put_bucket key b' bs) \<le> PURGE_AT"
    using assms(1,2) by (auto simp: buckets_ok_def put_bucket_distinct put_bucket_length)
  fix e assume "e \<in> set (put_bucket key b' bs)"
  with put_bucket_set [OF this] assms(1,3) show "bucket_ok mx (snd e)" by (auto simp: buckets_ok_def)
qed

lemma overflow_count:
  assumes "bu_count b \<le> RATE_LIMIT_OVERFLOW_MAX"
  shows "bu_count (fst (check_overflow now b)) \<le> RATE_LIMIT_OVERFLOW_MAX"
  using assms inc_le [of _ RATE_LIMIT_OVERFLOW_MAX]
  by (auto simp: check_overflow_def Let_def opened_at_def RATE_LIMIT_OVERFLOW_MAX_def)

lemma check_ok:
  assumes ok: "rate_ok s"
  shows "rate_ok (s\<lparr>rs_limiter := fst (check_key (rs_limiter s) key now)\<rparr>)"
proof (cases "rl_max (rs_limiter s) = 0")
  case True
  with ok show ?thesis by (simp add: check_key_def)
next
  case False
  let ?l = "rs_limiter s"
  have b: "buckets_ok (rl_max ?l) (rl_buckets ?l)" and f: "flight_ok (rs_flight s) (rl_buckets ?l)"
    and o: "bu_count (rl_overflow ?l) \<le> RATE_LIMIT_OVERFLOW_MAX"
    using ok by (simp_all add: rate_ok_def buckets_of_def)
  have "length (purge now (rl_max ?l) (rl_buckets ?l)) \<le> PURGE_AT"
    using purge_shorter b by (metis buckets_ok_def le_trans)
  note pk = buckets_ok_purge [OF b this] and pf = flight_ok_subset [OF f purge_set]
  have "\<forall>e \<in> set (rl_buckets ?l). bucket_ok (rl_max ?l) (snd e)" using b by (simp add: buckets_ok_def)
  from False this show ?thesis
  proof (cases rule: check_key_cases [of ?l key now])
    case (refused ob r)
    with overflow_count [OF o, of now] pk pf show ?thesis by (intro rate_okI) (simp_all add: buckets_of_def)
  next
    case (metered bs b b')
    have bs: "buckets_ok (rl_max ?l) bs" "flight_ok (rs_flight s) bs" using metered(2) b f pk pf by auto
    have "buckets_ok (rl_max ?l) (put_bucket key b' bs)"
      by (rule buckets_ok_put [OF bs(1) metered(3,5)])
    moreover have "flight_ok (rs_flight s) (put_bucket key b' bs)"
      using flight_ok_put [OF bs(2) _ metered(6)] metered(4) map_of_SomeD by metis
    ultimately show ?thesis using metered(1) o by (intro rate_okI) (simp_all add: buckets_of_def)
  qed
qed


lemma roll_epoch_keeps [simp]:
  "bu_count (roll_epoch epoch b) = bu_count b" "bu_window_start (roll_epoch epoch b) = bu_window_start b"
  by (simp_all add: roll_epoch_def)

lemma roll_epoch_ok: "bucket_ok mx b \<Longrightarrow> bucket_ok mx (roll_epoch epoch b)"
  by (auto simp: roll_epoch_def bucket_ok_def)

text \<open>Collecting changes no key, no count and no window; what it reports is a bucket's count.\<close>

lemma sync_collect_entries:
  assumes "sync_collect now epoch n bs = (bs', ps)"
  shows "map fst bs' = map fst bs"
    "(k, b') \<in> set bs' \<Longrightarrow> \<exists>b. (k, b) \<in> set bs \<and> b' \<in> {b, roll_epoch epoch b}"
    "(k, b) \<in> set bs \<Longrightarrow> (k, b) \<in> set bs' \<or> (k, roll_epoch epoch b) \<in> set bs'"
    "p \<in> set ps \<Longrightarrow> \<exists>b. (pe_key p, b) \<in> set bs' \<and> pe_counted p = bu_count b"
  using assms
  by (induction now epoch n bs arbitrary: bs' ps rule: sync_collect.induct)
    (fastforce split: if_splits prod.splits simp: Let_def)+


lemma keys_unique: "distinct (map fst bs) \<Longrightarrow> (k, b) \<in> set bs \<Longrightarrow> (k, b') \<in> set bs \<Longrightarrow> b' = b"
  by (metis map_of_eq_Some_iff option.inject)

lemma collect_ok:
  assumes ok: "rate_ok s" and c: "sync_collect now epoch n (buckets_of s) = (bs, ps)"
  shows "rate_ok ((set_buckets bs s)\<lparr>rs_flight := Some (epoch, ps)\<rparr>)"
proof (rule rate_okI)
  note e = sync_collect_entries [OF c]
  have b: "buckets_ok (rl_max (rs_limiter s)) (buckets_of s)" using ok by (simp add: rate_ok_def)
  have "bucket_ok (rl_max (rs_limiter s)) x" if "(k, x) \<in> set bs" for k x
    using e(2) [OF that] b roll_epoch_ok by (auto simp: buckets_ok_def)
  moreover have "length bs = length (buckets_of s)" using e(1) by (metis length_map)
  ultimately have bs: "buckets_ok (rl_max (rs_limiter s)) bs" using b e(1) by (auto simp: buckets_ok_def)
  then show "buckets_ok (rl_max (rs_limiter ((set_buckets bs s)\<lparr>rs_flight := Some (epoch, ps)\<rparr>)))
      (buckets_of ((set_buckets bs s)\<lparr>rs_flight := Some (epoch, ps)\<rparr>))"
    by (simp add: set_buckets_def buckets_of_def)
  have "pe_counted p \<le> bu_count x" if "p \<in> set ps" "(pe_key p, x) \<in> set bs" for p x
  proof -
    from e(4) [OF that(1)] obtain y where "(pe_key p, y) \<in> set bs" "pe_counted p = bu_count y" by blast
    moreover have "distinct (map fst bs)" using bs by (simp add: buckets_ok_def)
    ultimately show ?thesis using keys_unique [OF _ that(2)] by force
  qed
  then show "flight_ok (rs_flight ((set_buckets bs s)\<lparr>rs_flight := Some (epoch, ps)\<rparr>))
      (buckets_of ((set_buckets bs s)\<lparr>rs_flight := Some (epoch, ps)\<rparr>))"
    by (simp add: flight_ok_def set_buckets_def buckets_of_def)
qed (use ok in \<open>simp add: rate_ok_def set_buckets_def\<close>)

text \<open>Taking a total moves no count, no window and no epoch, and keeps the reported part within the count.\<close>

definition taking :: "('k \<times> bucket) list \<Rightarrow> ('k \<times> bucket) list \<Rightarrow> bool" where
  "taking bs bs' \<longleftrightarrow> list_all2 (\<lambda>e e'. fst e' = fst e \<and> bu_count (snd e') = bu_count (snd e) \<and>
     bu_window_start (snd e') = bu_window_start (snd e) \<and> bu_epoch (snd e') = bu_epoch (snd e)) bs bs'"

lemma take_total_keeps [simp]:
  "bu_count (take_total epoch p tot b) = bu_count b" "bu_window_start (take_total epoch p tot b) = bu_window_start b"
  "bu_epoch (take_total epoch p tot b) = bu_epoch b"
  by (simp_all add: take_total_def)

lemma taking_refl: "taking bs bs"
  by (simp add: taking_def list.rel_refl)

lemma taking_trans:
  assumes "taking a b" "taking b c"
  shows "taking a c"
  unfolding taking_def by (rule list_all2_trans [OF _ assms [unfolded taking_def]]) auto

lemma taking_map: "(\<And>e. fst (f e) = fst e \<and> bu_count (snd (f e)) = bu_count (snd e) \<and>
     bu_window_start (snd (f e)) = bu_window_start (snd e) \<and> bu_epoch (snd (f e)) = bu_epoch (snd e)) \<Longrightarrow> taking bs (map f bs)"
  by (simp add: taking_def list_all2_map2 list.rel_refl)

lemma taking_keys: "taking bs bs' \<Longrightarrow> map fst bs' = map fst bs"
  unfolding taking_def by (induction rule: list_all2_induct) simp_all

lemma taking_entry:
  "taking bs bs' \<Longrightarrow> (k, b') \<in> set bs' \<Longrightarrow> \<exists>b. (k, b) \<in> set bs \<and> bu_count b' = bu_count b \<and>
     bu_window_start b' = bu_window_start b \<and> bu_epoch b' = bu_epoch b"
  unfolding taking_def by (induction rule: list_all2_induct) auto

lemma taking_entry_back:
  "taking bs bs' \<Longrightarrow> (k, b) \<in> set bs \<Longrightarrow> \<exists>b'. (k, b') \<in> set bs' \<and> bu_count b' = bu_count b \<and>
     bu_window_start b' = bu_window_start b \<and> bu_epoch b' = bu_epoch b"
  unfolding taking_def by (induction rule: list_all2_induct) auto

lemma taking_flight: "taking bs bs' \<Longrightarrow> flight_ok f bs \<Longrightarrow> flight_ok f bs'"
  unfolding flight_ok_def by (metis taking_entry)

lemma buckets_ok_taking:
  assumes "taking bs bs'" "buckets_ok mx bs" "\<And>e. e \<in> set bs' \<Longrightarrow> bucket_ok mx (snd e)"
  shows "buckets_ok mx bs'"
proof -
  have "length bs' = length bs" using taking_keys [OF assms(1)] by (metis length_map)
  with assms(2,3) taking_keys [OF assms(1)] show ?thesis by (simp add: buckets_ok_def)
qed

lemma sync_apply_ok:
  assumes "buckets_ok mx bs" "flight_ok (Some (epoch, qs)) bs" "set ps \<subseteq> set qs"
  shows "taking bs (sync_apply epoch totals ps bs) \<and> buckets_ok mx (sync_apply epoch totals ps bs)"
  using assms
proof (induction ps arbitrary: bs)
  case Nil
  then show ?case by (simp add: taking_refl)
next
  case (Cons p ps)
  let ?bs = "case totals (pe_key p) of None \<Rightarrow> bs
    | Some tot \<Rightarrow> map (\<lambda>e. if fst e = pe_key p then (fst e, take_total epoch p tot (snd e)) else e) bs"
  have t: "taking bs ?bs" by (auto split: option.split intro!: taking_map taking_refl)
  have "bucket_ok mx (snd e)" if "e \<in> set ?bs" for e
  proof -
    have "bucket_ok mx (take_total epoch p tot b)" if "(pe_key p, b) \<in> set bs" for tot b
    proof -
      have "bucket_ok mx b" using Cons.prems(1) that by (force simp: buckets_ok_def)
      moreover have "pe_counted p \<le> bu_count b" if "bu_epoch b = Some epoch" "bu_window_start b = pe_window_start p"
        using Cons.prems(2,3) that \<open>(pe_key p, b) \<in> set bs\<close> by (auto simp: flight_ok_def)
      ultimately show ?thesis by (simp add: take_total_def bucket_ok_def)
    qed
    with that Cons.prems(1) show ?thesis by (auto simp: buckets_ok_def split: option.splits if_splits)
  qed
  then have "buckets_ok mx ?bs" by (rule buckets_ok_taking [OF t Cons.prems(1)])
  from Cons.IH [OF this taking_flight [OF t Cons.prems(2)]] Cons.prems(3) taking_trans [OF t]
  show ?case by simp
qed

lemma rate_step_ok: "rate_step now s s' \<Longrightarrow> rate_ok s \<Longrightarrow> rate_ok s'"
proof (induction rule: rate_step.induct)
  case (r_check now s key)
  then show ?case by (rule check_ok)
next
  case (r_rehash bs s now)
  then have "set bs = set (buckets_of s)" "length bs = length (buckets_of s)"
    "distinct (map fst bs) = distinct (map fst (buckets_of s))"
    by (metis set_mset_mset, metis size_mset, metis mset_map mset_eq_imp_distinct_iff)
  with r_rehash show ?case
    by (auto simp: rate_ok_def buckets_ok_def flight_ok_def set_buckets_def buckets_of_def)
next
  case (r_collect s now epoch n bs ps)
  then show ?case using collect_ok by blast
next
  case (r_apply s epoch ps now totals)
  then have "buckets_ok (rl_max (rs_limiter s)) (sync_apply epoch totals ps (buckets_of s))"
    using sync_apply_ok [of _ "buckets_of s" epoch ps ps totals] by (simp add: rate_ok_def)
  with r_apply show ?case by (simp add: rate_ok_def set_buckets_def buckets_of_def flight_ok_def)
qed

lemma rate_run_ok: "rate_run bound s s' \<Longrightarrow> rate_ok s \<Longrightarrow> rate_ok s'"
  by (induction rule: rate_run.induct) (auto intro: rate_step_ok)

lemma rate_step_max: "rate_step now s s' \<Longrightarrow> rl_max (rs_limiter s') = rl_max (rs_limiter s)"
  by (induction rule: rate_step.induct)
    (auto simp: set_buckets_def check_key_def Let_def split: prod.splits)

lemma rate_run_max: "rate_run bound s s' \<Longrightarrow> rl_max (rs_limiter s') = rl_max (rs_limiter s)"
  by (induction rule: rate_run.induct) (simp_all add: rate_step_max)

lemma rate_start_ok: "rate_ok (rate_start mx now)"
  by (simp add: rate_ok_def rate_start_def new_limiter_def buckets_of_def buckets_ok_def flight_ok_def)


section \<open>An exhausted bucket\<close>

text \<open>The bucket of \<open>k\<close>, opened at \<open>start\<close>, has admitted the whole budget itself.\<close>

definition exhausted :: "'k \<Rightarrow> nat \<Rightarrow> u32 \<Rightarrow> 'k rate_sys \<Rightarrow> bool" where
  "exhausted k start mx s \<longleftrightarrow> rl_max (rs_limiter s) = mx \<and>
     (\<exists>b. (k, b) \<in> set (buckets_of s) \<and> bu_count b = mx \<and> bu_window_start b = start)"

lemma exhausted_spent: "bu_count b = mx \<Longrightarrow> mx \<le> spent b"
  using spent_ge_count by metis

lemma within_window: "now < bu_window_start b + WINDOW \<Longrightarrow> \<not> lapsed now b"
  by (auto simp: lapsed_def WINDOW_def NANOS_PER_SEC_def)

lemma exhausted_check:
  assumes "rate_ok s" "mx \<noteq> 0" "exhausted k start mx s" "now < start + WINDOW"
  shows "exhausted k start mx (s\<lparr>rs_limiter := fst (check_key (rs_limiter s) key now)\<rparr>)"
proof -
  let ?l = "rs_limiter s"
  from assms(3) obtain b where b: "(k, b) \<in> set (rl_buckets ?l)" "bu_count b = mx" "bu_window_start b = start"
    and mx: "rl_max ?l = mx" by (auto simp: exhausted_def buckets_of_def)
  have ok: "\<forall>e \<in> set (rl_buckets ?l). bucket_ok (rl_max ?l) (snd e)" and d: "distinct (map fst (rl_buckets ?l))"
    using assms(1) by (simp_all add: rate_ok_def buckets_ok_def buckets_of_def)
  have nl: "\<not> lapsed now b" using assms(4) b(3) by (intro within_window) simp
  have kept: "(k, b) \<in> set (purge now mx (rl_buckets ?l))"
    using purge_keeps [OF b(1)] nl exhausted_spent [OF b(2)] by simp
  have "rl_max ?l \<noteq> 0" using assms(2) mx by simp
  from this ok show ?thesis
  proof (cases rule: check_key_cases [of ?l key now])
    case (refused ob r)
    with kept b mx show ?thesis by (auto simp: exhausted_def buckets_of_def)
  next
    case (metered bs x x')
    then have in_bs: "(k, b) \<in> set bs" using kept b(1) mx by auto
    have "(k, b) \<in> set (put_bucket key x' bs)"
    proof (cases "key = k")
      case True
      then have "key \<in> fst ` set (rl_buckets ?l)" using b(1) by force
      then have "bs = rl_buckets ?l" using metered(2) by blast
      then have "map_of bs key = Some b" using True b(1) d by simp
      then have "x = b" using metered(4) nl by auto
      then have "x' = b" using metered(7) exhausted_spent [OF b(2)] mx by auto
      with True show ?thesis using put_bucket_in by metis
    next
      case False
      with in_bs show ?thesis by (intro put_bucket_keeps) simp_all
    qed
    with metered(1) b mx show ?thesis by (auto simp: exhausted_def buckets_of_def)
  qed
qed

lemma exhausted_step:
  assumes "rate_step now s s'" "rate_ok s" "mx \<noteq> 0" "exhausted k start mx s" "now < start + WINDOW"
  shows "exhausted k start mx s'"
  using assms
proof (induction rule: rate_step.induct)
  case (r_check now s key)
  then show ?case by (intro exhausted_check)
next
  case (r_rehash bs s now)
  then have "set bs = set (buckets_of s)" by (metis set_mset_mset)
  with r_rehash show ?case by (simp add: exhausted_def set_buckets_def buckets_of_def)
next
  case (r_collect s now epoch n bs ps)
  then obtain b where "(k, b) \<in> set (buckets_of s)" "bu_count b = mx" "bu_window_start b = start"
    by (auto simp: exhausted_def)
  moreover from this sync_collect_entries(3) [OF r_collect(2)]
  have "(k, b) \<in> set bs \<or> (k, roll_epoch epoch b) \<in> set bs" by blast
  ultimately have "\<exists>b. (k, b) \<in> set bs \<and> bu_count b = mx \<and> bu_window_start b = start"
    by (metis roll_epoch_keeps)
  with r_collect show ?case by (simp add: exhausted_def set_buckets_def buckets_of_def)
next
  case (r_apply s epoch ps now totals)
  then have "taking (buckets_of s) (sync_apply epoch totals ps (buckets_of s))"
    using sync_apply_ok [of "rl_max (rs_limiter s)" "buckets_of s" epoch ps ps totals] by (simp add: rate_ok_def)
  note kept = taking_entry_back [OF this]
  from r_apply obtain b where "(k, b) \<in> set (buckets_of s)" "bu_count b = mx" "bu_window_start b = start"
    by (auto simp: exhausted_def)
  with kept have "\<exists>b. (k, b) \<in> set (sync_apply epoch totals ps (buckets_of s)) \<and> bu_count b = mx \<and> bu_window_start b = start"
    by metis
  with r_apply show ?case by (simp add: exhausted_def set_buckets_def buckets_of_def)
qed

lemma exhausted_run:
  assumes "rate_run bound s s'" "rate_ok s" "mx \<noteq> 0" "exhausted k start mx s" "bound \<le> start + WINDOW"
  shows "exhausted k start mx s'"
  using assms
proof (induction rule: rate_run.induct)
  case (run_step s s' now s'')
  then have "exhausted k start mx s'" "rate_ok s'" using rate_run_ok by blast+
  with run_step show ?case by (intro exhausted_step [of now s' s'']) simp_all
qed simp

lemma exhausted_refuses:
  assumes "rate_ok s" "mx \<noteq> 0" "exhausted k start mx s" "now < start + WINDOW"
  shows "\<exists>r. snd (check_key (rs_limiter s) k now) = Inl r \<and> 1 \<le> r \<and> r \<le> 60"
proof -
  let ?l = "rs_limiter s"
  from assms(3) obtain b where b: "(k, b) \<in> set (rl_buckets ?l)" "bu_count b = mx" "bu_window_start b = start"
    and mx: "rl_max ?l = mx" by (auto simp: exhausted_def buckets_of_def)
  have d: "distinct (map fst (rl_buckets ?l))" using assms(1) by (simp add: rate_ok_def buckets_ok_def buckets_of_def)
  have nl: "\<not> lapsed now b" using assms(4) b(3) by (intro within_window) simp
  have "map_of (rl_buckets ?l) k = Some b" using b(1) d by simp
  moreover have "k \<in> fst ` set (rl_buckets ?l)" using b(1) by force
  ultimately have "snd (check_key ?l k now) = Inl (retry_after now b)"
    using nl exhausted_spent [OF b(2)] assms(2) mx by (auto simp: check_key_def meter_def Let_def)
  moreover have "retry_after now b \<le> 60" "1 \<le> retry_after now b"
    by (auto simp: retry_after_def Let_def WINDOW_def NANOS_PER_SEC_def)
  ultimately show ?thesis by blast
qed



section \<open>What eviction drops\<close>

lemma evict_retain_exhausted:
  "filter (\<lambda>e. mx \<le> spent (snd e)) (evict_retain n mx c es) = filter (\<lambda>e. mx \<le> spent (snd e)) es"
  by (induction n mx c es rule: evict_retain.induct) auto

definition evictable :: "u32 \<Rightarrow> ('k \<times> bucket) list \<Rightarrow> u32 list" where
  "evictable mx bs = map (spent \<circ> snd) (filter (\<lambda>e. spent (snd e) < mx) bs)"

lemma evictable_alt: "filter (\<lambda>s. s < mx) (map (spent \<circ> snd) bs) = evictable mx bs"
  by (simp add: evictable_def filter_map comp_def)

lemma evict_budget_met:
  assumes "0 < n" "n \<le> length (evictable mx bs)"
  shows "length (evict_retain n mx (sort (evictable mx bs) ! (n - 1)) bs) = length bs - n"
proof -
  let ?c = "sort (evictable mx bs) ! (n - 1)"
  have "n \<le> length (filter (\<lambda>x. x \<le> ?c) (evictable mx bs))" by (rule nth_smallest_bound [OF assms])
  also have "filter (\<lambda>x. x \<le> ?c) (evictable mx bs) =
      map (spent \<circ> snd) (filter (\<lambda>e. spent (snd e) < mx \<and> spent (snd e) \<le> ?c) bs)"
    unfolding evictable_def [of mx bs] filter_map filter_filter by (simp add: comp_def conj_commute)
  finally show ?thesis using evict_retain_length [of n mx ?c bs] by (simp add: min_absorb1)
qed


section \<open>A worked limiter\<close>

definition spent_bucket :: "u32 \<Rightarrow> bucket" where
  "spent_bucket n = (opened_at 0)\<lparr>bu_count := n\<rparr>"

definition requested :: "nat \<Rightarrow> nat \<Rightarrow> nat rate_sys \<Rightarrow> nat rate_sys" where
  "requested key now s = s\<lparr>rs_limiter := fst (check_key (rs_limiter s) key now)\<rparr>"

definition demo_full :: "nat rate_sys" where
  "demo_full = requested 7 0 (rate_start 1 0)"

lemma requested_run: "rate_run bound s s' \<Longrightarrow> now < bound \<Longrightarrow> rate_run bound s (requested key now s')"
  unfolding requested_def by (rule run_step [OF _ r_check])

lemma demo_full_run: "rate_run 1 (rate_start 1 0) demo_full"
  unfolding demo_full_def by (intro requested_run run_stop) simp

lemma demo_full_buckets: "buckets_of demo_full = [(7, spent_bucket 1)]"
  by (simp add: demo_full_def requested_def rate_start_def new_limiter_def check_key_def meter_def buckets_of_def
      PURGE_AT_def Let_def lapsed_def WINDOW_def NANOS_PER_SEC_def spent_def u32_saturating_add_def opened_at_def
      put_bucket_def spent_bucket_def)


section \<open>Properties\<close>

text \<open>
  C34. The limiter stays within its bounds.  In every state that requests, rehashes and sharing rounds
  can reach, in any order and with whatever totals the database answers, the map has at most ten
  thousand buckets and one per client, a bucket has admitted at most the limit and reported at most
  what it has admitted, so that no subtraction of its counters wraps.
\<close>

theorem rate_limiter_bounded:
  assumes "rate_run bound (rate_start mx t0) s"
  shows "length (buckets_of s) \<le> 10000 \<and> distinct (map fst (buckets_of s)) \<and>
    (\<forall>(k, b) \<in> set (buckets_of s). bu_count b \<le> mx \<and> bu_pushed b \<le> bu_count b \<and>
       unat (bu_count b - bu_pushed b) = unat (bu_count b) - unat (bu_pushed b))"
proof -
  have ok: "rate_ok s" using rate_run_ok [OF assms rate_start_ok] .
  have "rl_max (rs_limiter s) = mx" using rate_run_max [OF assms] by (simp add: rate_start_def new_limiter_def)
  with ok show ?thesis
    by (auto simp: rate_ok_def buckets_ok_def bucket_ok_def PURGE_AT_def unat_sub)
qed

theorem rate_limiter_bounded_witness:
  "rate_run 1 (rate_start 1 0) demo_full \<and> buckets_of demo_full = [(7, spent_bucket 1)] \<and>
   bu_count (spent_bucket 1) \<le> 1 \<and> unat (bu_count (spent_bucket 1) - bu_pushed (spent_bucket 1)) =
     unat (bu_count (spent_bucket 1)) - unat (bu_pushed (spent_bucket 1))"
  using rate_limiter_bounded [OF demo_full_run] demo_full_run by (simp add: demo_full_buckets)

text \<open>
  C33. A flood cannot free an exhausted client.  A client that has spent its whole budget stays refused
  until its window ends, with a retry hint of one to sixty seconds, whatever other clients do: no
  number of requests from new keys evicts its bucket, and no sharing round gives it room again.
\<close>

theorem exhausted_client_stays_refused:
  assumes "rate_run any (rate_start mx t0) s" and "mx \<noteq> 0"
    and "(k, b) \<in> set (buckets_of s)" and "bu_count b = mx"
    and "rate_run (bu_window_start b + WINDOW) s s'" and "now < bu_window_start b + WINDOW"
  shows "\<exists>r. snd (check_key (rs_limiter s') k now) = Inl r \<and> 1 \<le> r \<and> r \<le> 60"
proof -
  have ok: "rate_ok s" using rate_run_ok [OF assms(1) rate_start_ok] .
  have "exhausted k (bu_window_start b) mx s"
    using assms(3,4) rate_run_max [OF assms(1)] by (auto simp: exhausted_def rate_start_def new_limiter_def)
  from exhausted_run [OF assms(5) ok assms(2) this order_refl]
  show ?thesis by (rule exhausted_refuses [OF rate_run_ok [OF assms(5) ok] assms(2) _ assms(6)])
qed

theorem exhausted_client_stays_refused_witness:
  "\<exists>r. snd (check_key (rs_limiter (requested 9 6 (requested 8 5 demo_full))) 7 10) = Inl r \<and> 1 \<le> r \<and> r \<le> 60"
proof (rule exhausted_client_stays_refused [OF demo_full_run])
  show "(7, spent_bucket 1) \<in> set (buckets_of demo_full)" by (simp add: demo_full_buckets)
  show "rate_run (bu_window_start (spent_bucket 1) + WINDOW) demo_full (requested 9 6 (requested 8 5 demo_full))"
    by (intro requested_run run_stop) (simp_all add: WINDOW_def NANOS_PER_SEC_def)
qed (simp_all add: spent_bucket_def opened_at_def WINDOW_def NANOS_PER_SEC_def)

text \<open>
  What eviction drops.  Evicting down to a target drops exactly as many buckets as are too many, or
  all that may be dropped when those are fewer; it keeps every bucket that has reached the limit, in
  order; and no bucket it drops has spent more than the cutoff, the spend that many buckets are at or
  under.
\<close>

theorem evict_cheapest_spec:
  "let n = min (length bs - target) (length (evictable mx bs)) in
    length (evict_cheapest bs target mx) = length bs - n \<and>
    filter (\<lambda>e. mx \<le> spent (snd e)) (evict_cheapest bs target mx) = filter (\<lambda>e. mx \<le> spent (snd e)) bs \<and>
    set bs - set (evict_cheapest bs target mx) \<subseteq>
      {e. spent (snd e) < mx \<and> spent (snd e) \<le> sort (evictable mx bs) ! (n - 1)}"
proof -
  define n where "n = min (length bs - target) (length (evictable mx bs))"
  have "length (evict_cheapest bs target mx) = length bs - n \<and>
    filter (\<lambda>e. mx \<le> spent (snd e)) (evict_cheapest bs target mx) = filter (\<lambda>e. mx \<le> spent (snd e)) bs \<and>
    set bs - set (evict_cheapest bs target mx) \<subseteq>
      {e. spent (snd e) < mx \<and> spent (snd e) \<le> sort (evictable mx bs) ! (n - 1)}"
  proof (cases "n = 0")
    case True
    then have "evict_cheapest bs target mx = bs"
      unfolding evict_cheapest_def Let_def evictable_alt n_def [symmetric] by simp
    with True show ?thesis by simp
  next
    case False
    then have "\<not> length bs \<le> target" by (auto simp: n_def)
    with False have e: "evict_cheapest bs target mx = evict_retain n mx (sort (evictable mx bs) ! (n - 1)) bs"
      unfolding evict_cheapest_def Let_def evictable_alt n_def [symmetric] by simp
    have "length (evict_cheapest bs target mx) = length bs - n"
      unfolding e using False by (intro evict_budget_met) (simp_all add: n_def)
    moreover have "set bs - set (evict_cheapest bs target mx) \<subseteq>
        {e. spent (snd e) < mx \<and> spent (snd e) \<le> sort (evictable mx bs) ! (n - 1)}"
      unfolding e using evict_retain_keeps [of _ bs mx "sort (evictable mx bs) ! (n - 1)" n] by force
    ultimately show ?thesis by (simp add: e evict_retain_exhausted)
  qed
  then show ?thesis by (simp add: n_def Let_def)
qed

text \<open>
  Cheapest first is not what happens among equals: of three buckets that have spent five, five and
  one, making room for two drops the first two in the map's order and keeps the cheapest.
\<close>

lemma eviction_can_keep_the_cheapest:
  "evict_cheapest [(1 :: nat, spent_bucket 5), (2, spent_bucket 5), (3, spent_bucket 1)] 1 10 = [(3, spent_bucket 1)]"
  by code_simp

end
