(* ===== verification/Settings.thy ===== *)
theory Settings
  imports Meals Exam_Store Complex_Main "HOL-Library.List_Lexorder"
begin

text \<open>
  The school's settings: \<open>settings.rs\<close> of \<open>src/src/domain\<close>, \<open>src/src/db\<close> and \<open>src/src/service\<close>, and
  \<open>case_fold_tr\<close> of \<open>domain/text_fold.rs\<close>.

  One database holds the settings beside the exam and the meal tables, whose reference counters a
  change of the lists switches.  A JSON column is the value it encodes.  Two parameters stand for what
  is not in the repository: \<open>lower\<close> is the Unicode lower-casing of one character, and \<open>collate\<close> puts the
  strings of a column into the order the database's collation gives them, while Rust sorts by bytes,
  which is the order of the scalar values.
\<close>

section \<open>Entries\<close>

definition MAX_SETTINGS_LIST_LEN :: nat where "MAX_SETTINGS_LIST_LEN = 20"
definition MAX_SETTINGS_ITEM_LEN :: nat where "MAX_SETTINGS_ITEM_LEN = 50"
definition MAX_GRADE_BANDS :: nat where "MAX_GRADE_BANDS = 20"
definition MAX_GRADE_LABEL_LEN :: nat where "MAX_GRADE_LABEL_LEN = 20"
definition MIN_EXAM_KIND_WEIGHT :: int where "MIN_EXAM_KIND_WEIGHT = 1"
definition MAX_EXAM_KIND_WEIGHT :: int where "MAX_EXAM_KIND_WEIGHT = 100"
definition MAX_MEAL_SERVING_MINUTE :: int where "MAX_MEAL_SERVING_MINUTE = 24 * 60 - 1"
definition MAX_MEAL_CANCEL_CUTOFF_MINUTES :: int where "MAX_MEAL_CANCEL_CUTOFF_MINUTES = 7 * 24 * 60"
definition MAX_ABSENCE_DAYS :: int where "MAX_ABSENCE_DAYS = 365"
definition DEFAULT_MAX_FILE_BYTES :: int where "DEFAULT_MAX_FILE_BYTES = 5 * 1024 * 1024"
definition MIN_MAX_FILE_BYTES :: int where "MIN_MAX_FILE_BYTES = 1024"
definition MAX_MAX_FILE_BYTES :: int where "MAX_MAX_FILE_BYTES = 25 * 1024 * 1024"
definition DEFAULT_CHATBOT_HISTORY_TURNS :: int where "DEFAULT_CHATBOT_HISTORY_TURNS = 10"
definition MIN_CHATBOT_HISTORY_TURNS :: int where "MIN_CHATBOT_HISTORY_TURNS = 1"
definition MAX_CHATBOT_HISTORY_TURNS :: int where "MAX_CHATBOT_HISTORY_TURNS = 50"
definition DEFAULT_MAX_CHATBOT_THREADS :: int where "DEFAULT_MAX_CHATBOT_THREADS = 50"
definition MIN_MAX_CHATBOT_THREADS :: int where "MIN_MAX_CHATBOT_THREADS = 1"
definition MAX_MAX_CHATBOT_THREADS :: int where "MAX_MAX_CHATBOT_THREADS = 500"
definition DEFAULT_MAX_CHATBOT_MESSAGE_LEN :: int where "DEFAULT_MAX_CHATBOT_MESSAGE_LEN = 4000"
definition MIN_MAX_CHATBOT_MESSAGE_LEN :: int where "MIN_MAX_CHATBOT_MESSAGE_LEN = 100"
definition MAX_MAX_CHATBOT_MESSAGE_LEN :: int where "MAX_MAX_CHATBOT_MESSAGE_LEN = 8000"

definition TIMEZONES :: "ustr list" where "TIMEZONES = [u ''Europe/Istanbul'', u ''UTC'']"
definition DEFAULT_TIMEZONE :: ustr where "DEFAULT_TIMEZONE = u ''Europe/Istanbul''"
definition DEFAULT_ATTENDANCE_STATUSES :: "ustr list" where
  "DEFAULT_ATTENDANCE_STATUSES = [u ''present'', u ''absent'', u ''late'', u ''excused'']"
definition DEFAULT_EXAM_KINDS :: "(ustr \<times> int) list" where
  "DEFAULT_EXAM_KINDS = [(u ''yazili'', 1), (u ''sozlu'', 1), (u ''uygulama'', 1)]"
definition DEFAULT_GRADE_BANDS :: "(int \<times> ustr) list" where
  "DEFAULT_GRADE_BANDS = [(85, u ''5''), (70, u ''4''), (55, u ''3''), (45, u ''2''), (0, u ''1'')]"
definition DEFAULT_MEAL_SLOTS :: "ustr list" where
  "DEFAULT_MEAL_SLOTS = [u ''breakfast'', u ''lunch'', u ''snack'']"
definition DEFAULT_DIETARY_TAGS :: "ustr list" where
  "DEFAULT_DIETARY_TAGS = [u ''vegetarian'', u ''vegan'', u ''gluten_free'', u ''lactose_free'', u ''nut_allergy'']"

record grade_band =
  gb_min :: int
  gb_label :: ustr

definition in_range :: "string \<Rightarrow> int \<Rightarrow> int \<Rightarrow> int \<Rightarrow> string \<Rightarrow> unit vresult" where
  "in_range field value lo hi reason = (if lo \<le> value \<and> value \<le> hi then Inr () else Inl (Invalid field reason))"

definition exam_kind_def_try_new :: "ustr \<Rightarrow> int \<Rightarrow> exam_kind_def vresult" where
  "exam_kind_def_try_new name w =
     (let name = trim name in
      if name = [] \<or> length name > MAX_SETTINGS_ITEM_LEN
      then Inl (Invalid ''exam_kinds'' ''kind names must be 1 to 50 characters'')
      else if \<not> (MIN_EXAM_KIND_WEIGHT \<le> w \<and> w \<le> MAX_EXAM_KIND_WEIGHT)
      then Inl (Invalid ''exam_kinds'' ''kind weights must be between 1 and 100'')
      else Inr \<lparr>ek_name = name, ek_weight = w\<rparr>)"

definition meal_slot_def_build :: "ustr \<Rightarrow> int option \<Rightarrow> bool \<Rightarrow> meal_slot_def vresult" where
  "meal_slot_def_build name serving kept =
     (let name = trim name in
      if name = [] \<or> length name > MAX_SETTINGS_ITEM_LEN
      then Inl (Invalid ''meal_slots'' ''slot names must be 1 to 50 characters'')
      else if \<not> kept \<and> list_ex (\<lambda>c. c \<in> {47, 92, 63, 35, 37}) name
      then Inl (Invalid ''meal_slots'' (''meal slot names used for menus must not contain / '' @ [CHR 92] @ '' ? # or %''))
      else and_then
        (case serving of
           None \<Rightarrow> Inr ()
         | Some minute \<Rightarrow> in_range ''meal_slots'' minute 0 MAX_MEAL_SERVING_MINUTE
             ''serving minutes must be between 0 (00:00 UTC) and 1439 (23:59 UTC)'')
        (\<lambda>_. Inr \<lparr>ms_name = name, ms_serving_minute = serving\<rparr>))"

definition grade_band_try_new :: "int \<Rightarrow> ustr \<Rightarrow> grade_band vresult" where
  "grade_band_try_new mn label =
     (if \<not> (MIN_MARK \<le> mn \<and> mn \<le> MAX_MARK)
      then Inl (Invalid ''grade_bands'' ''band mins must be between 0 and 100'')
      else
        (let label = trim label in
         if label = [] \<or> length label > MAX_GRADE_LABEL_LEN
         then Inl (Invalid ''grade_bands'' ''band labels must be 1 to 20 characters'')
         else Inr \<lparr>gb_min = mn, gb_label = label\<rparr>))"

fun replace_dotted_i :: "ustr \<Rightarrow> ustr" where
  "replace_dotted_i (a # b # rest) =
     (if a = 105 \<and> b = 775 then 105 # replace_dotted_i rest else a # replace_dotted_i (b # rest))"
| "replace_dotted_i s = s"

definition case_fold_tr :: "(nat \<Rightarrow> ustr) \<Rightarrow> ustr \<Rightarrow> ustr" where
  "case_fold_tr lower text =
     replace_dotted_i (concat (map (\<lambda>ch. if ch = 304 then [105] else if ch = 73 then [305] else lower ch) text))"

fun trim_entries :: "string \<Rightarrow> ustr list \<Rightarrow> ustr list vresult" where
  "trim_entries field [] = Inr []"
| "trim_entries field (value # values) =
     (let value = trim value in
      if value = [] \<or> length value > MAX_SETTINGS_ITEM_LEN
      then Inl (Invalid field ''entries must be 1 to 50 characters'')
      else and_then (trim_entries field values) (\<lambda>rest. Inr (value # rest)))"

definition validate_list :: "(nat \<Rightarrow> ustr) \<Rightarrow> string \<Rightarrow> ustr list \<Rightarrow> ustr list vresult" where
  "validate_list lower field values =
     (if values = [] then Inl (Empty field)
      else if length values > MAX_SETTINGS_LIST_LEN then Inl (Invalid field ''must contain at most 20 entries'')
      else and_then (trim_entries field values) (\<lambda>trimmed.
        if length (remdups_adj (sort (map (case_fold_tr lower) trimmed))) \<noteq> length trimmed
        then Inl (Invalid field (''two entries are the same word apart from upper/lower case or Turkish letters ''
               @ DASH @ '' keep only one of them''))
        else Inr trimmed))"


section \<open>The settings\<close>

record settings_row =
  st_exam_kinds :: "exam_kind_def list"
  st_grade_bands :: "grade_band list"
  st_max_file_bytes :: "int option"
  st_chatbot_history_turns :: "int option"
  st_max_chatbot_threads :: "int option"
  st_max_chatbot_message_len :: "int option"
  st_meal_slots :: "meal_slot_def list option"
  st_meal_cancel_cutoff_minutes :: "int option"
  st_branches :: "ustr list option"
  st_excuse_kinds :: "ustr list option"
  st_max_excused_absent_days :: "int option"
  st_max_unexcused_absent_days :: "int option"
  st_timezone :: "ustr option"

record settings = settings_row +
  st_attendance_statuses :: "ustr list"
  st_dietary_tags :: "ustr list option"

record settings_params =
  sp_exam_kinds :: "exam_kind_def list"
  sp_attendance_statuses :: "ustr list"
  sp_grade_bands :: "grade_band list"
  sp_max_file_bytes :: int
  sp_chatbot_history_turns :: int
  sp_max_chatbot_threads :: int
  sp_max_chatbot_message_len :: int
  sp_meal_slots :: "meal_slot_def list"
  sp_dietary_tags :: "ustr list"
  sp_meal_cancel_cutoff_minutes :: "int option"
  sp_branches :: "ustr list"
  sp_excuse_kinds :: "ustr list"
  sp_max_excused_absent_days :: "int option"
  sp_max_unexcused_absent_days :: "int option"
  sp_timezone :: "ustr option"

definition settings_defaults :: settings where
  "settings_defaults =
     \<lparr>st_exam_kinds = map (\<lambda>(name, w). \<lparr>ek_name = name, ek_weight = w\<rparr>) DEFAULT_EXAM_KINDS,
      st_grade_bands = map (\<lambda>(mn, label). \<lparr>gb_min = mn, gb_label = label\<rparr>) DEFAULT_GRADE_BANDS,
      st_max_file_bytes = None, st_chatbot_history_turns = None, st_max_chatbot_threads = None,
      st_max_chatbot_message_len = None, st_meal_slots = None, st_meal_cancel_cutoff_minutes = None,
      st_branches = None, st_excuse_kinds = None, st_max_excused_absent_days = None,
      st_max_unexcused_absent_days = None, st_timezone = None,
      st_attendance_statuses = sort DEFAULT_ATTENDANCE_STATUSES, st_dietary_tags = None\<rparr>"

definition get_max_file_bytes :: "settings \<Rightarrow> int" where
  "get_max_file_bytes s = (case st_max_file_bytes s of None \<Rightarrow> DEFAULT_MAX_FILE_BYTES | Some n \<Rightarrow> n)"

definition get_chatbot_history_turns :: "settings \<Rightarrow> int" where
  "get_chatbot_history_turns s =
     (case st_chatbot_history_turns s of None \<Rightarrow> DEFAULT_CHATBOT_HISTORY_TURNS | Some n \<Rightarrow> n)"

definition get_max_chatbot_threads :: "settings \<Rightarrow> int" where
  "get_max_chatbot_threads s = (case st_max_chatbot_threads s of None \<Rightarrow> DEFAULT_MAX_CHATBOT_THREADS | Some n \<Rightarrow> n)"

definition get_max_chatbot_message_len :: "settings \<Rightarrow> int" where
  "get_max_chatbot_message_len s =
     (case st_max_chatbot_message_len s of None \<Rightarrow> DEFAULT_MAX_CHATBOT_MESSAGE_LEN | Some n \<Rightarrow> n)"

definition get_meal_slots :: "settings \<Rightarrow> meal_slot_def list" where
  "get_meal_slots s =
     (case st_meal_slots s of
        None \<Rightarrow> map (\<lambda>name. \<lparr>ms_name = name, ms_serving_minute = None\<rparr>) DEFAULT_MEAL_SLOTS
      | Some slots \<Rightarrow> slots)"

definition get_dietary_tags :: "settings \<Rightarrow> ustr list" where
  "get_dietary_tags s = (case st_dietary_tags s of None \<Rightarrow> DEFAULT_DIETARY_TAGS | Some tags \<Rightarrow> tags)"

definition get_branches :: "settings \<Rightarrow> ustr list" where
  "get_branches s = case_option [] (\<lambda>x. x) (st_branches s)"

definition get_excuse_kinds :: "settings \<Rightarrow> ustr list" where
  "get_excuse_kinds s = case_option [] (\<lambda>x. x) (st_excuse_kinds s)"

definition get_timezone :: "settings \<Rightarrow> ustr" where
  "get_timezone s = case_option DEFAULT_TIMEZONE (\<lambda>x. x) (st_timezone s)"

text \<open>\<open>max_by_key\<close> answers the last of the elements with the greatest key.\<close>

definition max_by_key :: "('a \<Rightarrow> int) \<Rightarrow> 'a list \<Rightarrow> 'a option" where
  "max_by_key key xs =
     fold (\<lambda>x best. case best of None \<Rightarrow> Some x | Some y \<Rightarrow> if key y \<le> key x then Some x else Some y) xs None"

definition grade_label :: "settings \<Rightarrow> rat \<Rightarrow> ustr option" where
  "grade_label s m =
     map_option gb_label (max_by_key gb_min (filter (\<lambda>band. of_int (gb_min band) \<le> m) (st_grade_bands s)))"

definition exam_kind_weight :: "settings \<Rightarrow> ustr \<Rightarrow> int option" where
  "exam_kind_weight s kind = map_option ek_weight (find (\<lambda>def. ek_name def = kind) (st_exam_kinds s))"

definition params_of :: "settings \<Rightarrow> settings_params" where
  "params_of s =
     \<lparr>sp_exam_kinds = st_exam_kinds s, sp_attendance_statuses = st_attendance_statuses s,
      sp_grade_bands = st_grade_bands s, sp_max_file_bytes = get_max_file_bytes s,
      sp_chatbot_history_turns = get_chatbot_history_turns s, sp_max_chatbot_threads = get_max_chatbot_threads s,
      sp_max_chatbot_message_len = get_max_chatbot_message_len s, sp_meal_slots = get_meal_slots s,
      sp_dietary_tags = get_dietary_tags s, sp_meal_cancel_cutoff_minutes = st_meal_cancel_cutoff_minutes s,
      sp_branches = get_branches s, sp_excuse_kinds = get_excuse_kinds s,
      sp_max_excused_absent_days = st_max_excused_absent_days s,
      sp_max_unexcused_absent_days = st_max_unexcused_absent_days s, sp_timezone = st_timezone s\<rparr>"

definition optional_list :: "(nat \<Rightarrow> ustr) \<Rightarrow> string \<Rightarrow> ustr list \<Rightarrow> ustr list vresult" where
  "optional_list lower field values = (if values = [] then Inr values else validate_list lower field values)"

definition optional_range :: "string \<Rightarrow> int option \<Rightarrow> int \<Rightarrow> string \<Rightarrow> unit vresult" where
  "optional_range field value hi reason = (case value of None \<Rightarrow> Inr () | Some n \<Rightarrow> in_range field n 0 hi reason)"

definition validate_bands :: "grade_band list \<Rightarrow> grade_band list vresult" where
  "validate_bands bands =
     (let mins = remdups_adj (sort (map gb_min bands)) in
      if length bands > MAX_GRADE_BANDS then Inl (Invalid ''grade_bands'' ''must contain at most 20 bands'')
      else if length mins \<noteq> length bands then Inl (Invalid ''grade_bands'' ''band mins must be unique'')
      else if bands \<noteq> [] \<and> MIN_MARK \<notin> set mins
      then Inl (Invalid ''grade_bands'' ''one band must start at 0 so every mark gets a label'')
      else Inr (sort_key (\<lambda>b. - gb_min b) bands))"

definition settings_try_new :: "(nat \<Rightarrow> ustr) \<Rightarrow> settings_params \<Rightarrow> settings vresult" where
  "settings_try_new lower p =
     and_then (in_range ''max_file_bytes'' (sp_max_file_bytes p) MIN_MAX_FILE_BYTES MAX_MAX_FILE_BYTES
         ''must be between 1024 (1 KiB) and 26214400 (25 MiB)'') (\<lambda>_.
     and_then (in_range ''chatbot_history_turns'' (sp_chatbot_history_turns p) MIN_CHATBOT_HISTORY_TURNS
         MAX_CHATBOT_HISTORY_TURNS ''must be between 1 and 50'') (\<lambda>_.
     and_then (in_range ''max_chatbot_threads'' (sp_max_chatbot_threads p) MIN_MAX_CHATBOT_THREADS
         MAX_MAX_CHATBOT_THREADS ''must be between 1 and 500'') (\<lambda>_.
     and_then (in_range ''max_chatbot_message_len'' (sp_max_chatbot_message_len p) MIN_MAX_CHATBOT_MESSAGE_LEN
         MAX_MAX_CHATBOT_MESSAGE_LEN ''must be between 100 and 8000 characters'') (\<lambda>_.
     and_then (validate_list lower ''exam_kinds'' (map ek_name (sp_exam_kinds p))) (\<lambda>_.
     and_then (validate_list lower ''attendance_statuses'' (sp_attendance_statuses p)) (\<lambda>statuses.
     if list_ex (\<lambda>core. core \<notin> set statuses) DEFAULT_ATTENDANCE_STATUSES
     then Inl (Invalid ''attendance_statuses'' ''must keep the core statuses: present, absent, late, excused'')
     else
     and_then (validate_bands (sp_grade_bands p)) (\<lambda>bands.
     and_then (optional_list lower ''meal_slots'' (map ms_name (sp_meal_slots p))) (\<lambda>_.
     and_then (optional_list lower ''dietary_tags'' (sp_dietary_tags p)) (\<lambda>tags.
     and_then (optional_range ''meal_cancel_cutoff_minutes'' (sp_meal_cancel_cutoff_minutes p)
         MAX_MEAL_CANCEL_CUTOFF_MINUTES ''must be between 0 and 10080 (one week) minutes'') (\<lambda>_.
     and_then (optional_list lower ''branches'' (sp_branches p)) (\<lambda>branches.
     and_then (optional_list lower ''excuse_kinds'' (sp_excuse_kinds p)) (\<lambda>excuses.
     and_then (optional_range ''max_excused_absent_days'' (sp_max_excused_absent_days p) MAX_ABSENCE_DAYS
         ''must be between 0 and 365 days'') (\<lambda>_.
     and_then (optional_range ''max_unexcused_absent_days'' (sp_max_unexcused_absent_days p) MAX_ABSENCE_DAYS
         ''must be between 0 and 365 days'') (\<lambda>_.
     if (case sp_timezone p of None \<Rightarrow> False | Some tz \<Rightarrow> tz \<notin> set TIMEZONES)
     then Inl (Invalid ''timezone'' ''is not a supported timezone (see GET /limits)'')
     else Inr
       \<lparr>st_exam_kinds = sp_exam_kinds p, st_grade_bands = bands, st_max_file_bytes = Some (sp_max_file_bytes p),
        st_chatbot_history_turns = Some (sp_chatbot_history_turns p),
        st_max_chatbot_threads = Some (sp_max_chatbot_threads p),
        st_max_chatbot_message_len = Some (sp_max_chatbot_message_len p), st_meal_slots = Some (sp_meal_slots p),
        st_meal_cancel_cutoff_minutes = sp_meal_cancel_cutoff_minutes p, st_branches = Some branches,
        st_excuse_kinds = Some excuses, st_max_excused_absent_days = sp_max_excused_absent_days p,
        st_max_unexcused_absent_days = sp_max_unexcused_absent_days p, st_timezone = sp_timezone p,
        st_attendance_statuses = statuses, st_dietary_tags = Some tags\<rparr>))))))))))))))"


section \<open>The store\<close>

record school_db =
  sd_row :: "settings_row option"
  sd_statuses :: "ustr list"
  sd_tags :: "ustr list"
  sd_exams :: exam_db
  sd_meals :: meal_db

definition some_if_any :: "'a list \<Rightarrow> 'a list option" where
  "some_if_any xs = (if xs = [] then None else Some xs)"

definition load_row :: "(ustr list \<Rightarrow> ustr list) \<Rightarrow> school_db \<Rightarrow> settings option" where
  "load_row collate db =
     map_option (\<lambda>r. settings_row.extend r
         (settings.fields (collate (sd_statuses db)) (some_if_any (collate (sd_tags db))))) (sd_row db)"

definition settings_load :: "(ustr list \<Rightarrow> ustr list) \<Rightarrow> school_db \<Rightarrow> settings" where
  "settings_load collate db = (case load_row collate db of None \<Rightarrow> settings_defaults | Some s \<Rightarrow> s)"

definition settings_write :: "(ustr list \<Rightarrow> ustr list) \<Rightarrow> school_db \<Rightarrow> settings \<Rightarrow> school_db \<times> settings" where
  "settings_write collate db s =
     (let statuses = sort (st_attendance_statuses s); tags = case_option [] (\<lambda>x. x) (st_dietary_tags s) in
      (db\<lparr>sd_row := Some (settings_row.truncate s), sd_statuses := statuses, sd_tags := tags\<rparr>,
       s\<lparr>st_attendance_statuses := collate statuses, st_dietary_tags := some_if_any (collate tags)\<rparr>))"

definition save_if_unchanged ::
  "(ustr list \<Rightarrow> ustr list) \<Rightarrow> school_db \<Rightarrow> settings \<Rightarrow> settings \<Rightarrow> school_db \<times> settings option" where
  "save_if_unchanged collate db s expected =
     (let wrote = (case settings_write collate db s of (db', saved) \<Rightarrow> (db', Some saved)) in
      case sd_row db of
        None \<Rightarrow> wrote
      | Some r \<Rightarrow>
          if r = settings_row.truncate expected \<and> collate (sd_statuses db) = sort (st_attendance_statuses expected) \<and>
             some_if_any (collate (sd_tags db)) = Option.bind (st_dietary_tags expected) some_if_any
          then wrote else (db, None))"


section \<open>Retiring a name\<close>

definition retire_kind :: "kind_ref list \<Rightarrow> ustr \<Rightarrow> kind_ref list aresult" where
  "retire_kind refs name =
     (case find_row kr_name refs name of
        None \<Rightarrow> Inr (refs @ [\<lparr>kr_name = name, kr_count = 0, kr_retired = True\<rparr>])
      | Some r \<Rightarrow>
          if kr_count r = 0 \<and> \<not> kr_retired r then Inr (on_row kr_name name (\<lambda>x. x\<lparr>kr_retired := True\<rparr>) refs)
          else if kr_count r > 0
          then Inl (ConflictOwned (u ''exams of kind '' @ [39] @ name @ [39] @ u '' are already graded '' @ [8212]
                 @ u '' the kind cannot be removed''))
          else Inr refs)"

definition retire_slot :: "slot_ref list \<Rightarrow> ustr \<Rightarrow> slot_ref list aresult" where
  "retire_slot refs name =
     (case find_row sr_name refs name of
        None \<Rightarrow> Inr (refs @ [\<lparr>sr_name = name, sr_count = 0, sr_retired = True\<rparr>])
      | Some r \<Rightarrow>
          if sr_count r = 0 \<and> \<not> sr_retired r then Inr (on_row sr_name name (\<lambda>x. x\<lparr>sr_retired := True\<rparr>) refs)
          else if sr_count r > 0
          then Inl (ConflictOwned (u ''menus are already published for the '' @ [39] @ name @ [39] @ u '' slot '' @ [8212]
                 @ u '' it cannot be removed''))
          else Inr refs)"

definition unretire_kind :: "kind_ref list \<Rightarrow> ustr \<Rightarrow> kind_ref list" where
  "unretire_kind refs name =
     (case find_row kr_name refs name of
        None \<Rightarrow> refs @ [\<lparr>kr_name = name, kr_count = 0, kr_retired = False\<rparr>]
      | Some r \<Rightarrow> on_row kr_name name (\<lambda>x. x\<lparr>kr_retired := False\<rparr>) refs)"

definition unretire_slot :: "slot_ref list \<Rightarrow> ustr \<Rightarrow> slot_ref list" where
  "unretire_slot refs name =
     (case find_row sr_name refs name of
        None \<Rightarrow> refs @ [\<lparr>sr_name = name, sr_count = 0, sr_retired = False\<rparr>]
      | Some r \<Rightarrow> on_row sr_name name (\<lambda>x. x\<lparr>sr_retired := False\<rparr>) refs)"

definition missing :: "ustr list \<Rightarrow> ustr list \<Rightarrow> ustr list" where
  "missing before after = filter (\<lambda>name. name \<notin> set after) before"

fun retire_all :: "('r list \<Rightarrow> ustr \<Rightarrow> 'r list aresult) \<Rightarrow> ustr list \<Rightarrow> 'r list \<Rightarrow> 'r list aresult" where
  "retire_all retire [] refs = Inr refs"
| "retire_all retire (n # ns) refs = and_then (retire refs n) (retire_all retire ns)"

definition unretire_all :: "('r list \<Rightarrow> ustr \<Rightarrow> 'r list) \<Rightarrow> ustr list \<Rightarrow> 'r list \<Rightarrow> 'r list" where
  "unretire_all unretire ns refs = fold (\<lambda>n rs. unretire rs n) ns refs"


section \<open>The PATCH\<close>

record settings_patch =
  sq_exam_kinds :: "(ustr \<times> int) list option"
  sq_attendance_statuses :: "ustr list option"
  sq_grade_bands :: "(int \<times> ustr) list option"
  sq_max_file_bytes :: "int option"
  sq_chatbot_history_turns :: "int option"
  sq_max_chatbot_threads :: "int option"
  sq_max_chatbot_message_len :: "int option"
  sq_meal_slots :: "(ustr \<times> int option) list option"
  sq_dietary_tags :: "ustr list option"
  sq_meal_cancel_cutoff_minutes :: "int option option"
  sq_branches :: "ustr list option"
  sq_excuse_kinds :: "ustr list option"
  sq_max_excused_absent_days :: "int option option"
  sq_max_unexcused_absent_days :: "int option option"
  sq_timezone :: "ustr option option"

fun collect_ok :: "('e, 'a) result list \<Rightarrow> ('e, 'a list) result" where
  "collect_ok [] = Inr []"
| "collect_ok (r # rs) = and_then r (\<lambda>x. and_then (collect_ok rs) (\<lambda>xs. Inr (x # xs)))"

definition or_kept :: "'a option \<Rightarrow> 'a \<Rightarrow> 'a" where
  "or_kept new kept = case_option kept (\<lambda>x. x) new"

definition merge_settings :: "(nat \<Rightarrow> ustr) \<Rightarrow> settings_patch \<Rightarrow> settings \<Rightarrow> settings vresult" where
  "merge_settings lower q cur =
     and_then (case sq_exam_kinds q of
         Some kinds \<Rightarrow> collect_ok (map (\<lambda>(name, w). exam_kind_def_try_new name w) kinds)
       | None \<Rightarrow> Inr (st_exam_kinds cur)) (\<lambda>kinds.
     and_then (case sq_meal_slots q of
         Some slots \<Rightarrow> collect_ok (map (\<lambda>(name, minute).
             meal_slot_def_build name minute (list_ex (\<lambda>kept. kept = trim name) (map ms_name (get_meal_slots cur)))) slots)
       | None \<Rightarrow> Inr (get_meal_slots cur)) (\<lambda>slots.
     and_then (case sq_grade_bands q of
         Some bands \<Rightarrow> collect_ok (map (\<lambda>(mn, label). grade_band_try_new mn label) bands)
       | None \<Rightarrow> Inr (st_grade_bands cur)) (\<lambda>bands.
     settings_try_new lower
       (let p = params_of cur in
        \<lparr>sp_exam_kinds = kinds,
         sp_attendance_statuses = or_kept (sq_attendance_statuses q) (st_attendance_statuses cur),
         sp_grade_bands = bands,
         sp_max_file_bytes = or_kept (sq_max_file_bytes q) (sp_max_file_bytes p),
         sp_chatbot_history_turns = or_kept (sq_chatbot_history_turns q) (sp_chatbot_history_turns p),
         sp_max_chatbot_threads = or_kept (sq_max_chatbot_threads q) (sp_max_chatbot_threads p),
         sp_max_chatbot_message_len = or_kept (sq_max_chatbot_message_len q) (sp_max_chatbot_message_len p),
         sp_meal_slots = slots,
         sp_dietary_tags = or_kept (sq_dietary_tags q) (get_dietary_tags cur),
         sp_meal_cancel_cutoff_minutes = or_kept (sq_meal_cancel_cutoff_minutes q) (sp_meal_cancel_cutoff_minutes p),
         sp_branches = or_kept (sq_branches q) (get_branches cur),
         sp_excuse_kinds = or_kept (sq_excuse_kinds q) (get_excuse_kinds cur),
         sp_max_excused_absent_days = or_kept (sq_max_excused_absent_days q) (sp_max_excused_absent_days p),
         sp_max_unexcused_absent_days = or_kept (sq_max_unexcused_absent_days q) (sp_max_unexcused_absent_days p),
         sp_timezone = or_kept (sq_timezone q) (sp_timezone p)\<rparr>))))"

definition STALE_SAVE :: ustr where "STALE_SAVE = u ''settings_save_lost_cas''"

text \<open>
  The transaction of one round: the names that leave the lists are retired, those that enter them are
  put back in service, then the row is saved.
\<close>

definition switch_names :: "settings \<Rightarrow> settings \<Rightarrow> school_db \<Rightarrow> school_db aresult" where
  "switch_names current new db =
     (let was_kinds = map ek_name (st_exam_kinds current); now_kinds = map ek_name (st_exam_kinds new);
          was_slots = map ms_name (get_meal_slots current); now_slots = map ms_name (get_meal_slots new) in
      and_then (retire_all retire_kind (missing was_kinds now_kinds) (xd_kind_refs (sd_exams db))) (\<lambda>kinds.
      and_then (retire_all retire_slot (missing was_slots now_slots) (md_slot_refs (sd_meals db))) (\<lambda>slots.
      let kinds = unretire_all unretire_kind (missing now_kinds was_kinds) kinds;
          slots = unretire_all unretire_slot (missing now_slots was_slots) slots in
      Inr (db\<lparr>sd_exams := (sd_exams db)\<lparr>xd_kind_refs := kinds\<rparr>, sd_meals := (sd_meals db)\<lparr>md_slot_refs := slots\<rparr>\<rparr>))))"

definition apply_in ::
  "(ustr list \<Rightarrow> ustr list) \<Rightarrow> settings \<Rightarrow> settings \<Rightarrow> school_db \<Rightarrow> school_db \<times> settings aresult" where
  "apply_in collate current new db =
     (case switch_names current new db of
        Inl e \<Rightarrow> (db, Inl e)
      | Inr db1 \<Rightarrow>
          (case save_if_unchanged collate db1 new current of
             (db', Some saved) \<Rightarrow> (db', Inr saved)
           | (db', None) \<Rightarrow> (db', Inl (Internal STALE_SAVE))))"

definition apply_tx ::
  "(ustr list \<Rightarrow> ustr list) \<Rightarrow> settings \<Rightarrow> settings \<Rightarrow> school_db \<Rightarrow> school_db \<times> settings aresult" where
  "apply_tx collate current new db = run_tx (apply_in collate current new) db"

text \<open>\<open>rivals k\<close> acts between the load of round \<open>k\<close> and its transaction.\<close>

fun settings_apply_rounds ::
  "(nat \<Rightarrow> ustr) \<Rightarrow> (ustr list \<Rightarrow> ustr list) \<Rightarrow> nat \<Rightarrow> nat \<Rightarrow> (nat \<Rightarrow> school_db \<Rightarrow> school_db) \<Rightarrow> school_db
     \<Rightarrow> settings_patch \<Rightarrow> school_db \<times> settings aresult" where
  "settings_apply_rounds lower collate 0 k rivals db q =
     (db, Inl (Conflict (u ''the settings kept changing underneath this update '' @ [8212] @ u '' try again'')))"
| "settings_apply_rounds lower collate (Suc left) k rivals db q =
     (let current = settings_load collate db in
      case merge_settings lower q current of
        Inl e \<Rightarrow> (db, Inl (Validation e))
      | Inr new \<Rightarrow>
          (case apply_tx collate current new (rivals k db) of
             (db', Inr saved) \<Rightarrow> (db', Inr saved)
           | (db', Inl e) \<Rightarrow>
               if e = Internal STALE_SAVE then settings_apply_rounds lower collate left (Suc k) rivals db' q
               else (db', Inl e)))"

definition settings_apply ::
  "(nat \<Rightarrow> ustr) \<Rightarrow> (ustr list \<Rightarrow> ustr list) \<Rightarrow> (nat \<Rightarrow> school_db \<Rightarrow> school_db) \<Rightarrow> school_db
     \<Rightarrow> settings_patch \<Rightarrow> school_db \<times> settings aresult" where
  "settings_apply lower collate rivals db q = settings_apply_rounds lower collate CAS_UPDATE_RETRIES 0 rivals db q"

end
