(* ===== verification/Settings_Properties.thy ===== *)
theory Settings_Properties
  imports Settings Exam_Counters
begin

text \<open>
  What the settings promise: a name in use never leaves its list, a PATCH is atomic, every mark has a
  label, and a PATCH that says nothing changes nothing.
\<close>

section \<open>Name registers\<close>

text \<open>
  The reference counters of exam kinds and of meal slots are two tables of one kind.  \<open>entry\<close> reads a
  name's counter and whether it is retired; the laws say what each statement does to that reading.
\<close>

definition entry :: "('r \<Rightarrow> ustr) \<Rightarrow> ('r \<Rightarrow> int) \<Rightarrow> ('r \<Rightarrow> bool) \<Rightarrow> 'r list \<Rightarrow> ustr \<Rightarrow> (int \<times> bool) option" where
  "entry name cnt retired rs n = map_option (\<lambda>r. (cnt r, retired r)) (find_row name rs n)"

definition count_in :: "(ustr \<Rightarrow> (int \<times> bool) option) \<Rightarrow> ustr \<Rightarrow> int" where
  "count_in v n = case_option 0 fst (v n)"

text \<open>
  The register agrees with the list: a retired name is unused and not listed, and a name that was once
  listed and no longer is has been retired.
\<close>

definition name_ok :: "bool \<Rightarrow> bool \<Rightarrow> (int \<times> bool) option \<Rightarrow> bool" where
  "name_ok listed ever e \<longleftrightarrow>
     (case e of None \<Rightarrow> listed = ever | Some (c, r) \<Rightarrow> ever \<and> 0 \<le> c \<and> (r \<longrightarrow> c = 0) \<and> listed = (\<not> r))"

definition in_step :: "ustr set \<Rightarrow> ustr set \<Rightarrow> (ustr \<Rightarrow> (int \<times> bool) option) \<Rightarrow> bool" where
  "in_step listed ever v \<longleftrightarrow> (\<forall>n. name_ok (n \<in> listed) (n \<in> ever) (v n))"

lemmas name_ok_simps = in_step_def name_ok_def count_in_def

lemma in_step_at: "in_step listed ever v \<Longrightarrow> name_ok (n \<in> listed) (n \<in> ever) (v n)"
  by (simp add: in_step_def)

lemma in_step_used: "in_step listed ever v \<Longrightarrow> count_in v n > 0 \<Longrightarrow> n \<in> listed"
  by (drule in_step_at [of _ _ _ n]) (auto simp: name_ok_simps split: option.splits)

lemma in_step_count: "in_step listed ever v \<Longrightarrow> 0 \<le> count_in v n"
  by (drule in_step_at [of _ _ _ n]) (auto simp: name_ok_simps split: option.splits)

lemma in_step_ever: "in_step listed ever v \<Longrightarrow> listed \<subseteq> ever"
  by (rule subsetI, drule in_step_at) (auto simp: name_ok_simps split: option.splits)

lemma in_step_upd:
  assumes "in_step listed ever v" "name_ok (n \<in> listed') (n \<in> ever') e"
    "\<And>m. m \<noteq> n \<Longrightarrow> (m \<in> listed' \<longleftrightarrow> m \<in> listed) \<and> (m \<in> ever' \<longleftrightarrow> m \<in> ever)"
  shows "in_step listed' ever' (v(n := e))"
  using assms by (simp add: in_step_def)

locale name_register =
  fixes view :: "'r list \<Rightarrow> ustr \<Rightarrow> (int \<times> bool) option"
    and claim :: "'r list \<Rightarrow> ustr \<Rightarrow> 'r list option"
    and release :: "'r list \<Rightarrow> ustr \<Rightarrow> int \<Rightarrow> 'r list"
    and retire :: "'r list \<Rightarrow> ustr \<Rightarrow> 'r list aresult"
    and unretire :: "'r list \<Rightarrow> ustr \<Rightarrow> 'r list"
  assumes claim_live: "claim rs n = Some rs' \<Longrightarrow> view rs n \<noteq> Some (c, True)"
    and claim_view: "claim rs n = Some rs' \<Longrightarrow> view rs' = (view rs)(n \<mapsto> (count_in (view rs) n + 1, False))"
    and release_view: "view (release rs n k) = (view rs)(n := map_option (\<lambda>(c, b). (max (c - k) 0, b)) (view rs n))"
    and retire_unused: "retire rs n = Inr rs' \<Longrightarrow> count_in (view rs) n \<le> 0"
    and retire_view: "retire rs n = Inr rs' \<Longrightarrow> count_in (view rs) n = 0 \<Longrightarrow> view rs' = (view rs)(n \<mapsto> (0, True))"
    and unretire_view: "view (unretire rs n) = (view rs)(n \<mapsto> (count_in (view rs) n, False))"
begin

lemma claim_step:
  assumes "in_step listed ever (view rs)" "n \<in> ever" "claim rs n = Some rs'"
  shows "in_step listed ever (view rs')"
  unfolding claim_view [OF assms(3)]
  by (rule in_step_upd [OF assms(1)])
    (use in_step_at [OF assms(1), of n] assms(2) claim_live [OF assms(3)] in \<open>auto simp: name_ok_simps split: option.splits\<close>)

lemma release_step:
  assumes "in_step listed ever (view rs)" "0 \<le> k"
  shows "in_step listed ever (view (release rs n k))"
  unfolding release_view
  by (rule in_step_upd [OF assms(1)])
    (use in_step_at [OF assms(1), of n] assms(2) in \<open>auto simp: name_ok_simps split: option.splits\<close>)

lemma retire_step:
  assumes "in_step listed ever (view rs)" "retire rs n = Inr rs'"
  shows "in_step (listed - {n}) (insert n ever) (view rs')"
proof -
  have "count_in (view rs) n = 0" using in_step_count [OF assms(1), of n] retire_unused [OF assms(2)] by simp
  with assms(2) have v: "view rs' = (view rs)(n \<mapsto> (0, True))" by (rule retire_view)
  show ?thesis unfolding v by (rule in_step_upd [OF assms(1)]) (auto simp: name_ok_simps)
qed

lemma unretire_step:
  assumes "in_step listed ever (view rs)"
  shows "in_step (insert n listed) (insert n ever) (view (unretire rs n))"
  unfolding unretire_view
  by (rule in_step_upd [OF assms]) (use in_step_count [OF assms, of n] in \<open>auto simp: name_ok_def\<close>)

lemma retire_all_step:
  "in_step listed ever (view rs) \<Longrightarrow> retire_all retire ns rs = Inr rs' \<Longrightarrow> set ns \<subseteq> ever \<Longrightarrow>
    in_step (listed - set ns) ever (view rs')"
proof (induction ns arbitrary: listed rs)
  case (Cons n ns)
  then obtain r1 where r: "retire rs n = Inr r1" "retire_all retire ns r1 = Inr rs'" by auto
  have "in_step (listed - {n}) ever (view r1)"
    using retire_step [OF Cons.prems(1) r(1)] Cons.prems(3) by (simp add: insert_absorb)
  from Cons.IH [OF this r(2)] Cons.prems(3) have "in_step (listed - {n} - set ns) ever (view rs')" by simp
  then show ?case unfolding Diff_insert2 [symmetric] by simp
qed simp

lemma unretire_all_step:
  "in_step listed ever (view rs) \<Longrightarrow>
    in_step (listed \<union> set ns) (ever \<union> set ns) (view (unretire_all unretire ns rs))"
proof (induction ns arbitrary: listed ever rs)
  case (Cons n ns)
  from Cons.IH [OF unretire_step [OF Cons.prems, of n]] show ?case by (simp add: unretire_all_def)
qed (simp add: unretire_all_def)

lemma retire_all_count:
  "in_step listed ever (view rs) \<Longrightarrow> retire_all retire ns rs = Inr rs' \<Longrightarrow> set ns \<subseteq> ever \<Longrightarrow>
    count_in (view rs') m = count_in (view rs) m"
proof (induction ns arbitrary: listed rs)
  case (Cons n ns)
  then obtain r1 where r: "retire rs n = Inr r1" "retire_all retire ns r1 = Inr rs'" by auto
  have "count_in (view rs) n = 0" using in_step_count [OF Cons.prems(1), of n] retire_unused [OF r(1)] by simp
  with retire_view [OF r(1) this] have "count_in (view r1) m = count_in (view rs) m" by (simp add: count_in_def)
  moreover have "in_step (listed - {n}) ever (view r1)"
    using retire_step [OF Cons.prems(1) r(1)] Cons.prems(3) by (simp add: insert_absorb)
  ultimately show ?case using Cons.IH r(2) Cons.prems(3) by simp
qed simp

lemma unretire_all_count: "count_in (view (unretire_all unretire ns rs)) m = count_in (view rs) m"
proof (induction ns arbitrary: rs)
  case (Cons n ns)
  have "count_in (view (unretire rs n)) m = count_in (view rs) m" by (simp add: unretire_view count_in_def)
  with Cons.IH [of "unretire rs n"] show ?case by (simp add: unretire_all_def)
qed (simp add: unretire_all_def)

lemma switch_count:
  assumes "in_step (set was) ever (view rs)" "retire_all retire (missing was now) rs = Inr rs'"
  shows "count_in (view (unretire_all unretire (missing now was) rs')) m = count_in (view rs) m"
proof -
  have "set (missing was now) \<subseteq> ever" using in_step_ever [OF assms(1)] by (auto simp: missing_def)
  from retire_all_count [OF assms this] show ?thesis by (simp add: unretire_all_count)
qed

lemma switch_step:
  assumes "in_step (set was) ever (view rs)" "retire_all retire (missing was now) rs = Inr rs'"
  shows "in_step (set now) (ever \<union> set now) (view (unretire_all unretire (missing now was) rs'))"
proof -
  have "set (missing was now) \<subseteq> ever" using in_step_ever [OF assms(1)] by (auto simp: missing_def)
  from unretire_all_step [OF retire_all_step [OF assms this], of "missing now was"]
  have step: "in_step (set was - set (missing was now) \<union> set (missing now was)) (ever \<union> set (missing now was))
    (view (unretire_all unretire (missing now was) rs'))" .
  have "set was - set (missing was now) \<union> set (missing now was) = set now"
    "ever \<union> set (missing now was) = ever \<union> set now"
    using in_step_ever [OF assms(1)] by (auto simp: missing_def)
  with step show ?thesis by simp
qed

end

abbreviation kind_view :: "kind_ref list \<Rightarrow> ustr \<Rightarrow> (int \<times> bool) option" where
  "kind_view \<equiv> entry kr_name kr_count kr_retired"

abbreviation slot_view :: "slot_ref list \<Rightarrow> ustr \<Rightarrow> (int \<times> bool) option" where
  "slot_view \<equiv> entry sr_name sr_count sr_retired"

lemma entry_append: "find_row name rs (name r) = None \<Longrightarrow>
    entry name cnt retired (rs @ [r]) = (entry name cnt retired rs)(name r \<mapsto> (cnt r, retired r))"
  by (rule ext) (auto simp: entry_def find_row_append find_row_single split: option.splits)

lemma entry_on_row: "(\<And>x. name (f x) = name x) \<Longrightarrow>
    entry name cnt retired (on_row name n f rs) =
      (entry name cnt retired rs)(n := map_option (\<lambda>r. (cnt (f r), retired (f r))) (find_row name rs n))"
  by (rule ext) (auto simp: entry_def find_on_row option.map_comp comp_def)

interpretation kinds: name_register kind_view bump_kind
  "\<lambda>rs n k. on_row kr_name n (\<lambda>x. x\<lparr>kr_count := max (kr_count x - k) 0\<rparr>) rs" retire_kind unretire_kind
  by unfold_locales
    (auto simp: bump_kind_def retire_kind_def unretire_kind_def entry_append entry_on_row count_in_def
      option.map_comp comp_def split: option.splits if_splits,
     auto simp: entry_def fun_eq_iff option.map_comp comp_def)

interpretation slots: name_register slot_view bump_slot
  "\<lambda>rs n k. on_row sr_name n (\<lambda>x. x\<lparr>sr_count := max (sr_count x - k) 0\<rparr>) rs" retire_slot unretire_slot
  by unfold_locales
    (auto simp: bump_slot_def retire_slot_def unretire_slot_def entry_append entry_on_row [unfolded on_row_def] on_row_def
      count_in_def option.map_comp comp_def split: option.splits if_splits,
     auto simp: entry_def fun_eq_iff option.map_comp comp_def)


section \<open>Names in use stay listed\<close>

abbreviation kinds_of :: "settings \<Rightarrow> ustr list" where "kinds_of s \<equiv> map ek_name (st_exam_kinds s)"
abbreviation slots_of :: "settings \<Rightarrow> ustr list" where "slots_of s \<equiv> map ms_name (get_meal_slots s)"

definition menu_tag :: "menu \<Rightarrow> ustr \<times> ustr \<times> ustr" where
  "menu_tag m = (mn_id m, mn_date m, mn_slot m)"

definition menu_named :: "menu \<Rightarrow> bool" where
  "menu_named m \<longleftrightarrow> length (mn_date m) = 10 \<and> mn_id m = menu_key_for_slot (mn_date m) (mn_slot m)"

text \<open>The kind a mark's exam has now.\<close>

definition marked_kind :: "exam_db \<Rightarrow> exam_result \<Rightarrow> ustr option" where
  "marked_kind db r = map_option ex_kind (exam_read db (er_exam r))"

text \<open>
  The school's tables and the committed transactions on them that touch the lists or the counters; the
  two \<open>other\<close> rules stand for every transaction that leaves both alone, and a refused transaction changes nothing.  The sets are the names that have
  ever been on a list: the service marks an exam or publishes a menu only under a name it has read from
  the settings, at whatever time.  A settings transaction that finds no row was prepared when there was
  none, since no statement deletes the row.  The runs \<open>in_turn\<close> are those without the races of an exam's kind: a
  mark is given and taken under the kind its exam has at that moment, and an exam that has marks keeps its kind.
\<close>

inductive school_reachable :: "bool \<Rightarrow> (ustr list \<Rightarrow> ustr list) \<Rightarrow> ustr set \<Rightarrow> ustr set \<Rightarrow> school_db \<Rightarrow> bool"
  for in_turn :: bool and collate :: "ustr list \<Rightarrow> ustr list" where
  sr_start: "sd_row db = None \<Longrightarrow> xd_kind_refs (sd_exams db) = [] \<Longrightarrow> md_slot_refs (sd_meals db) = [] \<Longrightarrow>
    md_menus (sd_meals db) = [] \<Longrightarrow> (in_turn \<longrightarrow> xd_results (sd_exams db) = []) \<Longrightarrow>
    school_reachable in_turn collate (set (kinds_of settings_defaults)) (set (slots_of settings_defaults)) db"
| sr_grade: "school_reachable in_turn collate ks ss db \<Longrightarrow> kind \<in> ks \<Longrightarrow>
    (in_turn \<longrightarrow> map_option ex_kind (exam_read (sd_exams db) e) = Some kind) \<Longrightarrow>
    school_reachable in_turn collate ks ss (db\<lparr>sd_exams := fst (db_grade (sd_exams db) e student seq mark grader kind)\<rparr>)"
| sr_remove: "school_reachable in_turn collate ks ss db \<Longrightarrow>
    (in_turn \<longrightarrow> map_option ex_kind (exam_read (sd_exams db) e) = Some kind) \<Longrightarrow>
    school_reachable in_turn collate ks ss (db\<lparr>sd_exams := fst (db_remove (sd_exams db) e student kind)\<rparr>)"
| sr_delete: "school_reachable in_turn collate ks ss db \<Longrightarrow>
    school_reachable in_turn collate ks ss (db\<lparr>sd_exams := fst (exam_delete (sd_exams db) target)\<rparr>)"
| sr_exam_other: "school_reachable in_turn collate ks ss db \<Longrightarrow> xd_kind_refs e' = xd_kind_refs (sd_exams db) \<Longrightarrow>
    (in_turn \<longrightarrow> xd_results e' = xd_results (sd_exams db) \<and>
      (\<forall>r \<in> set (xd_results e'). marked_kind e' r = marked_kind (sd_exams db) r)) \<Longrightarrow>
    school_reachable in_turn collate ks ss (db\<lparr>sd_exams := e'\<rparr>)"
| sr_publish: "school_reachable in_turn collate ks ss db \<Longrightarrow> slot \<in> ss \<Longrightarrow> length date = 10 \<Longrightarrow>
    school_reachable in_turn collate ks ss (db\<lparr>sd_meals := fst (menu_create (sd_meals db) date slot capacity by' now)\<rparr>)"
| sr_unpublish: "school_reachable in_turn collate ks ss db \<Longrightarrow> menu_named m \<Longrightarrow>
    school_reachable in_turn collate ks ss (db\<lparr>sd_meals := fst (menu_delete (sd_meals db) m)\<rparr>)"
| sr_meal_other: "school_reachable in_turn collate ks ss db \<Longrightarrow> md_slot_refs m' = md_slot_refs (sd_meals db) \<Longrightarrow>
    map menu_tag (md_menus m') = map menu_tag (md_menus (sd_meals db)) \<Longrightarrow>
    school_reachable in_turn collate ks ss (db\<lparr>sd_meals := m'\<rparr>)"
| sr_settings: "school_reachable in_turn collate ks ss db \<Longrightarrow> (sd_row db = None \<Longrightarrow> current = settings_defaults) \<Longrightarrow>
    apply_tx collate current new db = (db', Inr saved) \<Longrightarrow>
    school_reachable in_turn collate (ks \<union> set (kinds_of new)) (ss \<union> set (slots_of new)) db'"

definition menus_counted :: "meal_db \<Rightarrow> bool" where
  "menus_counted db \<longleftrightarrow>
     keyed mn_id (md_menus db) \<and> (\<forall>m \<in> set (md_menus db). menu_named m) \<and>
     (\<forall>n. count_in (slot_view (md_slot_refs db)) n = refs_to mn_slot n (md_menus db))"

text \<open>The exam transactions, seen from the register of kinds.\<close>

lemma bump_of_grade:
  "xd_kind_refs (fst (db_grade db e student seq mark grader kind)) = xd_kind_refs db \<or>
   bump_kind (xd_kind_refs db) kind = Some (xd_kind_refs (fst (db_grade db e student seq mark grader kind)))"
  unfolding db_grade_def
  by (rule run_tx_inv)
    (auto simp: grade_in_def claim_mark_def Let_def split: option.splits if_splits sum.splits)

lemma kinds_remove:
  assumes "in_step listed ever (kind_view (xd_kind_refs db))"
  shows "in_step listed ever (kind_view (xd_kind_refs (fst (db_remove db e student kind))))"
  unfolding db_remove_def
  by (rule run_tx_inv)
    (use assms kinds.release_step [OF assms, of _ kind] in \<open>auto simp: Let_def split: if_splits\<close>)

lemma kinds_delete:
  assumes "in_step listed ever (kind_view (xd_kind_refs db))"
  shows "in_step listed ever (kind_view (xd_kind_refs (fst (exam_delete db target))))"
proof -
  have "in_step listed ever (kind_view (xd_kind_refs (fst (run_tx (exam_delete_in (ex_id target)) db))))"
    by (rule run_tx_inv)
      (use assms kinds.release_step [OF assms] in \<open>auto simp: exam_delete_in_def Let_def split: option.splits if_splits\<close>)
  then show ?thesis using assms by (auto simp: exam_delete_def split: sum.split prod.split)
qed

text \<open>The marks a kind's counter stands for.\<close>

definition marks_counted :: "exam_db \<Rightarrow> bool" where
  "marks_counted db \<longleftrightarrow> (\<forall>n. count_in (kind_view (xd_kind_refs db)) n = refs_to (marked_kind db) (Some n) (xd_results db))"

lemma marks_frame:
  assumes "marks_counted db" "\<And>n. count_in (kind_view (xd_kind_refs d)) n = count_in (kind_view (xd_kind_refs db)) n"
    "xd_results d = xd_results db" "\<And>r. r \<in> set (xd_results db) \<Longrightarrow> marked_kind d r = marked_kind db r"
  shows "marks_counted d"
proof -
  have "refs_to (marked_kind d) k (xd_results db) = refs_to (marked_kind db) k (xd_results db)" for k
    by (rule refs_to_cong) (rule assms(4))
  then show ?thesis using assms(1) by (simp add: marks_counted_def assms(2,3))
qed

lemma marked_kind_on_row: "(\<And>x. ex_id (f x) = ex_id x) \<Longrightarrow> (\<And>x. ex_kind (f x) = ex_kind x) \<Longrightarrow>
    xd_exams d = on_row ex_id e f (xd_exams db) \<Longrightarrow> marked_kind d r = marked_kind db r"
  by (simp add: marked_kind_def exam_read_def find_on_row option.map_comp comp_def if_distrib [of ex_kind] cong: if_cong)

lemma marks_grade:
  assumes ok: "marks_counted db" and kind: "map_option ex_kind (exam_read db e) = Some kind"
  shows "marks_counted (fst (db_grade db e student seq mark grader kind))"
  unfolding db_grade_def
proof (rule run_tx_inv [of marks_counted, OF ok])
  fix d v assume run: "grade_in e student seq mark grader kind db = (d, Inr v)"
  let ?row = "\<lparr>er_exam = e, er_user = student, er_seq = seq, er_mark = mark, er_graded_by = grader\<rparr>"
  show "marks_counted d"
  proof (cases "find_row er_key (xd_results db) (e, student, seq)")
    case None
    from run None obtain refs where d: "bump_kind (xd_kind_refs db) kind = Some refs" "xd_kind_refs d = refs"
      "xd_exams d = on_row ex_id e (\<lambda>x. x\<lparr>ex_result_count := ex_result_count x + 1\<rparr>) (xd_exams db)"
      "xd_results d = xd_results db @ [?row]"
      by (auto simp: grade_in_def claim_mark_def put_mark_def er_key_def Let_def split: option.splits if_splits)
    have same: "marked_kind d = marked_kind db"
      by (rule ext, rule marked_kind_on_row [OF _ _ d(3)]) simp_all
    have "marked_kind db ?row = Some kind" using kind by (simp add: marked_kind_def)
    then show ?thesis
      using ok unfolding marks_counted_def d(2,4) same kinds.claim_view [OF d(1)] by (simp add: count_in_def)
  next
    case (Some old)
    from run Some have d: "xd_kind_refs d = xd_kind_refs db" "xd_exams d = xd_exams db"
      "xd_results d = on_row er_key (e, student, seq) (\<lambda>x. x\<lparr>er_mark := mark, er_graded_by := grader\<rparr>) (xd_results db)"
      by (auto simp: grade_in_def put_mark_def er_key_def Let_def split: option.splits if_splits)
    have same: "marked_kind d = marked_kind db" by (rule ext) (simp add: marked_kind_def exam_read_def d(2))
    have "marked_kind db (x\<lparr>er_mark := mark, er_graded_by := grader\<rparr>) = marked_kind db x" for x
      by (simp add: marked_kind_def)
    then show ?thesis
      using ok unfolding marks_counted_def d(1,3) same by (simp add: refs_to_on_row)
  qed
qed

text \<open>Taking marks of one kind away from their exam.\<close>

lemma marks_release:
  assumes ok: "marks_counted db" and gone: "\<And>r. r \<in> set (xd_results db) \<Longrightarrow> P r \<Longrightarrow> marked_kind db r = Some kind"
    and d: "xd_results d = filter (\<lambda>r. \<not> P r) (xd_results db)"
      "xd_kind_refs d = on_row kr_name kind (\<lambda>k. k\<lparr>kr_count := max (kr_count k - int (length (filter P (xd_results db)))) 0\<rparr>) (xd_kind_refs db)"
      "\<And>r. r \<in> set (xd_results db) \<Longrightarrow> \<not> P r \<Longrightarrow> marked_kind d r = marked_kind db r"
  shows "marks_counted d"
proof -
  have "refs_to (marked_kind db) (Some n) (filter P (xd_results db)) = (if n = kind then int (length (filter P (xd_results db))) else 0)" for n
    using refs_to_only [of "filter P (xd_results db)" "marked_kind db" "Some kind" "Some n"] gone by auto
  then have split: "refs_to (marked_kind db) (Some n) (xd_results db) =
      (if n = kind then int (length (filter P (xd_results db))) else 0) + refs_to (marked_kind d) (Some n) (xd_results d)" for n
    using refs_to_split [of "marked_kind db" "Some n" "xd_results db" P]
      refs_to_cong [of "xd_results d" "marked_kind d" "marked_kind db" "Some n"] d(1,3) by simp
  have "count_in (kind_view (xd_kind_refs d)) n = refs_to (marked_kind d) (Some n) (xd_results d)" for n
  proof -
    have "count_in (kind_view (xd_kind_refs db)) n = refs_to (marked_kind db) (Some n) (xd_results db)"
      using ok by (simp add: marks_counted_def)
    then show ?thesis
      unfolding d(2) kinds.release_view using split [of n] refs_to_nonneg [of "marked_kind d" "Some n" "xd_results d"]
      by (auto simp: count_in_def simp del: refs_to_nonneg split: option.splits)
  qed
  then show ?thesis by (simp add: marks_counted_def)
qed

lemma marks_remove:
  assumes ok: "marks_counted db" and kind: "map_option ex_kind (exam_read db e) = Some kind"
  shows "marks_counted (fst (db_remove db e student kind))"
  unfolding db_remove_def
proof (rule run_tx_inv [of marks_counted, OF ok])
  let ?P = "\<lambda>r. er_exam r = e \<and> er_user r = student"
  fix d v assume run: "(let gone = sort_key er_seq (filter ?P (xd_results db));
           n = int (length gone);
           high = int (length (filter (\<lambda>r. er_mark r \<ge> HIGH_MARK_MIN) gone)) in
       if gone = [] then (db, Inr None)
       else
         (let users1 = (if high > 0
                        then on_row us_id student (\<lambda>x. x\<lparr>us_high_mark_total := max (us_high_mark_total x - high) 0\<rparr>) (xd_users db)
                        else xd_users db)
          in (db\<lparr>xd_results := filter (\<lambda>r. \<not> ?P r) (xd_results db),
                 xd_kind_refs := on_row kr_name kind (\<lambda>k. k\<lparr>kr_count := max (kr_count k - n) 0\<rparr>) (xd_kind_refs db),
                 xd_exams := on_row ex_id e (\<lambda>x. x\<lparr>ex_result_count := max (ex_result_count x - n) 0\<rparr>) (xd_exams db),
                 xd_users := give_back (per_grader [] gone) users1\<rparr>, Inr (Some (hd gone))))) = (d, Inr v)"
  show "marks_counted d"
  proof (cases "filter ?P (xd_results db) = []")
    case True
    then show ?thesis using run ok by (simp add: Let_def)
  next
    case False
    then have "sort_key er_seq (filter ?P (xd_results db)) \<noteq> []"
      unfolding length_0_conv [symmetric] length_sort .
    note ran = run [unfolded Let_def if_not_P [OF this] length_sort]
    from ran [THEN arg_cong [of _ _ fst], unfolded fst_conv, symmetric] obtain us where e: "d = db\<lparr>xd_results := filter (\<lambda>r. \<not> ?P r) (xd_results db),
        xd_kind_refs := on_row kr_name kind (\<lambda>k. k\<lparr>kr_count := max (kr_count k - int (length (filter ?P (xd_results db)))) 0\<rparr>) (xd_kind_refs db),
        xd_exams := on_row ex_id e (\<lambda>x. x\<lparr>ex_result_count := max (ex_result_count x - int (length (filter ?P (xd_results db)))) 0\<rparr>) (xd_exams db),
        xd_users := us\<rparr>" by (rule that)
    have d: "xd_results d = filter (\<lambda>r. \<not> ?P r) (xd_results db)"
      "xd_kind_refs d = on_row kr_name kind (\<lambda>k. k\<lparr>kr_count := max (kr_count k - int (length (filter ?P (xd_results db)))) 0\<rparr>) (xd_kind_refs db)"
      "xd_exams d = on_row ex_id e (\<lambda>x. x\<lparr>ex_result_count := max (ex_result_count x - int (length (filter ?P (xd_results db)))) 0\<rparr>) (xd_exams db)"
      by (simp_all add: e)
    show ?thesis
    proof (rule marks_release [OF ok _ d(1,2)])
      fix r :: exam_result assume "?P r" then show "marked_kind db r = Some kind" using kind by (simp add: marked_kind_def)
    next
      fix r :: exam_result show "marked_kind d r = marked_kind db r" by (rule marked_kind_on_row [OF _ _ d(3)]) simp_all
    qed
  qed
qed

lemma marks_delete:
  assumes ok: "marks_counted db"
  shows "marks_counted (fst (exam_delete db target))"
proof -
  let ?key = "ex_id target"
  have "marks_counted (fst (run_tx (exam_delete_in ?key) db))"
  proof (rule run_tx_inv [of marks_counted, OF ok])
    fix d v assume run: "exam_delete_in ?key db = (d, Inr v)"
    let ?P = "\<lambda>r. er_exam r = ?key"
    from run obtain e where e: "exam_read db ?key = Some e"
      by (auto simp: exam_delete_in_def split: option.splits)
    from run e have d: "xd_results d = filter (\<lambda>r. \<not> ?P r) (xd_results db)" "xd_exams d = filter (\<lambda>x. \<not> ex_id x = ?key) (xd_exams db)"
      "xd_kind_refs d = (if filter ?P (xd_results db) = [] then xd_kind_refs db
         else on_row kr_name (ex_kind e) (\<lambda>k. k\<lparr>kr_count := max (kr_count k - int (length (filter ?P (xd_results db)))) 0\<rparr>) (xd_kind_refs db))"
      by (auto simp: exam_delete_in_def Let_def)
    have keep: "marked_kind d r = marked_kind db r" if "\<not> ?P r" for r
    proof -
      have "find_row ex_id (filter (\<lambda>x. \<not> ex_id x = ?key) xs) (er_exam r) = find_row ex_id xs (er_exam r)" for xs :: "exam list"
        using that by (induction xs) (simp_all add: find_row_def)
      then show ?thesis by (simp add: marked_kind_def exam_read_def d(2))
    qed
    show "marks_counted d"
    proof (cases "filter ?P (xd_results db) = []")
      case True
      then have all: "filter (\<lambda>r. \<not> ?P r) (xd_results db) = xd_results db" "\<And>r. r \<in> set (xd_results db) \<Longrightarrow> \<not> ?P r"
        by (auto simp: filter_empty_conv intro: filter_True)
      show ?thesis by (rule marks_frame [OF ok]) (use d True all keep in simp_all)
    next
      case False
      then have refs: "xd_kind_refs d = on_row kr_name (ex_kind e)
          (\<lambda>k. k\<lparr>kr_count := max (kr_count k - int (length (filter ?P (xd_results db)))) 0\<rparr>) (xd_kind_refs db)" using d(3) by simp
      show ?thesis by (rule marks_release [OF ok _ d(1) refs]) (use e keep in \<open>simp_all add: marked_kind_def\<close>)
    qed
  qed
  then show ?thesis using ok by (auto simp: exam_delete_def split: sum.split prod.split)
qed

text \<open>The menu transactions, seen from the register of slots and from the menus.\<close>

lemma menu_key_inj: "length d = 10 \<Longrightarrow> length d' = 10 \<Longrightarrow> menu_key_for_slot d s = menu_key_for_slot d' s' \<Longrightarrow> d = d' \<and> s = s'"
  by (simp add: menu_key_for_slot_def u_def)

lemma menu_create_cases:
  obtains "fst (menu_create db date slot capacity by' now) = db"
  | m refs where "bump_slot (md_slot_refs db) slot = Some refs" "mn_id m = menu_key_for_slot date slot"
      "menu_read db (mn_id m) = None" "mn_date m = date" "mn_slot m = slot"
      "fst (menu_create db date slot capacity by' now) = db\<lparr>md_slot_refs := refs, md_menus := md_menus db @ [m]\<rparr>"
proof -
  have "fst (menu_create db date slot capacity by' now) = db \<or>
    (\<exists>m refs. bump_slot (md_slot_refs db) slot = Some refs \<and> mn_id m = menu_key_for_slot date slot \<and>
      menu_read db (mn_id m) = None \<and> mn_date m = date \<and> mn_slot m = slot \<and>
      fst (menu_create db date slot capacity by' now) = db\<lparr>md_slot_refs := refs, md_menus := md_menus db @ [m]\<rparr>)"
    unfolding menu_create_def
    by (rule run_tx_inv) (auto simp: Let_def intro!: exI split: if_splits option.splits)
  with that show thesis by blast
qed

lemma menus_create:
  assumes "menus_counted db" "length date = 10"
  shows "menus_counted (fst (menu_create db date slot capacity by' now))"
proof (cases rule: menu_create_cases [of db date slot capacity by' now])
  case (2 m refs)
  then show ?thesis
    using assms slots.claim_view [OF 2(1)]
    by (auto simp: menus_counted_def menu_named_def keyed_snoc count_in_def menu_read_def find_row_None_iff)
qed (use assms in simp)

lemma slots_create:
  assumes "in_step listed ever (slot_view (md_slot_refs db))" "slot \<in> ever"
  shows "in_step listed ever (slot_view (md_slot_refs (fst (menu_create db date slot capacity by' now))))"
proof (cases rule: menu_create_cases [of db date slot capacity by' now])
  case (2 m refs)
  then show ?thesis using slots.claim_step [OF assms 2(1)] by simp
qed (use assms in simp)

lemma menu_delete_cases:
  obtains "fst (menu_delete db m) = db"
  | row where "menu_read db (mn_id m) = Some row"
      "md_menus (fst (menu_delete db m)) = filter (\<lambda>x. mn_id x \<noteq> mn_id m) (md_menus db)"
      "md_slot_refs (fst (menu_delete db m)) =
        on_row sr_name (mn_slot m) (\<lambda>r. r\<lparr>sr_count := max (sr_count r - 1) 0\<rparr>) (md_slot_refs db)"
proof -
  have "fst (menu_delete db m) = db \<or> (\<exists>row. menu_read db (mn_id m) = Some row \<and>
      md_menus (fst (menu_delete db m)) = filter (\<lambda>x. mn_id x \<noteq> mn_id m) (md_menus db) \<and>
      md_slot_refs (fst (menu_delete db m)) =
        on_row sr_name (mn_slot m) (\<lambda>r. r\<lparr>sr_count := max (sr_count r - 1) 0\<rparr>) (md_slot_refs db))"
    by (simp add: menu_delete_def Let_def on_row_def split: option.split)
  with that show thesis by blast
qed

lemma menus_delete:
  assumes ok: "menus_counted db" and m: "menu_named m"
  shows "menus_counted (fst (menu_delete db m))"
proof (cases rule: menu_delete_cases [of db m])
  case (2 row)
  from 2(1) have row: "row \<in> set (md_menus db)" "mn_id row = mn_id m"
    by (auto simp: menu_read_def dest: find_row_SomeD)
  with ok m have slot: "mn_slot row = mn_slot m"
    using menu_key_inj [of "mn_date row" "mn_date m"] by (auto simp: menus_counted_def menu_named_def)
  have "filter (\<lambda>x. mn_id x = mn_id m) (md_menus db) = [row]"
    using ok 2(1) by (intro keyed_filter_one) (simp_all add: menus_counted_def menu_read_def)
  then have split: "refs_to mn_slot n (md_menus db) =
      (if n = mn_slot m then 1 else 0) + refs_to mn_slot n (filter (\<lambda>x. mn_id x \<noteq> mn_id m) (md_menus db))" for n
    using refs_to_split [of mn_slot n "md_menus db" "\<lambda>x. mn_id x = mn_id m"] slot by auto
  have "count_in (slot_view (md_slot_refs (fst (menu_delete db m)))) n =
      refs_to mn_slot n (filter (\<lambda>x. mn_id x \<noteq> mn_id m) (md_menus db))" for n
  proof -
    have "count_in (slot_view (md_slot_refs db)) n = refs_to mn_slot n (md_menus db)"
      using ok by (simp add: menus_counted_def)
    then show ?thesis
      unfolding 2(3) slots.release_view using split [of n] refs_to_nonneg [of mn_slot n "filter (\<lambda>x. mn_id x \<noteq> mn_id m) (md_menus db)"]
      by (auto simp: count_in_def simp del: refs_to_nonneg split: option.splits)
  qed
  then show ?thesis using ok unfolding menus_counted_def 2(2) by (simp add: keyed_filter)
qed (use ok in simp)

lemma slots_delete:
  assumes "in_step listed ever (slot_view (md_slot_refs db))"
  shows "in_step listed ever (slot_view (md_slot_refs (fst (menu_delete db m))))"
proof (cases rule: menu_delete_cases [of db m])
  case (2 row)
  show ?thesis unfolding 2(3) by (rule slots.release_step [OF assms]) simp
qed (use assms in simp)

lemma menus_frame:
  assumes "menus_counted db" "md_slot_refs db' = md_slot_refs db"
    "map menu_tag (md_menus db') = map menu_tag (md_menus db)"
  shows "menus_counted db'"
proof -
  have "map (f \<circ> menu_tag) (md_menus db') = map (f \<circ> menu_tag) (md_menus db)" for f :: "_ \<Rightarrow> 'b"
    using arg_cong [OF assms(3), of "map f"] by simp
  from this [of fst] this [of "\<lambda>(i, d, s). s"]
  have cols: "map mn_id (md_menus db') = map mn_id (md_menus db)" "map mn_slot (md_menus db') = map mn_slot (md_menus db)"
    by (simp_all add: menu_tag_def comp_def)
  have tags: "menu_tag ` set (md_menus db') = menu_tag ` set (md_menus db)"
    using arg_cong [OF assms(3), of set] by simp
  have r: "refs_to mn_slot n xs = refs_to (\<lambda>s. s) n (map mn_slot xs)" for n xs
    by (simp add: refs_to_def filter_map comp_def)
  have n: "(\<forall>m \<in> set xs. menu_named m) \<longleftrightarrow>
      menu_tag ` set xs \<subseteq> {(i, d, s). length d = 10 \<and> i = menu_key_for_slot d s}" for xs
    by (auto simp: menu_named_def menu_tag_def)
  show ?thesis
    using assms(1) unfolding menus_counted_def keyed_def n r cols tags assms(2) .
qed

text \<open>The transaction of a settings update.\<close>

lemma save_if_unchanged_Some:
  assumes "save_if_unchanged collate db s expected = (db', Some saved)"
  shows "sd_row db' = Some (settings_row.truncate s) \<and> sd_exams db' = sd_exams db \<and> sd_meals db' = sd_meals db \<and>
    (sd_row db = None \<or> sd_row db = Some (settings_row.truncate expected))"
  using assms by (auto simp: save_if_unchanged_def settings_write_def Let_def split: option.splits if_splits)

lemma apply_in_Inr:
  assumes "apply_in collate current new db = (db', Inr saved)"
  shows "\<exists>kinds slots.
    retire_all retire_kind (missing (kinds_of current) (kinds_of new)) (xd_kind_refs (sd_exams db)) = Inr kinds \<and>
    retire_all retire_slot (missing (slots_of current) (slots_of new)) (md_slot_refs (sd_meals db)) = Inr slots \<and>
    xd_kind_refs (sd_exams db') = unretire_all unretire_kind (missing (kinds_of new) (kinds_of current)) kinds \<and>
    md_slot_refs (sd_meals db') = unretire_all unretire_slot (missing (slots_of new) (slots_of current)) slots \<and>
    md_menus (sd_meals db') = md_menus (sd_meals db) \<and>
    xd_exams (sd_exams db') = xd_exams (sd_exams db) \<and> xd_results (sd_exams db') = xd_results (sd_exams db) \<and>
    sd_row db' = Some (settings_row.truncate new) \<and>
    (sd_row db = None \<or> sd_row db = Some (settings_row.truncate current))"
  using assms
  by (auto simp: apply_in_def switch_names_def Let_def dest!: save_if_unchanged_Some split: sum.splits prod.splits option.splits)

lemma kinds_of_row [simp]:
  "settings_load collate db = settings_defaults" if "sd_row db = None"
  using that by (simp add: settings_load_def load_row_def)

lemma st_of_row:
  assumes "sd_row db = Some (settings_row.truncate s)"
  shows "st_exam_kinds (settings_load collate db) = st_exam_kinds s" "get_meal_slots (settings_load collate db) = get_meal_slots s"
  using assms
  by (simp_all add: settings_load_def load_row_def get_meal_slots_def settings_row.defs settings.defs)

definition school_ok :: "(ustr list \<Rightarrow> ustr list) \<Rightarrow> ustr set \<Rightarrow> ustr set \<Rightarrow> school_db \<Rightarrow> bool" where
  "school_ok collate ks ss db \<longleftrightarrow>
     in_step (set (kinds_of (settings_load collate db))) ks (kind_view (xd_kind_refs (sd_exams db))) \<and>
     in_step (set (slots_of (settings_load collate db))) ss (slot_view (md_slot_refs (sd_meals db))) \<and>
     menus_counted (sd_meals db)"

lemma load_frame [simp]:
  "settings_load collate (db\<lparr>sd_exams := e\<rparr>) = settings_load collate db"
  "settings_load collate (db\<lparr>sd_meals := m\<rparr>) = settings_load collate db"
  by (simp_all add: settings_load_def load_row_def)

lemma settings_keep_ok:
  assumes ok: "school_ok collate ks ss db" and cur: "sd_row db = None \<Longrightarrow> current = settings_defaults"
    and tx: "apply_tx collate current new db = (db', Inr saved)"
  shows "school_ok collate (ks \<union> set (kinds_of new)) (ss \<union> set (slots_of new)) db'"
proof -
  from tx have a: "apply_in collate current new db = (db', Inr saved)" by (simp add: apply_tx_def run_tx_Inr)
  from apply_in_Inr [OF a] obtain kinds slots where w:
    "retire_all retire_kind (missing (kinds_of current) (kinds_of new)) (xd_kind_refs (sd_exams db)) = Inr kinds"
    "retire_all retire_slot (missing (slots_of current) (slots_of new)) (md_slot_refs (sd_meals db)) = Inr slots"
    "xd_kind_refs (sd_exams db') = unretire_all unretire_kind (missing (kinds_of new) (kinds_of current)) kinds"
    "md_slot_refs (sd_meals db') = unretire_all unretire_slot (missing (slots_of new) (slots_of current)) slots"
    "md_menus (sd_meals db') = md_menus (sd_meals db)" "sd_row db' = Some (settings_row.truncate new)"
    "sd_row db = None \<or> sd_row db = Some (settings_row.truncate current)" by blast
  from w(7) cur have now: "st_exam_kinds (settings_load collate db) = st_exam_kinds current"
    "get_meal_slots (settings_load collate db) = get_meal_slots current" by (auto simp: st_of_row)
  from ok have k: "in_step (set (kinds_of current)) ks (kind_view (xd_kind_refs (sd_exams db)))"
    and s: "in_step (set (slots_of current)) ss (slot_view (md_slot_refs (sd_meals db)))"
    by (simp_all add: school_ok_def now)
  have "menus_counted (sd_meals db')"
    using ok slots.switch_count [OF s w(2)] unfolding school_ok_def menus_counted_def w(4,5) by simp
  then show ?thesis
    using kinds.switch_step [OF k w(1)] slots.switch_step [OF s w(2)] by (simp add: school_ok_def st_of_row [OF w(6)] w(3,4))
qed

lemma settings_keep_marks:
  assumes ok: "school_ok collate ks ss db" and cur: "sd_row db = None \<Longrightarrow> current = settings_defaults"
    and tx: "apply_tx collate current new db = (db', Inr saved)" and marks: "marks_counted (sd_exams db)"
  shows "marks_counted (sd_exams db')"
proof -
  from tx have a: "apply_in collate current new db = (db', Inr saved)" by (simp add: apply_tx_def run_tx_Inr)
  from apply_in_Inr [OF a] obtain kinds where w:
    "retire_all retire_kind (missing (kinds_of current) (kinds_of new)) (xd_kind_refs (sd_exams db)) = Inr kinds"
    "xd_kind_refs (sd_exams db') = unretire_all unretire_kind (missing (kinds_of new) (kinds_of current)) kinds"
    "xd_exams (sd_exams db') = xd_exams (sd_exams db)" "xd_results (sd_exams db') = xd_results (sd_exams db)"
    "sd_row db = None \<or> sd_row db = Some (settings_row.truncate current)" by blast
  have "st_exam_kinds (settings_load collate db) = st_exam_kinds current" using w(5) cur by (auto simp: st_of_row)
  then have "in_step (set (kinds_of current)) ks (kind_view (xd_kind_refs (sd_exams db)))" using ok by (simp add: school_ok_def)
  from kinds.switch_count [OF this w(1)] show ?thesis
    by (intro marks_frame [OF marks]) (simp_all add: w(2-4) marked_kind_def exam_read_def)
qed

lemma school_reachable_ok: "school_reachable in_turn collate ks ss db \<Longrightarrow> school_ok collate ks ss db"
proof (induction rule: school_reachable.induct)
  case (sr_start db)
  then show ?case
    by (auto simp: school_ok_def in_step_def name_ok_def entry_def menus_counted_def keyed_def count_in_def)
next
  case (sr_grade ks ss db kind e student seq mark grader)
  then show ?case
    using bump_of_grade [of "sd_exams db" e student seq mark grader kind] kinds.claim_step
    by (fastforce simp: school_ok_def)
next
  case (sr_settings ks ss db current new db' saved)
  then show ?case by (intro settings_keep_ok)
qed (auto simp: school_ok_def kinds_remove kinds_delete menus_create slots_create menus_delete slots_delete
      elim: menus_frame)


lemma school_marks: "school_reachable in_turn collate ks ss db \<Longrightarrow> in_turn \<Longrightarrow> marks_counted (sd_exams db)"
proof (induction rule: school_reachable.induct)
  case (sr_start db)
  then show ?case by (simp add: marks_counted_def entry_def count_in_def)
next
  case (sr_exam_other ks ss db e')
  then have "marks_counted e'" by (intro marks_frame [of "sd_exams db" e']) simp_all
  then show ?case by simp
next
  case (sr_settings ks ss db current new db' saved)
  then have "sd_row db = None \<Longrightarrow> current = settings_defaults" "apply_tx collate current new db = (db', Inr saved)"
    "marks_counted (sd_exams db)" by simp_all
  from settings_keep_marks [OF school_reachable_ok [OF sr_settings(1)] this] show ?case .
next
  case (sr_grade ks ss db kind e student seq mark grader)
  then have "marks_counted (sd_exams db)" "map_option ex_kind (exam_read (sd_exams db) e) = Some kind" by blast+
  from marks_grade [OF this] show ?case by simp
next
  case (sr_remove ks ss db e kind student)
  then have "marks_counted (sd_exams db)" "map_option ex_kind (exam_read (sd_exams db) e) = Some kind" by blast+
  from marks_remove [OF this] show ?case by simp
next
  case (sr_delete ks ss db target)
  then show ?case using marks_delete [of "sd_exams db" target] by simp
qed simp_all


section \<open>A PATCH in one step\<close>

text \<open>What a PATCH promises: load, merge, switch the names and write, with nobody in between.\<close>

definition patch_settings_now ::
  "(nat \<Rightarrow> ustr) \<Rightarrow> (ustr list \<Rightarrow> ustr list) \<Rightarrow> settings_patch \<Rightarrow> school_db \<Rightarrow> school_db \<times> settings aresult" where
  "patch_settings_now lower collate q db =
     (let current = settings_load collate db in
      case merge_settings lower q current of
        Inl e \<Rightarrow> (db, Inl (Validation e))
      | Inr new \<Rightarrow>
          (case switch_names current new db of
             Inl e \<Rightarrow> (db, Inl e)
           | Inr db1 \<Rightarrow> (case settings_write collate db1 new of (db', saved) \<Rightarrow> (db', Inr saved))))"

primrec school_after :: "(nat \<Rightarrow> school_db \<Rightarrow> school_db) \<Rightarrow> nat \<Rightarrow> school_db \<Rightarrow> nat \<Rightarrow> school_db" where
  "school_after rivals k db 0 = db"
| "school_after rivals k db (Suc n) = school_after rivals (Suc k) (rivals k db) n"

text \<open>What the compare finds in the row is what a load would read there, when the column is in byte order.\<close>

definition unchanged_since :: "(ustr list \<Rightarrow> ustr list) \<Rightarrow> settings \<Rightarrow> school_db \<Rightarrow> bool" where
  "unchanged_since collate expected db \<longleftrightarrow> sd_row db = None \<or>
     sd_row db = Some (settings_row.truncate expected) \<and> collate (sd_statuses db) = sort (st_attendance_statuses expected) \<and>
     some_if_any (collate (sd_tags db)) = Option.bind (st_dietary_tags expected) some_if_any"

lemma save_if_unchanged_cases:
  "save_if_unchanged collate db s expected =
     (if unchanged_since collate expected db
      then (case settings_write collate db s of (db', saved) \<Rightarrow> (db', Some saved)) else (db, None))"
  by (auto simp: save_if_unchanged_def unchanged_since_def Let_def split: option.splits)

lemma switch_names_frame:
  assumes "switch_names current new db = Inr db1"
  shows "sd_row db1 = sd_row db" "sd_statuses db1 = sd_statuses db" "sd_tags db1 = sd_tags db"
  using assms by (auto simp: switch_names_def Let_def)

lemma unchanged_frame:
  "switch_names current new db = Inr db1 \<Longrightarrow> unchanged_since collate e db1 = unchanged_since collate e db"
  by (simp add: unchanged_since_def switch_names_frame)

lemma retire_kind_error: "retire_kind rs n \<noteq> Inl (Internal m)"
  by (auto simp: retire_kind_def split: option.splits if_splits)

lemma retire_slot_error: "retire_slot rs n \<noteq> Inl (Internal m)"
  by (auto simp: retire_slot_def split: option.splits if_splits)

lemma retire_all_error: "(\<And>rs n. retire rs n \<noteq> Inl (Internal m)) \<Longrightarrow> retire_all retire ns rs \<noteq> Inl (Internal m)"
  by (induction ns arbitrary: rs) (auto simp: and_then_Inl_iff)

lemma switch_names_error: "switch_names current new db \<noteq> Inl (Internal m)"
  unfolding switch_names_def Let_def and_then_Inl_iff
  using retire_all_error [OF retire_kind_error] retire_all_error [OF retire_slot_error] by auto

lemma apply_tx_cases:
  "apply_tx collate current new db =
     (case switch_names current new db of
        Inl e \<Rightarrow> (db, Inl e)
      | Inr db1 \<Rightarrow>
          if unchanged_since collate current db
          then (case settings_write collate db1 new of (db', saved) \<Rightarrow> (db', Inr saved))
          else (db, Inl (Internal STALE_SAVE)))"
  by (cases "switch_names current new db")
    (auto simp: apply_tx_def apply_in_def run_tx_def save_if_unchanged_cases unchanged_frame split: prod.splits)

lemma bind_some_if_any [simp]: "Option.bind (some_if_any xs) some_if_any = some_if_any xs"
  by (simp add: some_if_any_def)

lemma sort_sort [simp]: "sort (sort xs) = sort xs"
  by (simp add: sorted_sort_id)

lemma unchanged_load:
  assumes "unchanged_since sort (settings_load sort db) db'" "sd_row db \<noteq> None \<Longrightarrow> sd_row db' \<noteq> None"
  shows "settings_load sort db' = settings_load sort db"
proof (cases "sd_row db'")
  case None
  with assms(2) have "sd_row db = None" by (cases "sd_row db") auto
  with None show ?thesis by simp
next
  case (Some r)
  show ?thesis
  proof (cases "sd_row db")
    case None
    with Some assms(1) show ?thesis
      by (simp add: unchanged_since_def settings_load_def load_row_def settings_defaults_def settings_row.defs settings.defs)
  next
    case (Some r')
    with assms(1) \<open>sd_row db' = Some r\<close> show ?thesis
      by (simp add: unchanged_since_def settings_load_def load_row_def settings_row.defs settings.defs)
  qed
qed

lemma rounds_atomic:
  assumes rows: "\<And>k d. sd_row d \<noteq> None \<Longrightarrow> sd_row (rivals k d) \<noteq> None"
    and run: "settings_apply_rounds lower sort left k rivals db q = (db', r)"
  shows "(\<exists>n \<le> left. db' = school_after rivals k db n \<and> (\<exists>e. r = Inl e)) \<or>
    (\<exists>n \<in> {1..left}. patch_settings_now lower sort q (school_after rivals k db n) = (db', r) \<and> (\<exists>saved. r = Inr saved))"
  using run
proof (induction left arbitrary: k db)
  case 0
  then show ?case by auto
next
  case (Suc left)
  let ?cur = "settings_load sort db" and ?d = "rivals k db"
  have step: "school_after rivals k db (Suc n) = school_after rivals (Suc k) ?d n" for n by simp
  show ?case
  proof (cases "merge_settings lower q ?cur")
    case (Inl e)
    with Suc.prems show ?thesis by (auto intro!: exI [of _ 0])
  next
    case (Inr new)
    show ?thesis
    proof (cases "switch_names ?cur new ?d")
      case (Inl e)
      with Suc.prems Inr have "db' = ?d" "r = Inl e"
        using switch_names_error [of ?cur new ?d STALE_SAVE] by (auto simp: apply_tx_cases split: if_splits)
      then show ?thesis by (auto intro!: exI [of _ 1])
    next
      case (Inr db1)
      show ?thesis
      proof (cases "unchanged_since sort ?cur ?d")
        case True
        have "settings_load sort ?d = ?cur" using True rows by (rule unchanged_load)
        then have "patch_settings_now lower sort q ?d = (db', r)" "\<exists>saved. r = Inr saved"
          using Suc.prems \<open>merge_settings lower q ?cur = Inr new\<close> Inr True
          by (auto simp: apply_tx_cases patch_settings_now_def split: prod.splits)
        then show ?thesis by (auto intro!: bexI [of _ 1])
      next
        case False
        with Suc.prems \<open>merge_settings lower q ?cur = Inr new\<close> Inr
        have "settings_apply_rounds lower sort left (Suc k) rivals ?d q = (db', r)"
          by (simp add: apply_tx_cases)
        from Suc.IH [OF this] show ?thesis
        proof (elim disjE exE bexE conjE)
          fix n e assume "n \<le> left" "db' = school_after rivals (Suc k) ?d n" "r = Inl e"
          then show ?thesis using step [of n] by (intro disjI1 exI [of _ "Suc n"]) auto
        next
          fix n saved assume "n \<in> {1..left}" "patch_settings_now lower sort q (school_after rivals (Suc k) ?d n) = (db', r)"
            "r = Inr saved"
          then show ?thesis using step [of n] by (intro disjI2 bexI [of _ "Suc n"]) auto
        qed
      qed
    qed
  qed
qed

lemma quiet_unchanged: "unchanged_since sort (settings_load sort db) db"
  by (cases "sd_row db")
    (simp_all add: unchanged_since_def settings_load_def load_row_def settings_row.defs settings.defs)

lemma rounds_quiet:
  "settings_apply_rounds lower sort (Suc left) k (\<lambda>_ d. d) db q = patch_settings_now lower sort q db"
  using switch_names_error [of "settings_load sort db" _ db STALE_SAVE]
  by (auto simp: patch_settings_now_def apply_tx_cases quiet_unchanged Let_def split: sum.splits prod.splits)


section \<open>Validation\<close>

lemma trim_entries_Inr:
  "trim_entries field xs = Inr ys \<longleftrightarrow>
     ys = map trim xs \<and> (\<forall>y \<in> set ys. y \<noteq> [] \<and> length y \<le> MAX_SETTINGS_ITEM_LEN)"
  by (induction xs arbitrary: ys) (auto simp: Let_def eq_commute [of "[]"])

lemma sort_same: "mset xs = mset ys \<Longrightarrow> sort xs = sort ys"
  by (metis mset_sort sorted_sort properties_for_sort)

lemma validate_list_again:
  assumes "validate_list lower field xs = Inr ys" "mset zs = mset ys"
  shows "validate_list lower field zs = Inr zs"
proof -
  from assms(1) have y: "xs \<noteq> []" "length xs \<le> MAX_SETTINGS_LIST_LEN" "trim_entries field xs = Inr ys"
    "length (remdups_adj (sort (map (case_fold_tr lower) ys))) = length ys"
    by (auto simp: validate_list_def split: if_splits)
  from y(3) have ys: "ys = map trim xs" "\<forall>y \<in> set ys. y \<noteq> [] \<and> length y \<le> MAX_SETTINGS_ITEM_LEN"
    by (auto simp: trim_entries_Inr)
  have sets: "set zs = set ys" and len: "length zs = length ys" using assms(2) by (auto dest: mset_eq_setD mset_eq_length)
  have "map trim zs = zs" using sets ys(1) by (intro map_idI) auto
  with sets ys(2) have "trim_entries field zs = Inr zs" by (auto simp: trim_entries_Inr)
  moreover have "sort (map (case_fold_tr lower) zs) = sort (map (case_fold_tr lower) ys)"
    using assms(2) by (intro sort_same) simp
  moreover have "zs \<noteq> []" "length zs = length xs" using len ys(1) y(1) by auto
  ultimately show ?thesis using y(2,4) len by (auto simp: validate_list_def)
qed

lemma optional_list_again:
  "optional_list lower field xs = Inr ys \<Longrightarrow> mset zs = mset ys \<Longrightarrow> optional_list lower field zs = Inr zs"
  by (auto simp: optional_list_def validate_list_again split: if_splits)

lemma distinct_remdups_sorted: "sorted xs \<Longrightarrow> distinct (remdups_adj xs)" for xs :: "'a :: linorder list"
  by (induction xs rule: remdups_adj.induct) auto

lemma remdups_adj_length:
  fixes xs :: "'a :: linorder list"
  shows "length (remdups_adj (sort xs)) = length xs \<longleftrightarrow> distinct xs"
proof -
  have "length (remdups_adj (sort xs)) = card (set xs)"
    using distinct_card [OF distinct_remdups_sorted [OF sorted_sort [of xs]]] by simp
  then show ?thesis by (auto simp: distinct_card card_distinct)
qed

lemma validate_bands_Inr:
  "validate_bands bands = Inr bs \<longleftrightarrow>
     bs = sort_key (\<lambda>b. - gb_min b) bands \<and> length bands \<le> MAX_GRADE_BANDS \<and> distinct (map gb_min bands) \<and>
     (bands = [] \<or> 0 \<in> gb_min ` set bands)"
  using remdups_adj_length [of "map gb_min bands"]
  by (auto simp: validate_bands_def Let_def MIN_MARK_def split: if_splits)

lemma validate_bands_again:
  assumes "validate_bands bands = Inr bs"
  shows "validate_bands bs = Inr bs"
proof -
  have "distinct (map gb_min bands)" using assms by (simp add: validate_bands_Inr)
  then have "distinct (map gb_min (sort_key (\<lambda>b. - gb_min b) bands))"
    by (metis distinct_map distinct_sort set_sort)
  moreover have "bs = [] \<longleftrightarrow> bands = []" using assms by (metis length_sort length_0_conv validate_bands_Inr)
  ultimately show ?thesis
    using assms by (auto simp: validate_bands_Inr sort_key_id_if_sorted)
qed

lemma max_by_key_fold:
  "fold (\<lambda>x best. case best of None \<Rightarrow> Some x | Some y \<Rightarrow> if key y \<le> key x then Some x else Some y) xs (Some z) = Some w \<Longrightarrow>
     w \<in> insert z (set xs) \<and> (\<forall>x \<in> insert z (set xs). key x \<le> key w)" for key :: "'a \<Rightarrow> int"
proof (induction xs arbitrary: z)
  case (Cons x xs)
  then show ?case by (cases "key z \<le> key x") fastforce+
qed simp

lemma max_by_key_total: "xs \<noteq> [] \<Longrightarrow> max_by_key key xs \<noteq> None"
proof -
  have "fold (\<lambda>x best. case best of None \<Rightarrow> Some x | Some y \<Rightarrow> if key y \<le> key x then Some x else Some y) xs (Some z) \<noteq> None"
    for z and xs :: "'a list"
    by (induction xs arbitrary: z) auto
  then show "xs \<noteq> [] \<Longrightarrow> max_by_key key xs \<noteq> None" by (cases xs) (auto simp: max_by_key_def)
qed

lemma max_by_key_Some:
  assumes "max_by_key key xs = Some w"
  shows "w \<in> set xs \<and> (\<forall>x \<in> set xs. key x \<le> key w)"
  using assms max_by_key_fold [of key] by (cases xs) (auto simp: max_by_key_def)

lemma try_new_again:
  assumes "settings_try_new lower p = Inr s" "mset sts = mset (st_attendance_statuses s)"
    "st_dietary_tags s = Some tags" "mset tgs = mset tags"
  shows "settings_try_new lower (params_of (s\<lparr>st_attendance_statuses := sts, st_dietary_tags := Some tgs\<rparr>))
    = Inr (s\<lparr>st_attendance_statuses := sts, st_dietary_tags := Some tgs\<rparr>)"
proof -
  obtain statuses bands tags' branches excuses ks sl where v:
    "validate_list lower ''exam_kinds'' (map ek_name (sp_exam_kinds p)) = Inr ks"
    "validate_list lower ''attendance_statuses'' (sp_attendance_statuses p) = Inr statuses"
    "validate_bands (sp_grade_bands p) = Inr bands"
    "optional_list lower ''meal_slots'' (map ms_name (sp_meal_slots p)) = Inr sl"
    "optional_list lower ''dietary_tags'' (sp_dietary_tags p) = Inr tags'"
    "optional_list lower ''branches'' (sp_branches p) = Inr branches"
    "optional_list lower ''excuse_kinds'' (sp_excuse_kinds p) = Inr excuses"
    "\<not> list_ex (\<lambda>core. core \<notin> set statuses) DEFAULT_ATTENDANCE_STATUSES"
    and s: "s = \<lparr>st_exam_kinds = sp_exam_kinds p, st_grade_bands = bands, st_max_file_bytes = Some (sp_max_file_bytes p),
        st_chatbot_history_turns = Some (sp_chatbot_history_turns p),
        st_max_chatbot_threads = Some (sp_max_chatbot_threads p),
        st_max_chatbot_message_len = Some (sp_max_chatbot_message_len p), st_meal_slots = Some (sp_meal_slots p),
        st_meal_cancel_cutoff_minutes = sp_meal_cancel_cutoff_minutes p, st_branches = Some branches,
        st_excuse_kinds = Some excuses, st_max_excused_absent_days = sp_max_excused_absent_days p,
        st_max_unexcused_absent_days = sp_max_unexcused_absent_days p, st_timezone = sp_timezone p,
        st_attendance_statuses = statuses, st_dietary_tags = Some tags'\<rparr>"
    using assms(1) unfolding settings_try_new_def by (auto split: if_splits)
  have sets: "set sts = set statuses" using assms(2) s by (auto dest: mset_eq_setD)
  have "validate_list lower ''attendance_statuses'' sts = Inr sts"
    using validate_list_again [OF v(2)] assms(2) s by simp
  moreover have "optional_list lower ''dietary_tags'' tgs = Inr tgs"
    using optional_list_again [OF v(5)] assms(3,4) s by simp
  moreover have "validate_bands bands = Inr bands" by (rule validate_bands_again [OF v(3)])
  moreover have "optional_list lower ''branches'' branches = Inr branches"
    "optional_list lower ''excuse_kinds'' excuses = Inr excuses"
    using optional_list_again [OF v(6)] optional_list_again [OF v(7)] by simp_all
  ultimately show ?thesis
    using assms(1) v sets unfolding settings_try_new_def s
    by (auto simp: params_of_def get_max_file_bytes_def get_chatbot_history_turns_def get_max_chatbot_threads_def
        get_max_chatbot_message_len_def get_meal_slots_def get_dietary_tags_def get_branches_def get_excuse_kinds_def
        split: if_splits)
qed


section \<open>A worked school\<close>

text \<open>\<open>ascii_lower\<close> is the lower-casing of the letters without a mark, the others being left alone.\<close>

definition ascii_lower :: "nat \<Rightarrow> ustr" where
  "ascii_lower c = (if 65 \<le> c \<and> c \<le> 90 then [c + 32] else [c])"

definition new_school :: school_db where
  "new_school = \<lparr>sd_row = None, sd_statuses = [], sd_tags = [], sd_exams = demo_school,
     sd_meals = \<lparr>md_menus = [], md_slot_refs = [], md_dishes = [], md_dish_tags = [], md_attendance = [],
       md_bookings = [], md_ledger = []\<rparr>\<rparr>"

definition say_nothing :: settings_patch where
  "say_nothing = \<lparr>sq_exam_kinds = None, sq_attendance_statuses = None, sq_grade_bands = None, sq_max_file_bytes = None,
     sq_chatbot_history_turns = None, sq_max_chatbot_threads = None, sq_max_chatbot_message_len = None,
     sq_meal_slots = None, sq_dietary_tags = None, sq_meal_cancel_cutoff_minutes = None, sq_branches = None,
     sq_excuse_kinds = None, sq_max_excused_absent_days = None, sq_max_unexcused_absent_days = None, sq_timezone = None\<rparr>"

definition busy_school :: school_db where
  "busy_school =
     (let db = new_school\<lparr>sd_exams := fst (db_grade demo_school (u ''e'') (u ''s'') 1 80 (u ''t'') (u ''yazili''))\<rparr> in
      db\<lparr>sd_meals := fst (menu_create (sd_meals db) (u ''2026-03-02'') (u ''lunch'') (Some 1) [109] 0)\<rparr>)"

lemma busy_reachable:
  "school_reachable True sort (set (kinds_of settings_defaults)) (set (slots_of settings_defaults)) busy_school"
proof -
  have "school_reachable True sort (set (kinds_of settings_defaults)) (set (slots_of settings_defaults)) new_school"
    by (rule sr_start) (simp_all add: new_school_def demo_school_def)
  moreover have "u ''yazili'' \<in> set (kinds_of settings_defaults)" "u ''lunch'' \<in> set (slots_of settings_defaults)"
    by (simp_all add: settings_defaults_def get_meal_slots_def DEFAULT_EXAM_KINDS_def DEFAULT_MEAL_SLOTS_def)
  moreover have "map_option ex_kind (exam_read (sd_exams new_school) (u ''e'')) = Some (u ''yazili'')" by code_simp
  ultimately show ?thesis
    unfolding busy_school_def Let_def
    using sr_publish [OF sr_grade, of True sort _ _ new_school "u ''yazili''" "u ''e''" "u ''lunch''" "u ''2026-03-02''"]
    by (simp add: new_school_def u_def)
qed


section \<open>Properties\<close>

text \<open>
  C35. A kind in use cannot leave the settings.  Whatever transactions have committed, in any order and on
  whatever stale reads, an exam kind whose reference counter is positive is on the school's list of kinds, so its
  weight can be looked up, and a retired kind's counter is zero and the kind is not on the list.  As long as every
  mark is given and taken under the kind its exam has at that moment and an exam that has marks keeps its kind, the
  counter is the number of marks whose exam is of the kind, so the weight of every mark can be looked up; the race
  of C32, which leaves a mark counted under a kind its exam no longer has, is outside this last part (see
  \<open>raced_kind_is_dropped\<close>).
\<close>

theorem marked_kind_stays_listed:
  assumes "school_reachable in_turn collate ks ss db"
  shows "(\<forall>kind r. find_row kr_name (xd_kind_refs (sd_exams db)) kind = Some r \<longrightarrow>
      (kr_count r > 0 \<longrightarrow> exam_kind_weight (settings_load collate db) kind \<noteq> None) \<and>
      (kr_retired r \<longrightarrow> kr_count r = 0 \<and> exam_kind_weight (settings_load collate db) kind = None) \<and>
      (in_turn \<longrightarrow> kr_count r =
        int (length (filter (\<lambda>m. marked_kind (sd_exams db) m = Some kind) (xd_results (sd_exams db)))))) \<and>
    (in_turn \<longrightarrow> (\<forall>m \<in> set (xd_results (sd_exams db)). \<forall>x. exam_read (sd_exams db) (er_exam m) = Some x \<longrightarrow>
      exam_kind_weight (settings_load collate db) (ex_kind x) \<noteq> None))"
proof (intro conjI allI impI ballI)
  have step: "in_step (set (kinds_of (settings_load collate db))) ks (kind_view (xd_kind_refs (sd_exams db)))"
    using school_reachable_ok [OF assms] by (simp add: school_ok_def)
  have weight: "exam_kind_weight (settings_load collate db) k \<noteq> None \<longleftrightarrow> k \<in> set (kinds_of (settings_load collate db))" for k
    by (auto simp: exam_kind_weight_def find_None_iff)
  fix kind r assume r: "find_row kr_name (xd_kind_refs (sd_exams db)) kind = Some r"
  then have e: "kind_view (xd_kind_refs (sd_exams db)) kind = Some (kr_count r, kr_retired r)" by (simp add: entry_def)
  note at = in_step_at [OF step, of kind, unfolded e name_ok_def, simplified]
  show "kr_count r > 0 \<Longrightarrow> exam_kind_weight (settings_load collate db) kind \<noteq> None" using at weight by auto
  show "kr_retired r \<Longrightarrow> kr_count r = 0" using at by simp
  show "kr_retired r \<Longrightarrow> exam_kind_weight (settings_load collate db) kind = None" using at weight [of kind] by auto
  assume "in_turn"
  then show "kr_count r = int (length (filter (\<lambda>m. marked_kind (sd_exams db) m = Some kind) (xd_results (sd_exams db))))"
    using school_marks [OF assms, unfolded marks_counted_def, THEN spec, of kind] e by (simp add: count_in_def refs_to_def)
next
  fix m x assume turn: "in_turn" and m: "m \<in> set (xd_results (sd_exams db))" "exam_read (sd_exams db) (er_exam m) = Some x"
  have "marked_kind (sd_exams db) m = Some (ex_kind x)" using m(2) by (simp add: marked_kind_def)
  then have "refs_to (marked_kind (sd_exams db)) (Some (ex_kind x)) (xd_results (sd_exams db)) \<noteq> 0"
    using m(1) unfolding refs_to_zero by (metis imageI)
  then have "count_in (kind_view (xd_kind_refs (sd_exams db))) (ex_kind x) > 0"
    using school_marks [OF assms turn] refs_to_nonneg [of "marked_kind (sd_exams db)" "Some (ex_kind x)" "xd_results (sd_exams db)"]
    by (simp add: marks_counted_def del: refs_to_nonneg)
  then have "ex_kind x \<in> set (kinds_of (settings_load collate db))"
    using school_reachable_ok [OF assms] by (auto simp: school_ok_def dest: in_step_used)
  then show "exam_kind_weight (settings_load collate db) (ex_kind x) \<noteq> None" by (auto simp: exam_kind_weight_def find_None_iff)
qed

theorem marked_kind_stays_listed_witness:
  "map er_exam (xd_results (sd_exams busy_school)) = [u ''e''] \<and>
   map_option ex_kind (exam_read (sd_exams busy_school) (u ''e'')) = Some (u ''yazili'') \<and>
   exam_kind_weight (settings_load sort busy_school) (u ''yazili'') \<noteq> None \<and>
   snd (settings_apply ascii_lower sort (\<lambda>_ d. d) busy_school (say_nothing\<lparr>sq_exam_kinds := Some [(u ''sozlu'', 1)]\<rparr>)) =
     Inl (ConflictOwned (u ''exams of kind '' @ [39] @ u ''yazili'' @ [39] @ u '' are already graded '' @ [8212]
       @ u '' the kind cannot be removed''))"
proof -
  have marks: "map er_exam (xd_results (sd_exams busy_school)) = [u ''e'']"
    "map_option ex_kind (exam_read (sd_exams busy_school) (u ''e'')) = Some (u ''yazili'')" by code_simp+
  have "u ''e'' \<in> er_exam ` set (xd_results (sd_exams busy_school))" using arg_cong [OF marks(1), of set] by simp
  then obtain m where "m \<in> set (xd_results (sd_exams busy_school))" "er_exam m = u ''e''" by (auto simp del: u_def)
  then have "exam_kind_weight (settings_load sort busy_school) (u ''yazili'') \<noteq> None"
    using marked_kind_stays_listed [OF busy_reachable] marks(2) by auto
  moreover have "snd (settings_apply ascii_lower sort (\<lambda>_ d. d) busy_school (say_nothing\<lparr>sq_exam_kinds := Some [(u ''sozlu'', 1)]\<rparr>)) =
     Inl (ConflictOwned (u ''exams of kind '' @ [39] @ u ''yazili'' @ [39] @ u '' are already graded '' @ [8212]
       @ u '' the kind cannot be removed''))" by code_simp
  ultimately show ?thesis using marks by blast
qed

text \<open>
  The race leads to a kind with marks that leaves the list.  A mark given while a PATCH changes the exam's kind is
  counted under the old kind, so a later PATCH of the settings drops the new kind without a conflict, and the weight
  of that mark can no longer be looked up.
\<close>

definition raced_school :: school_db where
  "raced_school = new_school\<lparr>sd_exams := fst (exam_update
     (\<lambda>k d. if k = 0 then fst (db_grade d (u ''e'') (u ''s'') 1 80 (u ''t'') (u ''yazili'')) else d)
     demo_school (u ''e'')
     \<lparr>pa_title = None, pa_description = None, pa_kind = Some (u ''sozlu''), pa_mode = None, pa_starts_at = None,
       pa_ends_at = None, pa_duration_ms = None, pa_max_attempts = None, pa_allow_rejoin = None, pa_allow_review = None,
       pa_draft = None\<rparr>)\<rparr>"

lemma raced_kind_is_dropped:
  "case settings_apply ascii_lower sort (\<lambda>_ d. d) raced_school (say_nothing\<lparr>sq_exam_kinds := Some [(u ''yazili'', 1)]\<rparr>) of
     (db, r) \<Rightarrow> (\<exists>saved. r = Inr saved) \<and>
       map (marked_kind (sd_exams db)) (xd_results (sd_exams db)) = [Some (u ''sozlu'')] \<and>
       exam_kind_weight (settings_load sort db) (u ''sozlu'') = None"
proof -
  obtain db r where run: "settings_apply ascii_lower sort (\<lambda>_ d. d) raced_school (say_nothing\<lparr>sq_exam_kinds := Some [(u ''yazili'', 1)]\<rparr>) = (db, r)"
    by (meson surj_pair)
  have "case settings_apply ascii_lower sort (\<lambda>_ d. d) raced_school (say_nothing\<lparr>sq_exam_kinds := Some [(u ''yazili'', 1)]\<rparr>) of
     (db, Inr _) \<Rightarrow> map (marked_kind (sd_exams db)) (xd_results (sd_exams db)) = [Some (u ''sozlu'')] \<and>
       exam_kind_weight (settings_load sort db) (u ''sozlu'') = None
   | (db, Inl _) \<Rightarrow> False" by code_simp
  then show ?thesis unfolding run by (cases r) simp_all
qed

text \<open>
  A published menu keeps its slot.  In every reachable state the slot of every published menu is one
  of the school's meal slots, however the publishing, the unpublishing and the edits of the list
  interleave.
\<close>

theorem published_slot_stays_listed:
  assumes "school_reachable in_turn collate ks ss db" "m \<in> set (md_menus (sd_meals db))"
  shows "mn_slot m \<in> ms_name ` set (get_meal_slots (settings_load collate db))"
proof -
  have ok: "school_ok collate ks ss db" by (rule school_reachable_ok [OF assms(1)])
  have "refs_to mn_slot (mn_slot m) (md_menus (sd_meals db)) \<noteq> 0" using assms(2) by (simp add: refs_to_zero)
  then have "count_in (slot_view (md_slot_refs (sd_meals db))) (mn_slot m) > 0"
    using ok refs_to_nonneg [of mn_slot "mn_slot m" "md_menus (sd_meals db)"]
    by (simp add: school_ok_def menus_counted_def del: refs_to_nonneg)
  with ok show ?thesis by (auto simp: school_ok_def dest: in_step_used)
qed


theorem published_slot_stays_listed_witness:
  "map mn_slot (md_menus (sd_meals busy_school)) = [u ''lunch''] \<and>
   u ''lunch'' \<in> ms_name ` set (get_meal_slots (settings_load sort busy_school))"
proof -
  have m: "map mn_slot (md_menus (sd_meals busy_school)) = [u ''lunch'']" by code_simp
  have "u ''lunch'' \<in> mn_slot ` set (md_menus (sd_meals busy_school))" using arg_cong [OF m, of set] by simp
  then obtain x where x: "x \<in> set (md_menus (sd_meals busy_school))" "mn_slot x = u ''lunch''" by (auto simp del: u_def)
  show ?thesis using published_slot_stays_listed [OF busy_reachable x(1)] m unfolding x(2) by blast
qed

text \<open>
  C36. A settings PATCH is atomic.  It merges its fields over settings it read earlier, but whatever other
  requests commit meanwhile, a PATCH that succeeds has the effect of a load, a merge, the switch of the
  names and a write done in one step at some moment of the call; a PATCH that is refused changes
  nothing; and with no rivals it answers exactly what that one step answers.  The column's order is the
  byte order Rust sorts by, and no request deletes the row.
\<close>

theorem settings_patch_is_atomic:
  assumes "collate = sort" "\<And>k d. sd_row d \<noteq> None \<Longrightarrow> sd_row (rivals k d) \<noteq> None"
    "settings_apply lower collate rivals db q = (db', r)"
  shows "((\<exists>n \<le> CAS_UPDATE_RETRIES. db' = school_after rivals 0 db n \<and> (\<exists>e. r = Inl e)) \<or>
     (\<exists>n \<in> {1..CAS_UPDATE_RETRIES}. patch_settings_now lower collate q (school_after rivals 0 db n) = (db', r) \<and>
        (\<exists>saved. r = Inr saved))) \<and>
    settings_apply lower collate (\<lambda>_ d. d) db q = patch_settings_now lower collate q db"
proof -
  have "settings_apply_rounds lower sort CAS_UPDATE_RETRIES 0 (\<lambda>_ d. d) db q = patch_settings_now lower sort q db"
    using rounds_quiet [of lower "CAS_UPDATE_RETRIES - 1" 0 db q] by (simp add: CAS_UPDATE_RETRIES_def)
  with rounds_atomic [OF assms(2), where lower = lower and left = CAS_UPDATE_RETRIES and k = 0 and db = db and q = q and db' = db' and r = r] assms(3) show ?thesis
    unfolding assms(1) settings_apply_def by simp
qed

text \<open>The rival: another administrator saves a time zone between the first load and its transaction.\<close>

definition other_admin :: "nat \<Rightarrow> school_db \<Rightarrow> school_db" where
  "other_admin k db =
     (if k = 0 then fst (patch_settings_now ascii_lower sort (say_nothing\<lparr>sq_timezone := Some (Some (u ''UTC''))\<rparr>) db) else db)"

definition file_cap_patch :: settings_patch where "file_cap_patch = say_nothing\<lparr>sq_max_file_bytes := Some 2048\<rparr>"

lemma other_admin_keeps_row: "sd_row d \<noteq> None \<Longrightarrow> sd_row (other_admin k d) \<noteq> None"
  by (auto simp: other_admin_def patch_settings_now_def settings_write_def Let_def split: sum.split)

theorem settings_patch_is_atomic_witness:
  "\<exists>db' saved. settings_apply ascii_lower sort other_admin busy_school file_cap_patch = (db', Inr saved) \<and>
     (\<exists>n. patch_settings_now ascii_lower sort file_cap_patch (school_after other_admin 0 busy_school n) = (db', Inr saved)) \<and>
     st_max_file_bytes saved = Some 2048 \<and> st_timezone saved = Some (u ''UTC'')"
proof -
  have "case settings_apply ascii_lower sort other_admin busy_school file_cap_patch of
      (db', Inr saved) \<Rightarrow> st_max_file_bytes saved = Some 2048 \<and> st_timezone saved = Some (u ''UTC'') | _ \<Rightarrow> False"
    by code_simp
  then obtain db' saved where r: "settings_apply ascii_lower sort other_admin busy_school file_cap_patch = (db', Inr saved)"
    "st_max_file_bytes saved = Some 2048" "st_timezone saved = Some (u ''UTC'')"
    by (auto split: prod.splits sum.splits)
  with settings_patch_is_atomic [OF refl other_admin_keeps_row r(1)] show ?thesis by auto
qed

text \<open>
  Every mark has one label.  When the grade bands a school sends are accepted and there is one, every
  mark or average from 0 up is labelled by the band with the greatest minimum at or below it; with no
  bands nothing is labelled.
\<close>

theorem every_mark_labelled:
  assumes "settings_try_new lower p = Inr s" "0 \<le> m"
  shows "(sp_grade_bands p \<noteq> [] \<longrightarrow>
      (\<exists>b \<in> set (sp_grade_bands p). grade_label s m = Some (gb_label b) \<and> of_int (gb_min b) \<le> m \<and>
         (\<forall>c \<in> set (sp_grade_bands p). of_int (gb_min c) \<le> m \<longrightarrow> c = b \<or> gb_min c < gb_min b))) \<and>
    (sp_grade_bands p = [] \<longrightarrow> grade_label s m = None)"
proof -
  from assms(1) have v: "validate_bands (sp_grade_bands p) = Inr (st_grade_bands s)"
    unfolding settings_try_new_def by (auto split: if_splits)
  let ?below = "filter (\<lambda>b. of_int (gb_min b) \<le> m) (st_grade_bands s)"
  have sets: "set (st_grade_bands s) = set (sp_grade_bands p)" using v by (simp add: validate_bands_Inr)
  have dist: "gb_min c = gb_min b \<longleftrightarrow> c = b" if "c \<in> set (sp_grade_bands p)" "b \<in> set (sp_grade_bands p)" for b c
    using v that by (auto simp: validate_bands_Inr distinct_map dest: inj_onD)
  show ?thesis
  proof (cases "sp_grade_bands p = []")
    case True
    with sets have "st_grade_bands s = []" by simp
    with True show ?thesis by (simp add: grade_label_def max_by_key_def)
  next
    case False
    with v obtain z where "z \<in> set (sp_grade_bands p)" "gb_min z = 0" by (auto simp: validate_bands_Inr)
    then have "?below \<noteq> []" using assms(2) sets by (auto simp: filter_empty_conv intro!: bexI [of _ z])
    then obtain b where b: "max_by_key gb_min ?below = Some b" using max_by_key_total [of ?below gb_min] by auto
    from max_by_key_Some [OF b] sets have "b \<in> set (sp_grade_bands p)" "of_int (gb_min b) \<le> m"
      "\<And>c. c \<in> set (sp_grade_bands p) \<Longrightarrow> of_int (gb_min c) \<le> m \<Longrightarrow> gb_min c \<le> gb_min b" by auto
    with b False dist show ?thesis by (auto simp: grade_label_def order_le_less intro!: bexI [of _ b])
  qed
qed

text \<open>The settings a first PATCH of a new school saves, and those of a school that clears its dietary tags.\<close>

definition first_params :: settings_params where
  "first_params = params_of settings_defaults"

definition no_tags_params :: settings_params where
  "no_tags_params = first_params\<lparr>sp_dietary_tags := []\<rparr>"

theorem every_mark_labelled_witness:
  "\<exists>s. settings_try_new ascii_lower first_params = Inr s \<and> grade_label s (139 / 2) = Some (u ''3'')"
proof -
  have "case settings_try_new ascii_lower first_params of Inr s \<Rightarrow> True | _ \<Rightarrow> False" by code_simp
  then obtain s where s: "settings_try_new ascii_lower first_params = Inr s" by (auto split: sum.splits)
  have bands: "sp_grade_bands first_params = map (\<lambda>(mn, label). \<lparr>gb_min = mn, gb_label = label\<rparr>) DEFAULT_GRADE_BANDS"
    by (simp add: first_params_def params_of_def settings_defaults_def)
  have "(0 :: rat) \<le> 139 / 2" "sp_grade_bands first_params \<noteq> []" by (simp_all add: bands DEFAULT_GRADE_BANDS_def)
  from every_mark_labelled [OF s this(1)] this(2) obtain b where b: "b \<in> set (sp_grade_bands first_params)"
    "grade_label s (139 / 2) = Some (gb_label b)" "rat_of_int (gb_min b) \<le> 139 / 2"
    "\<forall>c \<in> set (sp_grade_bands first_params). rat_of_int (gb_min c) \<le> 139 / 2 \<longrightarrow> c = b \<or> gb_min c < gb_min b"
    by blast
  have "\<lparr>gb_min = 55, gb_label = u ''3''\<rparr> \<in> set (sp_grade_bands first_params)"
    by (simp add: bands DEFAULT_GRADE_BANDS_def)
  with b(4) have "\<lparr>gb_min = 55, gb_label = u ''3''\<rparr> = b \<or> 55 < gb_min b" by fastforce
  moreover have "gb_min b \<in> {85, 70, 55, 45, 0}" using b(1) by (auto simp: bands DEFAULT_GRADE_BANDS_def)
  ultimately have "b = \<lparr>gb_min = 55, gb_label = u ''3''\<rparr>" using b(3) by auto
  with s b(2) show ?thesis by simp
qed

text \<open>
  C37. Saved settings read back.  Accepted settings that are saved and loaded are the ones that were sent,
  the attendance statuses and the dietary tags in the column's order, and a PATCH that says nothing
  merges to the same settings again, provided the school has a dietary tag.  A school that removes
  every dietary tag, which the validation accepts, reads the built-in tags back.
\<close>

theorem saved_settings_read_back:
  assumes "settings_try_new lower p = Inr s" "s' = settings_load sort (fst (settings_write sort db s))"
  shows "(sp_dietary_tags p \<noteq> [] \<longrightarrow>
       s' = s\<lparr>st_attendance_statuses := sort (st_attendance_statuses s), st_dietary_tags := map_option sort (st_dietary_tags s)\<rparr> \<and>
       merge_settings lower say_nothing s' = Inr s') \<and>
    (sp_dietary_tags p = [] \<longrightarrow> get_dietary_tags s = [] \<and> get_dietary_tags s' = DEFAULT_DIETARY_TAGS)"
proof -
  from assms(1) obtain tags where t: "optional_list lower ''dietary_tags'' (sp_dietary_tags p) = Inr tags"
    "st_dietary_tags s = Some tags" unfolding settings_try_new_def by (auto split: if_splits)
  have s': "s' = s\<lparr>st_attendance_statuses := sort (st_attendance_statuses s), st_dietary_tags := some_if_any (sort tags)\<rparr>"
    unfolding assms(2)
    by (simp add: settings_load_def load_row_def settings_write_def Let_def t(2) settings_row.defs settings.defs)
  have none: "tags = [] \<longleftrightarrow> sp_dietary_tags p = []"
    using t(1) by (auto simp: optional_list_def validate_list_def trim_entries_Inr split: if_splits)
  show ?thesis
  proof (cases "tags = []")
    case True
    with none s' t(2) show ?thesis by (simp add: get_dietary_tags_def some_if_any_def)
  next
    case False
    then have k: "s' = s\<lparr>st_attendance_statuses := sort (st_attendance_statuses s), st_dietary_tags := Some (sort tags)\<rparr>"
      using s' by (simp add: some_if_any_def) (metis length_0_conv length_sort)
    have "settings_try_new lower (params_of s') = Inr s'"
      unfolding k by (rule try_new_again [OF assms(1) _ t(2)]) simp_all
    then have "merge_settings lower say_nothing s' = Inr s'"
      by (simp add: merge_settings_def say_nothing_def or_kept_def Let_def params_of_def)
    with False none k t(2) show ?thesis by simp
  qed
qed

theorem saved_settings_read_back_witness:
  "(\<exists>s. settings_try_new ascii_lower first_params = Inr s \<and>
     merge_settings ascii_lower say_nothing (settings_load sort (fst (settings_write sort new_school s))) =
       Inr (settings_load sort (fst (settings_write sort new_school s)))) \<and>
   (\<exists>s. settings_try_new ascii_lower no_tags_params = Inr s \<and> get_dietary_tags s = [] \<and>
     get_dietary_tags (settings_load sort (fst (settings_write sort new_school s))) = DEFAULT_DIETARY_TAGS)"
proof -
  have "case settings_try_new ascii_lower first_params of Inr s \<Rightarrow> True | _ \<Rightarrow> False" by code_simp
  then obtain s where s: "settings_try_new ascii_lower first_params = Inr s" by (auto split: sum.splits)
  have "case settings_try_new ascii_lower no_tags_params of Inr s \<Rightarrow> True | _ \<Rightarrow> False" by code_simp
  then obtain t where t: "settings_try_new ascii_lower no_tags_params = Inr t" by (auto split: sum.splits)
  have "sp_dietary_tags first_params \<noteq> []" "sp_dietary_tags no_tags_params = []" by code_simp+
  with saved_settings_read_back [OF s refl, of new_school] saved_settings_read_back [OF t refl, of new_school] s t
  show ?thesis by blast
qed

end
