(* ===== verification/Float64.thy ===== *)
theory Float64
  imports Complex_Main "HOL-Library.Log_Nat"
begin

text \<open>
  The part of IEEE 754 double precision the averages of a report card use: a value is the rational it
  denotes, and every operation is the exact one followed by rounding to 53 significant bits, to nearest
  with ties to even.  Subnormal numbers, overflow and the non-numbers are left out: the values here are
  zero or between \<open>2 ^ -40\<close> and \<open>2 ^ 60\<close>.
\<close>

definition round_even :: "rat \<Rightarrow> int" where
  "round_even x =
     (let f = \<lfloor>x\<rfloor>; r = x - of_int f in
      if r < 1 / 2 then f else if 1 / 2 < r then f + 1 else if even f then f else f + 1)"

text \<open>The exponent of the leading bit.\<close>

definition binade :: "rat \<Rightarrow> int" where
  "binade x =
     (case quotient_of x of (p, q) \<Rightarrow>
        let k = bitlen p - bitlen q in if x < 2 powi k then k - 1 else k)"

definition ulp :: "rat \<Rightarrow> rat" where
  "ulp x = 2 powi (binade x - 52)"

definition fl :: "rat \<Rightarrow> rat" where
  "fl x =
     (if x = 0 then 0
      else if x < 0 then - (of_int (round_even (- x / ulp (- x))) * ulp (- x))
      else of_int (round_even (x / ulp x)) * ulp x)"

definition fadd :: "rat \<Rightarrow> rat \<Rightarrow> rat" where "fadd x y = fl (x + y)"
definition fmul :: "rat \<Rightarrow> rat \<Rightarrow> rat" where "fmul x y = fl (x * y)"
definition fdiv :: "rat \<Rightarrow> rat \<Rightarrow> rat" where "fdiv x y = fl (x / y)"
definition f64 :: "int \<Rightarrow> rat" where "f64 n = fl (of_int n)"


section \<open>Rounding to an integer\<close>

lemma round_even_int [simp]: "round_even (of_int n) = n"
  by (simp add: round_even_def)

lemma round_even_bounds: "\<lfloor>x\<rfloor> \<le> round_even x" "round_even x \<le> \<lfloor>x\<rfloor> + 1"
  by (simp_all add: round_even_def Let_def)

lemma round_even_mono: "x \<le> y \<Longrightarrow> round_even x \<le> round_even y"
proof (cases "\<lfloor>x\<rfloor> = \<lfloor>y\<rfloor>")
  case True
  assume "x \<le> y"
  with True show ?thesis by (auto simp: round_even_def Let_def)
next
  case False
  assume "x \<le> y"
  then have "\<lfloor>x\<rfloor> \<le> \<lfloor>y\<rfloor>" by (rule floor_mono)
  with False have "\<lfloor>x\<rfloor> + 1 \<le> \<lfloor>y\<rfloor>" by simp
  with round_even_bounds(2) [of x] round_even_bounds(1) [of y] show ?thesis by linarith
qed

lemma round_even_error: "\<bar>of_int (round_even x) - x\<bar> \<le> 1 / 2"
proof -
  have "of_int \<lfloor>x\<rfloor> \<le> x" "x < of_int \<lfloor>x\<rfloor> + 1" by linarith+
  then show ?thesis by (auto simp: round_even_def Let_def)
qed


section \<open>The binade\<close>

lemma two_powi_pos [simp]: "0 < (2 :: rat) powi k"
  by simp

lemma two_powi_Suc: "(2 :: rat) powi (k + 1) = 2 * 2 powi k"
  by (simp add: power_int_add)

lemma two_powi_le: "m \<le> n \<Longrightarrow> (2 :: rat) powi m \<le> 2 powi n"
  by (rule power_int_increasing) simp_all

lemma bitlen_powi:
  assumes "0 < p"
  shows "2 powi (bitlen p - 1) \<le> rat_of_int p" "rat_of_int p < 2 powi bitlen p"
proof -
  have "1 \<le> bitlen p" using assms bitlen_nonneg [of p] bitlen_eq_zero_iff [of p] by linarith
  then have e: "(2 :: rat) powi (bitlen p - 1) = of_int (2 ^ nat (bitlen p - 1))"
    "(2 :: rat) powi bitlen p = of_int (2 ^ nat (bitlen p))"
    by (simp_all add: power_int_nonneg_exp)
  show "2 powi (bitlen p - 1) \<le> rat_of_int p" "rat_of_int p < 2 powi bitlen p"
    unfolding e using bitlen_bounds [OF assms] by (simp_all only: of_int_le_iff of_int_less_iff)
qed

lemma binade_bounds:
  assumes "0 < x"
  shows "2 powi binade x \<le> x" "x < 2 powi (binade x + 1)"
proof -
  obtain p q where pq: "quotient_of x = (p, q)" by force
  have q: "0 < q" using quotient_of_denom_pos [OF pq] .
  have x: "x = of_int p / of_int q" using quotient_of_div [OF pq] .
  with assms q have p: "0 < p" by (simp add: zero_less_divide_iff)
  let ?k = "bitlen p - bitlen q"
  note P = bitlen_powi [OF p] and Q = bitlen_powi [OF q]
  have "2 powi (?k - 1) * rat_of_int q \<le> 2 powi (?k - 1) * 2 powi bitlen q" using Q by simp
  also have "\<dots> = 2 powi (bitlen p - 1)" by (simp flip: power_int_add)
  finally have low: "2 powi (?k - 1) \<le> x" using P(1) q by (simp add: x pos_le_divide_eq)
  have "rat_of_int p < 2 powi bitlen p" by (rule P)
  also have "(2 :: rat) powi bitlen p = 2 powi (?k + 1) * 2 powi (bitlen q - 1)" by (simp flip: power_int_add)
  also have "\<dots> \<le> 2 powi (?k + 1) * rat_of_int q" using Q by simp
  finally have high: "x < 2 powi (?k + 1)" using q by (simp add: x pos_divide_less_eq)
  show "2 powi binade x \<le> x" "x < 2 powi (binade x + 1)"
    using low high by (auto simp: binade_def pq Let_def)
qed

lemma binade_mono:
  assumes "0 < x" "x \<le> y"
  shows "binade x \<le> binade y"
proof (rule ccontr)
  assume "\<not> binade x \<le> binade y"
  then have "(2 :: rat) powi (binade y + 1) \<le> 2 powi binade x" by (intro two_powi_le) simp
  with binade_bounds [of x] binade_bounds [of y] assms show False by simp
qed

lemma ulp_pos [simp]: "0 < ulp x"
  by (simp add: ulp_def)

lemma ulp_nonneg [simp]: "0 \<le> ulp x" "\<bar>ulp x\<bar> = ulp x" "ulp x \<noteq> 0"
  using ulp_pos [of x] by (simp_all del: ulp_pos)

lemma ulp_units: "2 powi binade x = of_int (2 ^ 52) * ulp x"
  by (simp add: ulp_def flip: power_int_add) (simp flip: power_int_add add: power_int_diff)

lemma ulp_le: "0 < x \<Longrightarrow> ulp x \<le> x / 2 ^ 52"
  using binade_bounds(1) [of x] ulp_units [of x] by (simp add: field_simps)


section \<open>Rounding\<close>

lemma fl_0 [simp]: "fl 0 = 0"
  by (simp add: fl_def)

lemma fl_pos: "0 < x \<Longrightarrow> fl x = of_int (round_even (x / ulp x)) * ulp x"
  by (simp add: fl_def)

lemma fl_binade:
  assumes "0 < x"
  shows "2 powi binade x \<le> fl x" "fl x \<le> 2 powi (binade x + 1)"
proof -
  note b = binade_bounds [OF assms]
  have "of_int (2 ^ 52) \<le> x / ulp x" using b(1) by (simp add: ulp_units pos_le_divide_eq)
  from round_even_mono [OF this] have "2 ^ 52 \<le> round_even (x / ulp x)" by (simp del: of_int_power of_int_numeral)
  then have "rat_of_int (2 ^ 52) \<le> of_int (round_even (x / ulp x))" by (simp only: of_int_le_iff)
  then show "2 powi binade x \<le> fl x" using assms by (simp add: fl_pos ulp_units)
  have "x / ulp x \<le> of_int (2 ^ 53)" using b(2) by (simp add: two_powi_Suc ulp_units pos_divide_le_eq)
  from round_even_mono [OF this] have "round_even (x / ulp x) \<le> 2 ^ 53" by (simp del: of_int_power of_int_numeral)
  then have "rat_of_int (round_even (x / ulp x)) \<le> of_int (2 ^ 53)" by (simp only: of_int_le_iff)
  then show "fl x \<le> 2 powi (binade x + 1)" using assms by (simp add: fl_pos two_powi_Suc ulp_units)
qed

lemma fl_mono_pos:
  assumes "0 < x" "x \<le> y"
  shows "fl x \<le> fl y"
proof (cases "binade x = binade y")
  case True
  then have u: "ulp y = ulp x" by (simp add: ulp_def)
  have "round_even (x / ulp x) \<le> round_even (y / ulp x)" using assms ulp_pos [of x] by (intro round_even_mono divide_right_mono) simp_all
  with assms show ?thesis by (simp add: fl_pos u)
next
  case False
  with binade_mono [OF assms] have "(2 :: rat) powi (binade x + 1) \<le> 2 powi binade y" by (intro two_powi_le) simp
  with fl_binade [of x] fl_binade [of y] assms show ?thesis by simp
qed

lemma fl_nonneg: "0 \<le> x \<Longrightarrow> 0 \<le> fl x"
  using order_less_le_trans [OF two_powi_pos fl_binade(1) [of x]] by (cases "x = 0") auto

lemma fl_mono: "0 \<le> x \<Longrightarrow> x \<le> y \<Longrightarrow> fl x \<le> fl y"
  using fl_mono_pos [of x y] fl_nonneg [of y] by (cases "x = 0") auto

lemma fl_error:
  assumes "0 < x"
  shows "\<bar>fl x - x\<bar> \<le> x / 2 ^ 53"
proof -
  have "\<bar>of_int (round_even (x / ulp x)) - x / ulp x\<bar> * ulp x \<le> 1 / 2 * ulp x"
    using round_even_error [of "x / ulp x"] by (intro mult_right_mono) (simp_all add: less_imp_le)
  moreover have "\<bar>of_int (round_even (x / ulp x)) - x / ulp x\<bar> * ulp x = \<bar>fl x - x\<bar>"
  proof -
    have "(of_int (round_even (x / ulp x)) - x / ulp x) * ulp x = fl x - x"
      using ulp_pos [of x] assms by (simp add: fl_pos left_diff_distrib)
    then show ?thesis using abs_mult [of "of_int (round_even (x / ulp x)) - x / ulp x" "ulp x"] by simp
  qed
  ultimately show ?thesis using ulp_le [OF assms] by simp
qed

lemma fl_int:
  assumes "0 \<le> n" "n \<le> 2 ^ 53"
  shows "fl (of_int n) = of_int n"
proof (cases "n = 0")
  case False
  with assms have n: "0 < rat_of_int n" by simp
  show ?thesis
  proof (cases "binade (of_int n) \<le> 52")
    case True
    then have "2 powi (52 - binade (rat_of_int n)) = rat_of_int (2 ^ nat (52 - binade (rat_of_int n)))"
      by (simp add: power_int_nonneg_exp)
    moreover have "inverse (ulp (rat_of_int n)) = 2 powi (52 - binade (rat_of_int n))"
      by (simp add: ulp_def flip: power_int_minus)
    ultimately have "rat_of_int n / ulp (of_int n) = of_int (n * 2 ^ nat (52 - binade (rat_of_int n)))"
      by (simp add: divide_inverse)
    then have "of_int (round_even (rat_of_int n / ulp (of_int n))) = rat_of_int n / ulp (of_int n)"
      by (simp only: round_even_int)
    with n show ?thesis using ulp_pos [of "rat_of_int n"] by (simp add: fl_pos)
  next
    case False
    then have "(2 :: rat) powi 53 \<le> 2 powi binade (of_int n)" by (intro two_powi_le) simp
    with binade_bounds(1) [OF n] have "rat_of_int (2 ^ 53) \<le> of_int n" by simp
    with assms(2) have n53: "n = 2 ^ 53" by (simp only: of_int_le_iff)
    have "fl (of_int n) \<le> 2 powi (binade (of_int n) + 1)" by (rule fl_binade [OF n])
    show ?thesis unfolding n53 by code_simp
  qed
qed simp

text \<open>Rounding at concrete values.\<close>

lemma round_even_near: "\<bar>of_int n - x\<bar> < 1 / 2 \<Longrightarrow> round_even x = n"
proof -
  assume "\<bar>of_int n - x\<bar> < 1 / 2"
  then consider "\<lfloor>x\<rfloor> = n" "x - of_int n < 1 / 2" | "\<lfloor>x\<rfloor> = n - 1" "1 / 2 < x - of_int (n - 1)"
    by (cases "of_int n \<le> x") (force simp: floor_eq_iff)+
  then show ?thesis by cases (simp_all add: round_even_def)
qed

lemma round_even_tie: "\<bar>of_int n - x\<bar> = 1 / 2 \<Longrightarrow> even n \<Longrightarrow> round_even x = n"
proof -
  assume "\<bar>of_int n - x\<bar> = 1 / 2" "even n"
  then consider "\<lfloor>x\<rfloor> = n" "x - of_int n = 1 / 2" | "\<lfloor>x\<rfloor> = n - 1" "x - of_int (n - 1) = 1 / 2"
    by (cases "of_int n \<le> x") (force simp: floor_eq_iff)+
  then show ?thesis using \<open>even n\<close> by cases (simp_all add: round_even_def)
qed

lemma binade_eq: "2 powi k \<le> x \<Longrightarrow> x < 2 powi (k + 1) \<Longrightarrow> binade x = k"
proof (rule ccontr)
  assume x: "2 powi k \<le> x" "x < 2 powi (k + 1)" and "binade x \<noteq> k"
  then have "0 < x" by (metis two_powi_pos order_less_le_trans)
  note b = binade_bounds [OF this]
  from \<open>binade x \<noteq> k\<close> consider "binade x + 1 \<le> k" | "k + 1 \<le> binade x" by linarith
  then show False using x b two_powi_le [of "binade x + 1" k] two_powi_le [of "k + 1" "binade x"] by cases auto
qed

lemma fl_val:
  assumes "2 ^ k \<le> x" "x < 2 ^ (k + 1)" "k + j = 52"
    and "\<bar>of_int n - x * 2 ^ j\<bar> < 1 / 2 \<or> \<bar>of_int n - x * 2 ^ j\<bar> = 1 / 2 \<and> even n"
  shows "fl x = of_int n / 2 ^ j"
proof -
  have "2 powi int k \<le> x" "x < 2 powi (int k + 1)"
    using assms(1,2) by (simp_all add: power_int_add mult.commute)
  then have k: "binade x = int k" by (rule binade_eq)
  have "int k - 52 = - int j" using assms(3) by simp
  then have u: "ulp x = 1 / 2 ^ j" by (simp add: ulp_def k power_int_minus_divide)
  have "0 < x" using assms(1) by (rule order_less_le_trans [rotated]) simp
  moreover have "round_even (x * 2 ^ j) = n" using assms(4) round_even_near round_even_tie by blast
  ultimately show ?thesis by (simp add: fl_pos u)
qed

text \<open>An integer threshold does not notice the rounding of a quotient with a numerator below \<open>2 ^ 53\<close>.\<close>

lemma fl_threshold:
  assumes "0 \<le> p" "p < 2 ^ 53" "0 < q" "0 \<le> m" "m \<le> 2 ^ 53"
  shows "of_int m \<le> fl (of_int p / of_int q) \<longleftrightarrow> rat_of_int m \<le> of_int p / of_int q"
proof
  let ?x = "rat_of_int p / of_int q"
  assume "of_int m \<le> ?x"
  from fl_mono [OF _ this] fl_int [of m] assms show "of_int m \<le> fl ?x" by simp
next
  let ?x = "rat_of_int p / of_int q"
  assume le: "of_int m \<le> fl ?x"
  show "of_int m \<le> ?x"
  proof (rule ccontr)
    assume "\<not> of_int m \<le> ?x"
    then have "rat_of_int p < of_int (m * q)" using assms(3) by (simp add: pos_divide_less_eq not_le)
    then have "p + 1 \<le> m * q" by (simp only: of_int_less_iff)
    then have gap: "?x + 1 / of_int q \<le> of_int m"
    proof -
      have "rat_of_int (p + 1) \<le> of_int (m * q)" using \<open>p + 1 \<le> m * q\<close> by (simp only: of_int_le_iff)
      then show ?thesis using assms(3) by (simp add: field_simps)
    qed
    show False
    proof (cases "p = 0")
      case True
      with le have "rat_of_int m \<le> 0" by simp
      moreover have "1 / rat_of_int q \<le> rat_of_int m" using gap True by simp
      moreover have "0 < 1 / rat_of_int q" using assms(3) by simp
      ultimately show ?thesis by linarith
    next
      case False
      then have x: "0 < ?x" using assms by simp
      have "?x / 2 ^ 53 < 1 / of_int q"
      proof -
        have "rat_of_int p < of_int (2 ^ 53)" using assms(2) by (simp only: of_int_less_iff)
        then show ?thesis using assms(3) by (simp add: field_simps)
      qed
      with fl_error [OF x] gap le show False by simp
    qed
  qed
qed

end
