(* ===== verification/Report_Card.thy ===== *)
theory Report_Card
  imports Settings Float64
begin

text \<open>
  Exam weights and the report card: \<open>domain/grade.rs\<close>, \<open>domain/exam_weight.rs\<close>, \<open>db/exam_weight.rs\<close>,
  \<open>service/exam_weight.rs\<close>, \<open>service/karne.rs\<close>, \<open>db/karne.rs\<close>, the archiving of a term in \<open>term.rs\<close>, and
  what they read of class instances (\<open>service/class_course.rs\<close>, \<open>service/instance_resolve.rs\<close>).

  An \<open>f64\<close> is the rational it denotes and rounds as in \<open>Float64\<close>.  A stored report goes through JSON:
  \<open>thaw\<close> is what reading back a stored report gives.  \<open>collate\<close> is as in \<open>Settings\<close>; ids are UUIDs, whose
  order is that of their text.
\<close>

section \<open>Grade levels\<close>

definition MIN_GRADE_LEVEL :: int where "MIN_GRADE_LEVEL = 0"
definition MAX_GRADE_LEVEL :: int where "MAX_GRADE_LEVEL = 12"
definition MIN_DERS_SAATI :: int where "MIN_DERS_SAATI = 1"
definition MAX_DERS_SAATI :: int where "MAX_DERS_SAATI = 40"
definition FALLBACK_WEIGHT :: int where "FALLBACK_WEIGHT = 1"

definition grade_level_new :: "int \<Rightarrow> int vresult" where
  "grade_level_new raw =
     (if \<not> (MIN_GRADE_LEVEL \<le> raw \<and> raw \<le> MAX_GRADE_LEVEL)
      then Inl (Invalid ''grade_level'' ''must be 0 (anaokulu) through 12'') else Inr raw)"

definition grade_level_label :: "int \<Rightarrow> ustr" where
  "grade_level_label n =
     [u ''Anaokulu'', u ''1'', u ''2'', u ''3'', u ''4'', u ''5'', u ''6'', u ''7'', u ''8'', u ''9'', u ''10'', u ''11'',
      u ''12''] ! nat n"

definition ders_saati_try_new :: "int \<Rightarrow> int vresult" where
  "ders_saati_try_new value =
     (if \<not> (MIN_DERS_SAATI \<le> value \<and> value \<le> MAX_DERS_SAATI)
      then Inl (Invalid ''ders_saati'' ''must be between 1 and 40 weekly hours'') else Inr value)"


section \<open>Tables\<close>

record class_course =
  kc_id :: ustr
  kc_class :: ustr
  kc_course :: ustr
  kc_offering :: ustr
  kc_title :: "ustr option"
  kc_ders_saati :: "int option"
  kc_counts_toward_karne :: "bool option"
  kc_exam_weights_inherited :: bool
  kc_attached_at :: int

record course_offering =
  co_offering :: ustr
  co_title :: "ustr option"
  co_default_ders_saati :: "int option"
  co_default_counts :: "bool option"

record exam_weight =
  ew_kind :: ustr
  ew_weight :: int

record school_term =
  kt_id :: ustr
  kt_year :: ustr
  kt_archived_at :: "int option"

record class_member =
  cm_class :: ustr
  cm_user :: ustr
  cm_left_at :: "int option"

record karne_instance =
  ki_class_course :: ustr
  ki_course :: ustr
  ki_ders_saati :: int
  ki_average :: "rat option"
  ki_band :: "ustr option"

record karne_report =
  rp_user :: ustr
  rp_term :: ustr
  rp_instances :: "karne_instance list"
  rp_year_average :: "rat option"
  rp_verdict :: "ustr option"

record karne_db =
  ka_school :: school_db
  ka_instances :: "class_course list"
  ka_offerings :: "course_offering list"
  ka_course_titles :: "(ustr \<times> ustr) list"
  ka_offering_weights :: "((ustr \<times> ustr) \<times> int) list"
  ka_class_weights :: "((ustr \<times> ustr) \<times> int) list"
  ka_members :: "class_member list"
  ka_terms :: "school_term list"
  ka_snapshots :: "((ustr \<times> ustr) \<times> karne_report) list"


section \<open>Exam weights\<close>

definition exam_weight_try_new :: "ustr \<Rightarrow> int \<Rightarrow> exam_weight vresult" where
  "exam_weight_try_new kind w =
     (if \<not> (MIN_EXAM_KIND_WEIGHT \<le> w \<and> w \<le> MAX_EXAM_KIND_WEIGHT)
      then Inl (Invalid ''weight'' ''must be between 1 and 100'') else Inr \<lparr>ew_kind = kind, ew_weight = w\<rparr>)"

text \<open>The two weight tables have the same statements; the first argument is the column.\<close>

definition weights_of :: "(ustr list \<Rightarrow> ustr list) \<Rightarrow> ((ustr \<times> ustr) \<times> int) list \<Rightarrow> ustr \<Rightarrow> exam_weight list" where
  "weights_of collate rows owner =
     (let mine = filter (\<lambda>r. fst (fst r) = owner) rows in
      map (\<lambda>kind. \<lparr>ew_kind = kind, ew_weight = snd (hd (filter (\<lambda>r. snd (fst r) = kind) mine))\<rparr>)
        (collate (map (\<lambda>r. snd (fst r)) mine)))"

definition weight_at :: "((ustr \<times> ustr) \<times> int) list \<Rightarrow> ustr \<Rightarrow> ustr \<Rightarrow> exam_weight option" where
  "weight_at rows owner kind = map_option (\<lambda>r. \<lparr>ew_kind = kind, ew_weight = snd r\<rparr>) (find_row fst rows (owner, kind))"

definition put_weight :: "((ustr \<times> ustr) \<times> int) list \<Rightarrow> ustr \<Rightarrow> ustr \<Rightarrow> int \<Rightarrow> ((ustr \<times> ustr) \<times> int) list" where
  "put_weight rows owner kind w =
     (case find_row fst rows (owner, kind) of
        None \<Rightarrow> rows @ [((owner, kind), w)]
      | Some _ \<Rightarrow> on_row fst (owner, kind) (\<lambda>r. (fst r, w)) rows)"

definition upsert_for_offering :: "karne_db \<Rightarrow> ustr \<Rightarrow> ustr \<Rightarrow> exam_weight \<Rightarrow> karne_db \<times> unit aresult" where
  "upsert_for_offering db offering kind w =
     (if find_row co_offering (ka_offerings db) offering = None
      then (db, Inl (fk_error ''offering_exam_weight_offering_fkey''))
      else (db\<lparr>ka_offering_weights := put_weight (ka_offering_weights db) offering kind (ew_weight w)\<rparr>, Inr ()))"

definition delete_from_offering :: "karne_db \<Rightarrow> ustr \<Rightarrow> ustr \<Rightarrow> karne_db \<times> bool" where
  "delete_from_offering db offering kind =
     (db\<lparr>ka_offering_weights := filter (\<lambda>r. fst r \<noteq> (offering, kind)) (ka_offering_weights db)\<rparr>,
      find_row fst (ka_offering_weights db) (offering, kind) \<noteq> None)"

definition set_inherited :: "ustr \<Rightarrow> bool \<Rightarrow> class_course list \<Rightarrow> class_course list" where
  "set_inherited i b rows = on_row kc_id i (\<lambda>x. x\<lparr>kc_exam_weights_inherited := b\<rparr>) rows"

definition upsert_for_class :: "karne_db \<Rightarrow> ustr \<Rightarrow> ustr \<Rightarrow> exam_weight \<Rightarrow> karne_db \<times> unit aresult" where
  "upsert_for_class db i kind w =
     (if find_row kc_id (ka_instances db) i = None then (db, Inl NotFound)
      else (db\<lparr>ka_instances := set_inherited i False (ka_instances db),
               ka_class_weights := put_weight (ka_class_weights db) i kind (ew_weight w)\<rparr>, Inr ()))"

definition delete_from_class :: "karne_db \<Rightarrow> ustr \<Rightarrow> ustr \<Rightarrow> karne_db \<times> bool aresult" where
  "delete_from_class db i kind =
     (let kicked = find_row fst (ka_class_weights db) (i, kind) \<noteq> None;
          db1 = db\<lparr>ka_class_weights := filter (\<lambda>r. fst r \<noteq> (i, kind)) (ka_class_weights db)\<rparr> in
      if find_row kc_id (ka_instances db) i = None then (db1, Inl NotFound)
      else (db1\<lparr>ka_instances := (if kicked then set_inherited i False (ka_instances db) else ka_instances db)\<rparr>, Inr kicked))"

definition reset_class :: "karne_db \<Rightarrow> ustr \<Rightarrow> karne_db \<times> unit aresult" where
  "reset_class db i =
     (let db1 = db\<lparr>ka_class_weights := filter (\<lambda>r. fst (fst r) \<noteq> i) (ka_class_weights db)\<rparr> in
      if find_row kc_id (ka_instances db) i = None then (db1, Inl NotFound)
      else (db1\<lparr>ka_instances := set_inherited i True (ka_instances db)\<rparr>, Inr ()))"

definition or_fallback :: "int option \<Rightarrow> int" where
  "or_fallback w = (case w of None \<Rightarrow> FALLBACK_WEIGHT | Some n \<Rightarrow> n)"

definition resolve :: "(ustr list \<Rightarrow> ustr list) \<Rightarrow> karne_db \<Rightarrow> class_course \<Rightarrow> ustr \<Rightarrow> int" where
  "resolve collate db inst kind =
     (if \<not> kc_exam_weights_inherited inst
      then or_fallback (map_option ew_weight (weight_at (ka_class_weights db) (kc_id inst) kind))
      else (case weight_at (ka_offering_weights db) (kc_offering inst) kind of
              Some row \<Rightarrow> ew_weight row
            | None \<Rightarrow> or_fallback (exam_kind_weight (settings_load collate (ka_school db)) kind)))"

fun push_missing :: "ustr list \<Rightarrow> exam_weight list \<Rightarrow> ustr list" where
  "push_missing kinds [] = kinds"
| "push_missing kinds (row # rows) =
     push_missing (if list_ex (\<lambda>k. k = ew_kind row) kinds then kinds else kinds @ [ew_kind row]) rows"

definition resolved_inherited :: "(ustr list \<Rightarrow> ustr list) \<Rightarrow> karne_db \<Rightarrow> ustr \<Rightarrow> exam_weight list" where
  "resolved_inherited collate db offering =
     (let school = settings_load collate (ka_school db);
          rows = weights_of collate (ka_offering_weights db) offering;
          weight_of = (\<lambda>kind. or_fallback
             (case map_option ew_weight (find (\<lambda>row. ew_kind row = kind) rows) of
                Some w \<Rightarrow> Some w | None \<Rightarrow> exam_kind_weight school kind));
          kinds = sort (push_missing (map ek_name (st_exam_kinds school)) rows)
      in map (\<lambda>kind. \<lparr>ew_kind = kind, ew_weight = weight_of kind\<rparr>) kinds)"

definition resolved_for_class :: "(ustr list \<Rightarrow> ustr list) \<Rightarrow> karne_db \<Rightarrow> class_course \<Rightarrow> bool \<times> exam_weight list" where
  "resolved_for_class collate db inst =
     (if \<not> kc_exam_weights_inherited inst then (False, weights_of collate (ka_class_weights db) (kc_id inst))
      else (True, resolved_inherited collate db (kc_offering inst)))"

definition checked_weight :: "(ustr list \<Rightarrow> ustr list) \<Rightarrow> karne_db \<Rightarrow> ustr \<Rightarrow> int \<Rightarrow> exam_weight aresult" where
  "checked_weight collate db kind w =
     (if \<not> list_ex (\<lambda>def. ek_name def = kind) (st_exam_kinds (settings_load collate (ka_school db)))
      then Inl (Validation (Invalid ''kind'' ''unknown exam kind (the school's settings.exam_kinds is the vocabulary)''))
      else map_err Validation (exam_weight_try_new kind w))"

definition set_for_offering ::
  "(ustr list \<Rightarrow> ustr list) \<Rightarrow> karne_db \<Rightarrow> ustr \<Rightarrow> ustr \<Rightarrow> int \<Rightarrow> karne_db \<times> unit aresult" where
  "set_for_offering collate db offering kind w =
     (case checked_weight collate db kind w of
        Inl e \<Rightarrow> (db, Inl e) | Inr row \<Rightarrow> upsert_for_offering db offering kind row)"

definition remove_from_offering :: "karne_db \<Rightarrow> ustr \<Rightarrow> ustr \<Rightarrow> karne_db \<times> unit aresult" where
  "remove_from_offering db offering kind =
     (case delete_from_offering db offering kind of (db', gone) \<Rightarrow> (db', if gone then Inr () else Inl NotFound))"

definition set_for_class ::
  "(ustr list \<Rightarrow> ustr list) \<Rightarrow> karne_db \<Rightarrow> ustr \<Rightarrow> ustr \<Rightarrow> int \<Rightarrow> karne_db \<times> unit aresult" where
  "set_for_class collate db i kind w =
     (case checked_weight collate db kind w of Inl e \<Rightarrow> (db, Inl e) | Inr row \<Rightarrow> upsert_for_class db i kind row)"

definition remove_from_class :: "karne_db \<Rightarrow> ustr \<Rightarrow> ustr \<Rightarrow> karne_db \<times> unit aresult" where
  "remove_from_class db i kind =
     (case delete_from_class db i kind of
        (db', Inl e) \<Rightarrow> (db', Inl e) | (db', Inr gone) \<Rightarrow> (db', if gone then Inr () else Inl NotFound))"


section \<open>What an instance resolves to\<close>

record instance_policy =
  ip_ders_saati :: int
  ip_counts_toward_karne :: bool

definition first_some :: "'a option \<Rightarrow> 'a option \<Rightarrow> 'a option" where
  "first_some a b = (case a of Some x \<Rightarrow> Some x | None \<Rightarrow> b)"

definition resolve_policy :: "karne_db \<Rightarrow> class_course \<Rightarrow> instance_policy aresult" where
  "resolve_policy db inst =
     and_then (ok_or NotFound (find_row co_offering (ka_offerings db) (kc_offering inst))) (\<lambda>o'. Inr
       \<lparr>ip_ders_saati = case_option MIN_DERS_SAATI (\<lambda>h. h) (first_some (kc_ders_saati inst) (co_default_ders_saati o')),
        ip_counts_toward_karne =
          case_option True (\<lambda>b. b) (first_some (kc_counts_toward_karne inst) (co_default_counts o'))\<rparr>)"

definition resolved_title :: "karne_db \<Rightarrow> class_course \<Rightarrow> ustr" where
  "resolved_title db inst =
     case_option [] (\<lambda>t. t)
       (first_some (kc_title inst)
         (first_some (Option.bind (find_row co_offering (ka_offerings db) (kc_offering inst)) co_title)
           (map_option snd (find_row fst (ka_course_titles db) (kc_course inst)))))"


section \<open>The report card\<close>

abbreviation ka_exams :: "karne_db \<Rightarrow> exam_db" where "ka_exams db \<equiv> sd_exams (ka_school db)"

definition list_for_class_ids :: "karne_db \<Rightarrow> ustr list \<Rightarrow> class_course list" where
  "list_for_class_ids db classes =
     rev (sort_key kc_attached_at (sort_key kc_id (filter (\<lambda>i. kc_class i \<in> set classes) (ka_instances db))))"

definition list_for_class_course_courses :: "karne_db \<Rightarrow> ustr list \<Rightarrow> exam list" where
  "list_for_class_course_courses db instances =
     rev (sort_key ex_id (filter (\<lambda>e. list_ex (\<lambda>(x, c). x = ex_id e \<and> c \<in> set instances) (xd_audience (ka_exams db)))
       (xd_exams (ka_exams db))))"

definition list_for_user_in_term :: "karne_db \<Rightarrow> ustr \<Rightarrow> ustr \<Rightarrow> ustr list \<Rightarrow> (ustr \<times> exam_result) list" where
  "list_for_user_in_term db user trm instances =
     concat (map (\<lambda>c. List.map_filter (\<lambda>e.
         map_option (Pair c) (max_by_key er_seq
           (filter (\<lambda>r. er_user r = user \<and> er_exam r = ex_id e) (xd_results (ka_exams db)))))
       (filter (\<lambda>e. ex_term e = trm \<and> (ex_id e, c) \<in> set (xd_audience (ka_exams db)))
         (rev (sort_key ex_id (xd_exams (ka_exams db))))))
       (sort (remdups instances)))"

definition weighted_average :: "(int \<times> int) list \<Rightarrow> rat option" where
  "weighted_average pairs =
     (let total_weight = sum_list (map snd pairs) in
      if total_weight = 0 then None
      else (let tot = sum_list (map (\<lambda>(mark, w). mark * w) pairs) in Some (fdiv (f64 tot) (f64 total_weight))))"

definition ders_saati_average :: "(rat \<times> int) list \<Rightarrow> rat option" where
  "ders_saati_average weighted =
     (let total_weight = sum_list (map snd weighted) in
      if total_weight = 0 then None
      else (let tot = foldl fadd 0 (map (\<lambda>(average, saati). fmul average (f64 saati)) weighted) in
            Some (fdiv tot (f64 total_weight))))"

definition min_by_key :: "('a \<Rightarrow> int) \<Rightarrow> 'a list \<Rightarrow> 'a option" where
  "min_by_key key xs =
     foldl (\<lambda>best x. case best of None \<Rightarrow> Some x | Some y \<Rightarrow> if key x < key y then Some x else Some y) None xs"

definition pass_floor :: "settings \<Rightarrow> int option" where
  "pass_floor school = map_option gb_min
     (first_some (find (\<lambda>band. gb_label band = u ''2'') (st_grade_bands school))
       (min_by_key gb_min (filter (\<lambda>band. gb_min band > 0) (st_grade_bands school))))"

definition verdict :: "settings \<Rightarrow> rat option \<Rightarrow> ustr option" where
  "verdict school average =
     Option.bind average (\<lambda>average. Option.bind (pass_floor school) (\<lambda>floor.
       Some (if average \<ge> f64 floor then u ''gecti'' else u ''kaldi'')))"

definition line_pairs ::
  "(ustr list \<Rightarrow> ustr list) \<Rightarrow> karne_db \<Rightarrow> exam list \<Rightarrow> (ustr \<times> exam_result) list \<Rightarrow> class_course \<Rightarrow> (int \<times> int) list" where
  "line_pairs collate db exams results inst =
     List.map_filter (\<lambda>(line, r).
       if line \<noteq> kc_id inst then None
       else map_option (\<lambda>e. (er_mark r, resolve collate db inst (ex_kind e))) (find_row ex_id exams (er_exam r))) results"

definition karne_line ::
  "(ustr list \<Rightarrow> ustr list) \<Rightarrow> karne_db \<Rightarrow> exam list \<Rightarrow> (ustr \<times> exam_result) list \<Rightarrow> class_course \<times> instance_policy
     \<Rightarrow> karne_instance" where
  "karne_line collate db exams results = (\<lambda>(inst, policy).
     let average = weighted_average (line_pairs collate db exams results inst) in
     \<lparr>ki_class_course = kc_id inst, ki_course = resolved_title db inst, ki_ders_saati = ip_ders_saati policy,
      ki_average = average, ki_band = Option.bind average (grade_label (settings_load collate (ka_school db)))\<rparr>)"

fun counted :: "karne_db \<Rightarrow> class_course list \<Rightarrow> (class_course \<times> instance_policy) list aresult" where
  "counted db [] = Inr []"
| "counted db (inst # insts) =
     and_then (resolve_policy db inst) (\<lambda>policy. and_then (counted db insts) (\<lambda>rest.
       Inr (if ip_counts_toward_karne policy then (inst, policy) # rest else rest)))"

definition karne_compute :: "(ustr list \<Rightarrow> ustr list) \<Rightarrow> karne_db \<Rightarrow> ustr \<Rightarrow> school_term \<Rightarrow> karne_report aresult" where
  "karne_compute collate db user trm =
     (let school = settings_load collate (ka_school db);
          member_classes = map cm_class (filter (\<lambda>m. cm_user m = user \<and> cm_left_at m = None) (ka_members db));
          class_ids = map cg_id (filter (\<lambda>c. cg_id c \<in> set member_classes \<and> cg_year c = Some (kt_year trm))
            (xd_classes (ka_exams db))) in
      and_then (counted db (list_for_class_ids db class_ids)) (\<lambda>kept.
      let instance_ids = map (\<lambda>(i, _). kc_id i) kept;
          exams = filter (\<lambda>e. ex_term e = kt_id trm) (list_for_class_course_courses db instance_ids);
          results = list_for_user_in_term db user (kt_id trm) instance_ids;
          lines = map (karne_line collate db exams results) kept;
          weighted = List.map_filter (\<lambda>l. map_option (\<lambda>a. (a, ki_ders_saati l)) (ki_average l)) lines;
          year_average = ders_saati_average weighted in
      Inr \<lparr>rp_user = user, rp_term = kt_id trm, rp_instances = lines, rp_year_average = year_average,
           rp_verdict = verdict school year_average\<rparr>))"


section \<open>Frozen reports\<close>

definition term_read :: "karne_db \<Rightarrow> ustr \<Rightarrow> school_term option" where
  "term_read db key = find_row kt_id (ka_terms db) key"

definition read_snapshot :: "karne_db \<Rightarrow> ustr \<Rightarrow> ustr \<Rightarrow> karne_report option" where
  "read_snapshot db trm user = map_option snd (find_row fst (ka_snapshots db) (trm, user))"

definition snapshot :: "karne_db \<Rightarrow> ustr \<Rightarrow> ustr \<Rightarrow> karne_report \<Rightarrow> karne_db" where
  "snapshot db trm user payload =
     db\<lparr>ka_snapshots := (case find_row fst (ka_snapshots db) (trm, user) of
          None \<Rightarrow> ka_snapshots db @ [((trm, user), payload)]
        | Some _ \<Rightarrow> on_row fst (trm, user) (\<lambda>r. (fst r, payload)) (ka_snapshots db))\<rparr>"

definition karne_build ::
  "(ustr list \<Rightarrow> ustr list) \<Rightarrow> (karne_report \<Rightarrow> karne_report aresult) \<Rightarrow> karne_db \<Rightarrow> ustr \<Rightarrow> ustr \<Rightarrow> karne_report aresult" where
  "karne_build collate thaw db user trm =
     and_then (ok_or NotFound (term_read db trm)) (\<lambda>t.
       case (if kt_archived_at t \<noteq> None then read_snapshot db (kt_id t) user else None) of
         Some payload \<Rightarrow> thaw payload
       | None \<Rightarrow> karne_compute collate db user t)"

fun push_new :: "'a list \<Rightarrow> 'a list \<Rightarrow> 'a list" where
  "push_new seen [] = seen"
| "push_new seen (x # xs) = push_new (if x \<in> set seen then seen else seen @ [x]) xs"

definition year_students :: "karne_db \<Rightarrow> ustr \<Rightarrow> ustr list" where
  "year_students db y =
     push_new [] (concat (map (\<lambda>c. concat (map (\<lambda>i. rev (sort (map snd (filter (\<lambda>p. fst p = kc_id i) (xd_enrollment (ka_exams db))))))
         (list_for_class_ids db [cg_id c])))
       (sort_key cg_id (filter (\<lambda>c. cg_year c = Some y) (xd_classes (ka_exams db))))))"

text \<open>\<open>rivals k\<close> is what other requests commit before the \<open>k\<close>th student's report is computed.\<close>

fun freeze_students ::
  "(ustr list \<Rightarrow> ustr list) \<Rightarrow> (nat \<Rightarrow> karne_db \<Rightarrow> karne_db) \<Rightarrow> nat \<Rightarrow> karne_db \<Rightarrow> school_term \<Rightarrow> ustr list
     \<Rightarrow> karne_db \<times> unit aresult" where
  "freeze_students collate rivals k db trm [] = (db, Inr ())"
| "freeze_students collate rivals k db trm (s # ss) =
     (let db = rivals k db in
      case karne_compute collate db s trm of
        Inl e \<Rightarrow> (db, Inl e)
      | Inr report \<Rightarrow> freeze_students collate rivals (Suc k) (snapshot db (kt_id trm) s report) trm ss)"

definition karne_freeze ::
  "(ustr list \<Rightarrow> ustr list) \<Rightarrow> (nat \<Rightarrow> karne_db \<Rightarrow> karne_db) \<Rightarrow> karne_db \<Rightarrow> ustr \<Rightarrow> karne_db \<times> unit aresult" where
  "karne_freeze collate rivals db trm =
     (case term_read db trm of
        None \<Rightarrow> (db, Inl NotFound)
      | Some t \<Rightarrow> freeze_students collate rivals 0 db t (year_students db (kt_year t)))"

definition term_archive_row :: "karne_db \<Rightarrow> school_term \<Rightarrow> int \<Rightarrow> karne_db \<times> school_term aresult" where
  "term_archive_row db target now =
     (case term_read db (kt_id target) of
        None \<Rightarrow> (db, Inl NotFound)
      | Some t \<Rightarrow>
          if kt_archived_at t = None
          then (db\<lparr>ka_terms := on_row kt_id (kt_id target) (\<lambda>x. x\<lparr>kt_archived_at := Some now\<rparr>) (ka_terms db)\<rparr>,
                Inr (t\<lparr>kt_archived_at := Some now\<rparr>))
          else (db, Inr t))"

definition term_archive ::
  "(ustr list \<Rightarrow> ustr list) \<Rightarrow> (nat \<Rightarrow> karne_db \<Rightarrow> karne_db) \<Rightarrow> (karne_db \<Rightarrow> karne_db) \<Rightarrow> karne_db \<Rightarrow> school_term \<Rightarrow> int
     \<Rightarrow> karne_db \<times> school_term aresult" where
  "term_archive collate rivals last_rivals db target now =
     (case (if kt_archived_at target = None then karne_freeze collate rivals db (kt_id target) else (db, Inr ())) of
        (db', Inl e) \<Rightarrow> (db', Inl e)
      | (db', Inr _) \<Rightarrow> term_archive_row (last_rivals db') target now)"

definition term_unarchive :: "karne_db \<Rightarrow> school_term \<Rightarrow> karne_db \<times> school_term aresult" where
  "term_unarchive db target =
     (case term_read db (kt_id target) of
        None \<Rightarrow> (db, Inl NotFound)
      | Some t \<Rightarrow>
          (db\<lparr>ka_terms := on_row kt_id (kt_id target) (\<lambda>x. x\<lparr>kt_archived_at := None\<rparr>) (ka_terms db)\<rparr>,
           Inr (t\<lparr>kt_archived_at := None\<rparr>)))"

end
