(* ===== verification/Report_Card_Properties.thy ===== *)
theory Report_Card_Properties
  imports Report_Card Settings_Properties
begin

text \<open>
  The properties of exam weights and report cards: the weights shown are the weights used, averages stay
  on the mark scale, rounding never moves a line's band, it can move the year's verdict, and a frozen
  report is the one that is served.
\<close>

section \<open>Weights\<close>

lemma find_map_row:
  "find (\<lambda>r. ew_kind r = kind) (map (\<lambda>k. \<lparr>ew_kind = k, ew_weight = f k\<rparr>) ks) =
     (if kind \<in> set ks then Some \<lparr>ew_kind = kind, ew_weight = f kind\<rparr> else None)"
  by (induction ks) auto

lemma weight_at_find:
  assumes "keyed fst rows" "\<And>xs. mset (collate xs) = mset xs"
  shows "find (\<lambda>r. ew_kind r = kind) (weights_of collate rows owner) = weight_at rows owner kind"
proof -
  let ?mine = "filter (\<lambda>r. fst (fst r) = owner) rows"
  have sets: "set (collate xs) = set xs" for xs using assms(2) [of xs] by (rule mset_eq_setD)
  show ?thesis
  proof (cases "find_row fst rows (owner, kind)")
    case None
    then have "kind \<notin> (\<lambda>r. snd (fst r)) ` set ?mine" by (force simp: find_row_None_iff image_iff)
    with None show ?thesis by (simp add: weights_of_def Let_def find_map_row sets weight_at_def)
  next
    case (Some r)
    then have r: "r \<in> set rows" "fst r = (owner, kind)" by (auto dest: find_row_SomeD)
    have "filter (\<lambda>r. snd (fst r) = kind) ?mine = filter (\<lambda>x. fst x = (owner, kind)) rows"
      by (auto intro!: filter_cong simp: prod_eq_iff)
    also have "\<dots> = [r]" using keyed_filter_one [OF assms(1) Some] .
    finally have "hd (filter (\<lambda>r. snd (fst r) = kind) ?mine) = r" by simp
    moreover have "kind \<in> (\<lambda>r. snd (fst r)) ` set ?mine" using r by force
    ultimately show ?thesis using Some by (simp add: weights_of_def Let_def find_map_row sets weight_at_def)
  qed
qed

lemma push_missing_set: "set (push_missing kinds rows) = set kinds \<union> ew_kind ` set rows"
  by (induction rows arbitrary: kinds) (auto simp: list_ex_iff)

lemma find_kind_None: "find (\<lambda>r. ew_kind r = kind) rows = None \<longleftrightarrow> kind \<notin> ew_kind ` set rows"
  by (auto simp: find_None_iff)

lemma kind_weight_None: "exam_kind_weight s kind = None \<longleftrightarrow> kind \<notin> ek_name ` set (st_exam_kinds s)"
  by (auto simp: exam_kind_weight_def find_None_iff)


section \<open>Averages\<close>

definition exact_average :: "(int \<times> int) list \<Rightarrow> rat option" where
  "exact_average pairs =
     (if sum_list (map snd pairs) = 0 then None
      else Some (of_int (sum_list (map (\<lambda>(mark, w). mark * w) pairs)) / of_int (sum_list (map snd pairs))))"

definition pairs_ok :: "(int \<times> int) list \<Rightarrow> bool" where
  "pairs_ok pairs \<longleftrightarrow> (\<forall>(mark, w) \<in> set pairs. 0 \<le> mark \<and> mark \<le> 100 \<and> 1 \<le> w \<and> w \<le> 100)"

lemma pairs_bounds:
  assumes "pairs_ok pairs"
  shows "0 \<le> sum_list (map (\<lambda>(mark, w). mark * w) pairs) \<and>
    sum_list (map (\<lambda>(mark, w). mark * w) pairs) \<le> 100 * sum_list (map snd pairs) \<and>
    int (length pairs) \<le> sum_list (map snd pairs) \<and> sum_list (map snd pairs) \<le> 100 * int (length pairs)"
  using assms
proof (induction pairs)
  case (Cons p pairs)
  obtain mark w where p: "p = (mark, w)" by force
  with Cons.prems have "0 \<le> mark * w" "mark * w \<le> 100 * w" "1 \<le> w" "w \<le> 100"
    by (auto simp: pairs_ok_def intro: mult_right_mono)
  moreover have "pairs_ok pairs" using Cons.prems by (simp add: pairs_ok_def)
  ultimately show ?case
    using Cons.IH unfolding p list.map sum_list.Cons prod.case snd_conv length_Cons distrib_left of_nat_Suc by linarith
qed simp

lemma weighted_average_exact:
  assumes "pairs_ok pairs" "length pairs \<le> 2 ^ 36"
  shows "weighted_average pairs = map_option fl (exact_average pairs)"
    and "exact_average pairs = Some x \<Longrightarrow>
      \<exists>p q. x = of_int p / of_int q \<and> 0 \<le> p \<and> p < 2 ^ 53 \<and> 0 < q \<and> p \<le> 100 * q"
proof -
  let ?t = "sum_list (map (\<lambda>(mark, w). mark * w) pairs)" and ?w = "sum_list (map snd pairs)"
  note b = pairs_bounds [OF assms(1)]
  have "int (length pairs) \<le> 68719476736" using assms(2) by simp
  with b have big: "0 \<le> ?t" "?t < 2 ^ 53" "0 \<le> ?w" "?w < 2 ^ 53" by simp_all
  then have "f64 ?t = of_int ?t" "f64 ?w = of_int ?w" by (simp_all add: f64_def fl_int)
  then show "weighted_average pairs = map_option fl (exact_average pairs)"
    by (simp add: weighted_average_def exact_average_def fdiv_def Let_def)
  show "\<exists>p q. x = of_int p / of_int q \<and> 0 \<le> p \<and> p < 2 ^ 53 \<and> 0 < q \<and> p \<le> 100 * q" if "exact_average pairs = Some x"
    using that big b by (intro exI [of _ ?t] exI [of _ ?w]) (auto simp: exact_average_def split: if_splits)
qed

lemma fl_scale:
  assumes "0 \<le> x" "x \<le> 100 * of_int q" "0 \<le> q" "100 * q \<le> 2 ^ 53"
  shows "0 \<le> fl x \<and> fl x \<le> 100 * of_int q"
proof -
  have "fl x \<le> fl (of_int (100 * q))" using assms by (intro fl_mono) simp_all
  then show ?thesis using fl_int [of "100 * q"] assms fl_nonneg [of x] by simp
qed

lemma year_sum_bounds:
  assumes "\<forall>(a, h) \<in> set weighted. 0 \<le> a \<and> a \<le> 100 \<and> 0 \<le> h" "0 \<le> s" "s \<le> 100 * of_int q" "0 \<le> q"
    "100 * (q + sum_list (map snd weighted)) \<le> 2 ^ 53"
  shows "0 \<le> foldl fadd s (map (\<lambda>(average, saati). fmul average (f64 saati)) weighted) \<and>
    foldl fadd s (map (\<lambda>(average, saati). fmul average (f64 saati)) weighted) \<le> 100 * of_int (q + sum_list (map snd weighted))"
  using assms
proof (induction weighted arbitrary: s q)
  case (Cons p weighted)
  obtain a h where p: "p = (a, h)" by force
  with Cons.prems have ah: "0 \<le> a" "a \<le> 100" "0 \<le> h" by auto
  have rest: "0 \<le> sum_list (map snd weighted)" using Cons.prems(1) by (intro sum_list_nonneg) auto
  have h: "100 * h \<le> 2 ^ 53" "h \<le> 2 ^ 53" using Cons.prems(4,5) p ah rest by simp_all
  then have f: "f64 h = of_int h" using ah by (simp add: f64_def fl_int)
  have m: "0 \<le> fmul a (f64 h) \<and> fmul a (f64 h) \<le> 100 * of_int h"
    unfolding fmul_def f using ah h by (intro fl_scale) (simp_all add: mult_right_mono)
  have "0 \<le> fadd s (fmul a (f64 h)) \<and> fadd s (fmul a (f64 h)) \<le> 100 * of_int (q + h)"
    unfolding fadd_def using m ah Cons.prems(2-5) p rest by (intro fl_scale) simp_all
  with Cons.IH [of "fadd s (fmul a (f64 h))" "q + h"] Cons.prems p ah rest show ?case by (simp add: add.assoc)
qed simp

lemma sum_hours_le: "\<forall>(a, h) \<in> set weighted. P a \<and> h \<le> 40 \<Longrightarrow> sum_list (map snd weighted) \<le> 40 * int (length weighted)"
  by (induction weighted) auto

lemma ders_saati_average_bounds:
  assumes "\<forall>(a, h) \<in> set weighted. 0 \<le> a \<and> a \<le> 100 \<and> 0 \<le> h" "100 * sum_list (map snd weighted) \<le> 2 ^ 53"
    "ders_saati_average weighted = Some y"
  shows "0 \<le> y \<and> y \<le> 100"
proof -
  let ?h = "sum_list (map snd weighted)"
  have h: "0 < ?h" using assms(1,3) sum_list_nonneg [of "map snd weighted"] by (force simp: ders_saati_average_def Let_def split: if_splits)
  then have f: "f64 ?h = of_int ?h" using assms(2) by (simp add: f64_def fl_int)
  have t: "0 \<le> foldl fadd 0 (map (\<lambda>(average, saati). fmul average (f64 saati)) weighted)"
    "foldl fadd 0 (map (\<lambda>(average, saati). fmul average (f64 saati)) weighted) \<le> 100 * of_int ?h"
    using year_sum_bounds [OF assms(1), of 0 0] assms(2) by simp_all
  have y: "y = fl (foldl fadd 0 (map (\<lambda>(average, saati). fmul average (f64 saati)) weighted) / of_int ?h)"
    using assms(3) h f by (simp add: ders_saati_average_def fdiv_def Let_def)
  show ?thesis
    unfolding y using fl_scale [of _ 1] t h by (simp add: pos_divide_le_eq)
qed

lemma grade_label_fl:
  assumes "\<forall>b \<in> set (st_grade_bands s). 0 \<le> gb_min b \<and> gb_min b \<le> 100" "0 \<le> p" "p < 2 ^ 53" "0 < q"
  shows "grade_label s (fl (of_int p / of_int q)) = grade_label s (of_int p / of_int q)"
proof -
  have "filter (\<lambda>b. of_int (gb_min b) \<le> fl (of_int p / of_int q)) (st_grade_bands s) =
      filter (\<lambda>b. rat_of_int (gb_min b) \<le> of_int p / of_int q) (st_grade_bands s)"
    using assms by (intro filter_cong refl fl_threshold) auto
  then show ?thesis by (simp add: grade_label_def)
qed


section \<open>The report\<close>

text \<open>
  What the stored rows satisfy: marks, weights, band minima and weekly hours were validated when they
  were written, the weight tables have their primary keys, and there are fewer than \<open>2 ^ 36\<close> exams and
  instances.
\<close>

definition karne_ok :: "(ustr list \<Rightarrow> ustr list) \<Rightarrow> karne_db \<Rightarrow> bool" where
  "karne_ok collate db \<longleftrightarrow>
     (\<forall>r \<in> set (xd_results (ka_exams db)). 0 \<le> er_mark r \<and> er_mark r \<le> 100) \<and>
     (\<forall>r \<in> set (ka_offering_weights db) \<union> set (ka_class_weights db). 1 \<le> snd r \<and> snd r \<le> 100) \<and>
     (\<forall>k \<in> set (st_exam_kinds (settings_load collate (ka_school db))). 1 \<le> ek_weight k \<and> ek_weight k \<le> 100) \<and>
     (\<forall>b \<in> set (st_grade_bands (settings_load collate (ka_school db))). 0 \<le> gb_min b \<and> gb_min b \<le> 100) \<and>
     (\<forall>i \<in> set (ka_instances db). \<forall>h. kc_ders_saati i = Some h \<longrightarrow> 1 \<le> h \<and> h \<le> 40) \<and>
     (\<forall>c \<in> set (ka_offerings db). \<forall>h. co_default_ders_saati c = Some h \<longrightarrow> 1 \<le> h \<and> h \<le> 40) \<and>
     length (xd_exams (ka_exams db)) \<le> 2 ^ 36 \<and> length (ka_instances db) \<le> 2 ^ 36"

lemma resolve_bounds:
  assumes "karne_ok collate db"
  shows "1 \<le> resolve collate db inst kind \<and> resolve collate db inst kind \<le> 100"
proof -
  have w: "1 \<le> ew_weight x \<and> ew_weight x \<le> 100" if "weight_at rows owner kind = Some x"
    "rows \<in> {ka_offering_weights db, ka_class_weights db}" for rows owner x
  proof -
    from that(1) obtain r where r: "r \<in> set rows" "x = \<lparr>ew_kind = kind, ew_weight = snd r\<rparr>"
      by (auto simp: weight_at_def dest: find_row_SomeD)
    with that(2) have "r \<in> set (ka_offering_weights db) \<union> set (ka_class_weights db)" by auto
    with assms r(2) show ?thesis unfolding karne_ok_def by simp
  qed
  have k: "1 \<le> n \<and> n \<le> 100" if "exam_kind_weight (settings_load collate (ka_school db)) kind = Some n" for n
  proof -
    from that obtain d where "d \<in> set (st_exam_kinds (settings_load collate (ka_school db)))" "n = ek_weight d"
      by (fastforce simp: exam_kind_weight_def find_Some_iff dest: nth_mem)
    with assms show ?thesis unfolding karne_ok_def by blast
  qed
  show ?thesis
    using w [of "ka_class_weights db" "kc_id inst"] w [of "ka_offering_weights db" "kc_offering inst"] k
    by (auto simp: resolve_def or_fallback_def FALLBACK_WEIGHT_def split: option.splits)
qed

lemma policy_bounds:
  assumes "karne_ok collate db" "resolve_policy db inst = Inr p" "inst \<in> set (ka_instances db)"
  shows "1 \<le> ip_ders_saati p \<and> ip_ders_saati p \<le> 40"
proof -
  obtain c where c: "c \<in> set (ka_offerings db)"
    "ip_ders_saati p = case_option MIN_DERS_SAATI (\<lambda>h. h) (first_some (kc_ders_saati inst) (co_default_ders_saati c))"
    using assms(2) by (auto simp: resolve_policy_def dest: find_row_SomeD)
  have "\<And>h. kc_ders_saati inst = Some h \<Longrightarrow> 1 \<le> h \<and> h \<le> 40" "\<And>h. co_default_ders_saati c = Some h \<Longrightarrow> 1 \<le> h \<and> h \<le> 40"
    using assms(1,3) c(1) unfolding karne_ok_def by blast+
  then show ?thesis by (auto simp: c(2) first_some_def MIN_DERS_SAATI_def split: option.splits)
qed

lemma counted_members:
  "counted db insts = Inr kept \<Longrightarrow>
     length kept \<le> length insts \<and> (\<forall>(i, p) \<in> set kept. i \<in> set insts \<and> resolve_policy db i = Inr p)"
  by (induction insts arbitrary: kept) (fastforce split: if_splits)+

lemma counted_total: "\<forall>i \<in> set insts. \<exists>p. resolve_policy db i = Inr p \<Longrightarrow> \<exists>kept. counted db insts = Inr kept"
proof (induction insts)
  case (Cons i insts)
  then obtain p kept where "resolve_policy db i = Inr p" "counted db insts = Inr kept" by auto
  then show ?case by (simp del: and_then_Inr_iff)
qed simp

lemma karne_compute_total:
  assumes "\<forall>i \<in> set (ka_instances db). \<exists>p. resolve_policy db i = Inr p"
  shows "\<exists>rep. karne_compute collate db user trm = Inr rep"
proof -
  have "\<exists>kept. counted db (list_for_class_ids db cs) = Inr kept" for cs
    by (rule counted_total) (use assms in \<open>simp add: list_for_class_ids_def\<close>)
  then show ?thesis unfolding karne_compute_def Let_def by simp
qed

lemma in_map_filter: "y \<in> set (List.map_filter f xs) \<longleftrightarrow> (\<exists>x \<in> set xs. f x = Some y)"
  by (induction xs) (auto simp: map_filter_simps split: option.splits)

lemma length_map_filter:
  "(\<And>x y. f x = Some y \<Longrightarrow> P x) \<Longrightarrow> length (List.map_filter f xs) \<le> length (filter P xs)"
  by (induction xs) (auto simp: map_filter_simps le_SucI split: option.splits)

lemma in_term_lines:
  "length (filter (\<lambda>p. fst p = c) (list_for_user_in_term db user trm is)) \<le> length (xd_exams (ka_exams db))"
proof -
  define f where "f c = List.map_filter (\<lambda>e.
         map_option (Pair c) (max_by_key er_seq
           (filter (\<lambda>r. er_user r = user \<and> er_exam r = ex_id e) (xd_results (ka_exams db)))))
       (filter (\<lambda>e. ex_term e = trm \<and> (ex_id e, c) \<in> set (xd_audience (ka_exams db)))
         (rev (sort_key ex_id (xd_exams (ka_exams db)))))" for c
  have other: "filter (\<lambda>p. fst p = c) (f d) = (if d = c then f d else [])" for d
    by (auto simp: f_def List.map_filter_def filter_empty_conv intro!: filter_True)
  have len: "length (f d) \<le> length (xd_exams (ka_exams db))" for d
    unfolding f_def List.map_filter_def by (auto intro!: order_trans [OF length_filter_le])
  have "length (filter (\<lambda>p. fst p = c) (concat (map f cs))) \<le> length (xd_exams (ka_exams db))" if "distinct cs" for cs
  proof -
    have "filter (\<lambda>p. fst p = c) (concat (map f cs)) = (if c \<in> set cs then f c else [])"
      using that by (induction cs) (auto simp: other)
    then show ?thesis using len by auto
  qed
  from this [of "sort (remdups is)"] show ?thesis by (simp add: list_for_user_in_term_def f_def [abs_def])
qed

lemma in_term_marks:
  assumes "(c, r) \<in> set (list_for_user_in_term db user trm is)"
  shows "r \<in> set (xd_results (ka_exams db))"
  using assms unfolding list_for_user_in_term_def
  by (auto simp: in_map_filter dest!: max_by_key_Some)

lemma line_pairs_ok:
  assumes "karne_ok collate db"
  shows "pairs_ok (line_pairs collate db exams (list_for_user_in_term db user trm is) inst)"
    "length (line_pairs collate db exams (list_for_user_in_term db user trm is) inst) \<le> 2 ^ 36"
proof -
  let ?rs = "list_for_user_in_term db user trm is"
  show "pairs_ok (line_pairs collate db exams ?rs inst)"
    using assms resolve_bounds [OF assms, of inst] in_term_marks [of _ _ db user trm "is"]
    unfolding pairs_ok_def line_pairs_def karne_ok_def
    by (fastforce simp: in_map_filter split: if_splits)
  have "length (line_pairs collate db exams ?rs inst) \<le> length (filter (\<lambda>p. fst p = kc_id inst) ?rs)"
    unfolding line_pairs_def by (rule length_map_filter) (auto split: if_splits)
  with in_term_lines [of "kc_id inst" db user trm "is"] assms
  show "length (line_pairs collate db exams ?rs inst) \<le> 2 ^ 36" by (simp add: karne_ok_def)
qed

text \<open>A computed report, taken apart.\<close>

lemma karne_compute_Inr:
  assumes "karne_compute collate db user trm = Inr rep"
  obtains kept exams "is" where
    "\<forall>(i, p) \<in> set kept. i \<in> set (ka_instances db) \<and> resolve_policy db i = Inr p" "length kept \<le> length (ka_instances db)"
    "rp_instances rep = map (karne_line collate db exams (list_for_user_in_term db user (kt_id trm) is)) kept"
    "rp_year_average rep = ders_saati_average
       (List.map_filter (\<lambda>l. map_option (\<lambda>a. (a, ki_ders_saati l)) (ki_average l)) (rp_instances rep))"
proof -
  from assms obtain classes kept where k: "counted db (list_for_class_ids db classes) = Inr kept"
    and r: "rep = (let is = map (\<lambda>(i, _). kc_id i) kept;
          exams = filter (\<lambda>e. ex_term e = kt_id trm) (list_for_class_course_courses db is);
          results = list_for_user_in_term db user (kt_id trm) is;
          lines = map (karne_line collate db exams results) kept;
          weighted = List.map_filter (\<lambda>l. map_option (\<lambda>a. (a, ki_ders_saati l)) (ki_average l)) lines;
          year_average = ders_saati_average weighted in
      \<lparr>rp_user = user, rp_term = kt_id trm, rp_instances = lines, rp_year_average = year_average,
           rp_verdict = verdict (settings_load collate (ka_school db)) year_average\<rparr>)"
    by (auto simp: karne_compute_def Let_def)
  have "set (list_for_class_ids db classes) \<subseteq> set (ka_instances db)"
    "length (list_for_class_ids db classes) \<le> length (ka_instances db)" by (auto simp: list_for_class_ids_def)
  with counted_members [OF k] have "\<forall>(i, p) \<in> set kept. i \<in> set (ka_instances db) \<and> resolve_policy db i = Inr p"
    "length kept \<le> length (ka_instances db)" by (auto intro: order_trans)
  with r show thesis by (intro that) (simp_all add: Let_def)
qed

lemma karne_line_ok:
  assumes ok: "karne_ok collate db" and i: "i \<in> set (ka_instances db)" "resolve_policy db i = Inr p"
    and l: "l = karne_line collate db exams (list_for_user_in_term db user trm is) (i, p)"
  shows "1 \<le> ki_ders_saati l \<and> ki_ders_saati l \<le> 40" "ki_average l = Some a \<Longrightarrow> 0 \<le> a \<and> a \<le> 100"
    "ki_average l = map_option fl (exact_average (line_pairs collate db exams (list_for_user_in_term db user trm is) i))"
    "ki_band l = Option.bind (exact_average (line_pairs collate db exams (list_for_user_in_term db user trm is) i))
       (grade_label (settings_load collate (ka_school db)))"
proof -
  let ?ps = "line_pairs collate db exams (list_for_user_in_term db user trm is) i"
  note ps = line_pairs_ok [OF ok, of exams user trm "is" i]
  note w = weighted_average_exact [OF ps]
  show "1 \<le> ki_ders_saati l \<and> ki_ders_saati l \<le> 40"
    using policy_bounds [OF ok i(2,1)] by (simp add: l karne_line_def Let_def)
  show avg: "ki_average l = map_option fl (exact_average ?ps)" by (simp add: l karne_line_def Let_def w(1))
  show "0 \<le> a \<and> a \<le> 100" if "ki_average l = Some a"
  proof -
    from that avg obtain x where x: "exact_average ?ps = Some x" "a = fl x" by auto
    from w(2) [OF x(1)] obtain p q where "x = of_int p / of_int q" "0 \<le> p" "0 < q" "p \<le> 100 * q" by blast
    moreover from this have "rat_of_int p \<le> of_int (100 * q)" by (simp only: of_int_le_iff)
    ultimately show ?thesis using fl_scale [of x 1] x(2) by (simp add: pos_divide_le_eq)
  qed
  have bands: "\<forall>b \<in> set (st_grade_bands (settings_load collate (ka_school db))). 0 \<le> gb_min b \<and> gb_min b \<le> 100"
    using ok unfolding karne_ok_def by blast
  show "ki_band l = Option.bind (exact_average ?ps) (grade_label (settings_load collate (ka_school db)))"
  proof (cases "exact_average ?ps")
    case (Some x)
    from w(2) [OF this] obtain p q where "x = of_int p / of_int q" "0 \<le> p" "p < 2 ^ 53" "0 < q" by blast
    with grade_label_fl [OF bands this(2-4)] Some show ?thesis by (simp add: l karne_line_def Let_def w(1))
  qed (simp add: l karne_line_def Let_def w(1))
qed

section \<open>Freezing\<close>

text \<open>The tables the \<open>n\<close>th student's report is computed on.\<close>

primrec freeze_view ::
  "(ustr list \<Rightarrow> ustr list) \<Rightarrow> (nat \<Rightarrow> karne_db \<Rightarrow> karne_db) \<Rightarrow> nat \<Rightarrow> karne_db \<Rightarrow> school_term \<Rightarrow> ustr list \<Rightarrow> nat \<Rightarrow> karne_db" where
  "freeze_view collate rivals k db trm ss 0 = rivals k db"
| "freeze_view collate rivals k db trm ss (Suc n) =
     (case karne_compute collate (rivals k db) (hd ss) trm of
        Inl e \<Rightarrow> rivals k db
      | Inr rep \<Rightarrow> freeze_view collate rivals (Suc k) (snapshot (rivals k db) (kt_id trm) (hd ss) rep) trm (tl ss) n)"

lemma read_snapshot_snapshot:
  "read_snapshot (snapshot db trm s rep) trm' s' = (if trm' = trm \<and> s' = s then Some rep else read_snapshot db trm' s')"
  by (auto simp: read_snapshot_def snapshot_def find_row_append find_row_single find_on_row split: option.splits)

lemma read_snapshot_frame: "ka_snapshots db' = ka_snapshots db \<Longrightarrow> read_snapshot db' trm s = read_snapshot db trm s"
  by (simp add: read_snapshot_def)

lemma push_new_distinct: "distinct seen \<Longrightarrow> distinct (push_new seen xs)"
  by (induction xs arbitrary: seen) auto

text \<open>
  What other requests may do to the tables without archiving the term \<open>key\<close>: anything at all that writes no stored
  report (marks, weights, settings, enrollments, the terms themselves), and storing a report of another term.
\<close>

inductive spares_term :: "ustr \<Rightarrow> karne_db \<Rightarrow> karne_db \<Rightarrow> bool" for key where
  spares_other: "ka_snapshots d = ka_snapshots db \<Longrightarrow> spares_term key db d"
| spares_freeze: "trm \<noteq> key \<Longrightarrow> spares_term key db (snapshot db trm s rep)"

lemma spared_snapshots: "(spares_term key)\<^sup>*\<^sup>* db d \<Longrightarrow> read_snapshot d key s = read_snapshot db key s"
proof (induction rule: rtranclp_induct)
  case (step a b)
  from step(2) have "read_snapshot b key s = read_snapshot a key s"
  proof cases
    case spares_other
    then show ?thesis by (rule read_snapshot_frame)
  next
    case (spares_freeze trm s' rep)
    then show ?thesis by (simp add: read_snapshot_snapshot)
  qed
  then show ?case using step(3) by simp
qed simp

text \<open>Archiving and re-opening, by whoever, are such runs: archiving of any other term, re-opening of any term.\<close>

lemma freeze_spares:
  assumes "kt_id trm \<noteq> key" "\<And>k d. (spares_term key)\<^sup>*\<^sup>* d (rivals k d)"
  shows "(spares_term key)\<^sup>*\<^sup>* db (fst (freeze_students collate rivals k db trm ss))"
proof (induction ss arbitrary: k db)
  case (Cons x ss)
  show ?case
  proof (cases "karne_compute collate (rivals k db) x trm")
    case (Inr rep)
    have "spares_term key (rivals k db) (snapshot (rivals k db) (kt_id trm) x rep)" by (rule spares_freeze [OF assms(1)])
    then have "(spares_term key)\<^sup>*\<^sup>* db (snapshot (rivals k db) (kt_id trm) x rep)"
      by (rule rtranclp.rtrancl_into_rtrancl [OF assms(2)])
    also note Cons.IH
    finally show ?thesis using Inr by (simp add: Let_def)
  qed (use assms(2) in \<open>simp add: Let_def\<close>)
qed simp

lemma archive_spares:
  assumes "kt_id target \<noteq> key" "\<And>k d. (spares_term key)\<^sup>*\<^sup>* d (rivals k d)" "\<And>d. (spares_term key)\<^sup>*\<^sup>* d (last_rivals d)"
  shows "(spares_term key)\<^sup>*\<^sup>* db (fst (term_archive collate rivals last_rivals db target now))"
proof -
  obtain d r where f: "(if kt_archived_at target = None then karne_freeze collate rivals db (kt_id target) else (db, Inr ())) = (d, r)"
    by (meson surj_pair)
  have "(spares_term key)\<^sup>*\<^sup>* db (fst (karne_freeze collate rivals db (kt_id target)))"
  proof (cases "term_read db (kt_id target)")
    case (Some t)
    then have "kt_id t \<noteq> key" using assms(1) by (auto simp: term_read_def dest: find_row_SomeD)
    then show ?thesis using freeze_spares [OF _ assms(2)] Some by (simp add: karne_freeze_def)
  qed (simp add: karne_freeze_def)
  then have d: "(spares_term key)\<^sup>*\<^sup>* db d" using f by (auto split: if_splits)
  have "spares_term key (last_rivals d) (fst (term_archive_row (last_rivals d) target now))"
    by (rule spares_other) (auto simp: term_archive_row_def split: option.splits)
  then have "(spares_term key)\<^sup>*\<^sup>* db (fst (term_archive_row (last_rivals d) target now))"
    using d assms(3) [of d] by (meson rtranclp.rtrancl_into_rtrancl rtranclp_trans)
  then show ?thesis using d f by (cases r) (simp_all add: term_archive_def)
qed

lemma unarchive_spares: "spares_term key db (fst (term_unarchive db target))"
  by (rule spares_other) (auto simp: term_unarchive_def split: option.splits)

lemma freeze_others:
  assumes "\<And>k d. read_snapshot (rivals k d) (kt_id trm) s = read_snapshot d (kt_id trm) s"
    "freeze_students collate rivals k db trm ss = (db1, Inr ())" "s \<notin> set ss"
  shows "read_snapshot db1 (kt_id trm) s = read_snapshot db (kt_id trm) s"
  using assms(2,3)
proof (induction ss arbitrary: k db)
  case (Cons x ss)
  then show ?case
    by (auto simp: Let_def read_snapshot_snapshot assms(1) split: sum.splits)
qed simp

lemma freeze_each:
  assumes rivals: "\<And>k d s. read_snapshot (rivals k d) (kt_id trm) s = read_snapshot d (kt_id trm) s"
    and "freeze_students collate rivals k db trm ss = (db1, Inr ())" "distinct ss" "n < length ss"
  shows "\<exists>rep. karne_compute collate (freeze_view collate rivals k db trm ss n) (ss ! n) trm = Inr rep \<and>
    read_snapshot db1 (kt_id trm) (ss ! n) = Some rep"
  using assms(2-)
proof (induction ss arbitrary: k db n)
  case (Cons x ss)
  from Cons.prems(1) obtain rep where rep: "karne_compute collate (rivals k db) x trm = Inr rep"
    "freeze_students collate rivals (Suc k) (snapshot (rivals k db) (kt_id trm) x rep) trm ss = (db1, Inr ())"
    by (auto simp: Let_def split: sum.splits)
  show ?case
  proof (cases n)
    case 0
    have "read_snapshot db1 (kt_id trm) x = Some rep"
      using freeze_others [OF rivals rep(2)] Cons.prems(2) by (simp add: read_snapshot_snapshot)
    with 0 rep(1) show ?thesis by simp
  next
    case (Suc m)
    with Cons.IH [OF rep(2), of m] Cons.prems rep(1) show ?thesis by simp
  qed
qed simp


section \<open>A worked report\<close>

definition fifty_to_pass :: settings_row where
  "fifty_to_pass = settings_row.truncate (settings_defaults\<lparr>st_grade_bands :=
     [\<lparr>gb_min = 85, gb_label = u ''5''\<rparr>, \<lparr>gb_min = 70, gb_label = u ''4''\<rparr>, \<lparr>gb_min = 60, gb_label = u ''3''\<rparr>,
      \<lparr>gb_min = 50, gb_label = u ''2''\<rparr>, \<lparr>gb_min = 0, gb_label = u ''1''\<rparr>]\<rparr>)"

definition demo_lesson :: "nat \<Rightarrow> int \<Rightarrow> class_course" where
  "demo_lesson i hours = \<lparr>kc_id = [i], kc_class = u ''9A'', kc_course = u ''c'', kc_offering = u ''o'', kc_title = None,
     kc_ders_saati = Some hours, kc_counts_toward_karne = None, kc_exam_weights_inherited = True, kc_attached_at = 0\<rparr>"

definition demo_marks :: "(nat \<times> nat \<times> int) list" where
  "demo_marks = [(1, 1, 49)]"

definition demo_karne :: karne_db where
  "demo_karne = \<lparr>ka_school = new_school
       \<lparr>sd_row := Some fifty_to_pass, sd_exams := demo_school\<lparr>
          xd_exams := map (\<lambda>(e, i, m). demo_exam\<lparr>ex_id := [e], ex_class_course := [i]\<rparr>) demo_marks,
          xd_audience := map (\<lambda>(e, i, m). ([e], [i])) demo_marks,
          xd_enrollment := [([1], u ''s'')],
          xd_results := map (\<lambda>(e, i, m). \<lparr>er_exam = [e], er_user = u ''s'', er_seq = 1, er_mark = m,
            er_graded_by = u ''t''\<rparr>) demo_marks\<rparr>\<rparr>,
     ka_instances = [demo_lesson 1 2],
     ka_offerings = [\<lparr>co_offering = u ''o'', co_title = Some (u ''Math''), co_default_ders_saati = None,
       co_default_counts = None\<rparr>],
     ka_course_titles = [], ka_offering_weights = [((u ''o'', u ''sozlu''), 2)], ka_class_weights = [],
     ka_members = [\<lparr>cm_class = u ''9A'', cm_user = u ''s'', cm_left_at = None\<rparr>],
     ka_terms = [\<lparr>kt_id = u ''term'', kt_year = u ''y'', kt_archived_at = None\<rparr>], ka_snapshots = []\<rparr>"

definition demo_term :: school_term where
  "demo_term = \<lparr>kt_id = u ''term'', kt_year = u ''y'', kt_archived_at = None\<rparr>"

definition demo_report :: karne_report where
  "demo_report = (case karne_compute sort demo_karne (u ''s'') demo_term of Inr rep \<Rightarrow> rep | Inl _ \<Rightarrow>
     \<lparr>rp_user = [], rp_term = [], rp_instances = [], rp_year_average = None, rp_verdict = None\<rparr>)"

lemma demo_karne_ok: "karne_ok sort demo_karne"
proof -
  have "list_all (\<lambda>k. 1 \<le> ek_weight k \<and> ek_weight k \<le> 100) (st_exam_kinds (settings_load sort (ka_school demo_karne)))"
    "list_all (\<lambda>b. 0 \<le> gb_min b \<and> gb_min b \<le> 100) (st_grade_bands (settings_load sort (ka_school demo_karne)))"
    by code_simp+
  then show ?thesis
    by (auto simp: karne_ok_def list_all_iff demo_karne_def demo_marks_def demo_lesson_def)
qed

lemma demo_report_computed: "karne_compute sort demo_karne (u ''s'') demo_term = Inr demo_report"
proof -
  have "\<exists>rep. karne_compute sort demo_karne (u ''s'') demo_term = Inr rep"
    by (rule karne_compute_total) (simp add: resolve_policy_def demo_karne_def demo_lesson_def find_row_def)
  then show ?thesis by (auto simp: demo_report_def split: sum.splits)
qed


section \<open>Properties\<close>

text \<open>
  The weights a class is shown are the weights its marks are averaged with.  For every exam kind,
  looking it up in the list of resolved weights of a class instance, with the fallback for a kind the
  list does not have, gives what the report card resolves for that kind: the class's own weights when
  it has any, otherwise those of its offering over the school's.
\<close>

theorem shown_weights_are_used:
  assumes "keyed fst (ka_offering_weights db)" "keyed fst (ka_class_weights db)" "\<And>xs. mset (collate xs) = mset xs"
  shows "or_fallback (map_option ew_weight (find (\<lambda>row. ew_kind row = kind) (snd (resolved_for_class collate db inst))))
    = resolve collate db inst kind"
proof (cases "kc_exam_weights_inherited inst")
  case False
  then show ?thesis using weight_at_find [OF assms(2,3)] by (simp add: resolved_for_class_def resolve_def)
next
  case True
  let ?s = "settings_load collate (ka_school db)" and ?rows = "weights_of collate (ka_offering_weights db) (kc_offering inst)"
  have w: "find (\<lambda>r. ew_kind r = kind) ?rows = weight_at (ka_offering_weights db) (kc_offering inst) kind"
    by (rule weight_at_find [OF assms(1,3)])
  have listed: "kind \<in> set (push_missing (map ek_name (st_exam_kinds ?s)) ?rows) \<longleftrightarrow>
      weight_at (ka_offering_weights db) (kc_offering inst) kind \<noteq> None \<or> exam_kind_weight ?s kind \<noteq> None"
    using find_kind_None [of kind ?rows] w by (auto simp: push_missing_set kind_weight_None)
  show ?thesis
    using True listed
    by (auto simp: resolved_for_class_def resolved_inherited_def resolve_def find_map_row w Let_def or_fallback_def
        split: option.splits)
qed

theorem shown_weights_are_used_witness:
  "or_fallback (map_option ew_weight (find (\<lambda>row. ew_kind row = u ''sozlu'')
     (snd (resolved_for_class sort demo_karne (demo_lesson 1 2))))) = 2 \<and>
   resolve sort demo_karne (demo_lesson 1 2) (u ''sozlu'') = 2"
proof -
  have "keyed fst (ka_offering_weights demo_karne)" "keyed fst (ka_class_weights demo_karne)"
    by (simp_all add: demo_karne_def keyed_def)
  note shown_weights_are_used [OF this, of sort "u ''sozlu''" "demo_lesson 1 2"]
  moreover have "resolve sort demo_karne (demo_lesson 1 2) (u ''sozlu'') = 2" by code_simp
  ultimately show ?thesis by simp
qed

text \<open>
  C38. Averages stay on the mark scale.  Every average of a report card, of a line and of the year, lies
  between 0 and 100, although each operation of the computation rounds.
\<close>

theorem report_averages_bounded:
  assumes "karne_ok collate db" "karne_compute collate db user trm = Inr rep"
  shows "(\<forall>l \<in> set (rp_instances rep). \<forall>a. ki_average l = Some a \<longrightarrow> 0 \<le> a \<and> a \<le> 100) \<and>
    (\<forall>y. rp_year_average rep = Some y \<longrightarrow> 0 \<le> y \<and> y \<le> 100)"
proof -
  from assms(2) obtain kept exams "is" where k:
    "\<forall>(i, p) \<in> set kept. i \<in> set (ka_instances db) \<and> resolve_policy db i = Inr p" "length kept \<le> length (ka_instances db)"
    "rp_instances rep = map (karne_line collate db exams (list_for_user_in_term db user (kt_id trm) is)) kept"
    "rp_year_average rep = ders_saati_average
       (List.map_filter (\<lambda>l. map_option (\<lambda>a. (a, ki_ders_saati l)) (ki_average l)) (rp_instances rep))"
    by (rule karne_compute_Inr)
  have l: "1 \<le> ki_ders_saati l \<and> ki_ders_saati l \<le> 40 \<and> (\<forall>a. ki_average l = Some a \<longrightarrow> 0 \<le> a \<and> a \<le> 100)"
    if "l \<in> set (rp_instances rep)" for l
    using that k(1,3) karne_line_ok(1,2) [OF assms(1)] by fastforce
  let ?w = "List.map_filter (\<lambda>l. map_option (\<lambda>a. (a, ki_ders_saati l)) (ki_average l)) (rp_instances rep)"
  have w: "\<forall>(a, h) \<in> set ?w. 0 \<le> a \<and> a \<le> 100 \<and> 0 \<le> h \<and> h \<le> 40" using l by (fastforce simp: in_map_filter)
  have "length ?w \<le> length (ka_instances db)"
    using length_map_filter [of "\<lambda>l. map_option (\<lambda>a. (a, ki_ders_saati l)) (ki_average l)" "\<lambda>_. True" "rp_instances rep"] k(2,3)
    by simp
  with assms(1) have n: "length ?w \<le> 2 ^ 36" by (simp add: karne_ok_def)
  have "sum_list (map snd ?w) \<le> 40 * int (length ?w)"
    using w by (intro sum_hours_le [where P = "\<lambda>_. True"]) auto
  with n have "100 * sum_list (map snd ?w) \<le> 2 ^ 53" by simp
  with w have "0 \<le> y \<and> y \<le> 100" if "rp_year_average rep = Some y" for y
    using that k(4) by (intro ders_saati_average_bounds [of ?w y]) auto
  with l show ?thesis by blast
qed

theorem report_averages_bounded_witness:
  "karne_compute sort demo_karne (u ''s'') demo_term = Inr demo_report \<and>
   list_all (\<lambda>l. case ki_average l of None \<Rightarrow> True | Some a \<Rightarrow> 0 \<le> a \<and> a \<le> 100) (rp_instances demo_report) \<and>
   (case rp_year_average demo_report of None \<Rightarrow> True | Some y \<Rightarrow> 0 \<le> y \<and> y \<le> 100)"
  using report_averages_bounded [OF demo_karne_ok demo_report_computed] demo_report_computed
  by (auto simp: list_all_iff split: option.splits)

text \<open>
  Rounding never moves a line's band.  The average of a line is the exact weighted average rounded
  once, and the band the line is labelled with is the band of the exact average.
\<close>

theorem line_band_is_exact:
  assumes "karne_ok collate db" "i \<in> set (ka_instances db)" "resolve_policy db i = Inr p"
    "l = karne_line collate db exams (list_for_user_in_term db user trm is) (i, p)"
    "exact = exact_average (line_pairs collate db exams (list_for_user_in_term db user trm is) i)"
  shows "ki_average l = map_option fl exact \<and>
    ki_band l = Option.bind exact (grade_label (settings_load collate (ka_school db)))"
  unfolding assms(5) using karne_line_ok(3,4) [OF assms(1-4)] ..

theorem line_band_is_exact_witness:
  "ki_band (karne_line sort demo_karne (xd_exams (ka_exams demo_karne))
       (list_for_user_in_term demo_karne (u ''s'') (u ''term'') [[1]])
       (demo_lesson 1 2, \<lparr>ip_ders_saati = 2, ip_counts_toward_karne = True\<rparr>)) = Some (u ''1'')"
proof -
  have "line_pairs sort demo_karne (xd_exams (ka_exams demo_karne))
      (list_for_user_in_term demo_karne (u ''s'') (u ''term'') [[1]]) (demo_lesson 1 2) = [(49, 1)]" by code_simp
  then have exact: "Some 49 = exact_average (line_pairs sort demo_karne (xd_exams (ka_exams demo_karne))
      (list_for_user_in_term demo_karne (u ''s'') (u ''term'') [[1]]) (demo_lesson 1 2))"
    by (simp add: exact_average_def)
  have "demo_lesson 1 2 \<in> set (ka_instances demo_karne)" by (simp add: demo_karne_def)
  moreover have "resolve_policy demo_karne (demo_lesson 1 2) = Inr \<lparr>ip_ders_saati = 2, ip_counts_toward_karne = True\<rparr>"
    by code_simp
  moreover have "grade_label (settings_load sort (ka_school demo_karne)) 49 = Some (u ''1'')" by code_simp
  ultimately show ?thesis using line_band_is_exact [OF demo_karne_ok _ _ refl exact] by simp
qed

text \<open>
  C39. The year's verdict can fail a student by rounding.  Three lessons of 2, 4 and 2 hours with the
  marks 48; 51, 52, 52; and 48, 49, 49 average to exactly 50, but the year average, whose terms and
  sums are rounded one by one, comes out below 50, so where 50 is the pass mark the student fails.
\<close>

theorem year_average_misses_the_pass_mark:
  "let marks = [([(48, 1)], 2), ([(51, 1), (52, 1), (52, 1)], 4), ([(48, 1), (49, 1), (49, 1)], 2)];
       school = settings_load sort (ka_school demo_karne);
       lines = List.map_filter (\<lambda>(ps, h). map_option (\<lambda>a. (a, h)) (weighted_average ps)) marks in
   sum_list (map (\<lambda>(ps, h). the (exact_average ps) * of_int h) marks) / of_int (sum_list (map snd marks)) = 50 \<and>
   pass_floor school = Some 50 \<and> verdict school (Some 50) = Some (u ''gecti'') \<and>
   (\<exists>y. ders_saati_average lines = Some y \<and> y < 50 \<and> verdict school (Some y) = Some (u ''kaldi''))"
proof -
  let ?y = "7036874417766399 / 140737488355328 :: rat"
  have lines: "weighted_average [(48, 1)] = Some 48"
    "weighted_average [(51, 1), (52, 1), (52, 1)] = Some (7271436898358613 / 140737488355328)"
    "weighted_average [(48, 1), (49, 1), (49, 1)] = Some (6849224433292629 / 140737488355328)"
    by (simp_all add: weighted_average_exact pairs_ok_def exact_average_def
        fl_val [where k = 5 and j = 47 and n = 7271436898358613] fl_val [where k = 5 and j = 47 and n = 6849224433292629]
        fl_val [where k = 5 and j = 47 and n = 6755399441055744])
  have "ders_saati_average [(48, 2), (7271436898358613 / 140737488355328, 4), (6849224433292629 / 140737488355328, 2)] = Some ?y"
    by (simp add: ders_saati_average_def Let_def fdiv_def fmul_def fadd_def f64_def fl_int [of 2, simplified]
        fl_int [of 4, simplified] fl_int [of 8, simplified] fl_int [of 96, simplified]
        fl_val [where k = 7 and j = 45 and n = 7271436898358613] fl_val [where k = 6 and j = 46 and n = 6849224433292629]
        fl_val [where k = 8 and j = 44 and n = 5324568309443242] fl_val [where k = 8 and j = 44 and n = 7036874417766399]
        fl_val [where k = 5 and j = 47 and n = 7036874417766399])
  moreover have p: "pass_floor (settings_load sort (ka_school demo_karne)) = Some 50" by code_simp
  moreover have "f64 50 = 50" using fl_int [of 50] by (simp add: f64_def)
  ultimately show ?thesis
    unfolding Let_def
    by (intro conjI exI [of _ ?y]) (simp_all add: lines map_filter_simps exact_average_def verdict_def)
qed

text \<open>
  C40. The report that was frozen is the report that is served.  When a term is archived from a row that reads as
  not archived, every student of the year has the report computed during the archiving stored, whatever was stored
  before.  Later, provided that the term is archived when the report is asked for and that no other archiving of
  this same term has run meanwhile, the stored report is the answer, however many requests have run since and during
  the archiving, changing marks, weights, settings, enrollments and terms and archiving other terms.  A second
  archiving of the term, after a re-opening or by a racing request, is outside the statement: it stores new reports.
\<close>

theorem frozen_report_is_served:
  assumes "\<And>k d. (spares_term (kt_id target))\<^sup>*\<^sup>* d (rivals k d)" "\<And>d. (spares_term (kt_id target))\<^sup>*\<^sup>* d (last_rivals d)"
    and "kt_archived_at target = None" "term_read db (kt_id target) = Some t"
    and "term_archive collate rivals last_rivals db target now = (db1, Inr t1)"
    and "s \<in> set (year_students db (kt_year t))"
    and "(spares_term (kt_id target))\<^sup>*\<^sup>* db1 later" "term_read later (kt_id target) = Some t2" "kt_archived_at t2 \<noteq> None"
  shows "\<exists>n rep. n < length (year_students db (kt_year t)) \<and> year_students db (kt_year t) ! n = s \<and>
    karne_compute collate (freeze_view collate rivals 0 db t (year_students db (kt_year t)) n) s t = Inr rep \<and>
    karne_build collate thaw later s (kt_id target) = thaw rep"
proof -
  have ids: "kt_id t = kt_id target" "kt_id t2 = kt_id target"
    using assms(4,8) by (auto simp: term_read_def dest: find_row_SomeD)
  from assms(3-5) obtain d where d: "freeze_students collate rivals 0 db t (year_students db (kt_year t)) = (d, Inr ())"
    "term_archive_row (last_rivals d) target now = (db1, Inr t1)"
    by (auto simp: term_archive_def karne_freeze_def split: prod.splits sum.splits)
  have "ka_snapshots db1 = ka_snapshots (last_rivals d)"
    using d(2) by (auto simp: term_archive_row_def split: option.splits if_splits)
  then have same: "read_snapshot later (kt_id target) s = read_snapshot d (kt_id target) s"
    by (simp only: spared_snapshots [OF assms(7)] spared_snapshots [OF assms(2)] read_snapshot_frame [of db1 "last_rivals d"])
  obtain n where n: "n < length (year_students db (kt_year t))" "year_students db (kt_year t) ! n = s"
    using assms(6) by (auto simp: in_set_conv_nth)
  have "distinct (year_students db (kt_year t))" unfolding year_students_def by (rule push_new_distinct) simp
  from freeze_each [OF spared_snapshots [OF assms(1), folded ids(1)] d(1) this n(1)] obtain rep where rep:
    "karne_compute collate (freeze_view collate rivals 0 db t (year_students db (kt_year t)) n) s t = Inr rep"
    "read_snapshot d (kt_id t) s = Some rep" unfolding n(2) by blast
  have "karne_build collate thaw later s (kt_id target) = thaw rep"
    using assms(8,9) rep(2) same by (simp add: karne_build_def ids)
  with n rep(1) show ?thesis by blast
qed

text \<open>The witness: the mark is corrected after the term was archived.\<close>

definition archived_karne :: karne_db where
  "archived_karne = fst (term_archive sort (\<lambda>_ d. d) (\<lambda>d. d) demo_karne demo_term 5)"

definition corrected_karne :: karne_db where
  "corrected_karne = archived_karne\<lparr>ka_school := (ka_school archived_karne)
     \<lparr>sd_exams := (ka_exams archived_karne)\<lparr>xd_results := []\<rparr>\<rparr>\<rparr>"

lemma archived_karne_run:
  "term_archive sort (\<lambda>_ d. d) (\<lambda>d. d) demo_karne demo_term 5 = (archived_karne, Inr (demo_term\<lparr>kt_archived_at := Some 5\<rparr>)) \<and>
   ka_terms archived_karne = [demo_term\<lparr>kt_archived_at := Some 5\<rparr>]"
proof -
  have "year_students demo_karne (u ''y'') = [u ''s'']" by code_simp
  moreover have "term_read demo_karne (u ''term'') = Some demo_term"
    by (simp add: term_read_def demo_karne_def demo_term_def find_row_def)
  moreover have "ka_terms demo_karne = [demo_term]" by (simp add: demo_karne_def demo_term_def)
  ultimately show ?thesis
    using demo_report_computed
    by (simp add: archived_karne_def term_archive_def karne_freeze_def demo_term_def snapshot_def term_archive_row_def
        term_read_def find_row_def on_row_def Let_def)
qed

theorem frozen_report_is_served_witness:
  "karne_build sort Inr corrected_karne (u ''s'') (u ''term'') = Inr demo_report \<and>
   xd_results (ka_exams corrected_karne) = []"
proof -
  have t: "term_read demo_karne (kt_id demo_term) = Some demo_term"
    by (simp add: term_read_def demo_karne_def demo_term_def find_row_def)
  have s: "year_students demo_karne (kt_year demo_term) = [u ''s'']" by code_simp
  have r: "term_read corrected_karne (kt_id demo_term) = Some (demo_term\<lparr>kt_archived_at := Some 5\<rparr>)"
    using archived_karne_run by (simp add: term_read_def corrected_karne_def find_row_def)
  have "spares_term (kt_id demo_term) archived_karne corrected_karne" by (rule spares_other) (simp add: corrected_karne_def)
  then have later: "(spares_term (kt_id demo_term))\<^sup>*\<^sup>* archived_karne corrected_karne" by (rule r_into_rtranclp)
  have "\<exists>n rep. n < length [u ''s''] \<and> [u ''s''] ! n = u ''s'' \<and>
      karne_compute sort (freeze_view sort (\<lambda>_ d. d) 0 demo_karne demo_term [u ''s''] n) (u ''s'') demo_term = Inr rep \<and>
      karne_build sort Inr corrected_karne (u ''s'') (kt_id demo_term) = Inr rep"
    using frozen_report_is_served [OF rtranclp.rtrancl_refl rtranclp.rtrancl_refl _ t conjunct1 [OF archived_karne_run] _ later r,
        where thaw = Inr and s = "u ''s''"] s
    by (simp add: demo_term_def)
  then have "karne_build sort Inr corrected_karne (u ''s'') (kt_id demo_term) = Inr demo_report"
    using demo_report_computed by auto
  then show ?thesis by (simp add: corrected_karne_def demo_term_def)
qed

end
