(* ===== verification/Appointments.thy ===== *)
theory Appointments
  imports Database_Tx Validate Roles Ref_Count Exam "HOL-Library.List_Lexorder"
begin

text \<open>
  Teachers' appointment slots and the bookings of students and parents: \<open>appointment_slot.rs\<close> and
  \<open>appointment.rs\<close> of \<open>src/src/domain\<close>, \<open>src/src/db\<close> and \<open>src/src/service\<close>, and the part of a demotion
  (\<open>db/user.rs\<close>) that withdraws a teacher's calendar.

  A transaction is one atomic step; \<open>approve_inner\<close> runs serializable and the others rest on the row they
  update.  \<open>rivals\<close> is what other requests commit between the steps of one call, \<open>clock\<close> the readings of
  the clock.
\<close>

section \<open>Slots\<close>

definition MAX_APPOINTMENT_NOTE_LEN :: nat where "MAX_APPOINTMENT_NOTE_LEN = 500"
definition MAX_APPOINTMENT_REASON_LEN :: nat where "MAX_APPOINTMENT_REASON_LEN = 1000"
definition MAX_SLOT_OCCURRENCES :: int where "MAX_SLOT_OCCURRENCES = 52"
definition MILLIS_PER_WEEK :: int where "MILLIS_PER_WEEK = 7 * 86400000"

record appointment_slot =
  sl_id :: ustr
  sl_teacher :: ustr
  sl_starts_at :: int
  sl_ends_at :: int
  sl_note :: "ustr option"
  sl_series :: "ustr option"
  sl_created_at :: int
  sl_occupied :: int

datatype appointment_status = Pending | Approved | Rejected | Cancelled

record appointment =
  ap_id :: ustr
  ap_slot :: "ustr option"
  ap_requester :: ustr
  ap_status :: appointment_status
  ap_reason :: ustr
  ap_proposed_starts_at :: "int option"
  ap_proposed_ends_at :: "int option"
  ap_proposed_by :: "ustr option"
  ap_decided_by :: "ustr option"
  ap_cancelled_by :: "ustr option"
  ap_cancel_reason :: "ustr option"
  ap_reject_reason :: "ustr option"
  ap_created_at :: int

record appointment_db =
  ad_slots :: "appointment_slot list"
  ad_appointments :: "appointment list"
  ad_roles :: "(ustr \<times> role) list"

definition slot_note_try_new :: "ustr \<Rightarrow> ustr vresult" where
  "slot_note_try_new value = and_then (validate_optional ''note'' value MAX_APPOINTMENT_NOTE_LEN) (\<lambda>_. Inr value)"

definition appointment_reason_try_new :: "ustr \<Rightarrow> ustr vresult" where
  "appointment_reason_try_new value =
     and_then (validate_required ''reason'' value MAX_APPOINTMENT_REASON_LEN) (\<lambda>_. Inr value)"

definition status_as_str :: "appointment_status \<Rightarrow> string" where
  "status_as_str s = (case s of Pending \<Rightarrow> ''pending'' | Approved \<Rightarrow> ''approved'' | Rejected \<Rightarrow> ''rejected''
     | Cancelled \<Rightarrow> ''cancelled'')"

definition is_live :: "appointment_status \<Rightarrow> bool" where
  "is_live s \<longleftrightarrow> s = Pending \<or> s = Approved"

definition check_window :: "int \<Rightarrow> int \<Rightarrow> unit vresult" where
  "check_window starts_at ends_at =
     (if starts_at \<ge> ends_at then Inl (Invalid ''ends_at'' ''must be after starts_at'') else Inr ())"

definition overlaps :: "int \<Rightarrow> int \<Rightarrow> int \<Rightarrow> int \<Rightarrow> bool" where
  "overlaps a_starts_at a_ends_at b_starts_at b_ends_at \<longleftrightarrow> a_starts_at < b_ends_at \<and> a_ends_at > b_starts_at"

text \<open>Plain \<open>i64\<close> subtraction wraps in the release profile, and \<open>/\<close> rounds towards zero.\<close>

definition wrap64 :: "int \<Rightarrow> int" where
  "wrap64 x = (x + 2 ^ 63) mod 2 ^ 64 - 2 ^ 63"

definition quot :: "int \<Rightarrow> int \<Rightarrow> int" where
  "quot a b = (if a < 0 then - ((- a) div b) else a div b)"

definition shifted :: "int \<Rightarrow> int \<Rightarrow> int option" where
  "shifted base week = Option.bind (checked (week * MILLIS_PER_WEEK)) (\<lambda>shift. checked (base + shift))"

fun weeks_from :: "int \<Rightarrow> int \<Rightarrow> int list \<Rightarrow> (int \<times> int) list vresult" where
  "weeks_from starts_at ends_at [] = Inr []"
| "weeks_from starts_at ends_at (week # weeks) =
     (case (shifted starts_at week, shifted ends_at week) of
        (Some s, Some e) \<Rightarrow> and_then (check_window s e) (\<lambda>_. and_then (weeks_from starts_at ends_at weeks) (\<lambda>rest. Inr ((s, e) # rest)))
      | _ \<Rightarrow> Inl (Invalid ''ends_at'' ''is too far ahead to repeat weekly''))"

definition weekly_windows :: "int \<Rightarrow> int \<Rightarrow> int \<Rightarrow> (int \<times> int) list vresult" where
  "weekly_windows starts_at ends_at until =
     and_then (check_window starts_at ends_at) (\<lambda>_.
     if until < starts_at then Inl (Invalid ''until'' ''must not be before the first slot'')
     else
       (let cnt = quot (wrap64 (until - starts_at)) MILLIS_PER_WEEK + 1 in
        if cnt > MAX_SLOT_OCCURRENCES then Inl (TooLong ''until'' (nat MAX_SLOT_OCCURRENCES) (nat cnt))
        else weeks_from starts_at ends_at (map int [0..<nat cnt])))"

text \<open>The exclusion constraint of the table, on the half-open spans.\<close>

definition span_clash :: "appointment_slot list \<Rightarrow> appointment_slot \<Rightarrow> bool" where
  "span_clash slots row \<longleftrightarrow> list_ex (\<lambda>s. sl_teacher s = sl_teacher row \<and>
     overlaps (sl_starts_at s) (sl_ends_at s) (sl_starts_at row) (sl_ends_at row)) slots"

fun insert_slots :: "app_error \<Rightarrow> appointment_slot list \<Rightarrow> appointment_slot list \<Rightarrow> appointment_slot list aresult" where
  "insert_slots refusal slots [] = Inr slots"
| "insert_slots refusal slots (row # rows) =
     (if span_clash slots row then Inl refusal else insert_slots refusal (slots @ [row\<lparr>sl_occupied := 0\<rparr>]) rows)"

definition insert_claimed ::
  "appointment_db \<Rightarrow> ustr \<Rightarrow> appointment_slot list \<Rightarrow> app_error \<Rightarrow> appointment_db \<times> appointment_slot list aresult" where
  "insert_claimed db teacher rows refusal =
     run_tx (\<lambda>db.
       case find_row fst (ad_roles db) teacher of
         None \<Rightarrow> (db, Inl (Forbidden (u ''that account no longer holds a teaching role'')))
       | Some (_, r) \<Rightarrow>
           if \<not> at_least r Teacher then (db, Inl (Forbidden (u ''that account no longer holds a teaching role'')))
           else (case insert_slots refusal (ad_slots db) rows of
                   Inl e \<Rightarrow> (db, Inl e)
                 | Inr slots \<Rightarrow> (db\<lparr>ad_slots := slots\<rparr>, Inr rows))) db"

definition windows_in_span :: "appointment_db \<Rightarrow> ustr \<Rightarrow> int \<Rightarrow> int \<Rightarrow> (int \<times> int) list" where
  "windows_in_span db teacher from_at to_at =
     map (\<lambda>s. (sl_starts_at s, sl_ends_at s))
       (filter (\<lambda>s. sl_teacher s = teacher \<and> sl_starts_at s < to_at \<and> sl_ends_at s > from_at) (ad_slots db))"

definition slot_row :: "ustr \<Rightarrow> ustr \<Rightarrow> ustr option \<Rightarrow> ustr option \<Rightarrow> int \<Rightarrow> int \<times> int \<Rightarrow> appointment_slot" where
  "slot_row fresh teacher note series now w =
     \<lparr>sl_id = fresh, sl_teacher = teacher, sl_starts_at = fst w, sl_ends_at = snd w, sl_note = note,
      sl_series = series, sl_created_at = now, sl_occupied = 0\<rparr>"

definition slot_create ::
  "appointment_db \<Rightarrow> ustr \<Rightarrow> int \<Rightarrow> int \<Rightarrow> ustr option \<Rightarrow> ustr \<Rightarrow> int \<Rightarrow> appointment_db \<times> appointment_slot aresult" where
  "slot_create db teacher starts_at ends_at note fresh now =
     (case check_window starts_at ends_at of
        Inl e \<Rightarrow> (db, Inl (Validation e))
      | Inr _ \<Rightarrow>
          (case insert_claimed db teacher [slot_row fresh teacher note None now (starts_at, ends_at)]
                  (ConflictOwned (u ''this time overlaps a slot you have already published'')) of
             (db', Inl e) \<Rightarrow> (db', Inl e)
           | (db', Inr rows) \<Rightarrow>
               (db', (case rows of [] \<Rightarrow> Inl (Internal (u ''failed to create appointment slot'')) | r # _ \<Rightarrow> Inr r))))"

fun clash_scan :: "(int \<times> int) list \<Rightarrow> (int \<times> int) list \<Rightarrow> (int \<times> int) list \<Rightarrow> unit aresult" where
  "clash_scan published earlier [] = Inr ()"
| "clash_scan published earlier ((s, e) # ws) =
     (if list_ex (\<lambda>(ps, pe). overlaps s e ps pe) published
      then Inl (ConflictOwned (u ''a repeated slot overlaps one you have already published''))
      else if list_ex (\<lambda>(os, oe). overlaps s e os oe) earlier
      then Inl (ConflictOwned (u ''the repeated slots overlap each other''))
      else clash_scan published (earlier @ [(s, e)]) ws)"

text \<open>Indexing an empty list of windows is a panic, which the server answers as an internal error.\<close>

definition publish_weekly ::
  "(appointment_db \<Rightarrow> appointment_db) \<Rightarrow> appointment_db \<Rightarrow> ustr \<Rightarrow> int \<Rightarrow> int \<Rightarrow> ustr option \<Rightarrow> int \<Rightarrow> ustr list \<Rightarrow> ustr
     \<Rightarrow> int \<Rightarrow> appointment_db \<times> appointment_slot list aresult" where
  "publish_weekly rivals db teacher starts_at ends_at note until fresh series now =
     (case weekly_windows starts_at ends_at until of
        Inl e \<Rightarrow> (db, Inl (Validation e))
      | Inr [] \<Rightarrow> (db, Inl (Internal (u ''index out of bounds'')))
      | Inr ws \<Rightarrow>
          (case clash_scan (windows_in_span db teacher (fst (hd ws)) (snd (last ws))) [] ws of
             Inl e \<Rightarrow> (db, Inl e)
           | Inr _ \<Rightarrow>
               (let rows = map (\<lambda>(f, w). slot_row f teacher note (Some series) now w) (zip fresh ws) in
                case insert_claimed (rivals db) teacher rows
                       (ConflictOwned (u ''a repeated slot overlaps one you have already published'')) of
                  (db', Inl e) \<Rightarrow> (db', Inl e)
                | (db', Inr created) \<Rightarrow>
                    if length created \<noteq> length ws
                    then (db', Inl (Internal (u ''published '' @ show_nat (length created) @ u '' of '' @ show_nat (length ws)
                           @ u '' appointment slots'')))
                    else (db', Inr (sort_key sl_starts_at created)))))"

definition delete_free :: "appointment_db \<Rightarrow> ustr list \<Rightarrow> appointment_db \<times> unit aresult" where
  "delete_free db ids =
     run_tx (\<lambda>db.
       let free = (\<lambda>s. sl_id s \<in> set ids \<and> sl_occupied s < 1);
           gone = filter free (ad_slots db);
           db1 = db\<lparr>ad_appointments := filter (\<lambda>a. \<not> list_ex (\<lambda>s. free s \<and> ap_slot a = Some (sl_id s)) (ad_slots db))
                      (ad_appointments db),
                    ad_slots := filter (\<lambda>s. \<not> free s) (ad_slots db)\<rparr> in
       if length gone = length ids then (db1, Inr ())
       else if list_ex (\<lambda>s. sl_id s \<in> set ids) (ad_slots db1)
       then (db1, Inl (Conflict (u ''the slot has a pending or approved booking'')))
       else (db1, Inl NotFound)) db"

definition slot_delete :: "appointment_db \<Rightarrow> appointment_slot \<Rightarrow> appointment_db \<times> appointment_slot aresult" where
  "slot_delete db slot =
     (case delete_free db [sl_id slot] of (db', Inl e) \<Rightarrow> (db', Inl e) | (db', Inr _) \<Rightarrow> (db', Inr slot))"

definition list_for_series :: "appointment_db \<Rightarrow> ustr \<Rightarrow> appointment_slot list" where
  "list_for_series db series =
     sort_key sl_starts_at (sort_key sl_id (filter (\<lambda>s. sl_series s = Some series) (ad_slots db)))"

definition delete_series ::
  "(appointment_db \<Rightarrow> appointment_db) \<Rightarrow> appointment_db \<Rightarrow> ustr \<Rightarrow> appointment_db \<times> appointment_slot list aresult" where
  "delete_series rivals db series =
     (let slots = list_for_series db series in
      if slots = [] then (db, Inl NotFound)
      else (case delete_free (rivals db) (map sl_id slots) of
              (db', Inl e) \<Rightarrow> (db', Inl e) | (db', Inr _) \<Rightarrow> (db', Inr slots)))"


section \<open>Bookings\<close>

definition window :: "appointment \<Rightarrow> appointment_slot \<Rightarrow> int \<times> int" where
  "window a slot =
     (case (ap_proposed_starts_at a, ap_proposed_ends_at a) of
        (Some starts_at, Some ends_at) \<Rightarrow> (starts_at, ends_at)
      | _ \<Rightarrow> (sl_starts_at slot, sl_ends_at slot))"

definition has_proposal :: "appointment \<Rightarrow> bool" where
  "has_proposal a \<longleftrightarrow> ap_proposed_starts_at a \<noteq> None \<and> ap_proposed_ends_at a \<noteq> None"

definition proposes :: "appointment \<Rightarrow> int \<times> int \<Rightarrow> bool" where
  "proposes a w \<longleftrightarrow> ap_proposed_starts_at a = Some (fst w) \<and> ap_proposed_ends_at a = Some (snd w)"

definition slot_read :: "appointment_db \<Rightarrow> ustr \<Rightarrow> appointment_slot option" where
  "slot_read db key = find_row sl_id (ad_slots db) key"

definition appointment_read :: "appointment_db \<Rightarrow> ustr \<Rightarrow> appointment option" where
  "appointment_read db key = find_row ap_id (ad_appointments db) key"

definition slot_of :: "appointment_db \<Rightarrow> appointment \<Rightarrow> appointment_slot option" where
  "slot_of db a = Option.bind (ap_slot a) (slot_read db)"

text \<open>The window of the join: each end is coalesced on its own.\<close>

definition effective_window :: "appointment \<Rightarrow> appointment_slot \<Rightarrow> int \<times> int" where
  "effective_window a s =
     (case_option (sl_starts_at s) (\<lambda>t. t) (ap_proposed_starts_at a), case_option (sl_ends_at s) (\<lambda>t. t) (ap_proposed_ends_at a))"

definition conflicts_on ::
  "appointment_db \<Rightarrow> ustr \<Rightarrow> ustr \<Rightarrow> int \<Rightarrow> int \<Rightarrow> ustr option \<Rightarrow> bool" where
  "conflicts_on db teacher requester starts_at ends_at except =
     list_ex (\<lambda>a. case slot_of db a of
         None \<Rightarrow> False
       | Some s \<Rightarrow> ap_status a = Approved \<and> except \<noteq> Some (ap_id a) \<and> (ap_requester a = requester \<or> sl_teacher s = teacher) \<and>
           overlaps starts_at ends_at (fst (effective_window a s)) (snd (effective_window a s))) (ad_appointments db)"

definition read_pending :: "appointment_db \<Rightarrow> ustr \<Rightarrow> appointment aresult" where
  "read_pending db key =
     and_then (ok_or NotFound (appointment_read db key)) (\<lambda>a.
       if ap_status a \<noteq> Pending then Inl (Conflict (u ''the appointment is no longer pending'')) else Inr a)"

definition pending_row :: "appointment \<Rightarrow> appointment" where
  "pending_row a = a\<lparr>ap_status := Pending, ap_proposed_starts_at := None, ap_proposed_ends_at := None,
     ap_proposed_by := None, ap_decided_by := None, ap_cancelled_by := None, ap_cancel_reason := None,
     ap_reject_reason := None\<rparr>"

definition claim_slot_and_create :: "appointment_db \<Rightarrow> appointment \<Rightarrow> appointment_db \<times> appointment claimed" where
  "claim_slot_and_create db a =
     (case ap_slot a of
        None \<Rightarrow> (db, Full)
      | Some key \<Rightarrow>
          (case slot_read db key of
             None \<Rightarrow> (db, Full)
           | Some s \<Rightarrow>
               if \<not> sl_occupied s < 1 then (db, Full)
               else (db\<lparr>ad_slots := on_row sl_id key (\<lambda>x. x\<lparr>sl_occupied := sl_occupied x + 1\<rparr>) (ad_slots db),
                        ad_appointments := ad_appointments db @ [pending_row a]\<rparr>, Made (pending_row a))))"

definition book_appointment ::
  "(appointment_db \<Rightarrow> appointment_db) \<Rightarrow> (nat \<Rightarrow> int) \<Rightarrow> appointment_db \<Rightarrow> ustr \<Rightarrow> ustr \<Rightarrow> ustr \<Rightarrow> ustr
     \<Rightarrow> appointment_db \<times> appointment aresult" where
  "book_appointment rivals clock db slot requester reason fresh =
     (case slot_read db slot of
        None \<Rightarrow> (db, Inl NotFound)
      | Some row \<Rightarrow>
          if sl_starts_at row \<le> clock 0 then (db, Inl (Conflict (u ''the slot has already started'')))
          else if conflicts_on db requester requester (sl_starts_at row) (sl_ends_at row) None
          then (db, Inl (Conflict (u ''you already have an appointment at that time'')))
          else
            (case claim_slot_and_create (rivals db)
                    \<lparr>ap_id = fresh, ap_slot = Some slot, ap_requester = requester, ap_status = Pending, ap_reason = reason,
                     ap_proposed_starts_at = None, ap_proposed_ends_at = None, ap_proposed_by = None, ap_decided_by = None,
                     ap_cancelled_by = None, ap_cancel_reason = None, ap_reject_reason = None, ap_created_at = clock 1\<rparr> of
               (db', Made created) \<Rightarrow> (db', Inr created)
             | (db', Full) \<Rightarrow>
                 (db', Inl (if slot_read db' slot = None then NotFound else Conflict (u ''the slot is already booked'')))
             | (db', Duplicate) \<Rightarrow> (db', Inl (Internal (u ''appointment id collided'')))))"

text \<open>The compare-and-set of a decision.\<close>

definition decision_into :: "appointment \<Rightarrow> appointment \<Rightarrow> appointment" where
  "decision_into new x = x\<lparr>ap_status := ap_status new, ap_proposed_starts_at := ap_proposed_starts_at new,
     ap_proposed_ends_at := ap_proposed_ends_at new, ap_proposed_by := ap_proposed_by new,
     ap_decided_by := ap_decided_by new, ap_cancelled_by := ap_cancelled_by new,
     ap_cancel_reason := ap_cancel_reason new, ap_reject_reason := ap_reject_reason new\<rparr>"

definition same_decision :: "appointment \<Rightarrow> appointment \<Rightarrow> bool" where
  "same_decision x e \<longleftrightarrow> ap_status x = ap_status e \<and> ap_proposed_starts_at x = ap_proposed_starts_at e \<and>
     ap_proposed_ends_at x = ap_proposed_ends_at e \<and> ap_decided_by x = ap_decided_by e"

definition free_slot :: "ustr option \<Rightarrow> appointment_slot list \<Rightarrow> appointment_slot list" where
  "free_slot key slots = map (\<lambda>s. if key = Some (sl_id s) then s\<lparr>sl_occupied := max (sl_occupied s - 1) 0\<rparr> else s) slots"

definition decision_cas :: "appointment_db \<Rightarrow> appointment \<Rightarrow> appointment \<Rightarrow> appointment_db \<times> appointment option" where
  "decision_cas db expected new =
     (case appointment_read db (ap_id new) of
        None \<Rightarrow> (db, None)
      | Some x \<Rightarrow>
          if \<not> same_decision x expected then (db, None)
          else
            (let frees = is_live (ap_status expected) \<and> \<not> is_live (ap_status new) in
             (db\<lparr>ad_appointments := on_row ap_id (ap_id new) (decision_into new) (ad_appointments db),
                 ad_slots := (if frees then free_slot (ap_slot expected) (ad_slots db) else ad_slots db)\<rparr>,
              Some (decision_into new x))))"

definition save_decision :: "appointment_db \<Rightarrow> appointment \<Rightarrow> appointment \<Rightarrow> appointment_db \<times> appointment option" where
  "save_decision db expected new = decision_cas db expected new"

definition contended :: app_error where
  "contended = Conflict (u ''the appointment is being decided elsewhere'')"

definition approve_in ::
  "int \<Rightarrow> ustr \<Rightarrow> ustr \<Rightarrow> (int \<times> int) option \<Rightarrow> appointment_db \<Rightarrow> appointment_db \<times> appointment aresult" where
  "approve_in now key decided_by accepting db =
     (case and_then (read_pending db key) (\<lambda>expected.
             and_then
               (case accepting of
                  None \<Rightarrow> if has_proposal expected
                          then Inl (Conflict (u ''a counter-proposal is standing; only the requester can accept it''))
                          else Inr ()
                | Some accepted \<Rightarrow>
                    if \<not> has_proposal expected then Inl (Conflict (u ''no time has been proposed''))
                    else if \<not> proposes expected accepted
                    then Inl (Conflict (u ''the proposed time has changed; re-read the booking and accept the new one''))
                    else Inr ()) (\<lambda>_.
             and_then (ok_or NotFound (slot_of db expected)) (\<lambda>slot.
             if fst (window expected slot) \<le> now then Inl (Conflict (u ''that time has already started''))
             else if conflicts_on db (sl_teacher slot) (ap_requester expected) (fst (window expected slot))
                       (snd (window expected slot)) (Some key)
             then Inl (Conflict (u ''that time collides with another approved appointment''))
             else Inr expected))) of
        Inl e \<Rightarrow> (db, Inl e)
      | Inr expected \<Rightarrow>
          (case decision_cas db expected (expected\<lparr>ap_status := Approved, ap_decided_by := Some decided_by\<rparr>) of
             (db', Some saved) \<Rightarrow> (db', Inr saved)
           | (db', None) \<Rightarrow> (db', Inl contended)))"

definition approve_inner ::
  "appointment_db \<Rightarrow> int \<Rightarrow> ustr \<Rightarrow> ustr \<Rightarrow> (int \<times> int) option \<Rightarrow> appointment_db \<times> appointment aresult" where
  "approve_inner db now key decided_by accepting = run_tx (approve_in now key decided_by accepting) db"

definition approve :: "appointment_db \<Rightarrow> int \<Rightarrow> ustr \<Rightarrow> ustr \<Rightarrow> appointment_db \<times> appointment aresult" where
  "approve db now key decided_by = approve_inner db now key decided_by None"

definition accept_proposal :: "appointment_db \<Rightarrow> int \<Rightarrow> ustr \<Rightarrow> ustr \<Rightarrow> int \<Rightarrow> int \<Rightarrow> appointment_db \<times> appointment aresult" where
  "accept_proposal db now key decided_by starts_at ends_at = approve_inner db now key decided_by (Some (starts_at, ends_at))"

text \<open>
  The three decisions that read, decide and write with a compare-and-set, again while somebody else's
  decision lands in between: \<open>decide\<close> turns the row just read into the row to write.
\<close>

fun decision_rounds ::
  "nat \<Rightarrow> nat \<Rightarrow> (nat \<Rightarrow> appointment_db \<Rightarrow> appointment_db) \<Rightarrow> appointment_db \<Rightarrow> ustr
     \<Rightarrow> (nat \<Rightarrow> appointment_db \<Rightarrow> (appointment \<times> appointment) aresult) \<Rightarrow> appointment_db \<times> appointment aresult" where
  "decision_rounds 0 k rivals db key decide = (db, Inl contended)"
| "decision_rounds (Suc left) k rivals db key decide =
     (case decide k db of
        Inl e \<Rightarrow> (db, Inl e)
      | Inr (expected, new) \<Rightarrow>
          (case save_decision (rivals k db) expected new of
             (db', Some saved) \<Rightarrow> (db', Inr saved)
           | (db', None) \<Rightarrow> decision_rounds left (Suc k) rivals db' key decide))"

definition reject_decide ::
  "ustr \<Rightarrow> ustr \<Rightarrow> ustr option \<Rightarrow> nat \<Rightarrow> appointment_db \<Rightarrow> (appointment \<times> appointment) aresult" where
  "reject_decide key decided_by reason k db =
     and_then (read_pending db key) (\<lambda>expected.
       Inr (expected, expected\<lparr>ap_status := Rejected, ap_decided_by := Some decided_by, ap_reject_reason := reason\<rparr>))"

definition cancel_decide ::
  "(nat \<Rightarrow> int) \<Rightarrow> ustr \<Rightarrow> ustr \<Rightarrow> ustr option \<Rightarrow> nat \<Rightarrow> appointment_db \<Rightarrow> (appointment \<times> appointment) aresult" where
  "cancel_decide clock key cancelled_by reason k db =
     and_then (ok_or NotFound (appointment_read db key)) (\<lambda>expected.
     if \<not> is_live (ap_status expected) then Inl (Conflict (u ''the appointment is already settled''))
     else and_then (ok_or NotFound (slot_of db expected)) (\<lambda>slot.
     if fst (window expected slot) \<le> clock k then Inl (Conflict (u ''the appointment has already started''))
     else Inr (expected, expected\<lparr>ap_status := Cancelled, ap_cancelled_by := Some cancelled_by, ap_cancel_reason := reason\<rparr>)))"

definition propose_decide ::
  "(nat \<Rightarrow> int) \<Rightarrow> ustr \<Rightarrow> int \<Rightarrow> int \<Rightarrow> ustr \<Rightarrow> nat \<Rightarrow> appointment_db \<Rightarrow> (appointment \<times> appointment) aresult" where
  "propose_decide clock key starts_at ends_at proposed_by k db =
     and_then (ok_or NotFound (appointment_read db key)) (\<lambda>expected.
     if \<not> is_live (ap_status expected) then Inl (Conflict (u ''the appointment is already settled''))
     else if starts_at \<le> clock k then Inl (Conflict (u ''that time has already started''))
     else Inr (expected, expected\<lparr>ap_status := Pending, ap_decided_by := None, ap_proposed_starts_at := Some starts_at,
            ap_proposed_ends_at := Some ends_at, ap_proposed_by := Some proposed_by\<rparr>))"

definition reject_appointment ::
  "(nat \<Rightarrow> appointment_db \<Rightarrow> appointment_db) \<Rightarrow> appointment_db \<Rightarrow> ustr \<Rightarrow> ustr \<Rightarrow> ustr option \<Rightarrow> appointment_db \<times> appointment aresult" where
  "reject_appointment rivals db key decided_by reason =
     decision_rounds CAS_UPDATE_RETRIES 0 rivals db key (reject_decide key decided_by reason)"

definition cancel_appointment ::
  "(nat \<Rightarrow> appointment_db \<Rightarrow> appointment_db) \<Rightarrow> (nat \<Rightarrow> int) \<Rightarrow> appointment_db \<Rightarrow> ustr \<Rightarrow> ustr \<Rightarrow> ustr option
     \<Rightarrow> appointment_db \<times> appointment aresult" where
  "cancel_appointment rivals clock db key cancelled_by reason =
     decision_rounds CAS_UPDATE_RETRIES 0 rivals db key (cancel_decide clock key cancelled_by reason)"

definition propose ::
  "(nat \<Rightarrow> appointment_db \<Rightarrow> appointment_db) \<Rightarrow> (nat \<Rightarrow> int) \<Rightarrow> appointment_db \<Rightarrow> ustr \<Rightarrow> int \<Rightarrow> int \<Rightarrow> ustr
     \<Rightarrow> appointment_db \<times> appointment aresult" where
  "propose rivals clock db key starts_at ends_at proposed_by =
     (if starts_at \<ge> ends_at then (db, Inl (Validation (Invalid ''proposed_ends_at'' ''must be after proposed_starts_at'')))
      else decision_rounds CAS_UPDATE_RETRIES 0 rivals db key (propose_decide clock key starts_at ends_at proposed_by))"

section \<open>A demotion\<close>

text \<open>What losing the teaching role does to the calendar, in the transaction that changes the role.\<close>

definition withdraw_booking :: "appointment_db \<Rightarrow> ustr \<Rightarrow> appointment \<Rightarrow> appointment" where
  "withdraw_booking db teacher a =
     (if list_ex (\<lambda>s. sl_teacher s = teacher \<and> ap_slot a = Some (sl_id s)) (ad_slots db) \<and> is_live (ap_status a)
      then a\<lparr>ap_status := Cancelled, ap_cancelled_by := Some teacher,
             ap_cancel_reason := Some (u ''the teacher no longer holds a teaching role'')\<rparr>
      else a)"

definition forget_slots :: "appointment_slot list \<Rightarrow> appointment \<Rightarrow> appointment" where
  "forget_slots gone a = (if list_ex (\<lambda>s. ap_slot a = Some (sl_id s)) gone then a\<lparr>ap_slot := None\<rparr> else a)"

definition withdraw_calendar :: "appointment_db \<Rightarrow> ustr \<Rightarrow> appointment_db" where
  "withdraw_calendar db teacher =
     (let settled = map (withdraw_booking db teacher) (ad_appointments db) in
      db\<lparr>ad_appointments := map (forget_slots (filter (\<lambda>s. sl_teacher s = teacher) (ad_slots db))) settled,
         ad_slots := filter (\<lambda>s. sl_teacher s \<noteq> teacher) (ad_slots db)\<rparr>)"

end
