(* ===== verification/Role_Change.thy ===== *)
theory Role_Change
  imports Appointments
begin

text \<open>
  A change of role and everything the account gives up with it: \<open>set_role_cascade\<close> of
  \<open>src/src/db/user.rs\<close>, \<open>set_role\<close> of \<open>src/src/service/user.rs\<close> and the route's guard in
  \<open>src/src/web/users.rs\<close>.  The whole cascade is one transaction.  A row of \<open>app_user\<close> keeps the columns
  the cascade reads and writes, and so do the other tables; the columns of classes, courses and
  enrollments are those \<open>Class_Pump\<close> needs too.  The whiteboard frames the route publishes
  after the commit are left out; the boards they are about are the second part of the answer.
\<close>

record user_row =
  us_id :: ustr
  us_role :: role
  us_student_number :: "ustr option"

record member_row =
  cm_id :: ustr
  cm_class :: ustr
  cm_user :: ustr
  cm_added_by :: ustr
  cm_joined_at :: int
  cm_left_at :: "int option"
  cm_source_class_group :: "ustr option"

record class_group =
  gr_id :: ustr
  gr_grade_level :: int
  gr_teacher :: "ustr option"
  gr_class_member_count :: int
  gr_class_course_count :: int

record enrollment =
  en_class_course :: ustr
  en_user :: ustr
  en_enrolled_by :: ustr
  en_source :: "ustr option"
  en_created_at :: int

record instance_row =
  cc_id :: ustr
  cc_class :: ustr
  cc_course :: ustr
  cc_offering :: ustr
  cc_attached_by :: ustr
  cc_source :: "ustr option"
  cc_attached_at :: int
  cc_enrollment_count :: int

record course_membership =
  ms_course :: ustr
  ms_user :: ustr
  ms_added_by :: ustr
  ms_created_at :: int

record course =
  co_id :: ustr
  co_kind :: ustr
  co_class_course_count :: int
  co_course_membership_count :: int

record registration =
  rg_event :: ustr
  rg_user :: ustr

record event =
  ev_id :: ustr
  ev_by_registration :: bool
  ev_starts_at :: "int option"
  ev_ends_at :: "int option"
  ev_registration_count :: int

record board =
  bd_id :: ustr
  bd_creator :: ustr
  bd_closed_at :: "int option"

record role_db =
  rd_users :: "user_row list"
  rd_class_members :: "member_row list"
  rd_classes :: "class_group list"
  rd_enrollments :: "enrollment list"
  rd_class_courses :: "instance_row list"
  rd_memberships :: "course_membership list"
  rd_courses :: "course list"
  rd_parent_links :: "(ustr \<times> ustr) list"
  rd_registrations :: "registration list"
  rd_events :: "event list"
  rd_boards :: "board list"
  rd_board_participants :: "(ustr \<times> ustr) list"
  rd_class_course_teachers :: "(ustr \<times> ustr) list"
  rd_slots :: "appointment_slot list"
  rd_appointments :: "appointment list"
  rd_blueprints :: "(ustr \<times> int) list"
  rd_offerings :: "(ustr \<times> ustr \<times> int) list"

definition calendar_of :: "role_db \<Rightarrow> appointment_db" where
  "calendar_of db = \<lparr>ad_slots = rd_slots db, ad_appointments = rd_appointments db,
     ad_roles = map (\<lambda>u. (us_id u, us_role u)) (rd_users db)\<rparr>"

text \<open>\<open>UPDATE ... SET n = GREATEST(n - 1, 0) WHERE id IN gone\<close>: once per row, however often it is named.\<close>

definition hand_back :: "('c \<Rightarrow> 'k) \<Rightarrow> ('c \<Rightarrow> 'c) \<Rightarrow> 'k list \<Rightarrow> 'c list \<Rightarrow> 'c list" where
  "hand_back key lower gone rows = map (\<lambda>c. if key c \<in> set gone then lower c else c) rows"

section \<open>The role write\<close>

definition LAST_ADMIN :: app_error where
  "LAST_ADMIN = Conflict (u ''the school must keep at least one admin '' @ [8212] @ u '' promote another account first'')"

definition admin_floor :: "role_db \<Rightarrow> ustr \<Rightarrow> role \<Rightarrow> unit aresult" where
  "admin_floor db target r =
     (if r \<noteq> Admin \<and> map_option us_role (find_row us_id (rd_users db) target) = Some Admin \<and>
         length (filter (\<lambda>x. us_role x = Admin) (rd_users db)) \<le> 1
      then Inl LAST_ADMIN else Inr ())"

definition write_role :: "role \<Rightarrow> user_row \<Rightarrow> user_row" where
  "write_role r x = x\<lparr>us_role := r, us_student_number := (if r = Student then us_student_number x else None)\<rparr>"

definition role_write :: "role_db \<Rightarrow> ustr \<Rightarrow> role \<Rightarrow> (role_db \<times> user_row) option" where
  "role_write db target r =
     (case find_row us_id (rd_users db) target of
        None \<Rightarrow> None
      | Some x \<Rightarrow>
          if us_role x = Admin \<and> r \<noteq> Admin \<and> length (filter (\<lambda>y. us_role y = Admin \<and> us_id y \<noteq> target) (rd_users db)) = 0
          then None
          else Some (db\<lparr>rd_users := on_row us_id target (write_role r) (rd_users db)\<rparr>, write_role r x))"

section \<open>What the new role may not hold\<close>

definition shed_student :: "int \<Rightarrow> ustr \<Rightarrow> role_db \<Rightarrow> role_db" where
  "shed_student now target db =
     (let left = filter (\<lambda>m. cm_user m = target \<and> cm_left_at m = None) (rd_class_members db);
          dropped = filter (\<lambda>e. en_user e = target) (rd_enrollments db);
          quit = filter (\<lambda>m. ms_user m = target) (rd_memberships db) in
      db\<lparr>rd_class_members := map (\<lambda>m. if cm_user m = target \<and> cm_left_at m = None then m\<lparr>cm_left_at := Some now\<rparr> else m)
            (rd_class_members db),
         rd_classes := hand_back gr_id (\<lambda>g. g\<lparr>gr_class_member_count := max (gr_class_member_count g - 1) 0\<rparr>)
            (map cm_class left) (rd_classes db),
         rd_enrollments := filter (\<lambda>e. en_user e \<noteq> target) (rd_enrollments db),
         rd_class_courses := hand_back cc_id (\<lambda>c. c\<lparr>cc_enrollment_count := max (cc_enrollment_count c - 1) 0\<rparr>)
            (map en_class_course dropped) (rd_class_courses db),
         rd_memberships := filter (\<lambda>m. ms_user m \<noteq> target) (rd_memberships db),
         rd_courses := hand_back co_id (\<lambda>c. c\<lparr>co_course_membership_count := max (co_course_membership_count c - 1) 0\<rparr>)
            (map ms_course quit) (rd_courses db),
         rd_parent_links := filter (\<lambda>l. snd l \<noteq> target) (rd_parent_links db)\<rparr>)"

text \<open>A sign-up list freezes when its event has begun, or ended where it names no beginning.\<close>

definition frozen_list :: "int \<Rightarrow> event \<Rightarrow> bool" where
  "frozen_list now e \<longleftrightarrow> ev_by_registration e \<and>
     (case (case ev_starts_at e of Some t \<Rightarrow> Some t | None \<Rightarrow> ev_ends_at e) of None \<Rightarrow> False | Some t \<Rightarrow> t \<le> now)"

definition shed_signups :: "int \<Rightarrow> ustr \<Rightarrow> role_db \<Rightarrow> role_db" where
  "shed_signups now target db =
     (let standing = filter (\<lambda>r. \<not> (rg_user r = target \<and> find_row ev_id (rd_events db) (rg_event r) = None)) (rd_registrations db);
          gone = (\<lambda>r. rg_user r = target \<and>
             (case find_row ev_id (rd_events db) (rg_event r) of None \<Rightarrow> False | Some e \<Rightarrow> \<not> frozen_list now e)) in
      db\<lparr>rd_registrations := filter (\<lambda>r. \<not> gone r) standing,
         rd_events := hand_back ev_id (\<lambda>e. e\<lparr>ev_registration_count := max (ev_registration_count e - 1) 0\<rparr>)
            (map rg_event (filter gone standing)) (rd_events db)\<rparr>)"

definition shed_boards :: "int \<Rightarrow> ustr \<Rightarrow> role_db \<Rightarrow> role_db" where
  "shed_boards now target db =
     db\<lparr>rd_boards := map (\<lambda>b. if bd_creator b = target \<and> bd_closed_at b = None then b\<lparr>bd_closed_at := Some now\<rparr> else b) (rd_boards db),
        rd_board_participants := filter (\<lambda>p. snd p \<noteq> target) (rd_board_participants db)\<rparr>"

definition board_roster :: "role_db \<Rightarrow> ustr \<Rightarrow> ustr list" where
  "board_roster db b = sort (map snd (filter (\<lambda>p. fst p = b) (rd_board_participants db)))"

definition affected_boards :: "ustr list \<Rightarrow> ustr \<Rightarrow> role_db \<Rightarrow> (board \<times> ustr list) list" where
  "affected_boards stripped target db =
     map (\<lambda>b. (b, board_roster db (bd_id b)))
       (sort_key bd_id (filter (\<lambda>b. bd_id b \<in> set stripped \<or> bd_creator b = target) (rd_boards db)))"

definition shed_teaching :: "ustr \<Rightarrow> role_db \<Rightarrow> role_db" where
  "shed_teaching target db =
     (let c = withdraw_calendar (calendar_of db) target in
      db\<lparr>rd_class_course_teachers := filter (\<lambda>t. snd t \<noteq> target) (rd_class_course_teachers db),
         rd_classes := map (\<lambda>g. if gr_teacher g = Some target then g\<lparr>gr_teacher := None\<rparr> else g) (rd_classes db),
         rd_appointments := ad_appointments c, rd_slots := ad_slots c\<rparr>)"

section \<open>The cascade\<close>

definition cascade_in ::
  "int \<Rightarrow> ustr \<Rightarrow> role \<Rightarrow> role_db \<Rightarrow> role_db \<times> (user_row \<times> (board \<times> ustr list) list) aresult" where
  "cascade_in now target r db =
     (case admin_floor db target r of
        Inl e \<Rightarrow> (db, Inl e)
      | Inr _ \<Rightarrow>
          (case role_write db target r of
             None \<Rightarrow> (db, Inl LAST_ADMIN)
           | Some (db1, updated) \<Rightarrow>
               (let db2 = (if r \<noteq> Student then shed_student now target db1 else db1) in
                if r = Parent
                then (let stripped = map fst (filter (\<lambda>p. snd p = target) (rd_board_participants db2));
                          db3 = shed_boards now target (shed_signups now target db2) in
                      (db3, Inr (updated, affected_boards stripped target db3)))
                else (let db3 = db2\<lparr>rd_parent_links := filter (\<lambda>l. fst l \<noteq> target) (rd_parent_links db2)\<rparr>;
                          db4 = (if \<not> at_least r Teacher then shed_teaching target db3 else db3) in
                      (db4, Inr (updated, []))))))"

definition set_role_cascade ::
  "role_db \<Rightarrow> int \<Rightarrow> ustr \<Rightarrow> role \<Rightarrow> role_db \<times> (user_row \<times> (board \<times> ustr list) list) aresult" where
  "set_role_cascade db now target r = run_tx (cascade_in now target r) db"

definition set_role ::
  "(role_db \<Rightarrow> role_db) \<Rightarrow> role_db \<Rightarrow> int \<Rightarrow> ustr \<Rightarrow> role \<Rightarrow> role_db \<times> (user_row \<times> (board \<times> ustr list) list) aresult" where
  "set_role rivals db now target r =
     (case find_row us_id (rd_users db) target of
        None \<Rightarrow> (db, Inl NotFound)
      | Some _ \<Rightarrow> set_role_cascade (rivals db) now target r)"

definition set_role_route ::
  "(role_db \<Rightarrow> role_db) \<Rightarrow> role_db \<Rightarrow> int \<Rightarrow> user_row \<Rightarrow> ustr \<Rightarrow> ustr \<Rightarrow> role_db \<times> user_row aresult" where
  "set_role_route rivals db now admin target raw =
     (if \<not> at_least (us_role admin) Admin then (db, Inl (Forbidden (u ''requires admin role'')))
      else
        (case role_try_from_str raw of
           Inl e \<Rightarrow> (db, Inl (Validation e))
         | Inr r \<Rightarrow>
             if target = us_id admin then (db, Inl (Forbidden (u ''cannot change your own role'')))
             else (case set_role rivals db now target r of
                     (db', Inl e) \<Rightarrow> (db', Inl e) | (db', Inr (updated, _)) \<Rightarrow> (db', Inr updated))))"

end
