(* ===== verification/Class_Pump.thy ===== *)
theory Class_Pump
  imports Role_Change
begin

text \<open>
  Classes, the courses taught in them, and the enrollments the two produce: \<open>class_pump.rs\<close>,
  \<open>enrollment.rs\<close>, \<open>course_membership.rs\<close> and \<open>class_course_teacher.rs\<close> of \<open>src/src/db\<close> with the services over
  them.  A student who joins a class is enrolled in every course of the class, and a course attached to a
  class takes every student of it in; such an enrollment is tagged with the class, one made by hand is
  not.  Every transaction is one step on the tables of \<open>Role_Change\<close>.  Of what detaching a course deletes, the
  enrollments and the teachers of the instance are modelled; its exams, homework and sessions are not.
\<close>

definition MAX_CLASS_MEMBERS :: int where "MAX_CLASS_MEMBERS = 200"
definition MAX_CLASS_COURSES :: int where "MAX_CLASS_COURSES = 50"

section \<open>Verdicts\<close>

datatype 'a attached = AMade 'a | ADuplicate | AGone | APivotGone | AClassFull | AClassOverloaded | ACourseGone ustr | ASourceGone

datatype axis = AxMember | AxCourse

fun axis_cap :: "axis \<Rightarrow> int" where
  "axis_cap AxMember = MAX_CLASS_MEMBERS"
| "axis_cap AxCourse = MAX_CLASS_COURSES"

fun at_ceiling_code :: "axis \<Rightarrow> string" where
  "at_ceiling_code AxMember = ''class_at_roster_ceiling''"
| "at_ceiling_code AxCourse = ''class_at_course_ceiling''"

fun over_ceiling_code :: "axis \<Rightarrow> string" where
  "over_ceiling_code AxMember = ''class_roster_too_large''"
| "over_ceiling_code AxCourse = ''class_course_list_too_large''"

fun axis_other :: "axis \<Rightarrow> axis" where
  "axis_other AxMember = AxCourse"
| "axis_other AxCourse = AxMember"

fun refusal_code :: "'a attached \<Rightarrow> axis \<Rightarrow> string option" where
  "refusal_code (AMade _) x = None"
| "refusal_code ADuplicate x = Some ''duplicate''"
| "refusal_code AGone x = Some ''class_deleted''"
| "refusal_code APivotGone x = Some ''course_deleted''"
| "refusal_code AClassFull x = Some (at_ceiling_code x)"
| "refusal_code AClassOverloaded x = Some (over_ceiling_code (axis_other x))"
| "refusal_code (ACourseGone _) x = Some ''linked_course_missing''"
| "refusal_code ASourceGone x = Some ''blueprint_deleted''"

datatype early = EDuplicate | ESourceGone | EPivotGone | EOverloaded

fun refusal_of :: "early \<Rightarrow> 'a attached" where
  "refusal_of EDuplicate = ADuplicate"
| "refusal_of ESourceGone = ASourceGone"
| "refusal_of EPivotGone = APivotGone"
| "refusal_of EOverloaded = AClassOverloaded"

datatype pivot = PUser ustr | PCourse ustr

definition live_member :: "role_db \<Rightarrow> ustr \<Rightarrow> ustr \<Rightarrow> bool" where
  "live_member db class user \<longleftrightarrow> list_ex (\<lambda>m. cm_class m = class \<and> cm_user m = user \<and> cm_left_at m = None) (rd_class_members db)"

definition pivot_held :: "role_db \<Rightarrow> ustr \<Rightarrow> pivot \<Rightarrow> bool" where
  "pivot_held db class p =
     (case p of
        PUser user \<Rightarrow> live_member db class user
      | PCourse course \<Rightarrow> list_ex (\<lambda>i. cc_class i = class \<and> cc_course i = course) (rd_class_courses db))"

definition other_over :: "role_db \<Rightarrow> ustr \<Rightarrow> axis \<Rightarrow> bool" where
  "other_over db class x =
     (case find_row gr_id (rd_classes db) class of
        None \<Rightarrow> False
      | Some g \<Rightarrow>
          (case axis_other x of
             AxMember \<Rightarrow> gr_class_member_count g > axis_cap AxMember
           | AxCourse \<Rightarrow> gr_class_course_count g > axis_cap AxCourse))"

definition early_verdicts ::
  "role_db \<Rightarrow> ustr \<Rightarrow> axis \<Rightarrow> pivot \<Rightarrow> int option \<Rightarrow> early option \<times> ustr option \<times> ustr option" where
  "early_verdicts db class x p source =
     (if pivot_held db class p then (Some EDuplicate, None, None)
      else
        (let source_id = (case source of None \<Rightarrow> None | Some grade \<Rightarrow> map_option fst (find (\<lambda>b. snd b = grade) (rd_blueprints db))) in
         if source \<noteq> None \<and> source_id = None then (Some ESourceGone, None, None)
         else
           (case p of
              PUser user \<Rightarrow>
                if map_option us_role (find_row us_id (rd_users db) user) \<noteq> Some Student then (Some EPivotGone, None, None)
                else (if other_over db class x then Some EOverloaded else None, source_id, None)
            | PCourse course \<Rightarrow>
                (case find_row co_id (rd_courses db) course of
                   None \<Rightarrow> (Some EPivotGone, None, None)
                 | Some c \<Rightarrow> (if other_over db class x then Some EOverloaded else None, source_id, Some (co_kind c))))))"

section \<open>The pump\<close>

definition COURSE_GONE_MARK :: ustr where "COURSE_GONE_MARK = u ''class_pump_course_gone:''"

definition enrolled_in :: "role_db \<Rightarrow> ustr \<Rightarrow> ustr \<Rightarrow> bool" where
  "enrolled_in db instance user \<longleftrightarrow> list_ex (\<lambda>e. en_class_course e = instance \<and> en_user e = user) (rd_enrollments db)"

definition enroll_row :: "role_db \<Rightarrow> ustr \<Rightarrow> ustr \<Rightarrow> ustr \<Rightarrow> ustr option \<Rightarrow> int \<Rightarrow> role_db" where
  "enroll_row db instance user by source now =
     db\<lparr>rd_class_courses := on_row cc_id instance (\<lambda>i. i\<lparr>cc_enrollment_count := cc_enrollment_count i + 1\<rparr>) (rd_class_courses db),
        rd_enrollments := rd_enrollments db @
          [\<lparr>en_class_course = instance, en_user = user, en_enrolled_by = by, en_source = source, en_created_at = now\<rparr>]\<rparr>"

fun enroll_pairs :: "int \<Rightarrow> ustr \<Rightarrow> ustr \<Rightarrow> (ustr \<times> ustr) list \<Rightarrow> role_db \<Rightarrow> role_db aresult" where
  "enroll_pairs now class by [] db = Inr db"
| "enroll_pairs now class by ((inst, user) # pairs) db =
     (if enrolled_in db inst user then enroll_pairs now class by pairs db
      else if find_row cc_id (rd_class_courses db) inst = None then Inl (Internal (COURSE_GONE_MARK @ inst))
      else enroll_pairs now class by pairs (enroll_row db inst user by (Some class) now))"

definition map_sweep_abort :: "'a attached aresult \<Rightarrow> 'a attached aresult" where
  "map_sweep_abort outcome =
     (case outcome of
        Inl (Internal m) \<Rightarrow>
          if take (length COURSE_GONE_MARK) m = COURSE_GONE_MARK then Inr (ACourseGone (drop (length COURSE_GONE_MARK) m)) else outcome
      | _ \<Rightarrow> outcome)"

definition add_member_in ::
  "ustr \<Rightarrow> int \<Rightarrow> ustr \<Rightarrow> ustr \<Rightarrow> ustr \<Rightarrow> ustr option \<Rightarrow> role_db \<Rightarrow> role_db \<times> member_row attached aresult" where
  "add_member_in fresh now class user by source db =
     (case early_verdicts db class AxMember (PUser user) None of
        (Some e, _) \<Rightarrow> (db, Inr (refusal_of e))
      | (None, _) \<Rightarrow>
          (case find_row gr_id (rd_classes db) class of
             None \<Rightarrow> (db, Inr AGone)
           | Some g \<Rightarrow>
               if \<not> gr_class_member_count g < axis_cap AxMember then (db, Inr AClassFull)
               else
                 (let row = \<lparr>cm_id = fresh, cm_class = class, cm_user = user, cm_added_by = by, cm_joined_at = now,
                             cm_left_at = None, cm_source_class_group = source\<rparr>;
                      db1 = db\<lparr>rd_classes := on_row gr_id class (\<lambda>g. g\<lparr>gr_class_member_count := gr_class_member_count g + 1\<rparr>) (rd_classes db),
                               rd_class_members := rd_class_members db @ [row]\<rparr>;
                      instances = map cc_id (filter (\<lambda>i. cc_class i = class) (rd_class_courses db1)) in
                  case enroll_pairs now class by (map (\<lambda>i. (i, user)) instances) db1 of
                    Inl e \<Rightarrow> (db1, Inl e)
                  | Inr db2 \<Rightarrow> (db2, Inr (AMade row)))))"

definition add_member_sourced ::
  "role_db \<Rightarrow> ustr \<Rightarrow> int \<Rightarrow> ustr \<Rightarrow> ustr \<Rightarrow> ustr \<Rightarrow> ustr option \<Rightarrow> role_db \<times> member_row attached aresult" where
  "add_member_sourced db fresh now class user by source =
     (case run_tx (add_member_in fresh now class user by source) db of (db', r) \<Rightarrow> (db', map_sweep_abort r))"

definition add_member :: "role_db \<Rightarrow> ustr \<Rightarrow> int \<Rightarrow> ustr \<Rightarrow> ustr \<Rightarrow> ustr \<Rightarrow> role_db \<times> member_row attached aresult" where
  "add_member db fresh now class user by = add_member_sourced db fresh now class user by None"

text \<open>The offering of a course at a grade, made on demand.\<close>

definition ensure_offering :: "role_db \<Rightarrow> ustr \<Rightarrow> ustr \<Rightarrow> int \<Rightarrow> role_db \<times> ustr" where
  "ensure_offering db fresh course grade =
     (case find (\<lambda>(_, c, g). c = course \<and> g = grade) (rd_offerings db) of
        Some (k, _) \<Rightarrow> (db, k)
      | None \<Rightarrow> (db\<lparr>rd_offerings := rd_offerings db @ [(fresh, course, grade)]\<rparr>, fresh))"

definition is_class_delivered :: "ustr \<Rightarrow> bool" where
  "is_class_delivered kind \<longleftrightarrow> kind = u ''course''"

text \<open>The refusal of a club or a supervised study is written in ASCII here.\<close>

definition attach_course_in ::
  "ustr \<Rightarrow> ustr \<Rightarrow> int \<Rightarrow> ustr \<Rightarrow> ustr \<Rightarrow> ustr \<Rightarrow> int option \<Rightarrow> role_db \<Rightarrow> role_db \<times> instance_row attached aresult" where
  "attach_course_in fresh fresh_offering now class course by source db =
     (case early_verdicts db class AxCourse (PCourse course) source of
        (Some e, _) \<Rightarrow> (db, Inr (refusal_of e))
      | (None, source_id, None) \<Rightarrow> (db, Inl (Internal (u ''a course attach locked a course but read no kind'')))
      | (None, source_id, Some kind) \<Rightarrow>
          if \<not> is_class_delivered kind
          then (db, Inl (Validation (Invalid ''course''
                 ''only a ders attaches to a class -- a club or etut is joined individually, not attached'')))
          else
            (case find_row gr_id (rd_classes db) class of
               None \<Rightarrow> (db, Inr AGone)
             | Some g \<Rightarrow>
                 (case ensure_offering db fresh_offering course (gr_grade_level g) of
                    (db1, offering) \<Rightarrow>
                      if \<not> gr_class_course_count g < axis_cap AxCourse then (db1, Inr AClassFull)
                      else
                        (let row = \<lparr>cc_id = fresh, cc_class = class, cc_course = course, cc_offering = offering, cc_attached_by = by,
                                    cc_source = source_id, cc_attached_at = now, cc_enrollment_count = 0\<rparr>;
                             db2 = db1\<lparr>rd_classes := on_row gr_id class (\<lambda>g. g\<lparr>gr_class_course_count := gr_class_course_count g + 1\<rparr>) (rd_classes db1),
                                       rd_class_courses := rd_class_courses db1 @ [row],
                                       rd_courses := on_row co_id course (\<lambda>c. c\<lparr>co_class_course_count := co_class_course_count c + 1\<rparr>) (rd_courses db1)\<rparr>;
                             members = map cm_user (filter (\<lambda>m. cm_class m = class \<and> cm_left_at m = None) (rd_class_members db2)) in
                         case enroll_pairs now class by (map (\<lambda>m. (fresh, m)) members) db2 of
                           Inl e \<Rightarrow> (db2, Inl e)
                         | Inr db3 \<Rightarrow>
                             (db3, Inr (AMade (row\<lparr>cc_enrollment_count :=
                                (case find_row cc_id (rd_class_courses db3) fresh of Some i \<Rightarrow> cc_enrollment_count i | None \<Rightarrow> 0)\<rparr>)))))))"

definition attach_course ::
  "role_db \<Rightarrow> ustr \<Rightarrow> ustr \<Rightarrow> int \<Rightarrow> ustr \<Rightarrow> ustr \<Rightarrow> ustr \<Rightarrow> int option \<Rightarrow> role_db \<times> instance_row attached aresult" where
  "attach_course db fresh fresh_offering now class course by source =
     (case run_tx (attach_course_in fresh fresh_offering now class course by source) db of (db', r) \<Rightarrow> (db', map_sweep_abort r))"

definition release :: "ustr \<Rightarrow> ustr \<Rightarrow> role_db \<Rightarrow> role_db" where
  "release instance user db =
     (if enrolled_in db instance user
      then db\<lparr>rd_enrollments := filter (\<lambda>e. \<not> (en_class_course e = instance \<and> en_user e = user)) (rd_enrollments db),
              rd_class_courses := on_row cc_id instance (\<lambda>i. i\<lparr>cc_enrollment_count := max (cc_enrollment_count i - 1) 0\<rparr>) (rd_class_courses db)\<rparr>
      else db)"

definition drop_member :: "role_db \<Rightarrow> int \<Rightarrow> ustr \<Rightarrow> ustr \<Rightarrow> bool \<Rightarrow> role_db \<times> int aresult" where
  "drop_member db now class user soft =
     run_tx (\<lambda>db.
       if \<not> live_member db class user then (db, Inr 0)
       else
         (let gone = (\<lambda>m. cm_class m = class \<and> cm_user m = user \<and> cm_left_at m = None);
              db1 = db\<lparr>rd_class_members :=
                         (if soft then map (\<lambda>m. if gone m then m\<lparr>cm_left_at := Some now\<rparr> else m) (rd_class_members db)
                          else filter (\<lambda>m. \<not> gone m) (rd_class_members db)),
                       rd_classes := on_row gr_id class (\<lambda>g. g\<lparr>gr_class_member_count := max (gr_class_member_count g - 1) 0\<rparr>) (rd_classes db)\<rparr>;
              rows = map (\<lambda>e. (en_class_course e, en_user e))
                       (filter (\<lambda>e. en_user e = user \<and> en_source e = Some class) (rd_enrollments db1)) in
          (fold (\<lambda>(i, m). release i m) rows db1, Inr 1))) db"

definition remove_member :: "role_db \<Rightarrow> int \<Rightarrow> ustr \<Rightarrow> ustr \<Rightarrow> role_db \<times> int aresult" where
  "remove_member db now class user = drop_member db now class user False"

definition leave_member :: "role_db \<Rightarrow> int \<Rightarrow> ustr \<Rightarrow> ustr \<Rightarrow> role_db \<times> int aresult" where
  "leave_member db now class user = drop_member db now class user True"

definition sweep_instance :: "ustr \<Rightarrow> role_db \<Rightarrow> role_db" where
  "sweep_instance instance db =
     db\<lparr>rd_enrollments := filter (\<lambda>e. en_class_course e \<noteq> instance) (rd_enrollments db),
        rd_class_course_teachers := filter (\<lambda>t. fst t \<noteq> instance) (rd_class_course_teachers db)\<rparr>"

definition detach_course :: "role_db \<Rightarrow> ustr \<Rightarrow> ustr \<Rightarrow> int option \<Rightarrow> role_db \<times> unit option aresult" where
  "detach_course db class course source =
     run_tx (\<lambda>db.
       let blueprint = (case source of None \<Rightarrow> None | Some grade \<Rightarrow> map_option fst (find (\<lambda>b. snd b = grade) (rd_blueprints db))) in
       case find (\<lambda>i. cc_class i = class \<and> cc_course i = course \<and>
                    (source = None \<or> (blueprint \<noteq> None \<and> cc_source i = blueprint))) (rd_class_courses db) of
         None \<Rightarrow> (db, Inr None)
       | Some i \<Rightarrow>
           (let db1 = sweep_instance (cc_id i) db in
            (db1\<lparr>rd_class_courses := filter (\<lambda>x. cc_id x \<noteq> cc_id i) (rd_class_courses db1),
                 rd_classes := on_row gr_id class (\<lambda>g. g\<lparr>gr_class_course_count := max (gr_class_course_count g - 1) 0\<rparr>) (rd_classes db1),
                 rd_courses := on_row co_id course (\<lambda>c. c\<lparr>co_class_course_count := max (co_class_course_count c - 1) 0\<rparr>) (rd_courses db1)\<rparr>,
             Inr (Some ())))) db"


section \<open>By hand\<close>

definition read_enrollment :: "role_db \<Rightarrow> ustr \<Rightarrow> ustr \<Rightarrow> enrollment option" where
  "read_enrollment db instance user = find (\<lambda>e. en_class_course e = instance \<and> en_user e = user) (rd_enrollments db)"

datatype 'a verdict = VHeld | VUnfit | VMade 'a

definition disown_if_pumped :: "role_db \<Rightarrow> enrollment \<Rightarrow> role_db \<times> enrollment aresult" where
  "disown_if_pumped db existing =
     (if en_source existing = None then (db, Inr existing)
      else
        (let mine = (\<lambda>e. en_class_course e = en_class_course existing \<and> en_user e = en_user existing);
             db1 = db\<lparr>rd_enrollments := map (\<lambda>e. if mine e then e\<lparr>en_source := None\<rparr> else e) (rd_enrollments db)\<rparr> in
         (db1, Inr (case find mine (rd_enrollments db1) of Some e \<Rightarrow> e | None \<Rightarrow> existing))))"

definition enroll_in :: "int \<Rightarrow> ustr \<Rightarrow> ustr \<Rightarrow> ustr \<Rightarrow> ustr option \<Rightarrow> role_db \<Rightarrow> role_db \<times> enrollment verdict aresult" where
  "enroll_in now instance user by source db =
     (if enrolled_in db instance user then (db, Inr VHeld)
      else if map_option us_role (find_row us_id (rd_users db) user) \<noteq> Some Student then (db, Inr VUnfit)
      else if find_row cc_id (rd_class_courses db) instance = None then (db, Inl NotFound)
      else
        (let db1 = enroll_row db instance user by source now in (db1, Inr (VMade (last (rd_enrollments db1))))))"

text \<open>
  \<open>rivals 0\<close> is what commits between the first read and the next statement, \<open>rivals 1\<close> between the transaction
  and the read that answers an enrollment already held.
\<close>

definition db_enroll ::
  "(nat \<Rightarrow> role_db \<Rightarrow> role_db) \<Rightarrow> int \<Rightarrow> role_db \<Rightarrow> ustr \<Rightarrow> ustr \<Rightarrow> ustr \<Rightarrow> ustr option \<Rightarrow> role_db \<times> enrollment aresult" where
  "db_enroll rivals now db instance user by source =
     (case read_enrollment db instance user of
        Some existing \<Rightarrow> disown_if_pumped (rivals 0 db) existing
      | None \<Rightarrow>
          (case run_tx (enroll_in now instance user by source) (rivals 0 db) of
             (db', Inl e) \<Rightarrow> (db', Inl e)
           | (db', Inr (VMade row)) \<Rightarrow> (db', Inr row)
           | (db', Inr VHeld) \<Rightarrow>
               (let db2 = rivals 1 db' in
                (db2, (case read_enrollment db2 instance user of
                         Some existing \<Rightarrow> Inr existing
                       | None \<Rightarrow> Inl (Internal (u ''failed to enroll user'')))))
           | (db', Inr VUnfit) \<Rightarrow>
               (db', Inl (Validation (Invalid ''user_id'' ''only students can be enrolled in a course'')))))"

definition ensure_student :: "role_db \<Rightarrow> ustr \<Rightarrow> string \<Rightarrow> unit aresult" where
  "ensure_student db target reason =
     (case find_row us_id (rd_users db) target of
        None \<Rightarrow> Inl (Validation (Invalid ''user_id'' ''target user does not exist''))
      | Some x \<Rightarrow> if us_role x \<noteq> Student then Inl (Validation (Invalid ''user_id'' reason)) else Inr ())"

definition enroll ::
  "(role_db \<Rightarrow> role_db) \<Rightarrow> (nat \<Rightarrow> role_db \<Rightarrow> role_db) \<Rightarrow> int \<Rightarrow> role_db \<Rightarrow> ustr \<Rightarrow> ustr \<Rightarrow> ustr \<Rightarrow> role_db \<times> enrollment aresult" where
  "enroll gap rivals now db instance target by =
     (case ensure_student db target ''only students can be enrolled in a course'' of
        Inl e \<Rightarrow> (db, Inl e)
      | Inr _ \<Rightarrow> db_enroll rivals now (gap db) instance target by None)"

definition enrollment_remove :: "role_db \<Rightarrow> ustr \<Rightarrow> ustr \<Rightarrow> role_db \<times> enrollment option" where
  "enrollment_remove db instance user =
     (let gone = filter (\<lambda>e. en_class_course e = instance \<and> en_user e = user) (rd_enrollments db) in
      (db\<lparr>rd_enrollments := filter (\<lambda>e. \<not> (en_class_course e = instance \<and> en_user e = user)) (rd_enrollments db),
          rd_class_courses := on_row cc_id instance
            (\<lambda>i. i\<lparr>cc_enrollment_count := max (cc_enrollment_count i - int (length gone)) 0\<rparr>) (rd_class_courses db)\<rparr>,
       case gone of [] \<Rightarrow> None | e # _ \<Rightarrow> Some e))"

definition unenroll :: "role_db \<Rightarrow> ustr \<Rightarrow> ustr \<Rightarrow> role_db \<times> unit aresult" where
  "unenroll db instance target =
     (case enrollment_remove db instance target of (db', None) \<Rightarrow> (db', Inl NotFound) | (db', Some _) \<Rightarrow> (db', Inr ()))"

definition user_is_in_course :: "role_db \<Rightarrow> ustr \<Rightarrow> ustr \<Rightarrow> bool" where
  "user_is_in_course db course user \<longleftrightarrow>
     list_ex (\<lambda>e. en_user e = user \<and> list_ex (\<lambda>i. cc_id i = en_class_course e \<and> cc_course i = course) (rd_class_courses db)) (rd_enrollments db) \<or>
     list_ex (\<lambda>m. ms_course m = course \<and> ms_user m = user) (rd_memberships db)"

section \<open>Clubs and supervised studies\<close>

definition read_membership :: "role_db \<Rightarrow> ustr \<Rightarrow> ustr \<Rightarrow> course_membership option" where
  "read_membership db course user = find (\<lambda>m. ms_course m = course \<and> ms_user m = user) (rd_memberships db)"

definition membership_in :: "int \<Rightarrow> ustr \<Rightarrow> ustr \<Rightarrow> ustr \<Rightarrow> role_db \<Rightarrow> role_db \<times> course_membership verdict aresult" where
  "membership_in now course user by db =
     (if read_membership db course user \<noteq> None then (db, Inr VHeld)
      else if map_option us_role (find_row us_id (rd_users db) user) \<noteq> Some Student then (db, Inr VUnfit)
      else if find_row co_id (rd_courses db) course = None then (db, Inl NotFound)
      else
        (let row = \<lparr>ms_course = course, ms_user = user, ms_added_by = by, ms_created_at = now\<rparr> in
         (db\<lparr>rd_courses := on_row co_id course (\<lambda>c. c\<lparr>co_course_membership_count := co_course_membership_count c + 1\<rparr>) (rd_courses db),
             rd_memberships := rd_memberships db @ [row]\<rparr>, Inr (VMade row))))"

definition membership_add ::
  "(nat \<Rightarrow> role_db \<Rightarrow> role_db) \<Rightarrow> int \<Rightarrow> role_db \<Rightarrow> ustr \<Rightarrow> ustr \<Rightarrow> ustr \<Rightarrow> role_db \<times> course_membership aresult" where
  "membership_add rivals now db course user by =
     (case read_membership db course user of
        Some existing \<Rightarrow> (db, Inr existing)
      | None \<Rightarrow>
          (case run_tx (membership_in now course user by) (rivals 0 db) of
             (db', Inl e) \<Rightarrow> (db', Inl e)
           | (db', Inr (VMade row)) \<Rightarrow> (db', Inr row)
           | (db', Inr VHeld) \<Rightarrow>
               (let db2 = rivals 1 db' in
                (db2, (case read_membership db2 course user of
                         Some existing \<Rightarrow> Inr existing
                       | None \<Rightarrow> Inl (Internal (u ''failed to add course membership'')))))
           | (db', Inr VUnfit) \<Rightarrow> (db', Inl (Validation (Invalid ''user_id'' ''only students can join a course'')))))"

definition membership_remove :: "role_db \<Rightarrow> ustr \<Rightarrow> ustr \<Rightarrow> role_db \<times> course_membership option" where
  "membership_remove db course user =
     (let gone = filter (\<lambda>m. ms_course m = course \<and> ms_user m = user) (rd_memberships db) in
      (db\<lparr>rd_memberships := filter (\<lambda>m. \<not> (ms_course m = course \<and> ms_user m = user)) (rd_memberships db),
          rd_courses := on_row co_id course
            (\<lambda>c. c\<lparr>co_course_membership_count := max (co_course_membership_count c - int (length gone)) 0\<rparr>) (rd_courses db)\<rparr>,
       case gone of [] \<Rightarrow> None | m # _ \<Rightarrow> Some m))"

definition join_activity ::
  "(role_db \<Rightarrow> role_db) \<Rightarrow> (nat \<Rightarrow> role_db \<Rightarrow> role_db) \<Rightarrow> int \<Rightarrow> role_db \<Rightarrow> ustr \<Rightarrow> ustr \<Rightarrow> ustr \<Rightarrow> role_db \<times> course_membership aresult" where
  "join_activity gap rivals now db course target by =
     (case find_row co_id (rd_courses db) course of
        None \<Rightarrow> (db, Inl NotFound)
      | Some c \<Rightarrow>
          if is_class_delivered (co_kind c)
          then (db, Inl (Validation (Invalid ''course_id'' ''a ders is joined through the class instance that teaches it, not directly'')))
          else
            (case ensure_student db target ''only students can join a course'' of
               Inl e \<Rightarrow> (db, Inl e)
             | Inr _ \<Rightarrow> membership_add rivals now (gap db) course target by))"

definition leave_activity :: "role_db \<Rightarrow> ustr \<Rightarrow> ustr \<Rightarrow> role_db \<times> unit aresult" where
  "leave_activity db course target =
     (case membership_remove db course target of (db', None) \<Rightarrow> (db', Inl NotFound) | (db', Some _) \<Rightarrow> (db', Inr ()))"

section \<open>The services over the pump\<close>

definition coded :: "'a attached \<Rightarrow> axis \<Rightarrow> ustr \<Rightarrow> app_error" where
  "coded landed x message = ConflictCoded (u (case refusal_code landed x of Some c \<Rightarrow> c | None \<Rightarrow> [])) message"

definition member_answer :: "member_row attached \<Rightarrow> member_row aresult" where
  "member_answer landed =
     (case landed of
        AMade saved \<Rightarrow> Inr saved
      | ADuplicate \<Rightarrow> Inl (coded landed AxMember (u ''the student is already in this class''))
      | AGone \<Rightarrow> Inl NotFound
      | APivotGone \<Rightarrow> Inl (Validation (Invalid ''user_id'' ''only students can be added to a class''))
      | AClassFull \<Rightarrow> Inl (coded landed AxMember (u ''this class already holds '' @ show_int MAX_CLASS_MEMBERS @ u '' students''))
      | AClassOverloaded \<Rightarrow>
          Inl (coded landed AxMember (u ''this class holds more than '' @ show_int MAX_CLASS_COURSES @ u '' courses '' @ [8212]
            @ u '' detach some before adding a student''))
      | ACourseGone course \<Rightarrow>
          Inl (coded landed AxMember (course @ u '' no longer exists '' @ [8212] @ u '' detach it from this class first''))
      | ASourceGone \<Rightarrow> Inl (Internal (u ''a class membership has no blueprint to lose'')))"

definition class_member_add :: "role_db \<Rightarrow> ustr \<Rightarrow> int \<Rightarrow> ustr \<Rightarrow> ustr \<Rightarrow> ustr \<Rightarrow> role_db \<times> member_row aresult" where
  "class_member_add db fresh now class user by =
     (case add_member db fresh now class user by of
        (db', Inl e) \<Rightarrow> (db', Inl e) | (db', Inr landed) \<Rightarrow> (db', member_answer landed))"

definition some_gone :: "role_db \<times> int aresult \<Rightarrow> role_db \<times> unit aresult" where
  "some_gone p = (case p of (db', Inl e) \<Rightarrow> (db', Inl e) | (db', Inr n) \<Rightarrow> (db', if n > 0 then Inr () else Inl NotFound))"

definition class_member_leave :: "role_db \<Rightarrow> int \<Rightarrow> ustr \<Rightarrow> ustr \<Rightarrow> role_db \<times> unit aresult" where
  "class_member_leave db now class user = some_gone (leave_member db now class user)"

definition class_member_remove :: "role_db \<Rightarrow> int \<Rightarrow> ustr \<Rightarrow> ustr \<Rightarrow> role_db \<times> unit aresult" where
  "class_member_remove db now class user = some_gone (remove_member db now class user)"

definition instance_answer :: "instance_row attached \<Rightarrow> instance_row aresult" where
  "instance_answer landed =
     (case landed of
        AMade saved \<Rightarrow> Inr saved
      | ADuplicate \<Rightarrow> Inl (coded landed AxCourse (u ''the course is already on this class''))
      | AGone \<Rightarrow> Inl NotFound
      | APivotGone \<Rightarrow> Inl NotFound
      | AClassFull \<Rightarrow> Inl (coded landed AxCourse (u ''this class already holds '' @ show_int MAX_CLASS_COURSES @ u '' courses''))
      | AClassOverloaded \<Rightarrow>
          Inl (coded landed AxCourse (u ''this class holds more than '' @ show_int MAX_CLASS_MEMBERS @ u '' students '' @ [8212]
            @ u '' remove some before attaching a course''))
      | ACourseGone course \<Rightarrow>
          Inl (coded landed AxCourse (course @ u '' no longer exists '' @ [8212] @ u '' detach it from this class first''))
      | ASourceGone \<Rightarrow> Inl (Internal (u ''a hand attach has no blueprint to lose'')))"

definition class_course_attach ::
  "role_db \<Rightarrow> ustr \<Rightarrow> ustr \<Rightarrow> int \<Rightarrow> ustr \<Rightarrow> ustr \<Rightarrow> ustr \<Rightarrow> role_db \<times> instance_row aresult" where
  "class_course_attach db fresh fresh_offering now class course by =
     (case attach_course db fresh fresh_offering now class course by None of
        (db', Inl e) \<Rightarrow> (db', Inl e) | (db', Inr landed) \<Rightarrow> (db', instance_answer landed))"

definition class_course_detach :: "role_db \<Rightarrow> ustr \<Rightarrow> ustr \<Rightarrow> role_db \<times> unit aresult" where
  "class_course_detach db class course =
     (case detach_course db class course None of
        (db', Inl e) \<Rightarrow> (db', Inl e) | (db', Inr None) \<Rightarrow> (db', Inl NotFound) | (db', Inr (Some _)) \<Rightarrow> (db', Inr ()))"

section \<open>Who teaches\<close>

definition teacher_assign :: "role_db \<Rightarrow> ustr \<Rightarrow> ustr \<Rightarrow> role_db \<times> bool aresult" where
  "teacher_assign db instance teacher =
     (if find_row cc_id (rd_class_courses db) instance = None then (db, Inl NotFound)
      else if (instance, teacher) \<in> set (rd_class_course_teachers db) then (db, Inr False)
      else (db\<lparr>rd_class_course_teachers := rd_class_course_teachers db @ [(instance, teacher)]\<rparr>, Inr True))"

definition teacher_unassign :: "role_db \<Rightarrow> ustr \<Rightarrow> ustr \<Rightarrow> role_db \<times> bool" where
  "teacher_unassign db instance teacher =
     (db\<lparr>rd_class_course_teachers := filter (\<lambda>t. t \<noteq> (instance, teacher)) (rd_class_course_teachers db)\<rparr>,
      (instance, teacher) \<in> set (rd_class_course_teachers db))"

definition assign_teacher ::
  "(role_db \<Rightarrow> role_db) \<Rightarrow> (role_db \<Rightarrow> ustr \<Rightarrow> unit aresult) \<Rightarrow> role_db \<Rightarrow> ustr \<Rightarrow> ustr \<Rightarrow> ustr \<Rightarrow> role_db \<times> unit aresult" where
  "assign_teacher gap require_open db instance target by =
     (case find_row us_id (rd_users db) by of
        None \<Rightarrow> (db, Inl Unauthorized)
      | Some actor \<Rightarrow>
          if \<not> at_least (us_role actor) Manager
          then (db, Inl (Forbidden (u ''assigning a teacher is the office'' @ [39] @ u ''s call '' @ [8212] @ u '' manager role or higher'')))
          else
            (case find_row us_id (rd_users db) target of
               None \<Rightarrow> (db, Inl (Validation (Invalid ''user_id'' ''target user does not exist'')))
             | Some t \<Rightarrow>
                 if \<not> at_least (us_role t) Teacher
                 then (db, Inl (Validation (Invalid ''user_id'' ''target user must hold the teacher role or higher'')))
                 else
                   (case require_open db instance of
                      Inl e \<Rightarrow> (db, Inl e)
                    | Inr _ \<Rightarrow>
                        (case teacher_assign (gap db) instance target of
                           (db', Inl e) \<Rightarrow> (db', Inl e) | (db', Inr _) \<Rightarrow> (db', Inr ())))))"

definition ensure_instance_teacher :: "role_db \<Rightarrow> user_row \<Rightarrow> ustr \<Rightarrow> unit aresult" where
  "ensure_instance_teacher db x instance =
     (if at_least (us_role x) Manager then Inr ()
      else
        (case find_row cc_id (rd_class_courses db) instance of
           None \<Rightarrow> Inl NotFound
         | Some i \<Rightarrow>
             if at_least (us_role x) Teacher \<and>
                ((instance, us_id x) \<in> set (rd_class_course_teachers db) \<or>
                 Option.bind (find_row gr_id (rd_classes db) (cc_class i)) gr_teacher = Some (us_id x))
             then Inr ()
             else Inl (Forbidden (u ''only this instance'' @ [39] @ u ''s teachers, its class'' @ [39]
               @ u ''s homeroom teacher, or a manager may act here''))))"

definition undo_if_demoted :: "role_db \<Rightarrow> ustr \<Rightarrow> role_db \<times> unit aresult" where
  "undo_if_demoted db target =
     (if (case find_row us_id (rd_users db) target of None \<Rightarrow> False | Some x \<Rightarrow> at_least (us_role x) Teacher) then (db, Inr ())
      else (db\<lparr>rd_classes := map (\<lambda>g. if gr_teacher g = Some target then g\<lparr>gr_teacher := None\<rparr> else g) (rd_classes db),
               rd_class_course_teachers := filter (\<lambda>t. snd t \<noteq> target) (rd_class_course_teachers db)\<rparr>,
            Inl (Conflict (u ''that user was demoted below teacher while this request ran '' @ [8212]
              @ u '' the assignment was undone; re-read their role and retry''))))"

end
