(* ===== verification/Appointments_Web.thy ===== *)
theory Appointments_Web
  imports Appointments Paging
begin

text \<open>
  The routes of \<open>src/src/web/appointments.rs\<close> that change the calendar: who may publish, withdraw, book,
  decide and answer, and in which order the checks are made.  A route answers with the row its service
  call returned; rendering it is left out.  \<open>gap\<close> is what other requests commit between the route's own
  reads and its service call, \<open>rivals\<close> what they commit inside that call.
\<close>

record caller =
  cu_id :: ustr
  cu_role :: role

definition SCHEDULE_PAST_GRACE_MS :: int where "SCHEDULE_PAST_GRACE_MS = 60 * 1000"

definition check_time_range :: "int option \<Rightarrow> int option \<Rightarrow> unit aresult" where
  "check_time_range starts_at ends_at =
     (case (starts_at, ends_at) of
        (Some starts, Some ends) \<Rightarrow>
          if ends < starts then Inl (Validation (Invalid ''ends_at'' ''must be at or after starts_at'')) else Inr ()
      | _ \<Rightarrow> Inr ())"

definition check_not_past :: "int \<Rightarrow> string \<Rightarrow> int option \<Rightarrow> unit aresult" where
  "check_not_past now field value =
     (case value of
        Some v \<Rightarrow> if v < now - SCHEDULE_PAST_GRACE_MS then Inl (Validation (Invalid field ''must not be in the past'')) else Inr ()
      | None \<Rightarrow> Inr ())"

definition require_teacher :: "caller \<Rightarrow> unit aresult" where
  "require_teacher c = (if at_least (cu_role c) Teacher then Inr () else Inl (Forbidden (u ''requires teacher role or higher'')))"

definition can_manage :: "appointment_slot \<Rightarrow> caller \<Rightarrow> bool" where
  "can_manage slot c \<longleftrightarrow> at_least (cu_role c) Teacher \<and> (sl_teacher slot = cu_id c \<or> at_least (cu_role c) Manager)"

definition for_decision :: "appointment_db \<Rightarrow> ustr \<Rightarrow> caller \<Rightarrow> appointment aresult" where
  "for_decision db key c =
     and_then (ok_or NotFound (appointment_read db key)) (\<lambda>a.
     and_then (ok_or NotFound (ap_slot a)) (\<lambda>slot_id.
     and_then (ok_or NotFound (slot_read db slot_id)) (\<lambda>slot.
     if \<not> can_manage slot c
     then Inl (Forbidden (u ''only the slot's teacher or a manager/admin can decide this appointment''))
     else Inr a)))"

definition ensure_requester :: "appointment_db \<Rightarrow> ustr \<Rightarrow> caller \<Rightarrow> appointment aresult" where
  "ensure_requester db key c =
     and_then (ok_or NotFound (appointment_read db key)) (\<lambda>a.
     if ap_requester a \<noteq> cu_id c then Inl (Forbidden (u ''only the requester can answer a counter-proposal'')) else Inr a)"

text \<open>A blank or absent reason records none.\<close>

definition optional_reason :: "ustr option \<Rightarrow> ustr option aresult" where
  "optional_reason raw =
     (case raw of
        Some reason \<Rightarrow>
          if trim reason \<noteq> [] then map_err Validation (and_then (appointment_reason_try_new reason) (\<lambda>r. Inr (Some r)))
          else Inr None
      | None \<Rightarrow> Inr None)"

definition guarded :: "appointment_db \<Rightarrow> 'a aresult \<Rightarrow> ('a \<Rightarrow> appointment_db \<times> 'b aresult) \<Rightarrow> appointment_db \<times> 'b aresult" where
  "guarded db guard body = (case guard of Inl e \<Rightarrow> (db, Inl e) | Inr x \<Rightarrow> body x)"

definition publish_slots ::
  "(appointment_db \<Rightarrow> appointment_db) \<Rightarrow> int \<Rightarrow> appointment_db \<Rightarrow> caller \<Rightarrow> int \<Rightarrow> int \<Rightarrow> ustr option \<Rightarrow> bool \<Rightarrow> int option
     \<Rightarrow> ustr list \<Rightarrow> ustr \<Rightarrow> appointment_db \<times> appointment_slot list aresult" where
  "publish_slots rivals now db c starts_at ends_at raw_note repeat_weekly until fresh series =
     guarded db (and_then (require_teacher c) (\<lambda>_.
       case raw_note of
         Some note \<Rightarrow> map_err Validation (and_then (slot_note_try_new note) (\<lambda>n. Inr (Some n)))
       | None \<Rightarrow> Inr None)) (\<lambda>note.
     guarded db (and_then (check_not_past now ''starts_at'' (Some starts_at)) (\<lambda>_.
       and_then (check_not_past now ''ends_at'' (Some ends_at)) (\<lambda>_. check_time_range (Some starts_at) (Some ends_at)))) (\<lambda>_.
     if repeat_weekly
     then guarded db (and_then (ok_or (Validation (Invalid ''until'' ''is required with repeat_weekly'')) until) (\<lambda>t.
            and_then (check_not_past now ''until'' (Some t)) (\<lambda>_. Inr t))) (\<lambda>t.
          publish_weekly rivals db (cu_id c) starts_at ends_at note t fresh series now)
     else (case slot_create db (cu_id c) starts_at ends_at note (hd fresh) now of
             (db', Inl e) \<Rightarrow> (db', Inl e) | (db', Inr slot) \<Rightarrow> (db', Inr [slot]))))"

definition delete_slot ::
  "(appointment_db \<Rightarrow> appointment_db) \<Rightarrow> appointment_db \<Rightarrow> caller \<Rightarrow> ustr \<Rightarrow> appointment_db \<times> unit aresult" where
  "delete_slot gap db c key =
     guarded db (and_then (require_teacher c) (\<lambda>_.
       and_then (ok_or NotFound (slot_read db key)) (\<lambda>slot.
       if \<not> can_manage slot c then Inl (Forbidden (u ''only the slot's teacher or a manager/admin can delete it''))
       else Inr slot))) (\<lambda>slot.
     case slot_delete (gap db) slot of (db', Inl e) \<Rightarrow> (db', Inl e) | (db', Inr _) \<Rightarrow> (db', Inr ()))"

definition delete_slot_series ::
  "(appointment_db \<Rightarrow> appointment_db) \<Rightarrow> (appointment_db \<Rightarrow> appointment_db) \<Rightarrow> appointment_db \<Rightarrow> caller \<Rightarrow> ustr
     \<Rightarrow> appointment_db \<times> unit aresult" where
  "delete_slot_series gap rivals db c series =
     guarded db (and_then (require_teacher c) (\<lambda>_.
       case list_for_series db series of
         [] \<Rightarrow> Inl NotFound
       | slot # _ \<Rightarrow>
           if \<not> can_manage slot c then Inl (Forbidden (u ''only the slot's teacher or a manager/admin can delete it''))
           else Inr ())) (\<lambda>_.
     case delete_series rivals (gap db) series of (db', Inl e) \<Rightarrow> (db', Inl e) | (db', Inr _) \<Rightarrow> (db', Inr ()))"

definition book_route ::
  "(appointment_db \<Rightarrow> appointment_db) \<Rightarrow> (appointment_db \<Rightarrow> appointment_db) \<Rightarrow> (nat \<Rightarrow> int) \<Rightarrow> appointment_db \<Rightarrow> caller \<Rightarrow> ustr \<Rightarrow> ustr
     \<Rightarrow> ustr \<Rightarrow> appointment_db \<times> appointment aresult" where
  "book_route gap rivals clock db c slot_id raw_reason fresh =
     guarded db (
       if cu_role c \<noteq> Student \<and> cu_role c \<noteq> Parent then Inl (Forbidden (u ''only students and parents can book an appointment''))
       else and_then (ok_or NotFound (slot_read db slot_id)) (\<lambda>slot.
         if \<not> (case find_row fst (ad_roles db) (sl_teacher slot) of Some (_, r) \<Rightarrow> at_least r Teacher | None \<Rightarrow> False)
         then Inl (Conflict (u ''the slot's teacher no longer holds a teaching role''))
         else map_err Validation (appointment_reason_try_new raw_reason))) (\<lambda>reason.
     book_appointment rivals clock (gap db) slot_id (cu_id c) reason fresh)"

definition approve_route ::
  "(appointment_db \<Rightarrow> appointment_db) \<Rightarrow> int \<Rightarrow> appointment_db \<Rightarrow> caller \<Rightarrow> ustr \<Rightarrow> appointment_db \<times> appointment aresult" where
  "approve_route gap now db c key =
     guarded db (and_then (require_teacher c) (\<lambda>_. for_decision db key c)) (\<lambda>_. approve (gap db) now key (cu_id c))"

definition reject_route ::
  "(appointment_db \<Rightarrow> appointment_db) \<Rightarrow> (nat \<Rightarrow> appointment_db \<Rightarrow> appointment_db) \<Rightarrow> appointment_db \<Rightarrow> caller \<Rightarrow> ustr \<Rightarrow> ustr option
     \<Rightarrow> appointment_db \<times> appointment aresult" where
  "reject_route gap rivals db c key raw =
     guarded db (and_then (require_teacher c) (\<lambda>_. and_then (for_decision db key c) (\<lambda>_. optional_reason raw))) (\<lambda>reason.
     reject_appointment rivals (gap db) key (cu_id c) reason)"

definition cancel_route ::
  "(appointment_db \<Rightarrow> appointment_db) \<Rightarrow> (nat \<Rightarrow> appointment_db \<Rightarrow> appointment_db) \<Rightarrow> (nat \<Rightarrow> int) \<Rightarrow> appointment_db \<Rightarrow> caller \<Rightarrow> ustr
     \<Rightarrow> ustr option \<Rightarrow> appointment_db \<times> appointment aresult" where
  "cancel_route gap rivals clock db c key raw =
     guarded db (and_then (ok_or NotFound (appointment_read db key)) (\<lambda>a.
       if ap_requester a \<noteq> cu_id c then Inl (Forbidden (u ''only the requester can cancel this appointment''))
       else optional_reason raw)) (\<lambda>reason.
     cancel_appointment rivals clock (gap db) key (cu_id c) reason)"

definition reschedule ::
  "(appointment_db \<Rightarrow> appointment_db) \<Rightarrow> (nat \<Rightarrow> appointment_db \<Rightarrow> appointment_db) \<Rightarrow> (nat \<Rightarrow> int) \<Rightarrow> int \<Rightarrow> appointment_db \<Rightarrow> caller
     \<Rightarrow> ustr \<Rightarrow> int \<Rightarrow> int \<Rightarrow> appointment_db \<times> appointment aresult" where
  "reschedule gap rivals clock now db c key starts_at ends_at =
     guarded db (and_then (require_teacher c) (\<lambda>_.
       and_then (check_not_past now ''starts_at'' (Some starts_at)) (\<lambda>_.
       and_then (check_not_past now ''ends_at'' (Some ends_at)) (\<lambda>_.
       and_then (check_time_range (Some starts_at) (Some ends_at)) (\<lambda>_.
       for_decision db key c))))) (\<lambda>_.
     propose rivals clock (gap db) key starts_at ends_at (cu_id c))"

definition accept_reschedule ::
  "(appointment_db \<Rightarrow> appointment_db) \<Rightarrow> int \<Rightarrow> appointment_db \<Rightarrow> caller \<Rightarrow> ustr \<Rightarrow> int \<Rightarrow> int \<Rightarrow> appointment_db \<times> appointment aresult" where
  "accept_reschedule gap now db c key proposed_starts_at proposed_ends_at =
     guarded db (ensure_requester db key c) (\<lambda>_.
     accept_proposal (gap db) now key (cu_id c) proposed_starts_at proposed_ends_at)"

definition decline_reschedule ::
  "(appointment_db \<Rightarrow> appointment_db) \<Rightarrow> (nat \<Rightarrow> appointment_db \<Rightarrow> appointment_db) \<Rightarrow> (nat \<Rightarrow> int) \<Rightarrow> appointment_db \<Rightarrow> caller \<Rightarrow> ustr
     \<Rightarrow> appointment_db \<times> appointment aresult" where
  "decline_reschedule gap rivals clock db c key =
     guarded db (and_then (ensure_requester db key c) (\<lambda>a.
       if ap_proposed_starts_at a = None then Inl (Conflict (u ''no time has been proposed'')) else Inr ())) (\<lambda>_.
     cancel_appointment rivals clock (gap db) key (cu_id c) None)"


section \<open>Lists\<close>

text \<open>
  A paged statement: the rows in their order, cut in the database, and how many there are in all.  An
  instant of a booking is the proposed one where there is one, and a row without a slot has none, which
  no bound accepts.
\<close>

definition paged_run :: "'a list \<Rightarrow> int option \<Rightarrow> int \<Rightarrow> 'a list \<times> int" where
  "paged_run rows limit offset =
     (let counted = limit \<noteq> None \<or> offset > 0;
          page = (case limit of None \<Rightarrow> \<lambda>r. r | Some l \<Rightarrow> take (nat l)) (if counted then drop (nat offset) rows else rows) in
      (page, if counted then int (length rows) else int (length page)))"

definition at_or_after :: "int option \<Rightarrow> int option \<Rightarrow> bool" where
  "at_or_after bound t = (case bound of None \<Rightarrow> True | Some b \<Rightarrow> (case t of None \<Rightarrow> False | Some x \<Rightarrow> b \<le> x))"

definition strictly_before :: "int option \<Rightarrow> int option \<Rightarrow> bool" where
  "strictly_before bound t = (case bound of None \<Rightarrow> True | Some b \<Rightarrow> (case t of None \<Rightarrow> False | Some x \<Rightarrow> x < b))"

definition meeting_start :: "appointment_db \<Rightarrow> appointment \<Rightarrow> int option" where
  "meeting_start db a = (case ap_proposed_starts_at a of Some t \<Rightarrow> Some t | None \<Rightarrow> map_option sl_starts_at (slot_of db a))"

definition slots_for_teacher :: "appointment_db \<Rightarrow> ustr \<Rightarrow> int option \<Rightarrow> appointment_slot list" where
  "slots_for_teacher db teacher after =
     sort_key (\<lambda>s. (sl_starts_at s, sl_id s)) (filter (\<lambda>s. sl_teacher s = teacher \<and> at_or_after after (Some (sl_starts_at s))) (ad_slots db))"

definition list_upcoming :: "appointment_db \<Rightarrow> int \<Rightarrow> ustr option \<Rightarrow> int option \<Rightarrow> appointment_slot list" where
  "list_upcoming db from_at teacher after =
     sort_key (\<lambda>s. (sl_starts_at s, sl_id s))
       (filter (\<lambda>s. from_at < sl_starts_at s \<and> at_or_after after (Some (sl_starts_at s)) \<and>
                    (teacher = None \<or> teacher = Some (sl_teacher s))) (ad_slots db))"

definition list_for_requester ::
  "appointment_db \<Rightarrow> ustr \<Rightarrow> appointment_status option \<Rightarrow> int option \<Rightarrow> int option \<Rightarrow> ustr option \<Rightarrow> int option \<Rightarrow> int
     \<Rightarrow> appointment list \<times> int" where
  "list_for_requester db requester st after before teacher limit offset =
     paged_run (rev (sort_key ap_id (filter (\<lambda>a. ap_requester a = requester \<and> (st = None \<or> st = Some (ap_status a)) \<and>
        at_or_after after (meeting_start db a) \<and> strictly_before before (meeting_start db a) \<and>
        (teacher = None \<or> teacher = map_option sl_teacher (slot_of db a))) (ad_appointments db)))) limit offset"

definition list_for_teacher ::
  "appointment_db \<Rightarrow> ustr \<Rightarrow> appointment_status option \<Rightarrow> int option \<Rightarrow> int option \<Rightarrow> int option \<Rightarrow> int \<Rightarrow> appointment list \<times> int" where
  "list_for_teacher db teacher st after before limit offset =
     paged_run (rev (sort_key ap_id (filter (\<lambda>a. map_option sl_teacher (slot_of db a) = Some teacher \<and>
        (st = None \<or> st = Some (ap_status a)) \<and> at_or_after after (meeting_start db a) \<and>
        strictly_before before (meeting_start db a)) (ad_appointments db)))) limit offset"

text \<open>\<open>from_key\<close> reads a hyphenated uuid; a malformed one reads as the nil id, here \<open>None\<close>.\<close>

definition teacher_filter :: "(ustr \<Rightarrow> ustr option) \<Rightarrow> ustr option \<Rightarrow> ustr \<Rightarrow> ustr option aresult" where
  "teacher_filter from_key raw me =
     (case raw of
        None \<Rightarrow> Inr None
      | Some raw \<Rightarrow>
          (let key = trim raw in
           if key = [] then Inl (Validation (Invalid ''teacher'' ''must not be empty''))
           else if key = u ''me'' then Inr (Some me)
           else (case from_key key of
                   None \<Rightarrow> Inl (Validation (Invalid ''teacher'' ''must be a hyphenated uuid''))
                 | Some k \<Rightarrow> Inr (Some k))))"

definition starts_bound_filter :: "string \<Rightarrow> int option \<Rightarrow> int option aresult" where
  "starts_bound_filter field raw =
     (case raw of
        None \<Rightarrow> Inr None
      | Some v \<Rightarrow> if v < 0 then Inl (Validation (Invalid field ''must not be negative'')) else Inr (Some v))"

definition resolve_status :: "ustr option \<Rightarrow> appointment_status option aresult" where
  "resolve_status raw =
     (case raw of
        None \<Rightarrow> Inr None
      | Some raw \<Rightarrow>
          (let word = trim raw in
           if word = [] then Inl (Validation (Invalid ''status'' ''must not be empty''))
           else (case find (\<lambda>s. u (status_as_str s) = word) [Pending, Approved, Rejected, Cancelled] of
                   Some s \<Rightarrow> Inr (Some s)
                 | None \<Rightarrow> Inl (Validation (Invalid ''status'' ''must be one of: pending, approved, rejected, cancelled'')))))"

text \<open>A page of a list is its rows, how many there are in all, and the cut.\<close>

definition list_slots ::
  "(ustr \<Rightarrow> ustr option) \<Rightarrow> int \<Rightarrow> appointment_db \<Rightarrow> caller \<Rightarrow> page_params \<Rightarrow> ustr option \<Rightarrow> int option
     \<Rightarrow> (appointment_slot list \<times> int \<times> int option \<times> int) aresult" where
  "list_slots from_key now db c page raw_teacher raw_after =
     and_then (page_resolve page) (\<lambda>(limit, offset).
     and_then (teacher_filter from_key raw_teacher (cu_id c)) (\<lambda>narrow_to.
     and_then (starts_bound_filter ''starts_after'' raw_after) (\<lambda>after.
     let slots =
       (if at_least (cu_role c) Teacher
        then (case narrow_to of
                Some other \<Rightarrow> if other \<noteq> cu_id c then [] else slots_for_teacher db (cu_id c) after
              | None \<Rightarrow> slots_for_teacher db (cu_id c) after)
        else filter (\<lambda>s. case find_row fst (ad_roles db) (sl_teacher s) of Some (_, r) \<Rightarrow> at_least r Teacher | None \<Rightarrow> False)
               (list_upcoming db now narrow_to after)) in
     Inr (paginate slots limit offset, int (length slots), limit, offset))))"

definition list_appointments ::
  "(ustr \<Rightarrow> ustr option) \<Rightarrow> appointment_db \<Rightarrow> caller \<Rightarrow> page_params \<Rightarrow> ustr option \<Rightarrow> int option \<Rightarrow> int option \<Rightarrow> ustr option
     \<Rightarrow> (appointment list \<times> int \<times> int option \<times> int) aresult" where
  "list_appointments from_key db c page raw_status raw_after raw_before raw_teacher =
     and_then (page_resolve page) (\<lambda>(limit, offset).
     and_then (resolve_status raw_status) (\<lambda>st.
     and_then (starts_bound_filter ''starts_after'' raw_after) (\<lambda>after.
     and_then (starts_bound_filter ''starts_before'' raw_before) (\<lambda>before.
     and_then (teacher_filter from_key raw_teacher (cu_id c)) (\<lambda>narrow_to.
     let (rows, tot) =
       (if at_least (cu_role c) Teacher
        then (if narrow_to \<noteq> None \<and> narrow_to \<noteq> Some (cu_id c) then ([], 0)
              else list_for_teacher db (cu_id c) st after before limit offset)
        else list_for_requester db (cu_id c) st after before narrow_to limit offset) in
     Inr (rows, tot, limit, offset))))))"

end
