(* ===== verification/Appointments_Properties.thy ===== *)
theory Appointments_Properties
  imports Appointments_Web
begin

text \<open>
  The calendar's promises.  \<open>calendar_step\<close> interleaves the committed transactions of any number of
  requests: beside the tables it keeps the rows that undecided requests have read, because a decision is
  written against the row it was made on, however much later.  \<open>calendar_ok\<close> is the invariant: a
  teacher's slots never overlap, a slot's seat is taken exactly while one live booking names it, and no
  two approved bookings of one teacher or one requester share a moment.
\<close>

interpretation seatc: counter "\<lambda>s. Some (sl_id s)" sl_occupied "\<lambda>n s. s\<lparr>sl_occupied := n\<rparr>"
  by unfold_locales simp_all


section \<open>The invariant\<close>

definition same_time :: "appointment_slot \<Rightarrow> appointment_slot \<Rightarrow> bool" where
  "same_time s t \<longleftrightarrow> overlaps (sl_starts_at s) (sl_ends_at s) (sl_starts_at t) (sl_ends_at t)"

definition slots_ok :: "appointment_slot list \<Rightarrow> bool" where
  "slots_ok slots \<longleftrightarrow> keyed sl_id slots \<and> (\<forall>s \<in> set slots. sl_starts_at s < sl_ends_at s) \<and>
     (\<forall>s \<in> set slots. \<forall>t \<in> set slots. sl_id s \<noteq> sl_id t \<longrightarrow> sl_teacher s = sl_teacher t \<longrightarrow> \<not> same_time s t)"

definition proposal_ok :: "appointment \<Rightarrow> bool" where
  "proposal_ok a \<longleftrightarrow> (case (ap_proposed_starts_at a, ap_proposed_ends_at a) of
     (None, None) \<Rightarrow> True | (Some s, Some e) \<Rightarrow> s < e | _ \<Rightarrow> False)"

definition live_ref :: "appointment \<Rightarrow> ustr option" where
  "live_ref a = (if is_live (ap_status a) then ap_slot a else None)"

definition bookings_ok :: "appointment_db \<Rightarrow> bool" where
  "bookings_ok db \<longleftrightarrow> keyed ap_id (ad_appointments db) \<and>
     (\<forall>a \<in> set (ad_appointments db). proposal_ok a \<and> (is_live (ap_status a) \<longrightarrow> ap_slot a \<noteq> None) \<and>
        (\<forall>k. ap_slot a = Some k \<longrightarrow> k \<in> sl_id ` set (ad_slots db)))"

definition slot_seats_ok :: "appointment_db \<Rightarrow> bool" where
  "slot_seats_ok db \<longleftrightarrow> counts_exact (\<lambda>s. Some (sl_id s)) sl_occupied live_ref (ad_slots db) (ad_appointments db) \<and>
     (\<forall>s \<in> set (ad_slots db). sl_occupied s \<le> 1)"

text \<open>What an approved booking commits: whose time, and when.\<close>

definition commitment :: "appointment \<Rightarrow> appointment_slot \<Rightarrow> ustr \<times> ustr \<times> ustr \<times> int \<times> int" where
  "commitment a s = (ap_id a, ap_requester a, sl_teacher s, effective_window a s)"

definition commitments :: "appointment_db \<Rightarrow> (ustr \<times> ustr \<times> ustr \<times> int \<times> int) set" where
  "commitments db = {commitment a s | a s. a \<in> set (ad_appointments db) \<and> ap_status a = Approved \<and> slot_of db a = Some s}"

definition collide :: "ustr \<times> ustr \<times> ustr \<times> int \<times> int \<Rightarrow> ustr \<times> ustr \<times> ustr \<times> int \<times> int \<Rightarrow> bool" where
  "collide c d = (case (c, d) of ((i, q, t, s, e), (i', q', t', s', e')) \<Rightarrow>
     i \<noteq> i' \<and> (q = q' \<or> t = t') \<and> overlaps s e s' e')"

definition apart :: "appointment_db \<Rightarrow> bool" where
  "apart db \<longleftrightarrow> (\<forall>c \<in> commitments db. \<forall>d \<in> commitments db. \<not> collide c d)"

definition calendar_ok :: "appointment_db \<Rightarrow> bool" where
  "calendar_ok db \<longleftrightarrow> slots_ok (ad_slots db) \<and> bookings_ok db \<and> slot_seats_ok db \<and> apart db"

text \<open>A row somebody read and has not decided yet is out of date only towards the end of its life.\<close>

definition reads_ok :: "appointment set \<Rightarrow> appointment_db \<Rightarrow> bool" where
  "reads_ok R db \<longleftrightarrow> (\<forall>r \<in> R. proposal_ok r \<and> (\<forall>x \<in> set (ad_appointments db). ap_id x = ap_id r \<longrightarrow> is_live (ap_status x) \<longrightarrow>
     is_live (ap_status r) \<and> ap_slot x = ap_slot r \<and> ap_requester x = ap_requester r))"

text \<open>What the decisions that do not approve may turn a row into.\<close>

definition decision :: "appointment \<Rightarrow> appointment \<Rightarrow> bool" where
  "decision e n \<longleftrightarrow> is_live (ap_status e) \<and> ap_id n = ap_id e \<and> ap_slot n = ap_slot e \<and> ap_requester n = ap_requester e \<and>
     ap_status n \<noteq> Approved \<and> (proposal_ok e \<longrightarrow> proposal_ok n)"

definition rows_ok :: "appointment_db \<Rightarrow> appointment_slot list \<Rightarrow> bool" where
  "rows_ok db rows \<longleftrightarrow> keyed sl_id rows \<and> (\<forall>r \<in> set rows. sl_starts_at r < sl_ends_at r \<and> sl_id r \<notin> sl_id ` set (ad_slots db))"

inductive calendar_step :: "appointment_db \<times> appointment set \<Rightarrow> appointment_db \<times> appointment set \<Rightarrow> bool" where
  publish: "rows_ok db rows \<Longrightarrow> insert_claimed db teacher rows refusal = (db', r) \<Longrightarrow> calendar_step (db, R) (db', R)"
| remove: "delete_free db ids = (db', r) \<Longrightarrow> calendar_step (db, R) (db', R)"
| book: "ap_id a \<notin> ap_id ` (set (ad_appointments db) \<union> R) \<Longrightarrow> claim_slot_and_create db a = (db', c) \<Longrightarrow>
    calendar_step (db, R) (db', R)"
| look: "a \<in> set (ad_appointments db) \<Longrightarrow> calendar_step (db, R) (db, insert a R)"
| decide: "e \<in> R \<Longrightarrow> decision e n \<Longrightarrow> save_decision db e n = (db', r) \<Longrightarrow> calendar_step (db, R) (db', R)"
| confirm: "approve_inner db now key decided_by accepting = (db', r) \<Longrightarrow> calendar_step (db, R) (db', R)"
| withdraw: "calendar_step (db, R) (withdraw_calendar db teacher, R)"
| forget: "R' \<subseteq> R \<Longrightarrow> calendar_step (db, R) (db, R')"
| role_change: "calendar_step (db, R) (db\<lparr>ad_roles := roles\<rparr>, R)"

lemmas calendar_defs = calendar_ok_def bookings_ok_def slot_seats_ok_def


section \<open>Tables\<close>

lemma on_row_absent: "k \<notin> key ` set rows \<Longrightarrow> on_row key k f rows = rows"
  unfolding on_row_def by (rule map_idI) auto

lemma refs_to_change:
  assumes "keyed key rows" "find_row key rows k = Some x"
  shows "refs_to ref j (on_row key k f rows) =
    refs_to ref j rows - (if ref x = j then 1 else 0) + (if ref (f x) = j then 1 else 0)"
  using assms
proof (induction rows)
  case (Cons r rows)
  show ?case
  proof (cases "key r = k")
    case True
    then have "on_row key k f rows = rows" using Cons.prems(1) by (auto simp: keyed_def intro: on_row_absent)
    then show ?thesis using True Cons.prems(2) by (simp add: on_row_def find_row_def refs_to_Cons)
  next
    case False
    then show ?thesis using Cons by (simp add: keyed_def find_row_def refs_to_Cons on_row_def)
  qed
qed simp

lemma slot_of_iff: "slot_of db a = Some s \<longleftrightarrow> (\<exists>k. ap_slot a = Some k \<and> find_row sl_id (ad_slots db) k = Some s)"
  by (auto simp: slot_of_def slot_read_def split: bind_splits)

lemma slot_of_in: "slot_of db a = Some s \<Longrightarrow> s \<in> set (ad_slots db) \<and> ap_slot a = Some (sl_id s)"
  by (auto simp: slot_of_iff dest: find_row_SomeD)

lemma apart_sub: "apart db \<Longrightarrow> commitments db' \<subseteq> commitments db \<Longrightarrow> apart db'"
  unfolding apart_def by blast

lemma window_effective: "proposal_ok a \<Longrightarrow> window a s = effective_window a s"
  by (auto simp: proposal_ok_def window_def effective_window_def split: option.splits)

lemma find_row_filter:
  assumes "keyed key rows"
  shows "find_row key (filter P rows) k = (case find_row key rows k of Some x \<Rightarrow> if P x then Some x else None | None \<Rightarrow> None)"
  using assms
proof (induction rows)
  case (Cons r rows)
  have "find_row key (filter P rs) k = None" if "k \<notin> key ` set rs" for rs
    using that by (auto simp: find_row_None_iff)
  with Cons show ?case by (auto simp: keyed_def find_row_def split: option.splits)
qed simp

lemma overlaps_sym: "overlaps a b c d = overlaps c d a b"
  by (auto simp: overlaps_def)

lemma refs_to_map_iff:
  "(\<And>r. r \<in> set rs \<Longrightarrow> (ref (f r) = k) = (ref r = k)) \<Longrightarrow> refs_to ref k (map f rs) = refs_to ref k rs"
  by (induction rs) (auto simp: refs_to_Cons)

lemma refs_to_filter_iff:
  "(\<And>r. r \<in> set rs \<Longrightarrow> ref r = k \<Longrightarrow> P r) \<Longrightarrow> refs_to ref k (filter P rs) = refs_to ref k rs"
  by (induction rs) (auto simp: refs_to_Cons)

lemma slots_okD:
  "slots_ok slots \<Longrightarrow> s \<in> set slots \<Longrightarrow> t \<in> set slots \<Longrightarrow> sl_id s = sl_id t \<Longrightarrow> s = t"
  by (auto simp: slots_ok_def keyed_def distinct_map dest: inj_onD)

lemma slots_ok_filter: "slots_ok slots \<Longrightarrow> slots_ok (filter P slots)"
  by (auto simp: slots_ok_def keyed_filter)

text \<open>An edit of the seat column alone keeps the slots, and what is read of them.\<close>

lemma slots_ok_map:
  assumes "slots_ok slots"
    and "\<And>s. sl_id (f s) = sl_id s \<and> sl_teacher (f s) = sl_teacher s \<and> sl_starts_at (f s) = sl_starts_at s \<and> sl_ends_at (f s) = sl_ends_at s"
  shows "slots_ok (map f slots)"
  using assms by (auto simp: slots_ok_def keyed_def same_time_def comp_def)

lemma find_slot_map:
  "(\<And>s. key (f s) = key s) \<Longrightarrow> find_row key (map f rows) k = map_option f (find_row key rows k)"
  by (induction rows) (auto simp: find_row_def)

text \<open>A seat edit: only the seat column moves.\<close>

definition seat_edit :: "(appointment_slot \<Rightarrow> appointment_slot) \<Rightarrow> bool" where
  "seat_edit f \<longleftrightarrow> (\<forall>s. sl_id (f s) = sl_id s \<and> sl_teacher (f s) = sl_teacher s \<and> sl_starts_at (f s) = sl_starts_at s \<and>
     sl_ends_at (f s) = sl_ends_at s)"

lemma seat_edit_ok: "seat_edit f \<Longrightarrow> slots_ok slots \<Longrightarrow> slots_ok (map f slots)"
  by (rule slots_ok_map) (auto simp: seat_edit_def)

lemma seat_edit_slot_of:
  "seat_edit f \<Longrightarrow> ad_slots db' = map f (ad_slots db) \<Longrightarrow> slot_of db' a = map_option f (slot_of db a)"
  by (cases "ap_slot a") (auto simp: slot_of_def slot_read_def seat_edit_def find_slot_map)

lemma seat_edit_commitment: "seat_edit f \<Longrightarrow> commitment a (f s) = commitment a s"
  by (simp add: seat_edit_def commitment_def effective_window_def split: option.split)

lemma seat_edit_ids: "seat_edit f \<Longrightarrow> sl_id ` set (map f slots) = sl_id ` set slots"
  by (auto simp: seat_edit_def image_iff)

lemma commitments_subI:
  assumes "\<And>a' s'. a' \<in> set (ad_appointments db') \<Longrightarrow> ap_status a' = Approved \<Longrightarrow> slot_of db' a' = Some s' \<Longrightarrow>
    \<exists>a s. a \<in> set (ad_appointments db) \<and> ap_status a = Approved \<and> slot_of db a = Some s \<and> commitment a' s' = commitment a s"
  shows "commitments db' \<subseteq> commitments db"
  using assms by (fastforce simp: commitments_def)


section \<open>Every transaction keeps the invariant\<close>

subsection \<open>Publishing\<close>

lemma insert_slots_appends:
  assumes "insert_slots refusal slots rows = Inr slots'" "slots_ok slots" "keyed sl_id rows"
    "\<forall>r \<in> set rows. sl_starts_at r < sl_ends_at r \<and> sl_id r \<notin> sl_id ` set slots"
  shows "slots_ok slots' \<and> slots' = slots @ map (\<lambda>r. r\<lparr>sl_occupied := 0\<rparr>) rows"
  using assms
proof (induction refusal slots rows arbitrary: slots' rule: insert_slots.induct)
  case (2 refusal slots row rows)
  let ?row = "row\<lparr>sl_occupied := 0\<rparr>"
  have clear: "\<not> span_clash slots row" and rest: "insert_slots refusal (slots @ [?row]) rows = Inr slots'"
    using 2(2) by (auto split: if_splits)
  have "\<not> same_time s ?row \<and> \<not> same_time ?row s" if "s \<in> set slots" "sl_teacher s = sl_teacher row" for s
    using clear that by (auto simp: span_clash_def same_time_def list_ex_iff overlaps_sym)
  then have "slots_ok (slots @ [?row])"
    using 2(3,5) by (fastforce simp: slots_ok_def keyed_snoc)
  moreover have "keyed sl_id rows" "\<forall>r \<in> set rows. sl_starts_at r < sl_ends_at r \<and> sl_id r \<notin> sl_id ` set (slots @ [?row])"
    using 2(4,5) by (auto simp: keyed_def rev_image_eqI)
  ultimately show ?case using 2(1) [OF clear rest] by auto
qed simp

lemma published_keeps:
  assumes "calendar_ok db" "reads_ok R db" "rows_ok db rows" "insert_claimed db teacher rows refusal = (db', r)"
  shows "calendar_ok db' \<and> reads_ok R db'"
proof (cases "db' = db")
  case False
  let ?new = "map (\<lambda>r. r\<lparr>sl_occupied := 0\<rparr>) rows"
  have new: "slots_ok (ad_slots db')" "ad_slots db' = ad_slots db @ ?new" "ad_appointments db' = ad_appointments db"
    using assms False insert_slots_appends [of refusal "ad_slots db" rows]
    by (auto simp: insert_claimed_def run_tx_def rows_ok_def calendar_ok_def split: option.splits if_splits sum.splits)
  have fk: "k \<in> sl_id ` set (ad_slots db)" if "a \<in> set (ad_appointments db)" "ap_slot a = Some k" for a k
    using assms(1) that by (auto simp: calendar_defs)
  have found: "slot_of db' a = slot_of db a" if "a \<in> set (ad_appointments db)" for a
    using fk [OF that] find_row_None_iff [of sl_id "ad_slots db"] new(2)
    by (cases "ap_slot a") (auto simp: slot_of_def slot_read_def find_row_append split: option.splits)
  have "commitments db' = commitments db"
    unfolding commitments_def new(3) using found by force
  moreover have "slot_seats_ok db'"
  proof -
    have "refs_to live_ref (Some (sl_id t)) (ad_appointments db) = 0" if "t \<in> set rows" for t
      using that assms(3) fk unfolding refs_to_zero by (force simp: rows_ok_def live_ref_def split: if_splits)
    then show ?thesis using assms(1) new by (auto simp: calendar_defs counts_exact_def)
  qed
  moreover have "bookings_ok db'" using assms(1) new(2,3) by (fastforce simp: calendar_defs)
  ultimately show ?thesis using assms(1,2) new by (auto simp: calendar_ok_def apart_def reads_ok_def)
qed (use assms in simp)

subsection \<open>Removing\<close>

lemma removed_keeps:
  assumes "calendar_ok db" "reads_ok R db" "delete_free db ids = (db', r)"
  shows "calendar_ok db' \<and> reads_ok R db'"
proof (cases "db' = db")
  case False
  define free :: "appointment_slot \<Rightarrow> bool" where "free = (\<lambda>s. sl_id s \<in> set ids \<and> sl_occupied s < 1)"
  define kept :: "appointment \<Rightarrow> bool" where "kept = (\<lambda>a. \<not> list_ex (\<lambda>s. free s \<and> ap_slot a = Some (sl_id s)) (ad_slots db))"
  have new: "ad_slots db' = filter (\<lambda>s. \<not> free s) (ad_slots db)" "ad_appointments db' = filter kept (ad_appointments db)"
    using assms(3) False by (auto simp: delete_free_def run_tx_def Let_def free_def kept_def split: if_splits)
  have ok: "slots_ok (ad_slots db)" using assms(1) by (simp add: calendar_ok_def)
  have stays: "kept a" if "s \<in> set (ad_slots db)" "\<not> free s" "ap_slot a = Some (sl_id s)" for a s
    using that slots_okD [OF ok] by (auto simp: kept_def list_ex_iff)
  have fk: "k \<in> sl_id ` set (ad_slots db')" if "a \<in> set (ad_appointments db')" "ap_slot a = Some k" for a k
    using assms(1) that new by (fastforce simp: calendar_defs kept_def list_ex_iff)
  have "slot_of db a = Some s" if "slot_of db' a = Some s" for a s
    using that ok new(1) find_row_filter [of sl_id "ad_slots db" "\<lambda>s. \<not> free s"]
    by (auto simp: slot_of_iff slots_ok_def split: option.splits if_splits)
  then have "commitments db' \<subseteq> commitments db" using new(2) by (auto simp: commitments_def)
  then have "apart db'" using assms(1) apart_sub by (auto simp: calendar_ok_def)
  moreover have "slot_seats_ok db'"
  proof -
    have "refs_to live_ref (Some (sl_id s)) (filter kept (ad_appointments db)) = refs_to live_ref (Some (sl_id s)) (ad_appointments db)"
      if "s \<in> set (ad_slots db)" "\<not> free s" for s
      by (rule refs_to_filter_iff) (use stays that in \<open>auto simp: live_ref_def split: if_splits\<close>)
    then show ?thesis using assms(1) new by (auto simp: calendar_defs counts_exact_def)
  qed
  moreover have "bookings_ok db'" using assms(1) fk new(2) by (auto simp: calendar_defs keyed_filter)
  ultimately show ?thesis using assms(2) ok new by (auto simp: calendar_ok_def reads_ok_def slots_ok_filter)
qed (use assms in simp)

subsection \<open>Booking\<close>

lemma claimed_shape:
  assumes "claim_slot_and_create db a = (db', c)"
  shows "db' = db \<and> c = Full \<or> (\<exists>k s. ap_slot a = Some k \<and> slot_read db k = Some s \<and> sl_occupied s < 1 \<and>
    c = Made (pending_row a) \<and> db' = db\<lparr>ad_slots := on_row sl_id k (\<lambda>x. x\<lparr>sl_occupied := sl_occupied x + 1\<rparr>) (ad_slots db),
      ad_appointments := ad_appointments db @ [pending_row a]\<rparr>)"
  using assms by (auto simp: claim_slot_and_create_def split: option.splits if_splits)

lemma pending_row_sel [simp]:
  "ap_id (pending_row a) = ap_id a" "ap_slot (pending_row a) = ap_slot a" "ap_status (pending_row a) = Pending"
  "ap_requester (pending_row a) = ap_requester a" "proposal_ok (pending_row a)"
  by (simp_all add: pending_row_def proposal_ok_def)

lemma claimed_keeps:
  assumes "calendar_ok db" "reads_ok R db" "ap_id a \<notin> ap_id ` (set (ad_appointments db) \<union> R)"
    "claim_slot_and_create db a = (db', c)"
  shows "calendar_ok db' \<and> reads_ok R db'"
proof (cases "db' = db")
  case False
  define row where "row = pending_row a"
  from False claimed_shape [OF assms(4)] obtain k s where row: "ap_slot a = Some k" "slot_read db k = Some s" "sl_occupied s < 1"
      "ap_id row = ap_id a" "ap_slot row = Some k" "ap_status row = Pending" "proposal_ok row"
    and new: "ad_slots db' = on_row sl_id k (\<lambda>x. x\<lparr>sl_occupied := sl_occupied x + 1\<rparr>) (ad_slots db)"
      "ad_appointments db' = ad_appointments db @ [row]"
    by (auto simp: row_def)
  let ?f = "\<lambda>x. if sl_id x = k then x\<lparr>sl_occupied := sl_occupied x + 1\<rparr> else x"
  have edit: "seat_edit ?f" "ad_slots db' = map ?f (ad_slots db)" by (simp_all add: seat_edit_def new on_row_def)
  have "commitments db' \<subseteq> commitments db"
  proof (rule commitments_subI)
    fix x t assume "x \<in> set (ad_appointments db')" "ap_status x = Approved" "slot_of db' x = Some t"
    then show "\<exists>a s. a \<in> set (ad_appointments db) \<and> ap_status a = Approved \<and> slot_of db a = Some s \<and> commitment x t = commitment a s"
      using row(6) new(2) seat_edit_slot_of [OF edit] seat_edit_commitment [OF edit(1)] by auto
  qed
  then have "apart db'" using assms(1) apart_sub by (auto simp: calendar_ok_def)
  moreover have "slots_ok (ad_slots db')"
    using assms(1) edit seat_edit_ok by (simp add: calendar_ok_def)
  moreover have "slot_seats_ok db'"
  proof -
    have "on_row (\<lambda>s. Some (sl_id s)) (Some k) (\<lambda>x. x\<lparr>sl_occupied := sl_occupied x + 1\<rparr>) (ad_slots db) = ad_slots db'"
      by (simp add: new on_row_def)
    moreover have "live_ref row = Some k" using row by (simp add: live_ref_def is_live_def)
    moreover have "sl_occupied x < 1" if "x \<in> set (ad_slots db)" "sl_id x = k" for x
      using that row(2,3) slots_okD [of "ad_slots db" x s] assms(1) find_row_SomeD [of sl_id "ad_slots db" k s]
      by (auto simp: slot_read_def calendar_ok_def)
    ultimately show ?thesis
      using assms(1) seatc.exact_claim [of live_ref "ad_slots db" "ad_appointments db" row "Some k"]
      by (fastforce simp: calendar_defs new dest!: set_on_row)
  qed
  moreover have "bookings_ok db'"
    using assms(1,3) row find_row_SomeD [of sl_id "ad_slots db" k s]
    unfolding calendar_defs edit(2) seat_edit_ids [OF edit(1)] new(2) by (auto simp: keyed_snoc slot_read_def)
  moreover have "reads_ok R db'" using assms(2,3) row by (auto simp: reads_ok_def new image_iff)
  ultimately show ?thesis by (simp add: calendar_ok_def)
qed (use assms in simp)

subsection \<open>Deciding\<close>

lemma decision_into_sel [simp]:
  "ap_id (decision_into n x) = ap_id x" "ap_slot (decision_into n x) = ap_slot x"
  "ap_requester (decision_into n x) = ap_requester x" "ap_status (decision_into n x) = ap_status n"
  "proposal_ok (decision_into n x) = proposal_ok n"
  by (simp_all add: decision_into_def proposal_ok_def)

lemma cas_shape:
  assumes "decision_cas db e n = (db', r)"
  shows "db' = db \<and> r = None \<or> (\<exists>x. find_row ap_id (ad_appointments db) (ap_id n) = Some x \<and> same_decision x e \<and>
    r = Some (decision_into n x) \<and> ad_appointments db' = on_row ap_id (ap_id n) (decision_into n) (ad_appointments db) \<and>
    ad_slots db' = (if is_live (ap_status e) \<and> \<not> is_live (ap_status n) then free_slot (ap_slot e) (ad_slots db) else ad_slots db))"
  using assms by (auto simp: decision_cas_def appointment_read_def Let_def split: option.splits if_splits)

lemma free_slot_edit: "seat_edit (\<lambda>s. if key = Some (sl_id s) then s\<lparr>sl_occupied := max (sl_occupied s - 1) 0\<rparr> else s)"
  by (simp add: seat_edit_def)

lemma cas_slots:
  assumes "ad_slots db' = (if P then free_slot k (ad_slots db) else ad_slots db)"
  obtains f where "seat_edit f" "ad_slots db' = map f (ad_slots db)"
  using assms free_slot_edit [of k] that [of id] that [of "\<lambda>s. if k = Some (sl_id s) then s\<lparr>sl_occupied := max (sl_occupied s - 1) 0\<rparr> else s"]
  by (auto simp: free_slot_def seat_edit_def split: if_splits)

text \<open>The seat goes back exactly when the booking that held it settles.\<close>

lemma cas_seats:
  assumes ok: "slot_seats_ok db" "keyed ap_id (ad_appointments db)"
    and x: "find_row ap_id (ad_appointments db) (ap_id n) = Some x" "is_live (ap_status x)" "ap_slot x = Some k"
    and apps: "ad_appointments db' = on_row ap_id (ap_id n) (decision_into n) (ad_appointments db)"
    and slots: "ad_slots db' = (if \<not> is_live (ap_status n) then free_slot (Some k) (ad_slots db) else ad_slots db)"
  shows "slot_seats_ok db'"
proof -
  let ?n = "if is_live (ap_status n) then 0 else 1"
  have refs: "refs_to live_ref j (ad_appointments db') = refs_to live_ref j (ad_appointments db) - (if j = Some k then ?n else 0)"
    if "j \<noteq> None" for j
    using refs_to_change [OF ok(2) x(1), of live_ref j "decision_into n"] x(2,3) apps that by (auto simp: live_ref_def)
  have "1 \<le> refs_to live_ref (Some k) (ad_appointments db)"
  proof -
    have "refs_to live_ref (Some k) (ad_appointments db) \<noteq> 0"
      using x find_row_SomeD [OF x(1)] unfolding refs_to_zero by (auto simp: live_ref_def image_iff intro!: bexI [of _ x])
    then show ?thesis using refs_to_nonneg [of live_ref "Some k" "ad_appointments db"] by linarith
  qed
  then show ?thesis
    using ok(1) refs slots by (auto simp: slot_seats_ok_def counts_exact_def free_slot_def)
qed

lemma cas_keeps:
  assumes ok: "calendar_ok db" "reads_ok R db" and e: "e \<in> R" "is_live (ap_status e)"
    and n: "ap_id n = ap_id e" "proposal_ok n" and cas: "decision_cas db e n = (db', r)" and ap: "apart db'"
  shows "calendar_ok db' \<and> reads_ok R db'"
  using cas_shape [OF cas]
proof (elim disjE exE conjE)
  fix x assume x: "find_row ap_id (ad_appointments db) (ap_id n) = Some x" "same_decision x e"
    and apps: "ad_appointments db' = on_row ap_id (ap_id n) (decision_into n) (ad_appointments db)"
    and slots: "ad_slots db' = (if is_live (ap_status e) \<and> \<not> is_live (ap_status n) then free_slot (ap_slot e) (ad_slots db) else ad_slots db)"
  from cas_slots [OF slots] obtain f where f: "seat_edit f" "ad_slots db' = map f (ad_slots db)" by metis
  have live: "is_live (ap_status x)" using x(2) e(2) by (simp add: same_decision_def)
  have xin: "x \<in> set (ad_appointments db)" "ap_id x = ap_id e" using find_row_SomeD [OF x(1)] n(1) by auto
  have same: "ap_slot x = ap_slot e" using ok(2) e(1) xin live by (auto simp: reads_ok_def)
  obtain k where k: "ap_slot x = Some k" using ok(1) xin(1) live by (auto simp: calendar_defs)
  have "slot_seats_ok db'"
    by (rule cas_seats [OF _ _ x(1) live k apps]) (use ok(1) slots e(2) same k in \<open>auto simp: calendar_defs\<close>)
  moreover have only: "y = x" if "y \<in> set (ad_appointments db)" "ap_id y = ap_id n" for y
    using keyed_find_row [of ap_id "ad_appointments db" y] that x(1) ok(1) by (auto simp: calendar_defs)
  then have rows: "\<exists>y \<in> set (ad_appointments db). z = y \<and> ap_id y \<noteq> ap_id n \<or> z = decision_into n x \<and> y = x" if "z \<in> set (ad_appointments db')" for z
    using that unfolding apps by (fastforce dest: set_on_row)
  have "bookings_ok db'"
    unfolding bookings_ok_def f(2) seat_edit_ids [OF f(1)]
    using ok(1) rows n(2) k by (fastforce simp: calendar_defs apps keyed_on_row)
  moreover have "reads_ok R db'"
    using ok(2) rows live xin(1) unfolding reads_ok_def by (metis decision_into_sel(1-3))
  ultimately show ?thesis using ok(1) f ap seat_edit_ok by (auto simp: calendar_ok_def)
qed (use ok in auto)

lemma cas_commitments:
  assumes cas: "decision_cas db e n = (db', r)" and n: "ap_status n \<noteq> Approved"
  shows "commitments db' \<subseteq> commitments db"
  using cas_shape [OF cas]
proof (elim disjE exE conjE)
  fix x
  assume apps: "ad_appointments db' = on_row ap_id (ap_id n) (decision_into n) (ad_appointments db)"
    and slots: "ad_slots db' = (if is_live (ap_status e) \<and> \<not> is_live (ap_status n) then free_slot (ap_slot e) (ad_slots db) else ad_slots db)"
  from cas_slots [OF slots] obtain f where f: "seat_edit f" "ad_slots db' = map f (ad_slots db)" by metis
  show ?thesis
  proof (rule commitments_subI)
    fix y t assume y: "y \<in> set (ad_appointments db')" "ap_status y = Approved" "slot_of db' y = Some t"
    then have "y \<in> set (ad_appointments db)" using n unfolding apps by (auto dest!: set_on_row split: if_splits)
    then show "\<exists>a s. a \<in> set (ad_appointments db) \<and> ap_status a = Approved \<and> slot_of db a = Some s \<and> commitment y t = commitment a s"
      using y seat_edit_slot_of [OF f] seat_edit_commitment [OF f(1)] by auto
  qed
qed simp

lemma decided_keeps:
  assumes "calendar_ok db" "reads_ok R db" "e \<in> R" "decision e n" "save_decision db e n = (db', r)"
  shows "calendar_ok db' \<and> reads_ok R db'"
proof -
  have cas: "decision_cas db e n = (db', r)" using assms(5) by (simp add: save_decision_def)
  have "apart db'" using cas_commitments [OF cas] assms(1,4) apart_sub by (auto simp: calendar_ok_def decision_def)
  then show ?thesis
    using cas_keeps [OF assms(1-3) _ _ _ cas] assms(2-4) by (auto simp: decision_def reads_ok_def)
qed

subsection \<open>Approving\<close>

lemma looked_keeps: "calendar_ok db \<Longrightarrow> reads_ok R db \<Longrightarrow> a \<in> set (ad_appointments db) \<Longrightarrow> reads_ok (insert a R) db"
  by (auto simp: reads_ok_def calendar_defs keyed_def distinct_map dest: inj_onD)

lemma read_pendingD:
  "read_pending db key = Inr e \<Longrightarrow> e \<in> set (ad_appointments db) \<and> ap_id e = key \<and> ap_status e = Pending \<and>
    appointment_read db key = Some e"
  by (auto simp: read_pending_def appointment_read_def dest: find_row_SomeD split: option.splits if_splits)

text \<open>The standing proposal and the window the caller says they saw have to agree.\<close>

definition accepts :: "(int \<times> int) option \<Rightarrow> appointment \<Rightarrow> bool" where
  "accepts accepting e \<longleftrightarrow> (case accepting of None \<Rightarrow> \<not> has_proposal e | Some w \<Rightarrow> proposes e w)"

lemma approved_shape:
  assumes "approve_inner db now key decided_by accepting = (db', Inr y)"
  shows "\<exists>e s. read_pending db key = Inr e \<and> slot_of db e = Some s \<and> accepts accepting e \<and> now < fst (window e s) \<and>
    \<not> conflicts_on db (sl_teacher s) (ap_requester e) (fst (window e s)) (snd (window e s)) (Some key) \<and>
    decision_cas db e (e\<lparr>ap_status := Approved, ap_decided_by := Some decided_by\<rparr>) = (db', Some y)"
  using assms unfolding approve_inner_def run_tx_Inr approve_in_def
  by (auto simp: accepts_def not_le split: sum.splits option.splits if_splits prod.splits)

lemma approve_refused: "approve_inner db now key decided_by accepting = (db', Inl err) \<Longrightarrow> db' = db"
  using run_tx_Inl [of "approve_in now key decided_by accepting" db err] by (simp add: approve_inner_def)

lemma conflicts_onD:
  "\<not> conflicts_on db t q s e (Some key) \<Longrightarrow> c \<in> commitments db \<Longrightarrow> \<not> collide (key, q, t, s, e) c"
  by (auto simp: conflicts_on_def list_ex_iff commitments_def commitment_def collide_def split: option.splits prod.splits)

lemma collide_sym: "collide c d = collide d c"
  by (auto simp: collide_def overlaps_sym split: prod.splits)

lemma apart_insert:
  "apart db \<Longrightarrow> commitments db' \<subseteq> insert c (commitments db) \<Longrightarrow> (\<And>d. d \<in> commitments db \<Longrightarrow> \<not> collide c d) \<Longrightarrow> apart db'"
proof -
  have "\<not> collide c c" by (auto simp: collide_def split: prod.splits)
  then show "apart db \<Longrightarrow> commitments db' \<subseteq> insert c (commitments db) \<Longrightarrow> (\<And>d. d \<in> commitments db \<Longrightarrow> \<not> collide c d) \<Longrightarrow> apart db'"
    unfolding apart_def using collide_sym by blast
qed

lemma confirmed_keeps:
  assumes ok: "calendar_ok db" "reads_ok R db" and c: "approve_inner db now key decided_by accepting = (db', r)"
  shows "calendar_ok db' \<and> reads_ok R db'"
proof (cases r)
  case Inl
  then show ?thesis using ok c approve_refused by blast
next
  case (Inr y)
  let ?n = "\<lambda>e. e\<lparr>ap_status := Approved, ap_decided_by := Some decided_by\<rparr>"
  from approved_shape [OF c [unfolded Inr]] obtain e s where e: "read_pending db key = Inr e" "slot_of db e = Some s"
    and clear: "\<not> conflicts_on db (sl_teacher s) (ap_requester e) (fst (window e s)) (snd (window e s)) (Some key)"
    and cas: "decision_cas db e (?n e) = (db', Some y)" by blast
  note pend = read_pendingD [OF e(1)]
  have pok: "proposal_ok e" using ok(1) pend by (auto simp: calendar_defs)
  from cas_shape [OF cas] have apps: "ad_appointments db' = on_row ap_id key (decision_into (?n e)) (ad_appointments db)"
    and slots: "ad_slots db' = ad_slots db" using pend by (auto simp: is_live_def)
  have only: "z = e" if "z \<in> set (ad_appointments db)" "ap_id z = key" for z
    using keyed_find_row [of ap_id "ad_appointments db" z] that pend ok(1) by (auto simp: calendar_defs appointment_read_def)
  have same: "slot_of db' z = slot_of db z" for z by (cases "ap_slot z") (simp_all add: slot_of_def slot_read_def slots)
  have sub: "commitments db' \<subseteq> insert (commitment e s) (commitments db)"
  proof
    fix c assume "c \<in> commitments db'"
    then obtain z t where z: "z \<in> set (ad_appointments db')" "ap_status z = Approved" "slot_of db z = Some t" "c = commitment z t"
      unfolding commitments_def same by blast
    from set_on_row [OF z(1) [unfolded apps]] obtain w where w: "w \<in> set (ad_appointments db)"
      "z = (if ap_id w = key then decision_into (?n e) w else w)" by blast
    show "c \<in> insert (commitment e s) (commitments db)"
    proof (cases "ap_id w = key")
      case True
      then have "w = e" using only w(1) by blast
      then show ?thesis using True w(2) z(3,4) e(2) by (auto simp: commitment_def effective_window_def decision_into_def slot_of_def)
    qed (use w z in \<open>auto simp: commitments_def\<close>)
  qed
  have "apart db'"
  proof (rule apart_insert [OF _ sub])
    show "apart db" using ok(1) by (simp add: calendar_ok_def)
    show "\<not> collide (commitment e s) d" if "d \<in> commitments db" for d
      using conflicts_onD [OF clear that] window_effective [OF pok] pend by (simp add: commitment_def)
  qed
  then have "calendar_ok db' \<and> reads_ok (insert e R) db'"
    using cas_keeps [OF ok(1) looked_keeps [OF ok] _ _ _ _ cas] pend pok by (auto simp: is_live_def proposal_ok_def)
  then show ?thesis by (auto simp: reads_ok_def)
qed

subsection \<open>Withdrawing\<close>

lemma withdraw_sel [simp]:
  "ap_id (forget_slots gone a) = ap_id a" "proposal_ok (forget_slots gone a) = proposal_ok a"
  "ap_status (forget_slots gone a) = ap_status a"
  "ap_id (withdraw_booking db t a) = ap_id a" "proposal_ok (withdraw_booking db t a) = proposal_ok a"
  "ap_slot (withdraw_booking db t a) = ap_slot a"
  by (simp_all add: forget_slots_def withdraw_booking_def proposal_ok_def split: option.split)

lemma withdrawn_row:
  assumes "slots_ok (ad_slots db)" "bookings_ok db" "a \<in> set (ad_appointments db)"
    and g: "b = forget_slots (filter (\<lambda>s. sl_teacher s = teacher) (ad_slots db)) (withdraw_booking db teacher a)"
  shows "(\<exists>s. s \<in> set (ad_slots db) \<and> sl_teacher s = teacher \<and> ap_slot a = Some (sl_id s) \<and> ap_slot b = None \<and> \<not> is_live (ap_status b) \<and>
      ap_id b = ap_id a \<and> proposal_ok b) \<or>
    b = a \<and> (\<forall>s \<in> set (ad_slots db). ap_slot a = Some (sl_id s) \<longrightarrow> sl_teacher s \<noteq> teacher)"
proof (cases "\<exists>s \<in> set (ad_slots db). sl_teacher s = teacher \<and> ap_slot a = Some (sl_id s)")
  case True
  then obtain s where s: "s \<in> set (ad_slots db)" "sl_teacher s = teacher" "ap_slot a = Some (sl_id s)" by blast
  then have "\<not> is_live (ap_status (withdraw_booking db teacher a))"
    by (auto simp: withdraw_booking_def list_ex_iff is_live_def)
  moreover have "ap_slot b = None" using s unfolding g by (auto simp: forget_slots_def list_ex_iff)
  ultimately show ?thesis using s assms(2,3) unfolding g by (auto simp: bookings_ok_def)
next
  case False
  then show ?thesis unfolding g by (auto simp: forget_slots_def withdraw_booking_def list_ex_iff)
qed

lemma withdrawn_keeps:
  assumes ok: "calendar_ok db" "reads_ok R db" and db': "db' = withdraw_calendar db teacher"
  shows "calendar_ok db' \<and> reads_ok R db'"
proof -
  define g where "g = (\<lambda>a. forget_slots (filter (\<lambda>s. sl_teacher s = teacher) (ad_slots db)) (withdraw_booking db teacher a))"
  have new: "ad_slots db' = filter (\<lambda>s. sl_teacher s \<noteq> teacher) (ad_slots db)" "ad_appointments db' = map g (ad_appointments db)"
    by (simp_all add: db' withdraw_calendar_def g_def)
  have sk: "slots_ok (ad_slots db)" and bk: "bookings_ok db" using ok(1) by (simp_all add: calendar_ok_def)
  have row: "(\<exists>s. s \<in> set (ad_slots db) \<and> sl_teacher s = teacher \<and> ap_slot a = Some (sl_id s) \<and> ap_slot (g a) = None \<and>
      \<not> is_live (ap_status (g a)) \<and> ap_id (g a) = ap_id a \<and> proposal_ok (g a)) \<or>
    g a = a \<and> (\<forall>s \<in> set (ad_slots db). ap_slot a = Some (sl_id s) \<longrightarrow> sl_teacher s \<noteq> teacher)"
    if "a \<in> set (ad_appointments db)" for a
    using withdrawn_row [OF sk bk that] unfolding g_def by blast
  have gid: "ap_id (g a) = ap_id a" if "a \<in> set (ad_appointments db)" for a using row [OF that] by auto
  have "keyed ap_id (ad_appointments db')"
  proof -
    have "map ap_id (map g (ad_appointments db)) = map ap_id (ad_appointments db)" using gid by simp
    then show ?thesis using bk unfolding bookings_ok_def keyed_def new by metis
  qed
  moreover have "proposal_ok b \<and> (is_live (ap_status b) \<longrightarrow> ap_slot b \<noteq> None) \<and> (\<forall>k. ap_slot b = Some k \<longrightarrow> k \<in> sl_id ` set (ad_slots db'))"
    if b: "b \<in> set (ad_appointments db')" for b
  proof -
    obtain a where a: "a \<in> set (ad_appointments db)" "b = g a" using b new by auto
    then show ?thesis using row [OF a(1)] bk unfolding bookings_ok_def new by (elim disjE) fastforce+
  qed
  ultimately have "bookings_ok db'" by (simp add: bookings_ok_def)
  moreover have "slot_seats_ok db'"
  proof -
    have "refs_to live_ref (Some (sl_id s)) (map g (ad_appointments db)) = refs_to live_ref (Some (sl_id s)) (ad_appointments db)"
      if s: "s \<in> set (ad_slots db)" "sl_teacher s \<noteq> teacher" for s
    proof (rule refs_to_map_iff)
      fix a assume "a \<in> set (ad_appointments db)"
      then show "(live_ref (g a) = Some (sl_id s)) = (live_ref a = Some (sl_id s))"
        using row [of a] slots_okD [OF sk s(1)] s by (auto simp: live_ref_def)
    qed
    then show ?thesis using ok(1) new by (auto simp: calendar_defs counts_exact_def)
  qed
  moreover have "commitments db' \<subseteq> commitments db"
  proof (rule commitments_subI)
    fix b t assume b: "b \<in> set (ad_appointments db')" "ap_status b = Approved" "slot_of db' b = Some t"
    then obtain a where a: "a \<in> set (ad_appointments db)" "b = g a" using new by auto
    then have "b = a" using row [OF a(1)] b(2) by (auto simp: is_live_def)
    moreover have "slot_of db b = Some t"
      using b(3) sk new(1) find_row_filter [of sl_id "ad_slots db" "\<lambda>s. sl_teacher s \<noteq> teacher"]
      by (auto simp: slot_of_iff slots_ok_def split: option.splits if_splits)
    ultimately show "\<exists>a s. a \<in> set (ad_appointments db) \<and> ap_status a = Approved \<and> slot_of db a = Some s \<and> commitment b t = commitment a s"
      using a b(2) by auto
  qed
  moreover have "reads_ok R db'"
    using ok(2) row unfolding reads_ok_def new by (fastforce simp: gid)
  ultimately show ?thesis using ok(1) new slots_ok_filter apart_sub by (auto simp: calendar_ok_def)
qed

subsection \<open>Runs\<close>

lemma calendar_step_keeps:
  assumes "calendar_step x y" "calendar_ok (fst x)" "reads_ok (snd x) (fst x)"
  shows "calendar_ok (fst y) \<and> reads_ok (snd y) (fst y)"
  using assms
proof cases
  case (publish db rows teacher refusal db' r R)
  then show ?thesis using published_keeps [of db R rows teacher refusal db' r] assms(2,3) by simp
next
  case (remove db ids db' r R)
  then show ?thesis using removed_keeps [of db R ids db' r] assms(2,3) by simp
next
  case (book a db R db' c)
  then show ?thesis using claimed_keeps [of db R a db' c] assms(2,3) by simp
next
  case (look a db R)
  then show ?thesis using looked_keeps [of db R a] assms(2,3) by simp
next
  case (decide e R n db db' r)
  then show ?thesis using decided_keeps [of db R e n db' r] assms(2,3) by simp
next
  case (confirm db now key decided_by accepting db' r R)
  then show ?thesis using confirmed_keeps [of db R now key decided_by accepting db' r] assms(2,3) by simp
next
  case (withdraw db R teacher)
  then show ?thesis using withdrawn_keeps [of db R "withdraw_calendar db teacher" teacher] assms(2,3) by simp
next
  case (forget R' R db)
  then show ?thesis using assms(2,3) by (auto simp: reads_ok_def)
next
  case (role_change db R roles)
  have "slot_of (db\<lparr>ad_roles := roles\<rparr>) a = slot_of db a" for a by (cases "ap_slot a") (simp_all add: slot_of_def slot_read_def)
  then show ?thesis using role_change assms(2,3) by (auto simp: calendar_defs reads_ok_def apart_def commitments_def)
qed

lemma calendar_run_keeps:
  assumes "calendar_step\<^sup>*\<^sup>* x y" "calendar_ok (fst x)" "reads_ok (snd x) (fst x)"
  shows "calendar_ok (fst y) \<and> reads_ok (snd y) (fst y)"
  using assms by (induction rule: rtranclp_induct) (auto dest: calendar_step_keeps)

definition new_calendar :: "(ustr \<times> role) list \<Rightarrow> appointment_db" where
  "new_calendar roles = \<lparr>ad_slots = [], ad_appointments = [], ad_roles = roles\<rparr>"

lemma calendar_reachable_ok:
  assumes "calendar_step\<^sup>*\<^sup>* (new_calendar roles, {}) (db, R)"
  shows "calendar_ok db" "reads_ok R db"
proof -
  have "calendar_ok (new_calendar roles)" "reads_ok {} (new_calendar roles)"
    by (simp_all add: new_calendar_def calendar_defs slots_ok_def keyed_def counts_exact_def apart_def commitments_def reads_ok_def)
  then show "calendar_ok db" "reads_ok R db" using calendar_run_keeps [OF assms] by auto
qed


text \<open>A run to apply the promises to: two slots, two bookings of one person, both approved.\<close>

definition ask :: "ustr \<Rightarrow> ustr \<Rightarrow> appointment" where
  "ask key slot = \<lparr>ap_id = key, ap_slot = Some slot, ap_requester = [2], ap_status = Pending, ap_reason = u ''marks'',
     ap_proposed_starts_at = None, ap_proposed_ends_at = None, ap_proposed_by = None, ap_decided_by = None,
     ap_cancelled_by = None, ap_cancel_reason = None, ap_reject_reason = None, ap_created_at = 0\<rparr>"

definition cal0 :: appointment_db where "cal0 = new_calendar [([1], Teacher)]"

definition cal1 :: appointment_db where
  "cal1 = fst (insert_claimed cal0 [1] [slot_row [10] [1] None None 0 (100, 200), slot_row [11] [1] None None 0 (300, 400)] NotFound)"

definition cal2 :: appointment_db where "cal2 = fst (claim_slot_and_create cal1 (ask [20] [10]))"
definition cal3 :: appointment_db where "cal3 = fst (claim_slot_and_create cal2 (ask [21] [11]))"
definition cal4 :: appointment_db where "cal4 = fst (approve_inner cal3 0 [20] [1] None)"
definition cal5 :: appointment_db where "cal5 = fst (approve_inner cal4 0 [21] [1] None)"

lemma cal_run: "calendar_step\<^sup>*\<^sup>* (new_calendar [([1], Teacher)], {}) (cal3, {})" "calendar_step\<^sup>*\<^sup>* (cal3, {}) (cal5, {})"
proof -
  have "rows_ok cal0 [slot_row [10] [1] None None 0 (100, 200), slot_row [11] [1] None None 0 (300, 400)]"
    by (simp add: rows_ok_def keyed_def slot_row_def cal0_def new_calendar_def)
  then have "calendar_step (cal0, {}) (cal1, {})" unfolding cal1_def by (rule publish) (rule prod.collapse [symmetric])
  moreover have "ad_appointments cal1 = []" by code_simp
  then have "calendar_step (cal1, {}) (cal2, {})"
    unfolding cal2_def by (intro book [where a = "ask [20] [10]", OF _ prod.collapse [symmetric]]) simp
  moreover have "map ap_id (ad_appointments cal2) = [[20]]" by code_simp
  then have "ap_id (ask [21] [11]) \<notin> ap_id ` (set (ad_appointments cal2) \<union> {})" unfolding Un_empty_right set_map [symmetric] by (simp add: ask_def)
  then have "calendar_step (cal2, {}) (cal3, {})"
    unfolding cal3_def by (rule book [OF _ prod.collapse [symmetric]])
  ultimately show "calendar_step\<^sup>*\<^sup>* (new_calendar [([1], Teacher)], {}) (cal3, {})"
    unfolding cal0_def by (meson converse_rtranclp_into_rtranclp rtranclp.rtrancl_refl)
  have "calendar_step (cal3, {}) (cal4, {})" unfolding cal4_def by (rule confirm) (rule prod.collapse [symmetric])
  moreover have "calendar_step (cal4, {}) (cal5, {})" unfolding cal5_def by (rule confirm) (rule prod.collapse [symmetric])
  ultimately show "calendar_step\<^sup>*\<^sup>* (cal3, {}) (cal5, {})"
    by (meson converse_rtranclp_into_rtranclp rtranclp.rtrancl_refl)
qed

lemmas cal_reached = cal_run(1) rtranclp_trans [OF cal_run]


section \<open>The promises\<close>

text \<open>
  C8. No double booking.  However bookings, counter-proposals, approvals, withdrawals and demotions are
  interleaved, two approved appointments that share a teacher or a requester never share a moment.
\<close>

theorem no_double_booking:
  assumes "calendar_step\<^sup>*\<^sup>* (new_calendar roles, {}) (db, R)"
    and "a \<in> set (ad_appointments db)" "ap_status a = Approved" "slot_of db a = Some s"
    and "b \<in> set (ad_appointments db)" "ap_status b = Approved" "slot_of db b = Some t"
    and "ap_id a \<noteq> ap_id b" "ap_requester a = ap_requester b \<or> sl_teacher s = sl_teacher t"
  shows "\<not> overlaps (fst (window a s)) (snd (window a s)) (fst (window b t)) (snd (window b t))"
proof -
  have ok: "calendar_ok db" by (rule calendar_reachable_ok [OF assms(1)])
  then have "window a s = effective_window a s" "window b t = effective_window b t"
    using assms(2,5) window_effective by (auto simp: calendar_defs)
  moreover have "\<not> collide (commitment a s) (commitment b t)"
    using ok assms(2-7) unfolding calendar_ok_def apart_def commitments_def by blast
  ultimately show ?thesis using assms(8,9) by (auto simp: collide_def commitment_def split: prod.splits)
qed

theorem no_double_booking_witness:
  "\<not> overlaps (fst (window (hd (ad_appointments cal5)) (hd (ad_slots cal5)))) (snd (window (hd (ad_appointments cal5)) (hd (ad_slots cal5))))
     (fst (window (last (ad_appointments cal5)) (last (ad_slots cal5)))) (snd (window (last (ad_appointments cal5)) (last (ad_slots cal5))))"
proof (rule no_double_booking [OF cal_reached(2)])
  show "hd (ad_appointments cal5) \<in> set (ad_appointments cal5)" by code_simp
  show "ap_status (hd (ad_appointments cal5)) = Approved" by code_simp
  show "slot_of cal5 (hd (ad_appointments cal5)) = Some (hd (ad_slots cal5))" by code_simp
  show "last (ad_appointments cal5) \<in> set (ad_appointments cal5)" by code_simp
  show "ap_status (last (ad_appointments cal5)) = Approved" by code_simp
  show "slot_of cal5 (last (ad_appointments cal5)) = Some (last (ad_slots cal5))" by code_simp
  show "ap_id (hd (ad_appointments cal5)) \<noteq> ap_id (last (ad_appointments cal5))" by code_simp
  show "ap_requester (hd (ad_appointments cal5)) = ap_requester (last (ad_appointments cal5)) \<or>
    sl_teacher (hd (ad_slots cal5)) = sl_teacher (last (ad_slots cal5))" by code_simp
qed

text \<open>
  C10. The seat and the booking.  In every state a run can reach, a slot can be booked exactly when no pending
  or approved booking names it: the seat column is neither stuck nor early.
\<close>

theorem bookable_iff_free:
  assumes "calendar_step\<^sup>*\<^sup>* (new_calendar roles, {}) (db, R)" "slot_read db key = Some s" "ap_slot a = Some key"
  shows "(\<exists>y. snd (claim_slot_and_create db a) = Made y) = (\<not> (\<exists>b \<in> set (ad_appointments db). ap_slot b = Some key \<and> is_live (ap_status b)))"
proof -
  have s: "s \<in> set (ad_slots db)" "sl_id s = key" using find_row_SomeD [OF assms(2) [unfolded slot_read_def]] by auto
  have occ: "sl_occupied s = refs_to live_ref (Some key) (ad_appointments db)"
    using calendar_reachable_ok(1) [OF assms(1)] s by (auto simp: calendar_defs counts_exact_def)
  have "(\<exists>y. snd (claim_slot_and_create db a) = Made y) = (sl_occupied s < 1)"
    using assms(2,3) by (simp add: claim_slot_and_create_def)
  also have "\<dots> = (refs_to live_ref (Some key) (ad_appointments db) = 0)"
    using occ refs_to_nonneg [of live_ref "Some key" "ad_appointments db"] by linarith
  also have "\<dots> = (\<not> (\<exists>b \<in> set (ad_appointments db). ap_slot b = Some key \<and> is_live (ap_status b)))"
    unfolding refs_to_zero image_iff live_ref_def by (metis option.distinct(1))
  finally show ?thesis .
qed

theorem bookable_iff_free_witness: "\<not> (\<exists>y. snd (claim_slot_and_create cal5 (ask [22] [10])) = Made y)"
proof -
  have s: "slot_read cal5 [10] = Some (hd (ad_slots cal5))" by code_simp
  have "ap_slot (ask [22] [10]) = Some [10]" by (simp add: ask_def)
  note iff = bookable_iff_free [OF cal_reached(2) s this]
  have "hd (ad_appointments cal5) \<in> set (ad_appointments cal5)" by code_simp
  moreover have "ap_slot (hd (ad_appointments cal5)) = Some [10]" by code_simp
  moreover have "is_live (ap_status (hd (ad_appointments cal5)))" by code_simp
  ultimately show ?thesis unfolding iff by blast
qed

subsection \<open>Calls as runs\<close>

text \<open>What other requests may do while a call holds the row it read: any run.\<close>

definition rivals_run :: "(appointment_db \<Rightarrow> appointment_db) \<Rightarrow> bool" where
  "rivals_run f \<longleftrightarrow> (\<forall>d e. e \<in> set (ad_appointments d) \<longrightarrow> (\<exists>R. e \<in> R \<and> calendar_step\<^sup>*\<^sup>* (d, {e}) (f d, R)))"

lemma forget_all: "calendar_step\<^sup>*\<^sup>* (d, R) (d, {})"
  by (rule r_into_rtranclp) (rule forget, simp)

lemma rounds_run:
  assumes "\<And>k. rivals_run (rivals k)"
    and "\<And>k d e n. decide k d = Inr (e, n) \<Longrightarrow> e \<in> set (ad_appointments d) \<and> decision e n"
    and "decision_rounds fuel k rivals db key decide = (db', r)"
  shows "calendar_step\<^sup>*\<^sup>* (db, {}) (db', {})"
  using assms(3)
proof (induction fuel arbitrary: k db)
  case (Suc fuel)
  show ?case
  proof (cases "decide k db")
    case (Inr p)
    obtain e n where p: "p = (e, n)" by (cases p)
    note en = assms(2) [OF Inr [unfolded p]]
    obtain R where R: "e \<in> R" "calendar_step\<^sup>*\<^sup>* (db, {e}) (rivals k db, R)"
      using assms(1) [of k] en by (auto simp: rivals_run_def)
    obtain d s where d: "save_decision (rivals k db) e n = (d, s)" by (cases "save_decision (rivals k db) e n")
    have "calendar_step (db, {}) (db, {e})" using en by (intro look) simp
    moreover have "calendar_step (rivals k db, R) (d, R)" using en R(1) d by (intro decide [of e]) auto
    ultimately have "calendar_step\<^sup>*\<^sup>* (db, {}) (d, R)"
      using R(2) by (meson converse_rtranclp_into_rtranclp rtranclp.rtrancl_into_rtrancl)
    then have run: "calendar_step\<^sup>*\<^sup>* (db, {}) (d, {})" using forget_all rtranclp_trans by fast
    show ?thesis
    proof (cases s)
      case None
      then have "decision_rounds fuel (Suc k) rivals d key decide = (db', r)" using Suc.prems Inr p d by simp
      from Suc.IH [OF this] run show ?thesis using rtranclp_trans by fast
    qed (use Suc.prems Inr p d run in simp)
  qed (use Suc.prems in simp)
qed simp

lemma reject_decides: "reject_decide key by reason k d = Inr (e, n) \<Longrightarrow> e \<in> set (ad_appointments d) \<and> decision e n"
  by (auto simp: reject_decide_def decision_def is_live_def proposal_ok_def dest: read_pendingD split: option.splits)

lemma cancel_decides: "cancel_decide clock key by reason k d = Inr (e, n) \<Longrightarrow> e \<in> set (ad_appointments d) \<and> decision e n"
  by (auto simp: cancel_decide_def decision_def appointment_read_def proposal_ok_def dest: find_row_SomeD split: if_splits option.splits)

lemma propose_decides:
  "s < t \<Longrightarrow> propose_decide clock key s t by k d = Inr (e, n) \<Longrightarrow> e \<in> set (ad_appointments d) \<and> decision e n"
  by (auto simp: propose_decide_def decision_def appointment_read_def proposal_ok_def dest: find_row_SomeD split: if_splits)

text \<open>
  C9. Decisions under interference.  A rejection, a cancellation or a counter-proposal, whatever other
  requests commit while it holds the row it read and however often it starts over, is a run of the
  interleaved transactions, so all that runs keep it keeps.
\<close>

theorem decisions_are_runs:
  assumes "\<And>k. rivals_run (rivals k)"
    and "(db', r) \<in> {reject_appointment rivals db key by reason, cancel_appointment rivals clock db key by reason,
      propose rivals clock db key starts_at ends_at by}"
  shows "calendar_step\<^sup>*\<^sup>* (db, {}) (db', {})"
proof -
  consider "reject_appointment rivals db key by reason = (db', r)" | "cancel_appointment rivals clock db key by reason = (db', r)"
    | "propose rivals clock db key starts_at ends_at by = (db', r)" using assms(2) by auto
  then show ?thesis
  proof cases
    case 1
    show ?thesis
      by (rule rounds_run [OF assms(1) _ 1 [unfolded reject_appointment_def]]) (rule reject_decides)
  next
    case 2
    show ?thesis
      by (rule rounds_run [OF assms(1) _ 2 [unfolded cancel_appointment_def]]) (rule cancel_decides)
  next
    case 3
    show ?thesis
    proof (cases "starts_at < ends_at")
      case True
      then have call: "decision_rounds CAS_UPDATE_RETRIES 0 rivals db key (propose_decide clock key starts_at ends_at by) = (db', r)"
        using 3 by (simp add: propose_def)
      show ?thesis by (rule rounds_run [OF assms(1) _ call]) (rule propose_decides [OF True])
    qed (use 3 in \<open>simp add: propose_def\<close>)
  qed
qed

theorem decisions_are_runs_witness:
  "calendar_step\<^sup>*\<^sup>* (cal5, {}) (fst (cancel_appointment (\<lambda>_ d. d) (\<lambda>_. 0) cal5 [20] [2] None), {})"
  by (rule decisions_are_runs [of "\<lambda>_ d. d" _ "snd (cancel_appointment (\<lambda>_ d. d) (\<lambda>_. 0) cal5 [20] [2] None)" cal5 "[20]" "[2]" None "\<lambda>_. 0" 0 0])
    (auto simp: rivals_run_def)

subsection \<open>Approving and cancelling\<close>

text \<open>
  The approved time is the agreed time.  An approval commits a window that has not begun: the slot's own
  window when the teacher approves, and exactly the proposed window the requester says they saw when the
  requester accepts.  The stored booking names it, and who decided.
\<close>

theorem approved_window_agreed:
  assumes "keyed ap_id (ad_appointments db)" "approve_inner db now key decided_by accepting = (db', Inr y)"
  shows "\<exists>s. appointment_read db' key = Some y \<and> ap_status y = Approved \<and> ap_decided_by y = Some decided_by \<and>
    slot_of db' y = Some s \<and> now < fst (window y s) \<and>
    window y s = (case accepting of Some w \<Rightarrow> w | None \<Rightarrow> (sl_starts_at s, sl_ends_at s))"
proof -
  let ?n = "\<lambda>e. e\<lparr>ap_status := Approved, ap_decided_by := Some decided_by\<rparr>"
  from approved_shape [OF assms(2)] obtain e s where e: "read_pending db key = Inr e" "slot_of db e = Some s"
    and acc: "accepts accepting e" "now < fst (window e s)" and cas: "decision_cas db e (?n e) = (db', Some y)" by blast
  note pend = read_pendingD [OF e(1)]
  from cas_shape [OF cas] pend have y: "y = decision_into (?n e) e"
    and apps: "ad_appointments db' = on_row ap_id key (decision_into (?n e)) (ad_appointments db)"
    and slots: "ad_slots db' = ad_slots db" by (auto simp: is_live_def appointment_read_def)
  have "slot_of db' y = Some s" using e(2) slots by (auto simp: slot_of_iff y)
  moreover have w: "window y s = window e s" unfolding y by (simp add: window_def decision_into_def split: option.split)
  moreover have "window e s = (case accepting of Some w \<Rightarrow> w | None \<Rightarrow> (sl_starts_at s, sl_ends_at s))"
    using acc(1) by (auto simp: accepts_def has_proposal_def proposes_def window_def split: option.splits)
  moreover have "appointment_read db' key = Some y"
    using pend by (simp add: appointment_read_def apps find_on_row y)
  ultimately show ?thesis using acc(2) y by (intro exI [of _ s]) (simp add: decision_into_def)
qed

theorem approved_window_agreed_witness:
  "\<exists>s y. appointment_read cal4 [20] = Some y \<and> ap_status y = Approved \<and> window y s = (100, 200)"
proof -
  have k: "keyed ap_id (ad_appointments cal3)" by code_simp
  have "approve_inner cal3 0 [20] [1] None = (cal4, snd (approve_inner cal3 0 [20] [1] None))" by (simp add: cal4_def)
  moreover have "snd (approve_inner cal3 0 [20] [1] None) = Inr (hd (ad_appointments cal4))" by code_simp
  ultimately have "approve_inner cal3 0 [20] [1] None = (cal4, Inr (hd (ad_appointments cal4)))" by simp
  from approved_window_agreed [OF k this] obtain s where y: "appointment_read cal4 [20] = Some (hd (ad_appointments cal4))"
      "ap_status (hd (ad_appointments cal4)) = Approved" "slot_of cal4 (hd (ad_appointments cal4)) = Some s"
      "window (hd (ad_appointments cal4)) s = (sl_starts_at s, sl_ends_at s)" by auto
  moreover have "slot_of cal4 (hd (ad_appointments cal4)) = Some (hd (ad_slots cal4))" by code_simp
  moreover have "(sl_starts_at (hd (ad_slots cal4)), sl_ends_at (hd (ad_slots cal4))) = (100, 200)" by code_simp
  ultimately show ?thesis by auto
qed

text \<open>
  C11. Cancelling frees the slot.  In every reachable state the requester of a live booking that has not begun
  can cancel it, and afterwards the slot is free for anybody's booking.
\<close>

theorem cancel_frees_slot:
  assumes "calendar_step\<^sup>*\<^sup>* (new_calendar roles, {}) (db, R)"
    and "appointment_read db key = Some a" "is_live (ap_status a)" "slot_of db a = Some s"
    and "clock 0 < fst (window a s)" "ap_requester a = cu_id c" "ap_slot new = Some (sl_id s)"
  shows "\<exists>db' y z. cancel_route (\<lambda>d. d) (\<lambda>_ d. d) clock db c key None = (db', Inr y) \<and> ap_status y = Cancelled \<and>
    snd (claim_slot_and_create db' new) = Made z"
proof -
  have ok: "calendar_ok db" by (rule calendar_reachable_ok [OF assms(1)])
  let ?n = "a\<lparr>ap_status := Cancelled, ap_cancelled_by := Some (cu_id c), ap_cancel_reason := None\<rparr>"
  have a: "a \<in> set (ad_appointments db)" "ap_id a = key" using find_row_SomeD [OF assms(2) [unfolded appointment_read_def]] by auto
  have dec: "cancel_decide clock key (cu_id c) None 0 db = Inr (a, ?n)"
    using assms(2-5) by (simp add: cancel_decide_def)
  obtain db' where cas: "decision_cas db a ?n = (db', Some (decision_into ?n a))"
    using assms(2) a by (auto simp: decision_cas_def same_decision_def Let_def)
  have call: "cancel_route (\<lambda>d. d) (\<lambda>_ d. d) clock db c key None = (db', Inr (decision_into ?n a))"
    using assms(2,6) dec cas
    by (simp add: cancel_route_def guarded_def optional_reason_def cancel_appointment_def CAS_UPDATE_RETRIES_def eval_nat_numeral save_decision_def)
  have sk: "ap_slot a = Some (sl_id s)" using slot_of_in assms(4) by blast
  have "sl_occupied s \<le> 1" using ok slot_of_in [OF assms(4)] by (auto simp: calendar_defs)
  moreover have "slot_read db' (sl_id s) = Some (s\<lparr>sl_occupied := max (sl_occupied s - 1) 0\<rparr>)"
    using cas_shape [OF cas] assms(3,4) sk seat_edit_slot_of [OF free_slot_edit [of "Some (sl_id s)"], of db' db a]
    by (auto simp: is_live_def free_slot_def slot_of_def)
  ultimately have "\<exists>z. snd (claim_slot_and_create db' new) = Made z"
    using assms(7) by (auto simp: claim_slot_and_create_def)
  then show ?thesis using call by (auto simp: decision_into_def)
qed

theorem cancel_frees_slot_witness:
  "\<exists>db' y z. cancel_route (\<lambda>d. d) (\<lambda>_ d. d) (\<lambda>_. 50) cal5 \<lparr>cu_id = [2], cu_role = Student\<rparr> [20] None = (db', Inr y) \<and>
     ap_status y = Cancelled \<and> snd (claim_slot_and_create db' (ask [30] [10])) = Made z"
proof (rule cancel_frees_slot [OF cal_reached(2)])
  show "appointment_read cal5 [20] = Some (hd (ad_appointments cal5))" by code_simp
  show "is_live (ap_status (hd (ad_appointments cal5)))" by code_simp
  show "slot_of cal5 (hd (ad_appointments cal5)) = Some (hd (ad_slots cal5))" by code_simp
  show "50 < fst (window (hd (ad_appointments cal5)) (hd (ad_slots cal5)))" by code_simp
  show "ap_requester (hd (ad_appointments cal5)) = cu_id \<lparr>cu_id = [2], cu_role = Student\<rparr>" by code_simp
  show "ap_slot (ask [30] [10]) = Some (sl_id (hd (ad_slots cal5)))" by code_simp
qed

subsection \<open>Weekly publishing\<close>

lemma weeks_from_exact:
  assumes "s < e" "\<forall>w \<in> set ws. 0 \<le> w \<and> w \<le> 51"
  shows "weeks_from s e ws =
    (if \<forall>w \<in> set ws. is_i64 (s + w * MILLIS_PER_WEEK) \<and> is_i64 (e + w * MILLIS_PER_WEEK)
     then Inr (map (\<lambda>w. (s + w * MILLIS_PER_WEEK, e + w * MILLIS_PER_WEEK)) ws)
     else Inl (Invalid ''ends_at'' ''is too far ahead to repeat weekly''))"
  using assms(2)
proof (induction ws)
  case (Cons w ws)
  have "is_i64 (w * MILLIS_PER_WEEK)" using Cons.prems by (auto simp: MILLIS_PER_WEEK_def is_i64_def I64_MIN_def I64_MAX_def)
  then have sh: "shifted b w = (if is_i64 (b + w * MILLIS_PER_WEEK) then Some (b + w * MILLIS_PER_WEEK) else None)" for b
    by (simp add: shifted_def checked_def)
  show ?case using Cons assms(1) by (auto simp: sh check_window_def)
qed simp

text \<open>
  Weekly windows.  For instants from the epoch on, a weekly publish expands into exactly the first window
  and its shifts by whole weeks that begin no later than \<open>until\<close>: at least one, at most 52, every one a
  real span inside the range of a timestamp.  A request that cannot be so expanded is refused, and for one
  of the four documented reasons.
\<close>

theorem weekly_windows_exact:
  assumes "0 \<le> starts_at" "is_i64 starts_at" "is_i64 ends_at" "is_i64 until"
  shows "weekly_windows starts_at ends_at until =
    (if ends_at \<le> starts_at then Inl (Invalid ''ends_at'' ''must be after starts_at'')
     else if until < starts_at then Inl (Invalid ''until'' ''must not be before the first slot'')
     else let cnt = (until - starts_at) div MILLIS_PER_WEEK + 1 in
       if 52 < cnt then Inl (TooLong ''until'' 52 (nat cnt))
       else if I64_MAX < ends_at + (cnt - 1) * MILLIS_PER_WEEK
       then Inl (Invalid ''ends_at'' ''is too far ahead to repeat weekly'')
       else Inr (map (\<lambda>w. (starts_at + int w * MILLIS_PER_WEEK, ends_at + int w * MILLIS_PER_WEEK)) [0..<nat cnt]))"
proof (cases "ends_at \<le> starts_at \<or> until < starts_at")
  case True
  then show ?thesis by (auto simp: weekly_windows_def check_window_def)
next
  case False
  define cnt where "cnt = (until - starts_at) div MILLIS_PER_WEEK + 1"
  have pos: "(0::int) < MILLIS_PER_WEEK" by (simp add: MILLIS_PER_WEEK_def)
  have cnt1: "1 \<le> cnt" using False pos by (simp add: cnt_def pos_imp_zdiv_nonneg_iff)
  have wrap: "quot (wrap64 (until - starts_at)) MILLIS_PER_WEEK + 1 = cnt"
    using False assms by (simp add: wrap64_def quot_def cnt_def is_i64_def I64_MIN_def I64_MAX_def)
  have "(cnt - 1) * MILLIS_PER_WEEK = until - starts_at - (until - starts_at) mod MILLIS_PER_WEEK"
    by (simp add: cnt_def minus_mod_eq_div_mult)
  then have last: "starts_at + (cnt - 1) * MILLIS_PER_WEEK \<le> until"
    using pos_mod_sign [OF pos, of "until - starts_at"] by linarith
  have mono: "b + w * MILLIS_PER_WEEK \<le> b + (cnt - 1) * MILLIS_PER_WEEK" if "w \<le> cnt - 1" for b w
    using that pos by simp
  have range: "(\<forall>w \<in> set (map int [0..<nat cnt]). is_i64 (starts_at + w * MILLIS_PER_WEEK) \<and> is_i64 (ends_at + w * MILLIS_PER_WEEK)) =
      (ends_at + (cnt - 1) * MILLIS_PER_WEEK \<le> I64_MAX)"
  proof
    assume "\<forall>w \<in> set (map int [0..<nat cnt]). is_i64 (starts_at + w * MILLIS_PER_WEEK) \<and> is_i64 (ends_at + w * MILLIS_PER_WEEK)"
    moreover have "cnt - 1 \<in> set (map int [0..<nat cnt])" using cnt1 by (auto simp: image_iff intro!: bexI [of _ "nat (cnt - 1)"])
    ultimately show "ends_at + (cnt - 1) * MILLIS_PER_WEEK \<le> I64_MAX" by (auto simp: is_i64_def)
  next
    assume top: "ends_at + (cnt - 1) * MILLIS_PER_WEEK \<le> I64_MAX"
    show "\<forall>w \<in> set (map int [0..<nat cnt]). is_i64 (starts_at + w * MILLIS_PER_WEEK) \<and> is_i64 (ends_at + w * MILLIS_PER_WEEK)"
    proof
      fix w assume "w \<in> set (map int [0..<nat cnt])"
      then have w: "0 \<le> w" "w \<le> cnt - 1" by auto
      have "0 \<le> w * MILLIS_PER_WEEK" using w(1) pos by simp
      moreover have "I64_MIN \<le> 0" "until \<le> I64_MAX" using assms(4) by (auto simp: is_i64_def I64_MIN_def)
      ultimately show "is_i64 (starts_at + w * MILLIS_PER_WEEK) \<and> is_i64 (ends_at + w * MILLIS_PER_WEEK)"
        using mono [OF w(2), of starts_at] mono [OF w(2), of ends_at] top last assms(1) False by (auto simp: is_i64_def)
    qed
  qed
  have "weekly_windows starts_at ends_at until =
    (if 52 < cnt then Inl (TooLong ''until'' 52 (nat cnt)) else weeks_from starts_at ends_at (map int [0..<nat cnt]))"
    using False by (simp add: weekly_windows_def check_window_def Let_def wrap MAX_SLOT_OCCURRENCES_def)
  moreover have "weeks_from starts_at ends_at (map int [0..<nat cnt]) =
    (if ends_at + (cnt - 1) * MILLIS_PER_WEEK \<le> I64_MAX
     then Inr (map (\<lambda>w. (starts_at + w * MILLIS_PER_WEEK, ends_at + w * MILLIS_PER_WEEK)) (map int [0..<nat cnt]))
     else Inl (Invalid ''ends_at'' ''is too far ahead to repeat weekly''))" if "cnt \<le> 52"
    unfolding range [symmetric] by (rule weeks_from_exact) (use False that in auto)
  ultimately show ?thesis using False by (auto simp: Let_def cnt_def [symmetric] comp_def)
qed

theorem weekly_windows_exact_witness:
  "weekly_windows 0 3600000 (MILLIS_PER_WEEK + 5) = Inr [(0, 3600000), (MILLIS_PER_WEEK, 3600000 + MILLIS_PER_WEEK)]"
proof -
  have "nat 2 = Suc (Suc 0)" by simp
  then show ?thesis
    using weekly_windows_exact [of 0 3600000 "MILLIS_PER_WEEK + 5"]
    by (simp add: MILLIS_PER_WEEK_def is_i64_def I64_MIN_def I64_MAX_def Let_def upt_rec)
qed

subsection \<open>What the lists show\<close>

lemma paginate_sub: "x \<in> set (paginate items limit offset) \<Longrightarrow> x \<in> set items"
  unfolding paginate_def Let_def by (meson in_set_dropD in_set_takeD)

lemma paged_run_sub: "x \<in> set (fst (paged_run rows limit offset)) \<Longrightarrow> x \<in> set rows"
  unfolding paged_run_def Let_def by (cases limit) (auto split: if_splits dest: in_set_takeD in_set_dropD)

lemma paginate_Nil [simp]: "paginate [] limit offset = []"
  by (simp add: paginate_def Let_def)

lemma list_slots_rows:
  assumes "list_slots from_key now db c page raw_teacher raw_after = Inr (rows, info)"
  shows "\<exists>limit offset narrow after. if at_least (cu_role c) Teacher
    then set rows \<subseteq> set (slots_for_teacher db (cu_id c) after)
    else rows = paginate (filter (\<lambda>s. case find_row fst (ad_roles db) (sl_teacher s) of Some (_, r) \<Rightarrow> at_least r Teacher | None \<Rightarrow> False)
               (list_upcoming db now narrow after)) limit offset"
  using assms unfolding list_slots_def and_then_Inr_iff Let_def
  by (auto dest: paginate_sub split: option.splits if_splits prod.splits)

text \<open>
  A teacher's list holds only their own slots; everybody else is offered slots that have not begun, of
  accounts that teach now, which is what booking asks of a slot before it looks at the seat.
\<close>

lemma listed_slots_visible:
  assumes "list_slots from_key now db c page raw_teacher raw_after = Inr (rows, info)" "s \<in> set rows"
  shows "s \<in> set (ad_slots db) \<and> (if at_least (cu_role c) Teacher then sl_teacher s = cu_id c
    else now < sl_starts_at s \<and> (\<exists>k r. find_row fst (ad_roles db) (sl_teacher s) = Some (k, r) \<and> at_least r Teacher))"
proof (cases "at_least (cu_role c) Teacher")
  case True
  then show ?thesis using list_slots_rows [OF assms(1)] assms(2) by (auto simp: slots_for_teacher_def)
next
  case False
  then show ?thesis using list_slots_rows [OF assms(1)] assms(2)
    by (auto simp: list_upcoming_def split: option.splits dest!: paginate_sub)
qed

end
