(* ===== verification/Role_Change_Properties.thy ===== *)
theory Role_Change_Properties
  imports Role_Change Appointments_Properties
begin

text \<open>
  What a change of role keeps and what it takes away: the school never loses its last admin, the seat
  counters stay exact, and an account demoted below teacher holds nothing of a teacher's, unless the
  new role is parent.
\<close>

section \<open>Seats handed back\<close>

lemma one_row_each:
  assumes "distinct (map (\<lambda>r. (ref r, who r)) rs)"
  shows "refs_to ref k (filter (\<lambda>r. who r = t \<and> Q r) rs) = (if k \<in> set (map ref (filter (\<lambda>r. who r = t \<and> Q r) rs)) then 1 else 0)"
  using assms
proof (induction rs)
  case (Cons r rs)
  have "k \<notin> set (map ref (filter (\<lambda>r. who r = t \<and> Q r) rs))" if "ref r = k" "who r = t"
    using Cons.prems that by (auto simp: image_iff)
  then show ?case using Cons by (auto simp: refs_to_Cons)
qed simp

context counter
begin

lemma exact_hand_back:
  assumes "counts_exact key count ref cs rs" "distinct (map (\<lambda>r. (ref r, who r)) rs)"
  shows "counts_exact key count ref
    (hand_back key (\<lambda>c. set_count (max (count c - 1) 0) c) (map ref (filter (\<lambda>r. who r = t \<and> Q r) rs)) cs)
    (filter (\<lambda>r. \<not> (who r = t \<and> Q r)) rs)"
proof -
  let ?gone = "map ref (filter (\<lambda>r. who r = t \<and> Q r) rs)"
  let ?n = "\<lambda>k. if k \<in> set ?gone then 1 else (0 :: int)"
  have "counts_exact key count ref
      (map (\<lambda>c. if ?n (key c) = 0 then c else set_count (max (count c - ?n (key c)) 0) c) cs)
      (filter (\<lambda>r. \<not> (who r = t \<and> Q r)) rs)"
    by (rule exact_release [OF assms(1)]) (simp only: one_row_each [OF assms(2)])
  moreover have "map (\<lambda>c. if ?n (key c) = 0 then c else set_count (max (count c - ?n (key c)) 0) c) cs =
      hand_back key (\<lambda>c. set_count (max (count c - 1) 0) c) ?gone cs"
    unfolding hand_back_def by (rule map_cong) auto
  ultimately show ?thesis by simp
qed

end

interpretation memberc: counter gr_id gr_class_member_count "\<lambda>n g. g\<lparr>gr_class_member_count := n\<rparr>"
  by unfold_locales simp_all

interpretation enrollc: counter cc_id cc_enrollment_count "\<lambda>n c. c\<lparr>cc_enrollment_count := n\<rparr>"
  by unfold_locales simp_all

interpretation clubc: counter co_id co_course_membership_count "\<lambda>n c. c\<lparr>co_course_membership_count := n\<rparr>"
  by unfold_locales simp_all

interpretation signupc: counter ev_id ev_registration_count "\<lambda>n e. e\<lparr>ev_registration_count := n\<rparr>"
  by unfold_locales simp_all

text \<open>The live stints of a class, and the tables whose rows are unique for a course, or an event, and a person.\<close>

definition live_stints :: "member_row list \<Rightarrow> member_row list" where
  "live_stints ms = filter (\<lambda>m. cm_left_at m = None) ms"

definition members_ok :: "role_db \<Rightarrow> bool" where
  "members_ok db \<longleftrightarrow> counts_exact gr_id gr_class_member_count cm_class (rd_classes db) (live_stints (rd_class_members db)) \<and>
     distinct (map (\<lambda>m. (cm_class m, cm_user m)) (live_stints (rd_class_members db)))"

definition enrollments_ok :: "role_db \<Rightarrow> bool" where
  "enrollments_ok db \<longleftrightarrow> counts_exact cc_id cc_enrollment_count en_class_course (rd_class_courses db) (rd_enrollments db) \<and>
     distinct (map (\<lambda>e. (en_class_course e, en_user e)) (rd_enrollments db))"

definition memberships_ok :: "role_db \<Rightarrow> bool" where
  "memberships_ok db \<longleftrightarrow> counts_exact co_id co_course_membership_count ms_course (rd_courses db) (rd_memberships db) \<and>
     distinct (map (\<lambda>m. (ms_course m, ms_user m)) (rd_memberships db))"

definition signups_ok :: "role_db \<Rightarrow> bool" where
  "signups_ok db \<longleftrightarrow> counts_exact ev_id ev_registration_count rg_event (rd_events db) (rd_registrations db) \<and>
     distinct (map (\<lambda>r. (rg_event r, rg_user r)) (rd_registrations db))"

definition seats_exact :: "role_db \<Rightarrow> bool" where
  "seats_exact db \<longleftrightarrow> members_ok db \<and> enrollments_ok db \<and> memberships_ok db \<and> signups_ok db"

lemmas seats_defs = members_ok_def enrollments_ok_def memberships_ok_def signups_ok_def

lemma live_stints_left:
  "live_stints (map (\<lambda>m. if cm_user m = t \<and> cm_left_at m = None then m\<lparr>cm_left_at := Some now\<rparr> else m) ms) =
   filter (\<lambda>m. \<not> (cm_user m = t \<and> True)) (live_stints ms)"
  by (induction ms) (auto simp: live_stints_def)

lemma filter_live: "filter (\<lambda>m. cm_user m = t \<and> cm_left_at m = None) ms = filter (\<lambda>m. cm_user m = t \<and> True) (live_stints ms)"
  by (induction ms) (auto simp: live_stints_def)

lemma shed_student_seats:
  assumes "seats_exact db"
  shows "seats_exact (shed_student now t db)"
proof -
  have "members_ok (shed_student now t db)"
    using assms memberc.exact_hand_back [of cm_class "rd_classes db" "live_stints (rd_class_members db)" cm_user t "\<lambda>_. True"]
    by (simp add: seats_exact_def members_ok_def shed_student_def Let_def live_stints_left filter_live distinct_map_filter)
  moreover have "enrollments_ok (shed_student now t db)"
    using assms enrollc.exact_hand_back [of en_class_course "rd_class_courses db" "rd_enrollments db" en_user t "\<lambda>_. True"]
    by (simp add: seats_exact_def enrollments_ok_def shed_student_def Let_def distinct_map_filter)
  moreover have "memberships_ok (shed_student now t db)"
    using assms clubc.exact_hand_back [of ms_course "rd_courses db" "rd_memberships db" ms_user t "\<lambda>_. True"]
    by (simp add: seats_exact_def memberships_ok_def shed_student_def Let_def distinct_map_filter)
  moreover have "signups_ok (shed_student now t db)"
    using assms by (simp add: seats_exact_def signups_ok_def shed_student_def Let_def)
  ultimately show ?thesis by (simp add: seats_exact_def)
qed

text \<open>A sign-up whose event is gone is counted nowhere.\<close>

lemma shed_signups_seats:
  assumes "seats_exact db"
  shows "seats_exact (shed_signups now t db)"
proof -
  let ?lost = "\<lambda>r. rg_user r = t \<and> find_row ev_id (rd_events db) (rg_event r) = None"
  let ?standing = "filter (\<lambda>r. \<not> ?lost r) (rd_registrations db)"
  let ?Q = "\<lambda>r. case find_row ev_id (rd_events db) (rg_event r) of None \<Rightarrow> False | Some e \<Rightarrow> \<not> frozen_list now e"
  have ok: "counts_exact ev_id ev_registration_count rg_event (rd_events db) (rd_registrations db)"
    "distinct (map (\<lambda>r. (rg_event r, rg_user r)) (rd_registrations db))"
    using assms by (simp_all add: seats_exact_def signups_ok_def)
  have refs: "refs_to rg_event (ev_id e) ?standing = refs_to rg_event (ev_id e) (rd_registrations db)" if "e \<in> set (rd_events db)" for e
    by (rule refs_to_filter_iff) (use that find_row_None_iff [of ev_id "rd_events db"] in auto)
  have standing: "counts_exact ev_id ev_registration_count rg_event (rd_events db) ?standing"
    "distinct (map (\<lambda>r. (rg_event r, rg_user r)) ?standing)"
    using ok refs by (simp_all add: counts_exact_def distinct_map_filter)
  have "signups_ok (shed_signups now t db)"
    using signupc.exact_hand_back [OF standing, of t ?Q] standing(2)
    unfolding signups_ok_def shed_signups_def Let_def by (simp add: distinct_map_filter del: filter_filter)
  then show ?thesis using assms by (simp add: seats_exact_def members_ok_def enrollments_ok_def memberships_ok_def shed_signups_def Let_def)
qed

lemma shed_boards_seats: "seats_exact db \<Longrightarrow> seats_exact (shed_boards now t db)"
  by (simp add: seats_exact_def seats_defs shed_boards_def)

lemma shed_teaching_seats: "seats_exact db \<Longrightarrow> seats_exact (shed_teaching t db)"
  by (auto simp: seats_exact_def seats_defs shed_teaching_def Let_def counts_exact_def)

section \<open>The cascade\<close>

lemma cascade_refused: "set_role_cascade db now t r = (db', Inl e) \<Longrightarrow> db' = db"
  using run_tx_Inl [of "cascade_in now t r" db e] by (simp add: set_role_cascade_def)

text \<open>The successful cascade, arm by arm.\<close>

lemma cascade_shape:
  assumes "set_role_cascade db now t r = (db', Inr x)"
  obtains y db1 where "find_row us_id (rd_users db) t = Some y" "us_role y = Admin \<Longrightarrow> r \<noteq> Admin \<Longrightarrow>
      \<exists>z \<in> set (rd_users db). us_role z = Admin \<and> us_id z \<noteq> t"
    "db1 = db\<lparr>rd_users := on_row us_id t (write_role r) (rd_users db)\<rparr>" "fst x = write_role r y"
    "r = Parent \<Longrightarrow> db' = shed_boards now t (shed_signups now t (shed_student now t db1))"
    "r \<noteq> Parent \<Longrightarrow> \<exists>db2. db2 = (if r \<noteq> Student then shed_student now t db1 else db1) \<and>
      db' = (if \<not> at_least r Teacher then shed_teaching t else (\<lambda>d. d)) (db2\<lparr>rd_parent_links := filter (\<lambda>l. fst l \<noteq> t) (rd_parent_links db2)\<rparr>)"
proof -
  from assms obtain y where y: "find_row us_id (rd_users db) t = Some y"
    "\<not> (us_role y = Admin \<and> r \<noteq> Admin \<and> length (filter (\<lambda>y. us_role y = Admin \<and> us_id y \<noteq> t) (rd_users db)) = 0)"
    unfolding set_role_cascade_def run_tx_Inr cascade_in_def
    by (auto simp: role_write_def split: sum.splits option.splits if_splits)
  have w: "role_write db t r = Some (db\<lparr>rd_users := on_row us_id t (write_role r) (rd_users db)\<rparr>, write_role r y)"
    using y by (auto simp: role_write_def)
  show thesis
    by (rule that [of y "db\<lparr>rd_users := on_row us_id t (write_role r) (rd_users db)\<rparr>"])
      (use assms y w in \<open>auto simp: set_role_cascade_def run_tx_Inr cascade_in_def Let_def filter_empty_conv
         split: sum.splits if_splits\<close>)
qed

lemma shed_users [simp]:
  "rd_users (shed_student now t db) = rd_users db" "rd_users (shed_signups now t db) = rd_users db"
  "rd_users (shed_boards now t db) = rd_users db" "rd_users (shed_teaching t db) = rd_users db"
  by (simp_all add: shed_student_def shed_signups_def shed_boards_def shed_teaching_def Let_def)

lemma cascade_users:
  assumes "set_role_cascade db now t r = (db', Inr x)"
  shows "rd_users db' = on_row us_id t (write_role r) (rd_users db)"
  using assms by (rule cascade_shape) (cases "r = Parent"; auto split: if_splits)

definition has_admin :: "role_db \<Rightarrow> bool" where
  "has_admin db \<longleftrightarrow> list_ex (\<lambda>x. us_role x = Admin) (rd_users db)"

lemma cascade_keeps_admin:
  assumes "keyed us_id (rd_users db)" "has_admin db" "set_role_cascade db now t r = (db', res)"
  shows "keyed us_id (rd_users db') \<and> has_admin db'"
proof (cases res)
  case Inl
  then show ?thesis using assms cascade_refused by blast
next
  case (Inr x)
  note ran = assms(3) [unfolded Inr]
  have users: "rd_users db' = on_row us_id t (write_role r) (rd_users db)" by (rule cascade_users [OF ran])
  from ran obtain y where y: "find_row us_id (rd_users db) t = Some y"
    "us_role y = Admin \<Longrightarrow> r \<noteq> Admin \<Longrightarrow> \<exists>z \<in> set (rd_users db). us_role z = Admin \<and> us_id z \<noteq> t"
    by (rule cascade_shape) blast
  obtain a where a: "a \<in> set (rd_users db)" "us_role a = Admin" using assms(2) by (auto simp: has_admin_def list_ex_iff)
  have "\<exists>z \<in> set (rd_users db). us_role (if us_id z = t then write_role r z else z) = Admin"
  proof (cases "us_id a = t \<and> r \<noteq> Admin")
    case True
    then have "a = y" using keyed_find_row [OF assms(1) a(1)] y(1) by simp
    then obtain z where "z \<in> set (rd_users db)" "us_role z = Admin" "us_id z \<noteq> t" using y(2) a(2) True by blast
    then show ?thesis by (auto intro!: bexI [of _ z])
  next
    case False
    then show ?thesis using a by (intro bexI [of _ a]) (auto simp: write_role_def)
  qed
  then have "has_admin db'" unfolding has_admin_def users on_row_def list_ex_iff set_map by blast
  moreover have "keyed us_id (rd_users db')" unfolding users using assms(1) by (simp add: keyed_on_row write_role_def)
  ultimately show ?thesis by blast
qed

text \<open>Any number of role changes, in any order and of any account, the admins' own included.\<close>

definition after_changes :: "role_db \<Rightarrow> (int \<times> ustr \<times> role) list \<Rightarrow> role_db" where
  "after_changes db changes = foldl (\<lambda>d (now, t, r). fst (set_role_cascade d now t r)) db changes"

lemma after_changes_Nil [simp]: "after_changes db [] = db"
  by (simp add: after_changes_def)

lemma after_changes_Cons: "after_changes db ((now, t, r) # cs) = after_changes (fst (set_role_cascade db now t r)) cs"
  by (simp add: after_changes_def)

text \<open>
  C12. Admin floor.  However many role changes are made, and whoever they name, a school that has an admin
  keeps one: the change that would lower the last one is refused.
\<close>

theorem school_keeps_an_admin:
  assumes "keyed us_id (rd_users db)" "has_admin db"
  shows "has_admin (after_changes db changes)"
  using assms
proof (induction changes arbitrary: db)
  case (Cons c cs)
  obtain now t r where c: "c = (now, t, r)" by (cases c)
  obtain d res where d: "set_role_cascade db now t r = (d, res)" by (cases "set_role_cascade db now t r")
  show ?case using Cons.IH cascade_keeps_admin [OF Cons.prems d] by (simp add: c d after_changes_Cons)
qed simp

definition school0 :: role_db where
  "school0 = \<lparr>rd_users = [\<lparr>us_id = [1], us_role = Admin, us_student_number = None\<rparr>, \<lparr>us_id = [2], us_role = Teacher, us_student_number = None\<rparr>],
     rd_class_members = [], rd_classes = [\<lparr>gr_id = [5], gr_grade_level = 9, gr_teacher = Some [2], gr_class_member_count = 0, gr_class_course_count = 0\<rparr>],
     rd_enrollments = [], rd_class_courses = [], rd_memberships = [],
     rd_courses = [], rd_parent_links = [], rd_registrations = [], rd_events = [], rd_boards = [], rd_board_participants = [],
     rd_class_course_teachers = [([6], [2])],
     rd_slots = [slot_row [7] [2] None None 0 (100, 200)], rd_appointments = [], rd_blueprints = [], rd_offerings = []\<rparr>"

theorem school_keeps_an_admin_witness:
  "has_admin (after_changes school0 [(1, [1], Student), (2, [2], Admin), (3, [1], Parent), (4, [2], Teacher)])"
  by (rule school_keeps_an_admin) (simp_all add: school0_def has_admin_def keyed_def)

lemma cascade_seats:
  assumes "seats_exact db" "set_role_cascade db now t r = (d, res)"
  shows "seats_exact d"
proof (cases res)
  case Inl
  then show ?thesis using assms cascade_refused by blast
next
  case (Inr x)
  from assms(2) [unfolded Inr] show ?thesis
  proof (rule cascade_shape)
    fix db1 assume db1: "db1 = db\<lparr>rd_users := on_row us_id t (write_role r) (rd_users db)\<rparr>"
      and p: "r = Parent \<Longrightarrow> d = shed_boards now t (shed_signups now t (shed_student now t db1))"
      and other: "r \<noteq> Parent \<Longrightarrow> \<exists>db2. db2 = (if r \<noteq> Student then shed_student now t db1 else db1) \<and>
        d = (if \<not> at_least r Teacher then shed_teaching t else (\<lambda>d. d)) (db2\<lparr>rd_parent_links := filter (\<lambda>l. fst l \<noteq> t) (rd_parent_links db2)\<rparr>)"
    have "seats_exact db1" using assms(1) by (simp add: db1 seats_exact_def seats_defs)
    moreover have "seats_exact (e\<lparr>rd_parent_links := ls\<rparr>) = seats_exact e" for e ls
      by (simp add: seats_exact_def seats_defs)
    ultimately show ?thesis
      using p other by (cases "r = Parent") (auto simp: shed_boards_seats shed_signups_seats shed_student_seats shed_teaching_seats split: if_splits)
  qed
qed

text \<open>
  C13. Role changes and counters.  A change of role never leaves a seat counter wrong: if every class counts
  its live members, every course instance its enrollments, every club its members and every event its
  sign-ups, they still do after any number of changes, frozen sign-up lists included.
\<close>

theorem role_change_keeps_seats:
  assumes "seats_exact db"
  shows "seats_exact (after_changes db changes)"
  using assms
proof (induction changes arbitrary: db)
  case (Cons c cs)
  obtain now t r where c: "c = (now, t, r)" by (cases c)
  obtain d res where d: "set_role_cascade db now t r = (d, res)" by (cases "set_role_cascade db now t r")
  show ?case using Cons.IH cascade_seats [OF Cons.prems d] by (simp add: c d after_changes_Cons)
qed simp

theorem role_change_keeps_seats_witness:
  "seats_exact (after_changes school0 [(1, [2], Parent), (2, [1], Student)])"
  by (rule role_change_keeps_seats)
    (simp add: school0_def seats_exact_def seats_defs live_stints_def counts_exact_def)

text \<open>
  Demotion to student.  An account lowered below teacher, to any role but parent, is left with no course
  seat, no class of its own and no calendar, and nobody is left waiting on it: every booking that sat on
  its slots is settled and names no slot.
\<close>

theorem demotion_sheds_teaching:
  assumes "set_role_cascade db now t r = (db', Inr x)" "\<not> at_least r Teacher" "r \<noteq> Parent"
    "keyed sl_id (rd_slots db)"
  shows "t \<notin> snd ` set (rd_class_course_teachers db') \<and> Some t \<notin> gr_teacher ` set (rd_classes db') \<and>
    t \<notin> sl_teacher ` set (rd_slots db') \<and>
    rd_appointments db' = map (\<lambda>a. if list_ex (\<lambda>s. sl_teacher s = t \<and> ap_slot a = Some (sl_id s)) (rd_slots db)
      then (if is_live (ap_status a) then a\<lparr>ap_status := Cancelled, ap_cancelled_by := Some t,
              ap_cancel_reason := Some (u ''the teacher no longer holds a teaching role'')\<rparr> else a)\<lparr>ap_slot := None\<rparr>
      else a) (rd_appointments db)"
  using assms(1)
proof (rule cascade_shape)
  fix db1 assume db1: "db1 = db\<lparr>rd_users := on_row us_id t (write_role r) (rd_users db)\<rparr>"
    and arm: "r \<noteq> Parent \<Longrightarrow> \<exists>db2. db2 = (if r \<noteq> Student then shed_student now t db1 else db1) \<and>
      db' = (if \<not> at_least r Teacher then shed_teaching t else (\<lambda>d. d)) (db2\<lparr>rd_parent_links := filter (\<lambda>l. fst l \<noteq> t) (rd_parent_links db2)\<rparr>)"
  from arm [OF assms(3)] assms(2) obtain db2 where db2: "db2 = (if r \<noteq> Student then shed_student now t db1 else db1)"
    and db': "db' = shed_teaching t (db2\<lparr>rd_parent_links := filter (\<lambda>l. fst l \<noteq> t) (rd_parent_links db2)\<rparr>)" by auto
  have "rd_slots db2 = rd_slots db" "rd_appointments db2 = rd_appointments db"
    by (simp_all add: db2 db1 shed_student_def Let_def)
  then have slots: "rd_slots db' = filter (\<lambda>s. sl_teacher s \<noteq> t) (rd_slots db)"
    and apps: "rd_appointments db' = map (\<lambda>a. forget_slots (filter (\<lambda>s. sl_teacher s = t) (rd_slots db)) (withdraw_booking (calendar_of db) t a)) (rd_appointments db)"
    by (simp_all add: db' shed_teaching_def Let_def withdraw_calendar_def calendar_of_def withdraw_booking_def comp_def)
  have "forget_slots (filter (\<lambda>s. sl_teacher s = t) (rd_slots db)) (withdraw_booking (calendar_of db) t a) =
    (if list_ex (\<lambda>s. sl_teacher s = t \<and> ap_slot a = Some (sl_id s)) (rd_slots db)
      then (if is_live (ap_status a) then a\<lparr>ap_status := Cancelled, ap_cancelled_by := Some t,
              ap_cancel_reason := Some (u ''the teacher no longer holds a teaching role'')\<rparr> else a)\<lparr>ap_slot := None\<rparr>
      else a)" for a
    by (auto simp: forget_slots_def withdraw_booking_def calendar_of_def list_ex_iff)
  then show ?thesis unfolding apps slots by (auto simp: db' shed_teaching_def Let_def)
qed

text \<open>
  C14. Demotion to parent.  The arm for parents returns before the arm for teachers is reached: a teacher,
  manager or admin who is made a parent keeps every course seat, every class they are the teacher of and
  the whole published calendar, live bookings included.
\<close>

theorem parent_keeps_teaching:
  assumes "set_role_cascade db now t Parent = (db', Inr x)"
  shows "rd_class_course_teachers db' = rd_class_course_teachers db \<and>
    map gr_teacher (rd_classes db') = map gr_teacher (rd_classes db) \<and>
    rd_slots db' = rd_slots db \<and> rd_appointments db' = rd_appointments db \<and> us_role (fst x) = Parent"
  using assms
  by (rule cascade_shape)
    (simp add: shed_student_def shed_signups_def shed_boards_def Let_def hand_back_def comp_def if_distrib write_role_def cong: if_cong)

theorem parent_keeps_teaching_witness:
  "rd_class_course_teachers (fst (set_role_cascade school0 9 [2] Parent)) = [([6], [2])] \<and>
   map gr_teacher (rd_classes (fst (set_role_cascade school0 9 [2] Parent))) = [Some [2]] \<and>
   map sl_teacher (rd_slots (fst (set_role_cascade school0 9 [2] Parent))) = [[2]]"
proof -
  obtain x where "set_role_cascade school0 9 [2] Parent = (fst (set_role_cascade school0 9 [2] Parent), Inr x)"
    by (simp add: set_role_cascade_def run_tx_def cascade_in_def admin_floor_def role_write_def school0_def find_row_def Let_def)
  from parent_keeps_teaching [OF this] show ?thesis by (simp add: school0_def slot_row_def)
qed

theorem demotion_sheds_teaching_witness:
  "rd_class_course_teachers (fst (set_role_cascade school0 9 [2] Student)) = [] \<and>
   map gr_teacher (rd_classes (fst (set_role_cascade school0 9 [2] Student))) = [None] \<and>
   [2] \<notin> sl_teacher ` set (rd_slots (fst (set_role_cascade school0 9 [2] Student)))"
proof -
  obtain d x where d: "set_role_cascade school0 9 [2] Student = (d, Inr x)"
      "rd_class_course_teachers d = []" "map gr_teacher (rd_classes d) = [None]"
    by (simp add: set_role_cascade_def run_tx_def cascade_in_def admin_floor_def role_write_def school0_def find_row_def Let_def
        at_least_def role_order shed_teaching_def on_row_def)
  have "\<not> at_least Student Teacher" "keyed sl_id (rd_slots school0)"
    by (simp_all add: at_least_def role_order school0_def keyed_def)
  from demotion_sheds_teaching [OF d(1) this(1) _ this(2)] show ?thesis using d by simp
qed

end
