(* ===== verification/Class_Roster.thy ===== *)
theory Class_Roster
  imports Class_Pump Role_Change_Properties
begin

text \<open>
  The roster's promises over every interleaving of joining, leaving, attaching, detaching, enrolling by
  hand, clubs and changes of role: the counters equal the rows they count and stay within their ceilings,
  a tagged enrollment belongs to a student who is in the class that tagged it, and, as long as nobody is
  taken out of a course by hand, every student of a class is enrolled in every course of it.
\<close>

interpretation gcourse: counter gr_id gr_class_course_count "\<lambda>n g. g\<lparr>gr_class_course_count := n\<rparr>"
  by unfold_locales simp_all

interpretation ccourse: counter co_id co_class_course_count "\<lambda>n c. c\<lparr>co_class_course_count := n\<rparr>"
  by unfold_locales simp_all

section \<open>The invariant\<close>

text \<open>An instance without its counter: its id, its class and its course.\<close>

definition face :: "instance_row \<Rightarrow> ustr \<times> ustr \<times> ustr" where
  "face i = (cc_id i, cc_class i, cc_course i)"

definition faces :: "role_db \<Rightarrow> (ustr \<times> ustr \<times> ustr) list" where
  "faces db = map face (rd_class_courses db)"

definition courses_exact :: "role_db \<Rightarrow> bool" where
  "courses_exact db \<longleftrightarrow> counts_exact gr_id gr_class_course_count (\<lambda>f. fst (snd f)) (rd_classes db) (faces db) \<and>
     counts_exact co_id co_class_course_count (\<lambda>f. snd (snd f)) (rd_courses db) (faces db)"

definition caps_ok :: "role_db \<Rightarrow> bool" where
  "caps_ok db \<longleftrightarrow> keyed gr_id (rd_classes db) \<and> (\<forall>g \<in> set (rd_classes db). gr_class_member_count g \<le> MAX_CLASS_MEMBERS \<and> gr_class_course_count g \<le> MAX_CLASS_COURSES)"

definition instances_ok :: "role_db \<Rightarrow> bool" where
  "instances_ok db \<longleftrightarrow> distinct (map fst (faces db)) \<and> (\<forall>e \<in> set (rd_enrollments db). en_class_course e \<in> fst ` set (faces db))"

definition tags_ok :: "role_db \<Rightarrow> bool" where
  "tags_ok db \<longleftrightarrow> (\<forall>e \<in> set (rd_enrollments db). \<forall>c. en_source e = Some c \<longrightarrow>
     live_member db c (en_user e) \<and> (\<exists>k. (en_class_course e, c, k) \<in> set (faces db)))"

definition is_student :: "role_db \<Rightarrow> ustr \<Rightarrow> bool" where
  "is_student db x \<longleftrightarrow> map_option us_role (find_row us_id (rd_users db) x) = Some Student"

definition students_ok :: "role_db \<Rightarrow> bool" where
  "students_ok db \<longleftrightarrow> (\<forall>m \<in> set (live_stints (rd_class_members db)). is_student db (cm_user m)) \<and>
     (\<forall>e \<in> set (rd_enrollments db). is_student db (en_user e))"

definition roster_ok :: "role_db \<Rightarrow> bool" where
  "roster_ok db \<longleftrightarrow> seats_exact db \<and> courses_exact db \<and> caps_ok db \<and> instances_ok db \<and> tags_ok db \<and> students_ok db"

definition covered :: "role_db \<Rightarrow> bool" where
  "covered db \<longleftrightarrow> (\<forall>f \<in> set (faces db). \<forall>x. live_member db (fst (snd f)) x \<longrightarrow> enrolled_in db (fst f) x)"

lemma live_member_iff: "live_member db c x \<longleftrightarrow> (\<exists>m \<in> set (live_stints (rd_class_members db)). cm_class m = c \<and> cm_user m = x)"
  by (auto simp: live_member_def live_stints_def list_ex_iff)

lemma students_live: "students_ok db \<Longrightarrow> live_member db c x \<Longrightarrow> is_student db x"
  by (auto simp: students_ok_def live_member_iff)

section \<open>Enrolling\<close>

lemma enrolled_in_row: "enrolled_in (enroll_row db i x by s now) j y \<longleftrightarrow> enrolled_in db j y \<or> j = i \<and> y = x"
  by (auto simp: enrolled_in_def enroll_row_def)

lemma faces_row: "faces (enroll_row db i x by s now) = faces db"
  by (simp add: faces_def enroll_row_def on_row_def face_def)

lemma row_frame [simp]:
  "rd_users (enroll_row db i x by s now) = rd_users db" "rd_classes (enroll_row db i x by s now) = rd_classes db"
  "rd_class_members (enroll_row db i x by s now) = rd_class_members db" "rd_courses (enroll_row db i x by s now) = rd_courses db"
  "rd_memberships (enroll_row db i x by s now) = rd_memberships db" "rd_events (enroll_row db i x by s now) = rd_events db"
  "rd_registrations (enroll_row db i x by s now) = rd_registrations db"
  by (simp_all add: enroll_row_def)

lemma enroll_row_seats:
  assumes "enrollments_ok db" "\<not> enrolled_in db i x"
  shows "enrollments_ok (enroll_row db i x by s now)"
proof -
  let ?r = "\<lparr>en_class_course = i, en_user = x, en_enrolled_by = by, en_source = s, en_created_at = now\<rparr>"
  have "counts_exact cc_id cc_enrollment_count en_class_course
      (on_row cc_id i (\<lambda>c. c\<lparr>cc_enrollment_count := cc_enrollment_count c + 1\<rparr>) (rd_class_courses db)) (rd_enrollments db @ [?r])"
    by (rule enrollc.exact_claim) (use assms(1) in \<open>simp_all add: enrollments_ok_def\<close>)
  then show ?thesis using assms by (auto simp: enrollments_ok_def enroll_row_def enrolled_in_def list_ex_iff)
qed

lemma live_row [simp]: "live_member (enroll_row db i x by s now) c y = live_member db c y"
  by (simp add: live_member_def)

lemma student_row [simp]: "is_student (enroll_row db i x by s now) y = is_student db y"
  by (simp add: is_student_def)

lemma enroll_row_roster:
  assumes "roster_ok db" "\<not> enrolled_in db i x" "find_row cc_id (rd_class_courses db) i \<noteq> None" "is_student db x"
    and "\<And>c. s = Some c \<Longrightarrow> live_member db c x \<and> (\<exists>k. (i, c, k) \<in> set (faces db))"
  shows "roster_ok (enroll_row db i x by s now)"
proof -
  let ?d = "enroll_row db i x by s now"
  have "i \<in> fst ` set (faces db)"
    using assms(3) by (auto simp: find_row_None_iff faces_def face_def image_comp comp_def)
  then have "instances_ok ?d"
    using assms(1) unfolding roster_ok_def instances_ok_def faces_row by (simp add: enroll_row_def)
  moreover have "tags_ok ?d"
    using assms(1,5) unfolding roster_ok_def tags_ok_def faces_row by (auto simp: enroll_row_def) (auto simp: live_member_def)
  moreover have "students_ok ?d"
    using assms(1,4) by (auto simp: roster_ok_def students_ok_def is_student_def enroll_row_def)
  moreover have "enrollments_ok ?d" using assms(1,2) enroll_row_seats by (auto simp: roster_ok_def seats_exact_def)
  ultimately show ?thesis
    using assms(1) by (auto simp: roster_ok_def seats_exact_def members_ok_def memberships_ok_def signups_ok_def
        courses_exact_def caps_ok_def faces_row)
qed

text \<open>The pump itself: it cannot fail on instances that exist, keeps the invariant, adds rows only, and enrolls everybody it was asked to.\<close>

lemma enroll_pairs_roster:
  assumes "roster_ok db"
    and "\<And>i x. (i, x) \<in> set pairs \<Longrightarrow> live_member db cl x \<and> (\<exists>k. (i, cl, k) \<in> set (faces db))"
  shows "\<exists>db'. enroll_pairs now cl adm pairs db = Inr db' \<and> roster_ok db' \<and> faces db' = faces db \<and>
    rd_class_members db' = rd_class_members db \<and>
    (\<forall>i x. enrolled_in db' i x \<longleftrightarrow> enrolled_in db i x \<or> (i, x) \<in> set pairs)"
  using assms
proof (induction now cl adm pairs db rule: enroll_pairs.induct)
  case (2 now cl adm i x pairs db)
  note here = 2(4) [of i x, simplified]
  show ?case
  proof (cases "enrolled_in db i x")
    case True
    then show ?thesis using 2(1) [OF True 2(3)] 2(4) by fastforce
  next
    case False
    have found: "find_row cc_id (rd_class_courses db) i \<noteq> None"
      using here by (auto simp: find_row_None_iff faces_def face_def)
    let ?d = "enroll_row db i x adm (Some cl) now"
    have "roster_ok ?d"
      using 2(3) False found here by (intro enroll_row_roster) (auto simp: roster_ok_def intro: students_live)
    moreover have "live_member ?d cl y \<and> (\<exists>k. (j, cl, k) \<in> set (faces ?d))" if "(j, y) \<in> set pairs" for j y
      using 2(4) [of j y] that by (simp add: faces_row)
    ultimately have "\<exists>db'. enroll_pairs now cl adm pairs ?d = Inr db' \<and> roster_ok db' \<and> faces db' = faces ?d \<and>
        rd_class_members db' = rd_class_members ?d \<and>
        (\<forall>i x. enrolled_in db' i x \<longleftrightarrow> enrolled_in ?d i x \<or> (i, x) \<in> set pairs)"
      using 2(2) [OF False] found by blast
    then show ?thesis using False found by (auto simp: faces_row enrolled_in_row)
  qed
qed simp

section \<open>Every transaction keeps the roster\<close>

text \<open>What does not touch a table of the roster changes nothing of it.\<close>

lemma roster_cong:
  assumes "roster_ok db" "rd_users d = rd_users db" "rd_class_members d = rd_class_members db" "rd_classes d = rd_classes db"
    "rd_enrollments d = rd_enrollments db" "rd_class_courses d = rd_class_courses db" "rd_memberships d = rd_memberships db"
    "rd_courses d = rd_courses db" "rd_registrations d = rd_registrations db" "rd_events d = rd_events db"
  shows "roster_ok d"
  using assms by (simp add: roster_ok_def seats_exact_def seats_defs courses_exact_def caps_ok_def instances_ok_def tags_ok_def
      students_ok_def is_student_def live_member_def faces_def)

subsection \<open>Joining\<close>

lemma live_snoc: "live_stints (ms @ [m]) = live_stints ms @ (if cm_left_at m = None then [m] else [])"
  by (simp add: live_stints_def)

lemma joined_roster:
  assumes ok: "roster_ok db" and new: "\<not> live_member db c x" "is_student db x"
    and g: "find_row gr_id (rd_classes db) c = Some g" "gr_class_member_count g < MAX_CLASS_MEMBERS"
    and m: "cm_class m = c" "cm_user m = x" "cm_left_at m = None"
    and d: "d = db\<lparr>rd_classes := on_row gr_id c (\<lambda>g. g\<lparr>gr_class_member_count := gr_class_member_count g + 1\<rparr>) (rd_classes db),
      rd_class_members := rd_class_members db @ [m]\<rparr>"
  shows "roster_ok d"
proof -
  have "counts_exact gr_id gr_class_member_count cm_class
      (on_row gr_id c (\<lambda>g. g\<lparr>gr_class_member_count := gr_class_member_count g + 1\<rparr>) (rd_classes db))
      (live_stints (rd_class_members db) @ [m])"
    by (rule memberc.exact_claim) (use ok m in \<open>simp_all add: roster_ok_def seats_exact_def members_ok_def\<close>)
  then have "members_ok d"
    using ok new(1) m by (auto simp: members_ok_def d live_snoc roster_ok_def seats_exact_def live_member_iff)
  moreover have "caps_ok d"
  proof -
    have k: "keyed gr_id (rd_classes db)" using ok by (simp add: roster_ok_def caps_ok_def)
    then have "g' = g" if "g' \<in> set (rd_classes db)" "gr_id g' = c" for g' using keyed_find_row [OF k that(1)] that(2) g(1) by simp
    then show ?thesis using ok g(2) k unfolding caps_ok_def roster_ok_def d by (auto simp: keyed_on_row dest!: set_on_row)
  qed
  moreover have "courses_exact d"
    using ok by (auto simp: roster_ok_def courses_exact_def d faces_def intro!: counts_exact_on_row)
  moreover have "tags_ok d" using ok by (auto simp: roster_ok_def tags_ok_def d faces_def live_member_def)
  moreover have "students_ok d" using ok new(2) m by (auto simp: roster_ok_def students_ok_def d live_snoc is_student_def)
  moreover have "instances_ok d" using ok by (simp add: roster_ok_def instances_ok_def d faces_def)
  moreover have "enrollments_ok d \<and> memberships_ok d \<and> signups_ok d"
    using ok by (simp add: roster_ok_def seats_exact_def enrollments_ok_def memberships_ok_def signups_ok_def d)
  ultimately show ?thesis by (simp add: roster_ok_def seats_exact_def)
qed

text \<open>A membership that was made, in full.\<close>

lemma add_member_shape:
  assumes "add_member_in fresh now c x adm src db = (db', r)"
  shows "db' = db \<and> (\<nexists>v. r = Inr (AMade v)) \<or>
    (\<exists>g m d. \<not> live_member db c x \<and> is_student db x \<and> find_row gr_id (rd_classes db) c = Some g \<and>
      gr_class_member_count g < MAX_CLASS_MEMBERS \<and> cm_class m = c \<and> cm_user m = x \<and> cm_left_at m = None \<and>
      d = db\<lparr>rd_classes := on_row gr_id c (\<lambda>g. g\<lparr>gr_class_member_count := gr_class_member_count g + 1\<rparr>) (rd_classes db),
        rd_class_members := rd_class_members db @ [m]\<rparr> \<and>
      (case enroll_pairs now c adm (map (\<lambda>i. (i, x)) (map cc_id (filter (\<lambda>i. cc_class i = c) (rd_class_courses db)))) d of
         Inl e \<Rightarrow> db' = d \<and> r = Inl e | Inr d' \<Rightarrow> db' = d' \<and> r = Inr (AMade m)))"
proof -
  let ?m = "\<lparr>cm_id = fresh, cm_class = c, cm_user = x, cm_added_by = adm, cm_joined_at = now, cm_left_at = None, cm_source_class_group = src\<rparr>"
  let ?d = "db\<lparr>rd_classes := on_row gr_id c (\<lambda>g. g\<lparr>gr_class_member_count := gr_class_member_count g + 1\<rparr>) (rd_classes db),
        rd_class_members := rd_class_members db @ [?m]\<rparr>"
  obtain e s k where ev: "early_verdicts db c AxMember (PUser x) None = (e, s, k)" by (metis prod_cases3)
  show ?thesis
  proof (cases e)
    case (Some y)
    then have "db' = db" "r = Inr (refusal_of y)" using assms ev by (simp_all add: add_member_in_def)
    then show ?thesis by (cases y) simp_all
  next
    case None
    then have pre: "\<not> live_member db c x" "is_student db x"
      using ev by (auto simp: early_verdicts_def pivot_held_def is_student_def Let_def split: if_splits)
    show ?thesis
    proof (cases "find_row gr_id (rd_classes db) c")
      case (Some g)
      show ?thesis
      proof (cases "gr_class_member_count g < MAX_CLASS_MEMBERS")
        case True
        then show ?thesis
          using assms ev None Some pre
          by (intro disjI2 exI [of _ g] exI [of _ ?m] exI [of _ ?d]) (auto simp: add_member_in_def Let_def split: sum.splits)
      qed (use assms ev None Some in \<open>auto simp: add_member_in_def\<close>)
    qed (use assms ev None in \<open>auto simp: add_member_in_def\<close>)
  qed
qed

lemma instance_of_class:
  "(i, x) \<in> set (map (\<lambda>i. (i, y)) (map cc_id (filter (\<lambda>i. cc_class i = c) (rd_class_courses db)))) \<longleftrightarrow>
   x = y \<and> (\<exists>k. (i, c, k) \<in> set (faces db))"
  by (auto simp: faces_def face_def image_iff)

text \<open>Joining never fails half way: either nothing changes or the new member is enrolled throughout the class.\<close>

lemma add_member_roster:
  assumes "roster_ok db" "add_member_sourced db fresh now c x adm src = (db', r)"
  shows "roster_ok db' \<and> (covered db \<longrightarrow> covered db') \<and>
    (\<forall>m. r = Inr (AMade m) \<longrightarrow> live_member db' c x \<and> (\<forall>i k. (i, c, k) \<in> set (faces db') \<longrightarrow> enrolled_in db' i x))"
proof -
  obtain d0 r0 where t: "add_member_in fresh now c x adm src db = (d0, r0)" by (cases "add_member_in fresh now c x adm src db")
  have abort: "map_sweep_abort s = Inr (AMade m) \<longleftrightarrow> s = Inr (AMade m)" for s :: "member_row attached aresult" and m
    by (auto simp: map_sweep_abort_def split: sum.splits app_error.splits)
  from add_member_shape [OF t] show ?thesis
  proof (elim disjE exE conjE)
    assume "d0 = db" "\<nexists>v. r0 = Inr (AMade v)"
    then show ?thesis using assms t abort by (auto simp: add_member_sourced_def run_tx_def split: sum.splits)
  next
    fix g m d assume new: "\<not> live_member db c x" "is_student db x" and g: "find_row gr_id (rd_classes db) c = Some g" "gr_class_member_count g < MAX_CLASS_MEMBERS"
      and m: "cm_class m = c" "cm_user m = x" "cm_left_at m = None"
      and d: "d = db\<lparr>rd_classes := on_row gr_id c (\<lambda>g. g\<lparr>gr_class_member_count := gr_class_member_count g + 1\<rparr>) (rd_classes db),
        rd_class_members := rd_class_members db @ [m]\<rparr>"
      and run: "case enroll_pairs now c adm (map (\<lambda>i. (i, x)) (map cc_id (filter (\<lambda>i. cc_class i = c) (rd_class_courses db)))) d of
         Inl e \<Rightarrow> d0 = d \<and> r0 = Inl e | Inr d' \<Rightarrow> d0 = d' \<and> r0 = Inr (AMade m)"
    have ok: "roster_ok d" by (rule joined_roster [OF assms(1) new g m d])
    have f: "faces d = faces db" by (simp add: d faces_def)
    have live: "live_member d c' y \<longleftrightarrow> live_member db c' y \<or> c' = c \<and> y = x" for c' y
      using m by (auto simp: live_member_iff d live_snoc)
    from enroll_pairs_roster [OF ok, where cl = c and now = now and adm = adm and pairs = "map (\<lambda>i. (i, x)) (map cc_id (filter (\<lambda>i. cc_class i = c) (rd_class_courses db)))"]
    obtain d' where d': "enroll_pairs now c adm (map (\<lambda>i. (i, x)) (map cc_id (filter (\<lambda>i. cc_class i = c) (rd_class_courses db)))) d = Inr d'"
      "roster_ok d'" "faces d' = faces d" "rd_class_members d' = rd_class_members d"
      "\<And>i y. enrolled_in d' i y \<longleftrightarrow> enrolled_in d i y \<or> y = x \<and> (\<exists>k. (i, c, k) \<in> set (faces db))"
      unfolding instance_of_class by (auto simp: live f)
    then have fin: "d0 = d'" "r0 = Inr (AMade m)" using run by simp_all
    then have "db' = d'" using assms(2) t by (auto simp: add_member_sourced_def run_tx_def)
    moreover have "enrolled_in d i y = enrolled_in db i y" for i y by (simp add: enrolled_in_def d)
    moreover have "live_member d' c' y = live_member d c' y" for c' y by (simp add: live_member_def d'(4))
    ultimately show ?thesis using d' f live by (auto simp: covered_def)
  qed
qed

subsection \<open>Attaching\<close>

lemma attached_roster:
  assumes ok: "roster_ok db" and fresh: "fresh \<notin> fst ` set (faces db)"
    and g: "find_row gr_id (rd_classes db) c = Some g" "gr_class_course_count g < MAX_CLASS_COURSES"
    and row: "face row = (fresh, c, k)" "cc_enrollment_count row = 0"
    and d: "d = db\<lparr>rd_offerings := os, rd_classes := on_row gr_id c (\<lambda>g. g\<lparr>gr_class_course_count := gr_class_course_count g + 1\<rparr>) (rd_classes db),
      rd_class_courses := rd_class_courses db @ [row],
      rd_courses := on_row co_id k (\<lambda>c. c\<lparr>co_class_course_count := co_class_course_count c + 1\<rparr>) (rd_courses db)\<rparr>"
  shows "roster_ok d" "faces d = faces db @ [(fresh, c, k)]"
proof -
  show f: "faces d = faces db @ [(fresh, c, k)]" by (simp add: faces_def d row)
  have cex: "counts_exact gr_id gr_class_course_count (\<lambda>f. fst (snd f)) (rd_classes db) (faces db)"
    "counts_exact co_id co_class_course_count (\<lambda>f. snd (snd f)) (rd_courses db) (faces db)"
    using ok by (simp_all add: roster_ok_def courses_exact_def)
  have "courses_exact d"
    using gcourse.exact_claim [OF cex(1), of "(fresh, c, k)" c] ccourse.exact_claim [OF cex(2), of "(fresh, c, k)" k]
    unfolding courses_exact_def f by (simp add: d)
  moreover have "caps_ok d"
  proof -
    have kd: "keyed gr_id (rd_classes db)" using ok by (simp add: roster_ok_def caps_ok_def)
    then have "g' = g" if "g' \<in> set (rd_classes db)" "gr_id g' = c" for g' using keyed_find_row [OF kd that(1)] that(2) g(1) by simp
    then show ?thesis using ok g(2) kd unfolding caps_ok_def roster_ok_def d by (auto simp: keyed_on_row dest!: set_on_row)
  qed
  moreover have "instances_ok d" using ok fresh by (auto simp: roster_ok_def instances_ok_def f) (auto simp: d)
  moreover have "tags_ok d" using ok unfolding roster_ok_def tags_ok_def f by (auto simp: d live_member_def)
  moreover have "students_ok d" using ok by (simp add: roster_ok_def students_ok_def d is_student_def)
  moreover have "members_ok d"
    using ok by (auto simp: roster_ok_def seats_exact_def members_ok_def d intro!: counts_exact_on_row)
  moreover have "enrollments_ok d"
  proof -
    have "cc_id row \<notin> en_class_course ` set (rd_enrollments db)"
      using ok fresh row(1) by (auto simp: roster_ok_def instances_ok_def face_def)
    then show ?thesis
      using ok row(2) by (auto simp: roster_ok_def seats_exact_def enrollments_ok_def d intro!: enrollc.exact_new)
  qed
  moreover have "memberships_ok d"
    using ok by (auto simp: roster_ok_def seats_exact_def memberships_ok_def d intro!: counts_exact_on_row)
  moreover have "signups_ok d" using ok by (simp add: roster_ok_def seats_exact_def signups_ok_def d)
  ultimately show "roster_ok d" by (simp add: roster_ok_def seats_exact_def)
qed

lemma attach_shape:
  assumes "attach_course_in fresh fo now c k adm src db = (db', r)"
  shows "(\<exists>os. db' = db\<lparr>rd_offerings := os\<rparr>) \<and> (\<nexists>v. r = Inr (AMade v)) \<or>
    (\<exists>g row os d. find_row gr_id (rd_classes db) c = Some g \<and> gr_class_course_count g < MAX_CLASS_COURSES \<and>
      face row = (fresh, c, k) \<and> cc_enrollment_count row = 0 \<and>
      d = db\<lparr>rd_offerings := os, rd_classes := on_row gr_id c (\<lambda>g. g\<lparr>gr_class_course_count := gr_class_course_count g + 1\<rparr>) (rd_classes db),
        rd_class_courses := rd_class_courses db @ [row],
        rd_courses := on_row co_id k (\<lambda>c. c\<lparr>co_class_course_count := co_class_course_count c + 1\<rparr>) (rd_courses db)\<rparr> \<and>
      (case enroll_pairs now c adm (map (\<lambda>m. (fresh, m)) (map cm_user (filter (\<lambda>m. cm_class m = c \<and> cm_left_at m = None) (rd_class_members db)))) d of
         Inl e \<Rightarrow> db' = d \<and> r = Inl e | Inr d' \<Rightarrow> db' = d' \<and> (\<exists>v. r = Inr (AMade v))))"
proof -
  have self: "\<exists>os. db = db\<lparr>rd_offerings := os\<rparr>" by (rule exI [of _ "rd_offerings db"]) simp
  obtain e s kd where ev: "early_verdicts db c AxCourse (PCourse k) src = (e, s, kd)" by (metis prod_cases3)
  show ?thesis
  proof (cases e)
    case (Some y)
    then have "db' = db" "r = Inr (refusal_of y)" using assms ev by (simp_all add: attach_course_in_def)
    moreover have "(refusal_of y :: instance_row attached) \<noteq> AMade v" for v by (cases y) simp_all
    ultimately show ?thesis using self by (intro disjI1 conjI) simp_all
  next
    case None
    show ?thesis
    proof (cases "kd = None \<or> \<not> is_class_delivered (the kd) \<or> find_row gr_id (rd_classes db) c = None")
      case True
      then consider "kd = None" | kind where "kd = Some kind" "\<not> is_class_delivered kind"
        | kind where "kd = Some kind" "is_class_delivered kind" "find_row gr_id (rd_classes db) c = None"
        by (cases kd) auto
      then have "db = db' \<and> (\<nexists>v. r = Inr (AMade v))"
        using assms by cases (auto simp: attach_course_in_def ev None)
      then show ?thesis using self by (simp only: simp_thms)
    next
      case False
      then obtain kind g where kg: "kd = Some kind" "is_class_delivered kind" "find_row gr_id (rd_classes db) c = Some g" by auto
      obtain d1 off where o: "ensure_offering db fo k (gr_grade_level g) = (d1, off)" by (cases "ensure_offering db fo k (gr_grade_level g)")
      then obtain os where d1: "d1 = db\<lparr>rd_offerings := os\<rparr>"
        using self by (auto simp: ensure_offering_def split: option.splits)
      let ?row = "\<lparr>cc_id = fresh, cc_class = c, cc_course = k, cc_offering = off, cc_attached_by = adm, cc_source = s, cc_attached_at = now, cc_enrollment_count = 0\<rparr>"
      show ?thesis
      proof (cases "gr_class_course_count g < MAX_CLASS_COURSES")
        case True
        then show ?thesis
          using assms ev None kg o d1
          by (intro disjI2 exI [of _ g] exI [of _ ?row] exI [of _ os] exI, intro conjI)
            (auto simp: attach_course_in_def Let_def face_def split: sum.splits)
      next
        case False
        then have "db' = d1" "r = Inr AClassFull" using assms ev None kg o by (auto simp: attach_course_in_def)
        then show ?thesis using d1 by blast
      qed
    qed
  qed
qed

lemma member_of_class:
  "(i, x) \<in> set (map (\<lambda>m. (j, m)) (map cm_user (filter (\<lambda>m. cm_class m = c \<and> cm_left_at m = None) (rd_class_members db)))) \<longleftrightarrow>
   i = j \<and> live_member db c x"
  by (auto simp: live_member_def list_ex_iff)

lemma attach_roster:
  assumes "roster_ok db" "fresh \<notin> fst ` set (faces db)" "attach_course db fresh fo now c k adm src = (db', r)"
  shows "roster_ok db' \<and> (covered db \<longrightarrow> covered db') \<and>
    (\<forall>v. r = Inr (AMade v) \<longrightarrow> (fresh, c, k) \<in> set (faces db') \<and> (\<forall>x. live_member db' c x \<longrightarrow> enrolled_in db' fresh x))"
proof -
  obtain d0 r0 where t: "attach_course_in fresh fo now c k adm src db = (d0, r0)" by (cases "attach_course_in fresh fo now c k adm src db")
  have abort: "map_sweep_abort s = Inr (AMade m) \<longleftrightarrow> s = Inr (AMade m)" for s :: "instance_row attached aresult" and m
    by (auto simp: map_sweep_abort_def split: sum.splits app_error.splits)
  have same: "covered (db\<lparr>rd_offerings := os\<rparr>) = covered db" for os by (simp add: covered_def faces_def live_member_def enrolled_in_def)
  from attach_shape [OF t] show ?thesis
  proof (elim disjE exE conjE)
    fix os assume "d0 = db\<lparr>rd_offerings := os\<rparr>" "\<nexists>v. r0 = Inr (AMade v)"
    then show ?thesis using assms t abort roster_cong [OF assms(1), of "db\<lparr>rd_offerings := os\<rparr>"] same
      by (auto simp: attach_course_def run_tx_def split: sum.splits)
  next
    fix g row os d assume g: "find_row gr_id (rd_classes db) c = Some g" "gr_class_course_count g < MAX_CLASS_COURSES"
      and row: "face row = (fresh, c, k)" "cc_enrollment_count row = 0"
      and d: "d = db\<lparr>rd_offerings := os, rd_classes := on_row gr_id c (\<lambda>g. g\<lparr>gr_class_course_count := gr_class_course_count g + 1\<rparr>) (rd_classes db),
        rd_class_courses := rd_class_courses db @ [row],
        rd_courses := on_row co_id k (\<lambda>c. c\<lparr>co_class_course_count := co_class_course_count c + 1\<rparr>) (rd_courses db)\<rparr>"
      and run: "case enroll_pairs now c adm (map (\<lambda>m. (fresh, m)) (map cm_user (filter (\<lambda>m. cm_class m = c \<and> cm_left_at m = None) (rd_class_members db)))) d of
         Inl e \<Rightarrow> d0 = d \<and> r0 = Inl e | Inr d' \<Rightarrow> d0 = d' \<and> (\<exists>v. r0 = Inr (AMade v))"
    note ok = attached_roster [OF assms(1,2) g row d]
    have live: "live_member d c' y = live_member db c' y" for c' y by (simp add: live_member_def d)
    from enroll_pairs_roster [OF ok(1), where cl = c and now = now and adm = adm and pairs = "map (\<lambda>m. (fresh, m)) (map cm_user (filter (\<lambda>m. cm_class m = c \<and> cm_left_at m = None) (rd_class_members db)))"]
    obtain d' where d': "enroll_pairs now c adm (map (\<lambda>m. (fresh, m)) (map cm_user (filter (\<lambda>m. cm_class m = c \<and> cm_left_at m = None) (rd_class_members db)))) d = Inr d'"
      "roster_ok d'" "faces d' = faces d" "rd_class_members d' = rd_class_members d"
      "\<And>i y. enrolled_in d' i y \<longleftrightarrow> enrolled_in d i y \<or> i = fresh \<and> live_member db c y"
      unfolding member_of_class by (auto simp: live ok(2))
    then have "d0 = d'" "\<exists>v. r0 = Inr (AMade v)" using run by simp_all
    then have "db' = d'" using assms(3) t by (auto simp: attach_course_def run_tx_def)
    moreover have "enrolled_in d i y = enrolled_in db i y" for i y by (simp add: enrolled_in_def d)
    moreover have "live_member d' c' y = live_member db c' y" for c' y using live by (simp add: live_member_def d'(4))
    ultimately show ?thesis using d' ok(2) by (auto simp: covered_def)
  qed
qed

end
