(* ===== verification/Class_Shed.thy ===== *)
theory Class_Shed
  imports Class_Roster
begin

text \<open>
  The other half of the roster's transactions: leaving a class, detaching a course, enrolling and leaving by
  hand, clubs, teachers and changes of role.  Each keeps \<open>roster_ok\<close>, and all but the removal by hand keep every
  member of a class enrolled in every course of it.
\<close>

lemma distinct_one:
  assumes "distinct (map f xs)" "a \<in> f ` set xs"
  shows "length (filter (\<lambda>x. f x = a) xs) = 1"
  using assms
proof (induction xs)
  case (Cons y ys)
  then show ?case
    by (cases "f y = a") (auto simp: filter_empty_conv image_iff)
qed simp

section \<open>Leaving\<close>

lemma face_frame [simp]: "face (i\<lparr>cc_enrollment_count := n\<rparr>) = face i"
  by (simp add: face_def)

lemma release_rows:
  assumes "enrollments_ok db"
  shows "enrollments_ok (release i x db)"
    "rd_enrollments (release i x db) = filter (\<lambda>e. (en_class_course e, en_user e) \<noteq> (i, x)) (rd_enrollments db)"
    "faces (release i x db) = faces db"
proof -
  let ?P = "\<lambda>e. en_class_course e = i \<and> en_user e = x"
  show "rd_enrollments (release i x db) = filter (\<lambda>e. (en_class_course e, en_user e) \<noteq> (i, x)) (rd_enrollments db)"
    by (auto simp: release_def enrolled_in_def list_ex_iff intro!: filter_True [symmetric])
  show "faces (release i x db) = faces db" by (simp add: release_def faces_def on_row_def)
  show "enrollments_ok (release i x db)"
  proof (cases "enrolled_in db i x")
    case True
    then have "length (filter ?P (rd_enrollments db)) = 1"
      using assms distinct_one [of "\<lambda>e. (en_class_course e, en_user e)" "rd_enrollments db" "(i, x)"]
      by (force simp: enrollments_ok_def enrolled_in_def list_ex_iff image_iff)
    then show ?thesis
      using assms True enrollc.exact_release_one [of en_class_course "rd_class_courses db" "rd_enrollments db" ?P i 1]
      by (simp add: enrollments_ok_def release_def distinct_map_filter)
  qed (use assms in \<open>simp add: release_def\<close>)
qed

lemma release_frame [simp]:
  "rd_users (release i x db) = rd_users db" "rd_classes (release i x db) = rd_classes db"
  "rd_class_members (release i x db) = rd_class_members db" "rd_courses (release i x db) = rd_courses db"
  "rd_memberships (release i x db) = rd_memberships db" "rd_events (release i x db) = rd_events db"
  "rd_registrations (release i x db) = rd_registrations db"
  by (simp_all add: release_def)

definition release_all :: "(ustr \<times> ustr) list \<Rightarrow> role_db \<Rightarrow> role_db" where
  "release_all rows db = fold (\<lambda>(i, m). release i m) rows db"

lemma release_all_frame [simp]:
  "rd_users (release_all rows db) = rd_users db" "rd_classes (release_all rows db) = rd_classes db"
  "rd_class_members (release_all rows db) = rd_class_members db" "rd_courses (release_all rows db) = rd_courses db"
  "rd_memberships (release_all rows db) = rd_memberships db" "rd_events (release_all rows db) = rd_events db"
  "rd_registrations (release_all rows db) = rd_registrations db"
  by (induction rows arbitrary: db) (auto simp: release_all_def)

lemma release_all_rows:
  "enrollments_ok db \<Longrightarrow> enrollments_ok (release_all rows db) \<and> faces (release_all rows db) = faces db \<and>
    rd_enrollments (release_all rows db) = filter (\<lambda>e. (en_class_course e, en_user e) \<notin> set rows) (rd_enrollments db)"
proof (induction rows arbitrary: db)
  case (Cons p rows)
  obtain i x where p: "p = (i, x)" by (cases p)
  show ?case
    using Cons.IH [OF release_rows(1) [OF Cons.prems, of i x]] release_rows(2,3) [OF Cons.prems, of i x]
    by (auto simp: release_all_def p intro!: filter_cong)
qed (simp add: release_all_def)

text \<open>The state the transaction leaves, when the student was in the class.\<close>

definition parted :: "int \<Rightarrow> ustr \<Rightarrow> ustr \<Rightarrow> bool \<Rightarrow> role_db \<Rightarrow> role_db" where
  "parted now c x soft db =
     db\<lparr>rd_class_members :=
          (if soft then map (\<lambda>m. if cm_class m = c \<and> cm_user m = x \<and> cm_left_at m = None then m\<lparr>cm_left_at := Some now\<rparr> else m) (rd_class_members db)
           else filter (\<lambda>m. \<not> (cm_class m = c \<and> cm_user m = x \<and> cm_left_at m = None)) (rd_class_members db)),
        rd_classes := on_row gr_id c (\<lambda>g. g\<lparr>gr_class_member_count := max (gr_class_member_count g - 1) 0\<rparr>) (rd_classes db)\<rparr>"

definition tagged :: "role_db \<Rightarrow> ustr \<Rightarrow> ustr \<Rightarrow> (ustr \<times> ustr) list" where
  "tagged db c x = map (\<lambda>e. (en_class_course e, en_user e)) (filter (\<lambda>e. en_user e = x \<and> en_source e = Some c) (rd_enrollments db))"

lemma drop_member_eq:
  "drop_member db now c x soft = (if live_member db c x then (release_all (tagged db c x) (parted now c x soft db), Inr 1) else (db, Inr 0))"
  by (simp add: drop_member_def run_tx_def Let_def release_all_def parted_def tagged_def)

lemma live_parted: "live_stints (rd_class_members (parted now c x soft db)) =
    filter (\<lambda>m. \<not> (cm_class m = c \<and> cm_user m = x)) (live_stints (rd_class_members db))"
proof -
  have "live_stints (map (\<lambda>m. if cm_class m = c \<and> cm_user m = x \<and> cm_left_at m = None then m\<lparr>cm_left_at := Some now\<rparr> else m) ms) =
      filter (\<lambda>m. \<not> (cm_class m = c \<and> cm_user m = x)) (live_stints ms)" for ms
    by (induction ms) (auto simp: live_stints_def)
  then show ?thesis by (auto simp: parted_def live_stints_def intro!: filter_cong)
qed

lemma live_member_parted:
  "live_member (parted now c x soft db) c' y \<longleftrightarrow> live_member db c' y \<and> (c', y) \<noteq> (c, x)"
  by (auto simp: live_member_iff live_parted)

lemma caps_lower:
  assumes "caps_ok db" "rd_classes d = map f (rd_classes db)" "\<And>g. gr_id (f g) = gr_id g"
    and "\<And>g. gr_class_member_count (f g) \<le> max (gr_class_member_count g) 0" "\<And>g. gr_class_course_count (f g) \<le> max (gr_class_course_count g) 0"
  shows "caps_ok d"
proof -
  have "map gr_id (map f gs) = map gr_id gs" for gs using assms(3) by simp
  then have "keyed gr_id (rd_classes d)" using assms(1,2) by (simp only: caps_ok_def keyed_def)
  moreover have "gr_class_member_count (f g) \<le> MAX_CLASS_MEMBERS \<and> gr_class_course_count (f g) \<le> MAX_CLASS_COURSES"
    if "g \<in> set (rd_classes db)" for g
    using assms(1) that assms(4,5) [of g] by (force simp: caps_ok_def MAX_CLASS_MEMBERS_def MAX_CLASS_COURSES_def)
  ultimately show ?thesis using assms(2) by (auto simp: caps_ok_def)
qed

lemma parted_roster:
  assumes ok: "roster_ok db" and live: "live_member db c x"
  shows "members_ok (parted now c x soft db)" "caps_ok (parted now c x soft db)" "courses_exact (parted now c x soft db)"
proof -
  let ?P = "\<lambda>m. cm_class m = c \<and> cm_user m = x"
  have mok: "members_ok db" using ok by (simp add: roster_ok_def seats_exact_def)
  then have "length (filter ?P (live_stints (rd_class_members db))) = 1"
    using live distinct_one [of "\<lambda>m. (cm_class m, cm_user m)" "live_stints (rd_class_members db)" "(c, x)"]
    by (force simp: members_ok_def live_member_iff image_iff)
  then show "members_ok (parted now c x soft db)"
    using mok memberc.exact_release_one [of cm_class "rd_classes db" "live_stints (rd_class_members db)" ?P c 1]
    unfolding members_ok_def live_parted by (simp add: parted_def distinct_map_filter)
  show "caps_ok (parted now c x soft db)"
    by (rule caps_lower [of db _ "\<lambda>g. if gr_id g = c then g\<lparr>gr_class_member_count := max (gr_class_member_count g - 1) 0\<rparr> else g"])
      (use ok in \<open>auto simp: roster_ok_def parted_def on_row_def\<close>)
  show "courses_exact (parted now c x soft db)"
    using ok by (auto simp: roster_ok_def courses_exact_def parted_def faces_def intro!: counts_exact_on_row)
qed

lemma drop_member_enrollments:
  assumes "roster_ok db" "live_member db c x"
  shows "rd_enrollments (fst (drop_member db now c x soft)) =
    filter (\<lambda>e. \<not> (en_user e = x \<and> en_source e = Some c)) (rd_enrollments db)"
proof -
  have "enrollments_ok (parted now c x soft db)" using assms(1) by (simp add: roster_ok_def seats_exact_def enrollments_ok_def parted_def)
  then have "rd_enrollments (fst (drop_member db now c x soft)) =
      filter (\<lambda>e. (en_class_course e, en_user e) \<notin> set (tagged db c x)) (rd_enrollments db)"
    using assms(2) by (simp add: drop_member_eq release_all_rows) (simp add: parted_def)
  also have "\<dots> = filter (\<lambda>e. \<not> (en_user e = x \<and> en_source e = Some c)) (rd_enrollments db)"
  proof (rule filter_cong [OF refl])
    fix e assume e: "e \<in> set (rd_enrollments db)"
    have "inj_on (\<lambda>e. (en_class_course e, en_user e)) (set (rd_enrollments db))"
      using assms(1) by (simp add: roster_ok_def seats_exact_def enrollments_ok_def distinct_map)
    with e show "((en_class_course e, en_user e) \<notin> set (tagged db c x)) = (\<not> (en_user e = x \<and> en_source e = Some c))"
      by (auto simp: tagged_def dest: inj_onD)
  qed
  finally show ?thesis .
qed

lemma drop_member_roster:
  assumes ok: "roster_ok db"
  shows "roster_ok (fst (drop_member db now c x soft)) \<and> (covered db \<longrightarrow> covered (fst (drop_member db now c x soft)))"
proof (cases "live_member db c x")
  case True
  let ?p = "parted now c x soft db"
  let ?d = "fst (drop_member db now c x soft)"
  have d: "?d = release_all (tagged db c x) ?p" using True by (simp add: drop_member_eq)
  have eok: "enrollments_ok ?p" using ok by (simp add: roster_ok_def seats_exact_def enrollments_ok_def parted_def)
  note rel = release_all_rows [OF eok, of "tagged db c x"] and en = drop_member_enrollments [OF ok True, of now soft]
  have f: "faces ?d = faces db" using rel by (simp add: d) (simp add: faces_def parted_def)
  have live: "live_member ?d c' y \<longleftrightarrow> live_member db c' y \<and> (c', y) \<noteq> (c, x)" for c' y
    using live_member_parted [of now c x soft db c' y] by (simp add: d live_member_def)
  have "members_ok ?d \<and> caps_ok ?d"
    using parted_roster [OF ok True, of now soft] by (simp add: d members_ok_def caps_ok_def)
  moreover have "courses_exact ?d" using parted_roster(3) [OF ok True, of now soft] rel by (simp add: d courses_exact_def)
  moreover have "enrollments_ok ?d" using rel by (simp add: d)
  moreover have "memberships_ok ?d \<and> signups_ok ?d"
    using ok by (simp add: roster_ok_def seats_exact_def memberships_ok_def signups_ok_def d) (simp add: parted_def)
  moreover have "instances_ok ?d" using ok by (simp add: roster_ok_def instances_ok_def f en)
  moreover have "tags_ok ?d" using ok unfolding roster_ok_def tags_ok_def f en live by auto
  moreover have "students_ok ?d"
  proof -
    have "rd_users ?d = rd_users db" by (simp add: d) (simp add: parted_def)
    moreover have "set (live_stints (rd_class_members ?d)) \<subseteq> set (live_stints (rd_class_members db))"
      using live_parted [of now c x soft db] by (auto simp: d)
    ultimately show ?thesis using ok unfolding roster_ok_def students_ok_def is_student_def en by auto
  qed
  moreover have "covered ?d" if cov: "covered db"
    unfolding covered_def f live
  proof (intro ballI allI impI)
    fix f y assume fy: "f \<in> set (faces db)" "live_member db (fst (snd f)) y \<and> (fst (snd f), y) \<noteq> (c, x)"
    then obtain e where e: "e \<in> set (rd_enrollments db)" "en_class_course e = fst f" "en_user e = y"
      using cov by (auto simp: covered_def enrolled_in_def list_ex_iff)
    have "\<not> (y = x \<and> en_source e = Some c)"
    proof
      assume "y = x \<and> en_source e = Some c"
      then obtain k where "(fst f, c, k) \<in> set (faces db)" "y = x" using ok e unfolding roster_ok_def tags_ok_def by metis
      moreover have "inj_on fst (set (faces db))" using ok by (simp add: roster_ok_def instances_ok_def distinct_map)
      ultimately have "f = (fst f, c, k)" using fy(1) inj_onD [of fst "set (faces db)" f "(fst f, c, k)"] by simp
      then show False using fy(2) \<open>y = x\<close> by (metis fst_conv snd_conv)
    qed
    then show "enrolled_in ?d (fst f) y" using e by (auto simp: enrolled_in_def list_ex_iff en)
  qed
  ultimately show ?thesis by (simp add: roster_ok_def seats_exact_def)
qed (simp add: drop_member_eq ok)

section \<open>Detaching\<close>

lemma detached_roster:
  assumes ok: "roster_ok db" and i: "i \<in> set (rd_class_courses db)" "cc_class i = c" "cc_course i = k"
    and d: "d = (sweep_instance (cc_id i) db)\<lparr>rd_class_courses := filter (\<lambda>x. cc_id x \<noteq> cc_id i) (rd_class_courses db),
      rd_classes := on_row gr_id c (\<lambda>g. g\<lparr>gr_class_course_count := max (gr_class_course_count g - 1) 0\<rparr>) (rd_classes db),
      rd_courses := on_row co_id k (\<lambda>c. c\<lparr>co_class_course_count := max (co_class_course_count c - 1) 0\<rparr>) (rd_courses db)\<rparr>"
  shows "roster_ok d" "covered db \<Longrightarrow> covered d"
proof -
  let ?P = "\<lambda>f. fst f = cc_id i"
  have f: "faces d = filter (\<lambda>f. \<not> ?P f) (faces db)" by (simp add: faces_def d filter_map comp_def face_def)
  have en: "rd_enrollments d = filter (\<lambda>e. en_class_course e \<noteq> cc_id i) (rd_enrollments db)" by (simp add: d sweep_instance_def)
  have mem: "rd_class_members d = rd_class_members db" "rd_users d = rd_users db" by (simp_all add: d sweep_instance_def)
  have live: "live_member d c' y = live_member db c' y" for c' y by (simp add: live_member_def mem)
  have ids: "distinct (map fst (faces db))" using ok by (simp add: roster_ok_def instances_ok_def)
  have here: "(cc_id i, c, k) \<in> set (faces db)" using i by (auto simp: faces_def face_def image_iff)
  then have only: "f = (cc_id i, c, k)" if "f \<in> set (faces db)" "?P f" for f
    using ids that inj_onD [of fst "set (faces db)" f "(cc_id i, c, k)"] by (auto simp: distinct_map)
  have one: "length (filter ?P (faces db)) = 1" using ids here by (intro distinct_one) force+
  have cex: "counts_exact gr_id gr_class_course_count (\<lambda>f. fst (snd f)) (rd_classes db) (faces db)"
    "counts_exact co_id co_class_course_count (\<lambda>f. snd (snd f)) (rd_courses db) (faces db)"
    using ok by (simp_all add: roster_ok_def courses_exact_def)
  have "courses_exact d"
    using gcourse.exact_release_one [OF cex(1), of ?P c 1] ccourse.exact_release_one [OF cex(2), of ?P k 1] only one
    unfolding courses_exact_def f by (auto simp: d)
  moreover have "caps_ok d"
    by (rule caps_lower [of db _ "\<lambda>g. if gr_id g = c then g\<lparr>gr_class_course_count := max (gr_class_course_count g - 1) 0\<rparr> else g"])
      (use ok in \<open>auto simp: roster_ok_def d on_row_def\<close>)
  moreover have "instances_ok d" using ok unfolding roster_ok_def instances_ok_def f en by (fastforce simp: distinct_map_filter)
  moreover have "tags_ok d" using ok unfolding roster_ok_def tags_ok_def f en live by auto
  moreover have "students_ok d" using ok by (simp add: roster_ok_def students_ok_def is_student_def mem en)
  moreover have "members_ok d"
    using ok by (auto simp: roster_ok_def seats_exact_def members_ok_def d sweep_instance_def intro!: counts_exact_on_row)
  moreover have "enrollments_ok d"
  proof -
    have "cc_enrollment_count x = refs_to en_class_course (cc_id x) (rd_enrollments d)" if "x \<in> set (rd_class_courses d)" for x
    proof -
      have "x \<in> set (rd_class_courses db)" "cc_id x \<noteq> cc_id i" using that by (simp_all add: d)
      then have "refs_to en_class_course (cc_id x) (rd_enrollments d) = refs_to en_class_course (cc_id x) (rd_enrollments db)"
        unfolding en by (intro refs_to_filter_iff) auto
      then show ?thesis using ok \<open>x \<in> set (rd_class_courses db)\<close> by (simp add: roster_ok_def seats_exact_def enrollments_ok_def counts_exact_def)
    qed
    then show ?thesis
      using ok by (simp add: roster_ok_def seats_exact_def enrollments_ok_def counts_exact_def en distinct_map_filter)
  qed
  moreover have "memberships_ok d"
    using ok by (auto simp: roster_ok_def seats_exact_def memberships_ok_def d sweep_instance_def intro!: counts_exact_on_row)
  moreover have "signups_ok d" using ok by (simp add: roster_ok_def seats_exact_def signups_ok_def d sweep_instance_def)
  ultimately show "roster_ok d" by (simp add: roster_ok_def seats_exact_def)
  show "covered d" if "covered db"
    using that unfolding covered_def f live by (fastforce simp: enrolled_in_def list_ex_iff en)
qed

lemma detach_roster:
  assumes "roster_ok db"
  shows "roster_ok (fst (detach_course db c k src)) \<and> (covered db \<longrightarrow> covered (fst (detach_course db c k src)))"
proof -
  let ?b = "case src of None \<Rightarrow> None | Some grade \<Rightarrow> map_option fst (find (\<lambda>b. snd b = grade) (rd_blueprints db))"
  let ?Q = "\<lambda>i. cc_class i = c \<and> cc_course i = k \<and> (src = None \<or> (?b \<noteq> None \<and> cc_source i = ?b))"
  show ?thesis
  proof (cases "find ?Q (rd_class_courses db)")
    case (Some i)
    then have "i \<in> set (rd_class_courses db) \<and> cc_class i = c \<and> cc_course i = k" by (auto simp: find_Some_iff)
    then show ?thesis
      using detached_roster [OF assms, of i c k] Some
      by (simp add: detach_course_def run_tx_def Let_def) (simp add: sweep_instance_def)
  qed (use assms in \<open>simp add: detach_course_def run_tx_def Let_def\<close>)
qed

section \<open>By hand\<close>

lemma enroll_in_roster:
  assumes ok: "roster_ok db"
  shows "roster_ok (fst (run_tx (enroll_in now i x adm None) db)) \<and> (covered db \<longrightarrow> covered (fst (run_tx (enroll_in now i x adm None) db)))"
proof (cases "\<not> enrolled_in db i x \<and> is_student db x \<and> find_row cc_id (rd_class_courses db) i \<noteq> None")
  case True
  let ?d = "enroll_row db i x adm None now"
  have "fst (run_tx (enroll_in now i x adm None) db) = ?d"
    using True by (auto simp: run_tx_def enroll_in_def is_student_def Let_def)
  moreover have "roster_ok ?d" using True by (intro enroll_row_roster [OF ok]) simp_all
  moreover have "covered ?d" if "covered db"
    using that unfolding covered_def faces_row live_row by (simp add: enrolled_in_row)
  ultimately show ?thesis by simp
next
  case False
  then have "fst (run_tx (enroll_in now i x adm None) db) = db" by (auto simp: run_tx_def enroll_in_def is_student_def)
  then show ?thesis using ok by simp
qed

lemma enrolled_in_pairs: "enrolled_in db i x \<longleftrightarrow> (i, x) \<in> set (map (\<lambda>r. (en_class_course r, en_user r)) (rd_enrollments db))"
  by (auto simp: enrolled_in_def list_ex_iff)

lemma disown_roster:
  assumes ok: "roster_ok db"
  shows "roster_ok (fst (disown_if_pumped db e)) \<and> (covered db \<longrightarrow> covered (fst (disown_if_pumped db e)))"
proof (cases "en_source e")
  case (Some s)
  let ?f = "\<lambda>r. if en_class_course r = en_class_course e \<and> en_user r = en_user e then r\<lparr>en_source := None\<rparr> else r"
  let ?d = "db\<lparr>rd_enrollments := map ?f (rd_enrollments db)\<rparr>"
  have d: "fst (disown_if_pumped db e) = ?d" using Some by (simp add: disown_if_pumped_def Let_def)
  have pairs: "map (\<lambda>r. (en_class_course r, en_user r)) (map ?f rs) = map (\<lambda>r. (en_class_course r, en_user r)) rs" for rs by simp
  have refs: "refs_to en_class_course j (map ?f rs) = refs_to en_class_course j rs" for j rs by (rule refs_to_map) simp
  have en: "counts_exact cc_id cc_enrollment_count en_class_course (rd_class_courses db) (rd_enrollments db)"
    "distinct (map (\<lambda>r. (en_class_course r, en_user r)) (rd_enrollments db))"
    using ok by (simp_all add: roster_ok_def seats_exact_def enrollments_ok_def)
  have "enrollments_ok ?d"
    using counts_exact_refs [OF en(1) refs] en(2) pairs [of "rd_enrollments db"]
    by (simp add: enrollments_ok_def del: map_map map_eq_conv)
  moreover have "tags_ok ?d" using ok by (auto simp: roster_ok_def tags_ok_def faces_def live_member_def split: if_splits)
  moreover have "instances_ok ?d \<and> students_ok ?d"
  proof -
    have old: "\<exists>s \<in> set (rd_enrollments db). en_class_course r = en_class_course s \<and> en_user r = en_user s"
      if "r \<in> set (rd_enrollments ?d)" for r using that by auto metis
    have frame: "faces ?d = faces db" "is_student ?d = is_student db" "rd_class_members ?d = rd_class_members db"
      by (simp_all add: faces_def is_student_def fun_eq_iff)
    have "\<forall>r \<in> set (rd_enrollments db). en_class_course r \<in> fst ` set (faces db) \<and> is_student db (en_user r)"
      using ok by (simp add: roster_ok_def instances_ok_def students_ok_def)
    then have "en_class_course r \<in> fst ` set (faces db) \<and> is_student db (en_user r)" if "r \<in> set (rd_enrollments ?d)" for r
      using old [OF that] by metis
    then show ?thesis using ok unfolding roster_ok_def instances_ok_def students_ok_def frame by blast
  qed
  moreover have "courses_exact ?d \<and> caps_ok ?d \<and> members_ok ?d \<and> memberships_ok ?d \<and> signups_ok ?d"
    using ok by (simp add: roster_ok_def seats_exact_def courses_exact_def caps_ok_def members_ok_def memberships_ok_def signups_ok_def faces_def)
  moreover have "enrolled_in ?d j y = enrolled_in db j y" for j y
    using pairs [of "rd_enrollments db"] by (simp add: enrolled_in_pairs del: map_map map_eq_conv set_map)
  ultimately show ?thesis by (simp add: d roster_ok_def seats_exact_def covered_def faces_def live_member_def)
qed (use ok in \<open>simp add: disown_if_pumped_def\<close>)

lemma enrollment_remove_roster:
  assumes ok: "roster_ok db"
  shows "roster_ok (fst (enrollment_remove db i x))"
proof -
  let ?P = "\<lambda>e. en_class_course e = i \<and> en_user e = x"
  let ?d = "fst (enrollment_remove db i x)"
  have f: "faces ?d = faces db" by (simp add: enrollment_remove_def Let_def faces_def on_row_def)
  have "enrollments_ok ?d"
    using ok enrollc.exact_release_one [of en_class_course "rd_class_courses db" "rd_enrollments db" ?P i "int (length (filter ?P (rd_enrollments db)))"]
    by (simp add: roster_ok_def seats_exact_def enrollments_ok_def enrollment_remove_def Let_def distinct_map_filter)
  moreover have "tags_ok ?d" using ok unfolding roster_ok_def tags_ok_def f by (auto simp: enrollment_remove_def Let_def live_member_def)
  moreover have "instances_ok ?d" using ok unfolding roster_ok_def instances_ok_def f by (auto simp: enrollment_remove_def Let_def)
  moreover have "courses_exact ?d" using ok unfolding roster_ok_def courses_exact_def f by (simp add: enrollment_remove_def Let_def)
  moreover have "students_ok ?d \<and> caps_ok ?d \<and> members_ok ?d \<and> memberships_ok ?d \<and> signups_ok ?d"
    using ok by (auto simp: roster_ok_def seats_exact_def students_ok_def caps_ok_def members_ok_def memberships_ok_def signups_ok_def
        is_student_def enrollment_remove_def Let_def)
  ultimately show ?thesis by (simp add: roster_ok_def seats_exact_def)
qed

section \<open>Clubs, teachers and roles\<close>

lemma membership_roster:
  assumes ok: "roster_ok db" and mem: "memberships_ok d"
    and d: "d = db\<lparr>rd_courses := on_row co_id k (\<lambda>c. c\<lparr>co_course_membership_count := n (co_course_membership_count c)\<rparr>) (rd_courses db), rd_memberships := ms\<rparr>"
  shows "roster_ok d \<and> (covered db \<longrightarrow> covered d)"
proof -
  have "courses_exact d" using ok by (auto simp: roster_ok_def courses_exact_def d faces_def intro!: counts_exact_on_row)
  moreover have "tags_ok d \<and> instances_ok d \<and> students_ok d \<and> caps_ok d"
    using ok by (simp add: roster_ok_def tags_ok_def instances_ok_def students_ok_def caps_ok_def d faces_def live_member_def is_student_def)
  moreover have "members_ok d \<and> enrollments_ok d \<and> signups_ok d"
    using ok by (simp add: roster_ok_def seats_exact_def members_ok_def enrollments_ok_def signups_ok_def d)
  moreover have "covered d = covered db" by (simp add: covered_def faces_def live_member_def enrolled_in_def d)
  ultimately show ?thesis using mem by (simp add: roster_ok_def seats_exact_def)
qed

lemma membership_in_roster:
  assumes ok: "roster_ok db"
  shows "roster_ok (fst (run_tx (membership_in now k x adm) db)) \<and> (covered db \<longrightarrow> covered (fst (run_tx (membership_in now k x adm) db)))"
proof (cases "read_membership db k x = None \<and> is_student db x \<and> find_row co_id (rd_courses db) k \<noteq> None")
  case True
  let ?r = "\<lparr>ms_course = k, ms_user = x, ms_added_by = adm, ms_created_at = now\<rparr>"
  let ?d = "db\<lparr>rd_courses := on_row co_id k (\<lambda>c. c\<lparr>co_course_membership_count := co_course_membership_count c + 1\<rparr>) (rd_courses db),
     rd_memberships := rd_memberships db @ [?r]\<rparr>"
  have d: "fst (run_tx (membership_in now k x adm) db) = ?d"
    using True by (auto simp: run_tx_def membership_in_def is_student_def Let_def)
  have "memberships_ok db" using ok by (simp add: roster_ok_def seats_exact_def)
  then have "memberships_ok ?d"
    using True clubc.exact_claim [of ms_course "rd_courses db" "rd_memberships db" ?r k]
    by (auto simp: memberships_ok_def read_membership_def find_None_iff)
  then show ?thesis unfolding d by (rule membership_roster [OF ok, where k = k and n = "\<lambda>n. n + 1"]) simp
next
  case False
  then have "fst (run_tx (membership_in now k x adm) db) = db" by (auto simp: run_tx_def membership_in_def is_student_def)
  then show ?thesis using ok by simp
qed

lemma membership_remove_roster:
  assumes ok: "roster_ok db"
  shows "roster_ok (fst (membership_remove db k x)) \<and> (covered db \<longrightarrow> covered (fst (membership_remove db k x)))"
proof -
  let ?P = "\<lambda>m. ms_course m = k \<and> ms_user m = x"
  have "memberships_ok (fst (membership_remove db k x))"
    using ok clubc.exact_release_one [of ms_course "rd_courses db" "rd_memberships db" ?P k "int (length (filter ?P (rd_memberships db)))"]
    by (simp add: roster_ok_def seats_exact_def memberships_ok_def membership_remove_def Let_def distinct_map_filter)
  then show ?thesis
    by (rule membership_roster [OF ok, where k = k and n = "\<lambda>n. max (n - int (length (filter ?P (rd_memberships db)))) 0"
          and ms = "filter (\<lambda>m. \<not> ?P m) (rd_memberships db)"])
      (cases db, simp add: membership_remove_def Let_def)
qed

text \<open>Homeroom teachers and teachers of instances are no concern of the roster.\<close>

lemma teachers_roster:
  assumes ok: "roster_ok db" and d: "d = db\<lparr>rd_classes := map (\<lambda>g. if P g then g\<lparr>gr_teacher := None\<rparr> else g) (rd_classes db),
      rd_class_course_teachers := ts, rd_appointments := as, rd_slots := ss\<rparr>"
  shows "roster_ok d \<and> (covered db \<longrightarrow> covered d)"
proof -
  have "caps_ok d"
    by (rule caps_lower [of db d "\<lambda>g. if P g then g\<lparr>gr_teacher := None\<rparr> else g"]) (use ok in \<open>auto simp: roster_ok_def d\<close>)
  moreover have "courses_exact d \<and> members_ok d"
    using ok by (auto simp: roster_ok_def seats_exact_def courses_exact_def members_ok_def counts_exact_def d faces_def)
  moreover have "tags_ok d \<and> instances_ok d \<and> students_ok d"
    using ok by (simp add: roster_ok_def tags_ok_def instances_ok_def students_ok_def d faces_def live_member_def is_student_def)
  moreover have "memberships_ok d \<and> enrollments_ok d \<and> signups_ok d"
    using ok by (simp add: roster_ok_def seats_exact_def memberships_ok_def enrollments_ok_def signups_ok_def d)
  moreover have "covered d = covered db" by (simp add: covered_def faces_def live_member_def enrolled_in_def d)
  ultimately show ?thesis by (simp add: roster_ok_def seats_exact_def)
qed

lemma shed_student_roster:
  assumes ok: "roster_ok db" and same: "\<And>y. y \<noteq> t \<Longrightarrow> is_student (db\<lparr>rd_users := us\<rparr>) y = is_student db y"
  shows "roster_ok (shed_student now t (db\<lparr>rd_users := us\<rparr>)) \<and> (covered db \<longrightarrow> covered (shed_student now t (db\<lparr>rd_users := us\<rparr>)))"
proof -
  let ?d = "shed_student now t (db\<lparr>rd_users := us\<rparr>)"
  note sd = shed_student_def Let_def hand_back_def
  have f: "faces ?d = faces db" by (simp add: faces_def sd)
  have en: "rd_enrollments ?d = filter (\<lambda>e. en_user e \<noteq> t) (rd_enrollments db)" by (simp add: sd)
  have st: "live_stints (rd_class_members ?d) = filter (\<lambda>m. cm_user m \<noteq> t) (live_stints (rd_class_members db))"
    using live_stints_left [of t now "rd_class_members db"] by (simp add: shed_student_def Let_def)
  have live: "live_member ?d c y \<longleftrightarrow> live_member db c y \<and> y \<noteq> t" for c y by (auto simp: live_member_iff st)
  have "seats_exact (db\<lparr>rd_users := us\<rparr>)" using ok by (simp add: roster_ok_def seats_exact_def seats_defs)
  then have "seats_exact ?d" by (rule shed_student_seats)
  moreover have "courses_exact ?d" using ok unfolding roster_ok_def courses_exact_def f by (auto simp: sd counts_exact_def)
  moreover have "caps_ok ?d"
    by (rule caps_lower [of db _ "\<lambda>g. if gr_id g \<in> set (map cm_class (filter (\<lambda>m. cm_user m = t \<and> cm_left_at m = None) (rd_class_members db)))
        then g\<lparr>gr_class_member_count := max (gr_class_member_count g - 1) 0\<rparr> else g"])
      (use ok in \<open>auto simp: roster_ok_def sd\<close>)
  moreover have "instances_ok ?d" using ok unfolding roster_ok_def instances_ok_def f en by auto
  moreover have "tags_ok ?d" using ok unfolding roster_ok_def tags_ok_def f en live by auto
  moreover have "students_ok ?d"
  proof -
    have "is_student ?d y = is_student db y" if "y \<noteq> t" for y using same [OF that] by (simp add: is_student_def)
    then show ?thesis using ok unfolding roster_ok_def students_ok_def st en by auto
  qed
  moreover have "covered ?d" if "covered db"
    using that unfolding covered_def f live by (fastforce simp: enrolled_in_def list_ex_iff en)
  ultimately show ?thesis by (simp add: roster_ok_def)
qed

lemma covered_cong:
  "faces d = faces db \<Longrightarrow> rd_class_members d = rd_class_members db \<Longrightarrow> rd_enrollments d = rd_enrollments db \<Longrightarrow> covered d = covered db"
  by (simp add: covered_def live_member_def enrolled_in_def)

lemma shed_teaching_roster:
  "roster_ok db \<Longrightarrow> roster_ok (shed_teaching t db) \<and> (covered db \<longrightarrow> covered (shed_teaching t db))"
  by (rule teachers_roster [where P = "\<lambda>g. gr_teacher g = Some t"
        and ts = "filter (\<lambda>x. snd x \<noteq> t) (rd_class_course_teachers db)"
        and as = "ad_appointments (withdraw_calendar (calendar_of db) t)" and ss = "ad_slots (withdraw_calendar (calendar_of db) t)"])
    (auto simp: shed_teaching_def Let_def)

lemma shed_parent_roster:
  assumes "roster_ok db"
  shows "roster_ok (shed_boards now t (shed_signups now t db)) \<and> (covered db \<longrightarrow> covered (shed_boards now t (shed_signups now t db)))"
proof -
  let ?d = "shed_boards now t (shed_signups now t db)"
  have "seats_exact ?d" using assms by (simp add: roster_ok_def shed_boards_seats shed_signups_seats)
  then show ?thesis
    using assms by (simp add: roster_ok_def courses_exact_def caps_ok_def instances_ok_def tags_ok_def students_ok_def is_student_def
        live_member_def faces_def covered_def enrolled_in_def shed_boards_def shed_signups_def Let_def)
qed

lemma cascade_roster:
  assumes ok: "roster_ok db"
  shows "roster_ok (fst (set_role_cascade db now t r)) \<and> (covered db \<longrightarrow> covered (fst (set_role_cascade db now t r)))"
proof -
  obtain d res where run: "set_role_cascade db now t r = (d, res)" by (cases "set_role_cascade db now t r")
  show ?thesis
  proof (cases res)
    case Inl
    then show ?thesis using ok run cascade_refused by fastforce
  next
    case (Inr x)
    let ?us = "on_row us_id t (write_role r) (rd_users db)"
    let ?d1 = "db\<lparr>rd_users := ?us\<rparr>"
    let ?kept = "\<lambda>e. roster_ok e \<and> (covered db \<longrightarrow> covered e)"
    from run [unfolded Inr] obtain y where y: "find_row us_id (rd_users db) t = Some y"
      and p: "r = Parent \<Longrightarrow> d = shed_boards now t (shed_signups now t (shed_student now t ?d1))"
      and other: "r \<noteq> Parent \<Longrightarrow> \<exists>db2. db2 = (if r \<noteq> Student then shed_student now t ?d1 else ?d1) \<and>
        d = (if \<not> at_least r Teacher then shed_teaching t else (\<lambda>d. d)) (db2\<lparr>rd_parent_links := filter (\<lambda>l. fst l \<noteq> t) (rd_parent_links db2)\<rparr>)"
      by (rule cascade_shape) blast
    have stud: "is_student ?d1 z \<longleftrightarrow> (if z = t then r = Student else is_student db z)" for z
      using y by (auto simp: is_student_def find_on_row write_role_def)
    have base: "?kept (if r \<noteq> Student then shed_student now t ?d1 else ?d1)"
    proof (cases "r = Student")
      case True
      have "is_student db z \<Longrightarrow> is_student ?d1 z" for z using stud True by simp
      then have "students_ok ?d1" using ok by (simp add: roster_ok_def students_ok_def)
      then show ?thesis
        using ok True by (simp add: roster_ok_def seats_exact_def seats_defs courses_exact_def caps_ok_def instances_ok_def tags_ok_def
            live_member_def faces_def covered_def enrolled_in_def)
    qed (use shed_student_roster [OF ok, of t ?us now] stud in simp)
    have links: "?kept (e\<lparr>rd_parent_links := ls\<rparr>)" if "?kept e" for e ls
      using that roster_cong [of e "e\<lparr>rd_parent_links := ls\<rparr>"] covered_cong [of "e\<lparr>rd_parent_links := ls\<rparr>" e] by (simp add: faces_def)
    have "?kept d"
    proof (cases "r = Parent")
      case True
      then show ?thesis using p base shed_parent_roster [of "shed_student now t ?d1" now t] by simp
    next
      case False
      then obtain db2 where d2: "?kept db2"
        "d = (if \<not> at_least r Teacher then shed_teaching t else (\<lambda>d. d)) (db2\<lparr>rd_parent_links := filter (\<lambda>l. fst l \<noteq> t) (rd_parent_links db2)\<rparr>)"
        using other base by blast
      then show ?thesis
        using links [of db2] shed_teaching_roster [of "db2\<lparr>rd_parent_links := filter (\<lambda>l. fst l \<noteq> t) (rd_parent_links db2)\<rparr>" t] by auto
    qed
    then show ?thesis by (simp add: run)
  qed
qed

end
