(* ===== verification/Class_Pump_Properties.thy ===== *)
theory Class_Pump_Properties
  imports Class_Shed
begin

text \<open>
  The roster of a school over every interleaving of its transactions.  \<open>pump_step\<close> is one committed
  transaction, or none where it was refused: joining and leaving a class, attaching and detaching a course, enrolling by
  hand and disowning a tagged enrollment, clubs, teachers and changes of role; \<open>roster_step\<close> adds the removal
  of an enrollment by hand, and \<open>sparing_step\<close> leaves out what takes a given enrollment away on purpose.  A school
  opens with accounts, classes and courses but nobody in them.
\<close>

section \<open>Steps\<close>

inductive pump_step :: "role_db \<Rightarrow> role_db \<Rightarrow> bool" where
  joins: "pump_step db (fst (add_member_sourced db fresh now c x adm src))"
| leaves: "pump_step db (fst (drop_member db now c x soft))"
| attaches: "fresh \<notin> cc_id ` set (rd_class_courses db) \<Longrightarrow> pump_step db (fst (attach_course db fresh fo now c k adm grade))"
| detaches: "pump_step db (fst (detach_course db c k grade))"
| enrolls: "pump_step db (fst (run_tx (enroll_in now i x adm None) db))"
| disowns: "pump_step db (fst (disown_if_pumped db e))"
| joins_club: "pump_step db (fst (run_tx (membership_in now k x adm) db))"
| leaves_club: "pump_step db (fst (membership_remove db k x))"
| assigns: "pump_step db (fst (teacher_assign db i t))"
| unassigns: "pump_step db (fst (teacher_unassign db i t))"
| undoes: "pump_step db (fst (undo_if_demoted db t))"
| changes_role: "pump_step db (fst (set_role_cascade db now t r))"

inductive roster_step :: "role_db \<Rightarrow> role_db \<Rightarrow> bool" where
  pumped: "pump_step db d \<Longrightarrow> roster_step db d"
| by_hand: "roster_step db (fst (enrollment_remove db i x))"

definition opened :: "role_db \<Rightarrow> bool" where
  "opened db \<longleftrightarrow> keyed gr_id (rd_classes db) \<and> rd_class_members db = [] \<and> rd_enrollments db = [] \<and> rd_class_courses db = [] \<and>
     rd_memberships db = [] \<and> rd_registrations db = [] \<and>
     list_all (\<lambda>g. gr_class_member_count g = 0 \<and> gr_class_course_count g = 0) (rd_classes db) \<and>
     list_all (\<lambda>c. co_class_course_count c = 0 \<and> co_course_membership_count c = 0) (rd_courses db) \<and>
     list_all (\<lambda>e. ev_registration_count e = 0) (rd_events db)"

lemma opened_roster: "opened db \<Longrightarrow> roster_ok db \<and> covered db"
  by (auto simp: opened_def roster_ok_def seats_exact_def seats_defs live_stints_def counts_exact_def courses_exact_def faces_def
      caps_ok_def instances_ok_def tags_ok_def students_ok_def covered_def list_all_iff MAX_CLASS_MEMBERS_def MAX_CLASS_COURSES_def)

lemma teachers_step_roster:
  assumes "roster_ok db"
  shows "roster_ok (fst (undo_if_demoted db t)) \<and> (covered db \<longrightarrow> covered (fst (undo_if_demoted db t)))"
proof (cases "case find_row us_id (rd_users db) t of None \<Rightarrow> False | Some x \<Rightarrow> at_least (us_role x) Teacher")
  case False
  then show ?thesis
    by (intro teachers_roster [OF assms, where P = "\<lambda>g. gr_teacher g = Some t" and as = "rd_appointments db" and ss = "rd_slots db"
          and ts = "filter (\<lambda>x. snd x \<noteq> t) (rd_class_course_teachers db)"]) (simp add: undo_if_demoted_def)
qed (use assms in \<open>simp add: undo_if_demoted_def\<close>)

lemma pump_step_roster:
  assumes "pump_step db d" "roster_ok db"
  shows "roster_ok d \<and> (covered db \<longrightarrow> covered d)"
  using assms
proof cases
  case (joins fresh now c x adm src)
  then show ?thesis using add_member_roster [OF assms(2) prod.collapse [symmetric]] by blast
next
  case (attaches fresh fo now c k adm grade)
  then have "fresh \<notin> fst ` set (faces db)" by (simp add: faces_def face_def image_comp comp_def)
  then show ?thesis using attach_roster [OF assms(2) _ prod.collapse [symmetric]] attaches by blast
next
  case (assigns i t)
  let ?d = "fst (teacher_assign db i t)"
  have "rd_users ?d = rd_users db \<and> rd_class_members ?d = rd_class_members db \<and> rd_classes ?d = rd_classes db \<and>
    rd_enrollments ?d = rd_enrollments db \<and> rd_class_courses ?d = rd_class_courses db \<and> rd_memberships ?d = rd_memberships db \<and>
    rd_courses ?d = rd_courses db \<and> rd_registrations ?d = rd_registrations db \<and> rd_events ?d = rd_events db"
    by (simp add: teacher_assign_def)
  then show ?thesis using roster_cong [OF assms(2), of ?d] covered_cong [of ?d db] assigns by (simp add: faces_def)
next
  case (unassigns i t)
  then show ?thesis
    using roster_cong [OF assms(2), of d] covered_cong [of d db] by (simp add: faces_def teacher_unassign_def)
qed (use assms(2) in \<open>simp_all add: drop_member_roster detach_roster enroll_in_roster disown_roster membership_in_roster
    membership_remove_roster teachers_step_roster cascade_roster\<close>)

lemma roster_step_roster: "roster_step db d \<Longrightarrow> roster_ok db \<Longrightarrow> roster_ok d"
  by (erule roster_step.cases) (simp_all add: pump_step_roster enrollment_remove_roster)

lemma pump_run:
  assumes "pump_step\<^sup>*\<^sup>* s db" "opened s"
  shows "roster_ok db \<and> covered db"
  using assms(1)
proof (induction rule: rtranclp_induct)
  case base
  show ?case by (rule opened_roster [OF assms(2)])
next
  case (step d d')
  then show ?case using pump_step_roster [OF step(2)] by simp
qed

lemma roster_run:
  assumes "roster_step\<^sup>*\<^sup>* s db" "opened s"
  shows "roster_ok db"
  using assms(1)
proof (induction rule: rtranclp_induct)
  case base
  show ?case using opened_roster [OF assms(2)] by simp
qed (rule roster_step_roster)

section \<open>Counters\<close>

lemma class_counts:
  assumes "roster_ok db" "g \<in> set (rd_classes db)"
  shows "gr_class_member_count g = int (length (filter (\<lambda>m. cm_class m = gr_id g \<and> cm_left_at m = None) (rd_class_members db))) \<and>
      gr_class_member_count g \<le> 200 \<and>
      gr_class_course_count g = int (length (filter (\<lambda>i. cc_class i = gr_id g) (rd_class_courses db))) \<and>
      gr_class_course_count g \<le> 50"
proof -
  have "filter (\<lambda>m. cm_class m = c) (live_stints ms) = filter (\<lambda>m. cm_class m = c \<and> cm_left_at m = None) ms" for c ms
    by (auto simp: live_stints_def intro!: filter_cong)
  moreover have "length (filter (\<lambda>f. fst (snd f) = c) (map face js)) = length (filter (\<lambda>i. cc_class i = c) js)" for c js
    by (simp add: filter_map comp_def face_def)
  ultimately have "gr_class_member_count g = int (length (filter (\<lambda>m. cm_class m = gr_id g \<and> cm_left_at m = None) (rd_class_members db)))"
    "gr_class_course_count g = int (length (filter (\<lambda>i. cc_class i = gr_id g) (rd_class_courses db)))"
    using assms by (simp_all add: roster_ok_def seats_exact_def members_ok_def courses_exact_def counts_exact_def refs_to_def faces_def)
  moreover have "gr_class_member_count g \<le> 200" "gr_class_course_count g \<le> 50"
    using assms by (simp_all add: roster_ok_def caps_ok_def MAX_CLASS_MEMBERS_def MAX_CLASS_COURSES_def)
  ultimately show ?thesis by blast
qed

lemma course_counts:
  assumes "roster_ok db" "k \<in> set (rd_courses db)"
  shows "co_class_course_count k = int (length (filter (\<lambda>i. cc_course i = co_id k) (rd_class_courses db))) \<and>
    co_course_membership_count k = int (length (filter (\<lambda>m. ms_course m = co_id k) (rd_memberships db)))"
proof -
  have "length (filter (\<lambda>f. snd (snd f) = c) (map face js)) = length (filter (\<lambda>i. cc_course i = c) js)" for c js
    by (simp add: filter_map comp_def face_def)
  then show ?thesis
    using assms by (simp add: roster_ok_def seats_exact_def memberships_ok_def courses_exact_def counts_exact_def refs_to_def faces_def)
qed

text \<open>
  C17. Class counters.  After any interleaving of joins, leaves, attachments, detachments, enrollments, removals
  by hand and role changes, every class counts exactly its present students and its courses, and holds at
  most 200 and 50 of them; every course instance counts exactly its enrollments; and every course of the catalog
  counts exactly the classes it is attached to and its own members.
\<close>

theorem class_counters_exact:
  assumes "opened s" "roster_step\<^sup>*\<^sup>* s db"
  shows "(\<forall>g \<in> set (rd_classes db).
      gr_class_member_count g = int (length (filter (\<lambda>m. cm_class m = gr_id g \<and> cm_left_at m = None) (rd_class_members db))) \<and>
      gr_class_member_count g \<le> 200 \<and>
      gr_class_course_count g = int (length (filter (\<lambda>i. cc_class i = gr_id g) (rd_class_courses db))) \<and>
      gr_class_course_count g \<le> 50) \<and>
    (\<forall>i \<in> set (rd_class_courses db).
      cc_enrollment_count i = int (length (filter (\<lambda>e. en_class_course e = cc_id i) (rd_enrollments db)))) \<and>
    (\<forall>k \<in> set (rd_courses db).
      co_class_course_count k = int (length (filter (\<lambda>i. cc_course i = co_id k) (rd_class_courses db))) \<and>
      co_course_membership_count k = int (length (filter (\<lambda>m. ms_course m = co_id k) (rd_memberships db))))"
proof -
  note ok = roster_run [OF assms(2,1)]
  then have "\<forall>i \<in> set (rd_class_courses db).
      cc_enrollment_count i = int (length (filter (\<lambda>e. en_class_course e = cc_id i) (rd_enrollments db)))"
    by (simp add: roster_ok_def seats_exact_def enrollments_ok_def counts_exact_def refs_to_def)
  then show ?thesis using class_counts [OF ok] course_counts [OF ok] by blast
qed

definition school1 :: role_db where
  "school1 = school0\<lparr>rd_users := [\<lparr>us_id = [1], us_role = Admin, us_student_number = None\<rparr>,
       \<lparr>us_id = [2], us_role = Student, us_student_number = None\<rparr>, \<lparr>us_id = [3], us_role = Student, us_student_number = None\<rparr>],
     rd_courses := [\<lparr>co_id = [8], co_kind = u ''course'', co_class_course_count = 0, co_course_membership_count = 0\<rparr>]\<rparr>"

definition attached1 :: role_db where
  "attached1 = fst (attach_course school1 [6] [16] 10 [5] [8] [1] None)"

definition joined1 :: role_db where
  "joined1 = fst (add_member_sourced attached1 [9] 20 [5] [2] [1] None)"

lemma opened1: "opened school1"
  by (simp add: opened_def school1_def school0_def keyed_def)

lemma run1: "pump_step\<^sup>*\<^sup>* school1 joined1"
proof -
  have "pump_step school1 attached1" unfolding attached1_def by (rule attaches) (simp add: school1_def school0_def)
  moreover have "pump_step attached1 joined1" unfolding joined1_def by (rule joins)
  ultimately show ?thesis by (meson r_into_rtranclp rtranclp_trans)
qed

lemma roster_of_pump: "pump_step\<^sup>*\<^sup>* s db \<Longrightarrow> roster_step\<^sup>*\<^sup>* s db"
  by (induction rule: rtranclp_induct) (auto intro: rtranclp.rtrancl_into_rtrancl pumped)

lemma joined1_rows:
  "rd_enrollments joined1 = [\<lparr>en_class_course = [6], en_user = [2], en_enrolled_by = [1], en_source = Some [5], en_created_at = 20\<rparr>]"
  "map face (rd_class_courses joined1) = [([6], [5], [8])]" "map gr_class_member_count (rd_classes joined1) = [1]"
  "map (\<lambda>m. (cm_class m, cm_user m, cm_left_at m)) (rd_class_members joined1) = [([5], [2], None)]"
  by code_simp+

theorem class_counters_exact_witness:
  "gr_class_member_count (hd (rd_classes joined1)) =
     int (length (filter (\<lambda>m. cm_class m = gr_id (hd (rd_classes joined1)) \<and> cm_left_at m = None) (rd_class_members joined1))) \<and>
   co_class_course_count (hd (rd_courses joined1)) =
     int (length (filter (\<lambda>i. cc_course i = co_id (hd (rd_courses joined1))) (rd_class_courses joined1))) \<and>
   co_class_course_count (hd (rd_courses joined1)) = 1"
proof -
  have n: "map co_class_course_count (rd_courses joined1) = [1]" by code_simp
  then have "hd (rd_courses joined1) \<in> set (rd_courses joined1)" "co_class_course_count (hd (rd_courses joined1)) = 1"
    by (cases "rd_courses joined1"; simp)+
  moreover have "hd (rd_classes joined1) \<in> set (rd_classes joined1)" using joined1_rows(3) by (cases "rd_classes joined1") simp_all
  ultimately show ?thesis using class_counters_exact [OF opened1 roster_of_pump [OF run1]] by blast
qed

section \<open>Who is enrolled\<close>

text \<open>
  C16. Tagged enrollments.  After any interleaving, only students are enrolled, and only in courses that are
  attached to a class; an enrollment tagged with a class belongs to a present student of that class and is in a
  course of that class, so nobody keeps a seat a class gave them after leaving it.
\<close>

theorem tagged_enrollments_live:
  assumes "opened s" "roster_step\<^sup>*\<^sup>* s db" "e \<in> set (rd_enrollments db)"
  shows "map_option us_role (find_row us_id (rd_users db) (en_user e)) = Some Student \<and>
    (\<exists>i \<in> set (rd_class_courses db). cc_id i = en_class_course e) \<and>
    (\<forall>c. en_source e = Some c \<longrightarrow> live_member db c (en_user e) \<and>
      (\<exists>i \<in> set (rd_class_courses db). cc_id i = en_class_course e \<and> cc_class i = c))"
proof -
  note ok = roster_run [OF assms(2,1)]
  have "is_student db (en_user e)" "en_class_course e \<in> fst ` set (faces db)"
    "\<forall>c. en_source e = Some c \<longrightarrow> live_member db c (en_user e) \<and> (\<exists>k. (en_class_course e, c, k) \<in> set (faces db))"
    using ok assms(3) by (simp_all add: roster_ok_def students_ok_def instances_ok_def tags_ok_def)
  then show ?thesis by (auto simp: is_student_def faces_def face_def) metis+
qed

theorem tagged_enrollments_live_witness: "live_member joined1 [5] [2]"
  using tagged_enrollments_live [OF opened1 roster_of_pump [OF run1],
      of "\<lparr>en_class_course = [6], en_user = [2], en_enrolled_by = [1], en_source = Some [5], en_created_at = 20\<rparr>"]
  by (simp add: joined1_rows)

text \<open>
  C15. Coverage.  As long as nobody is taken out of a course by hand, every present student of a class is
  enrolled in every course of the class, whatever the order in which students join, courses are attached, and
  both come and go; the check the rest of the program makes then finds the student in the course.
\<close>

theorem class_roster_covered:
  assumes "opened s" "pump_step\<^sup>*\<^sup>* s db" "i \<in> set (rd_class_courses db)" "live_member db (cc_class i) x"
  shows "enrolled_in db (cc_id i) x \<and> user_is_in_course db (cc_course i) x"
proof -
  have "face i \<in> set (faces db)" using assms(3) by (simp add: faces_def)
  then have "enrolled_in db (cc_id i) x"
    using pump_run [OF assms(2,1)] assms(4) by (force simp: covered_def face_def)
  moreover from this obtain e where "e \<in> set (rd_enrollments db)" "en_class_course e = cc_id i" "en_user e = x"
    by (auto simp: enrolled_in_def list_ex_iff)
  then have "user_is_in_course db (cc_course i) x" using assms(3) unfolding user_is_in_course_def list_ex_iff by metis
  ultimately show ?thesis by blast
qed

theorem class_roster_covered_witness: "enrolled_in joined1 [6] [2] \<and> user_is_in_course joined1 [8] [2]"
proof -
  obtain i where i: "i \<in> set (rd_class_courses joined1)" "face i = ([6], [5], [8])" using joined1_rows(2) by (auto simp: map_eq_Cons_conv)
  moreover have "live_member joined1 [5] [2]" by code_simp
  ultimately show ?thesis using class_roster_covered [OF opened1 run1 i(1), of "[2]"] by (auto simp: face_def)
qed

section \<open>Joining, and leaving again\<close>

lemma pump_pairs_run:
  assumes "roster_ok d" "live_member d c x"
  obtains d' where "enroll_pairs now c adm (map (\<lambda>i. (i, x)) (map cc_id (filter (\<lambda>i. cc_class i = c) (rd_class_courses d)))) d = Inr d'"
  using enroll_pairs_roster [OF assms(1), where cl = c and now = now and adm = adm
      and pairs = "map (\<lambda>i. (i, x)) (map cc_id (filter (\<lambda>i. cc_class i = c) (rd_class_courses d)))"] assms(2)
  unfolding instance_of_class by blast

lemma join_decided:
  assumes ok: "roster_ok db"
  shows "class_member_add db fresh now c x adm =
    (if live_member db c x then (db, member_answer ADuplicate)
     else if map_option us_role (find_row us_id (rd_users db) x) \<noteq> Some Student
     then (db, Inl (Validation (Invalid ''user_id'' ''only students can be added to a class'')))
     else (case find_row gr_id (rd_classes db) c of
         None \<Rightarrow> (db, Inl NotFound)
       | Some g \<Rightarrow>
           if gr_class_member_count g \<ge> 200 then (db, member_answer AClassFull)
           else (fst (class_member_add db fresh now c x adm),
             Inr \<lparr>cm_id = fresh, cm_class = c, cm_user = x, cm_added_by = adm, cm_joined_at = now, cm_left_at = None, cm_source_class_group = None\<rparr>)))"
proof -
  note unfold = class_member_add_def add_member_def add_member_sourced_def run_tx_def add_member_in_def early_verdicts_def
    pivot_held_def map_sweep_abort_def Let_def
  show ?thesis
  proof (cases "live_member db c x \<or> \<not> is_student db x")
    case True
    then show ?thesis by (auto simp: unfold is_student_def member_answer_def)
  next
    case new: False
    then have role: "map_option us_role (find_row us_id (rd_users db) x) = Some Student" by (simp add: is_student_def)
    have under: "\<not> other_over db c AxMember"
      using ok by (fastforce simp: other_over_def roster_ok_def caps_ok_def split: option.splits dest: find_row_SomeD)
    show ?thesis
    proof (cases "find_row gr_id (rd_classes db) c")
      case None
      then show ?thesis using new role under by (simp add: unfold member_answer_def)
    next
      case (Some g)
      show ?thesis
      proof (cases "gr_class_member_count g < MAX_CLASS_MEMBERS")
        case False
        then show ?thesis using new role under Some by (simp add: unfold member_answer_def) (simp add: MAX_CLASS_MEMBERS_def)
      next
        case True
        let ?m = "\<lparr>cm_id = fresh, cm_class = c, cm_user = x, cm_added_by = adm, cm_joined_at = now, cm_left_at = None, cm_source_class_group = None\<rparr>"
        let ?d = "db\<lparr>rd_classes := on_row gr_id c (\<lambda>g. g\<lparr>gr_class_member_count := gr_class_member_count g + 1\<rparr>) (rd_classes db),
          rd_class_members := rd_class_members db @ [?m]\<rparr>"
        have "roster_ok ?d" using new by (intro joined_roster [OF ok _ _ Some True, of x ?m]) simp_all
        moreover have "live_member ?d c x" by (simp add: live_member_def)
        ultimately obtain d' where "enroll_pairs now c adm (map (\<lambda>i. (i, x)) (map cc_id (filter (\<lambda>i. cc_class i = c) (rd_class_courses ?d)))) ?d = Inr d'"
          by (rule pump_pairs_run)
        then have "add_member_in fresh now c x adm None db = (d', Inr (AMade ?m))"
          using new role under Some True by (simp add: add_member_in_def early_verdicts_def pivot_held_def Let_def)
        then have "class_member_add db fresh now c x adm = (d', Inr ?m)"
          by (simp add: class_member_add_def add_member_def add_member_sourced_def run_tx_def map_sweep_abort_def member_answer_def)
        then show ?thesis using new role Some True by (simp add: MAX_CLASS_MEMBERS_def)
      qed
    qed
  qed
qed

text \<open>
  C18. Joining decided.  On every state the steps reach, a request to add a student to a class, run as one step,
  is answered by what the class and the account are, and by nothing else: the refusals are a student already present,
  an account that is not a student, a class that is gone and a class of 200; neither an overlong course list nor a
  missing course stops it, a refused request changes nothing, and every other request is granted with the row it wrote.
\<close>

theorem class_join_decided:
  assumes "opened s" "roster_step\<^sup>*\<^sup>* s db"
  shows "class_member_add db fresh now c x adm =
    (if live_member db c x then (db, member_answer ADuplicate)
     else if map_option us_role (find_row us_id (rd_users db) x) \<noteq> Some Student
     then (db, Inl (Validation (Invalid ''user_id'' ''only students can be added to a class'')))
     else (case find_row gr_id (rd_classes db) c of
         None \<Rightarrow> (db, Inl NotFound)
       | Some g \<Rightarrow>
           if gr_class_member_count g \<ge> 200 then (db, member_answer AClassFull)
           else (fst (class_member_add db fresh now c x adm),
             Inr \<lparr>cm_id = fresh, cm_class = c, cm_user = x, cm_added_by = adm, cm_joined_at = now, cm_left_at = None, cm_source_class_group = None\<rparr>)))"
  by (rule join_decided [OF roster_run [OF assms(2,1)]])

theorem class_join_decided_witness: "class_member_add joined1 [10] 30 [5] [2] [1] = (joined1, member_answer ADuplicate)"
proof -
  have "live_member joined1 [5] [2]" by code_simp
  then show ?thesis using class_join_decided [OF opened1 roster_of_pump [OF run1], of "[10]" 30 "[5]" "[2]" "[1]"] by simp
qed

lemma enroll_pairs_rows:
  "enroll_pairs now c adm pairs d = Inr d' \<Longrightarrow>
    rd_classes d' = rd_classes d \<and> rd_class_members d' = rd_class_members d \<and> faces d' = faces d \<and>
    (\<exists>news. rd_enrollments d' = rd_enrollments d @ news \<and> (\<forall>n \<in> set news. en_source n = Some c \<and> en_user n \<in> snd ` set pairs))"
proof (induction now c adm pairs d rule: enroll_pairs.induct)
  case (2 now c adm i x pairs d)
  show ?case
  proof (cases "enrolled_in d i x")
    case True
    then show ?thesis using 2(1) [OF True] 2(3) by (simp, metis insertI2)
  next
    case False
    let ?d = "enroll_row d i x adm (Some c) now"
    have "find_row cc_id (rd_class_courses d) i \<noteq> None" and "enroll_pairs now c adm pairs ?d = Inr d'"
      using 2(3) False by (simp_all split: if_splits)
    then obtain news where "rd_enrollments d' = rd_enrollments ?d @ news"
      "\<forall>n \<in> set news. en_source n = Some c \<and> en_user n \<in> snd ` set pairs"
      "rd_classes d' = rd_classes d" "rd_class_members d' = rd_class_members d" "faces d' = faces ?d"
      using 2(2) [OF False] by auto
    then show ?thesis by (auto simp: faces_row) (auto simp: enroll_row_def)
  qed
qed simp

lemma add_member_made:
  assumes "add_member_sourced db fresh now c x adm src = (d, Inr (AMade m))"
  obtains news where "\<not> live_member db c x" "rd_enrollments d = rd_enrollments db @ news"
    "\<forall>n \<in> set news. en_source n = Some c \<and> en_user n = x" "rd_class_members d = rd_class_members db @ [m]" "cm_class m = c" "cm_user m = x" "cm_left_at m = None"
    "rd_classes d = on_row gr_id c (\<lambda>g. g\<lparr>gr_class_member_count := gr_class_member_count g + 1\<rparr>) (rd_classes db)" "faces d = faces db"
proof -
  obtain d0 r0 where t: "add_member_in fresh now c x adm src db = (d0, r0)" by (cases "add_member_in fresh now c x adm src db")
  have r0: "r0 = Inr (AMade m)" "d0 = d"
    using assms t by (auto simp: add_member_sourced_def run_tx_def map_sweep_abort_def split: sum.splits app_error.splits if_splits)
  from add_member_shape [OF t] show thesis
  proof (elim disjE exE conjE)
    fix g m' e assume new: "\<not> live_member db c x" and m: "cm_class m' = c" "cm_user m' = x" "cm_left_at m' = None"
      and e: "e = db\<lparr>rd_classes := on_row gr_id c (\<lambda>g. g\<lparr>gr_class_member_count := gr_class_member_count g + 1\<rparr>) (rd_classes db),
        rd_class_members := rd_class_members db @ [m']\<rparr>"
      and run: "case enroll_pairs now c adm (map (\<lambda>i. (i, x)) (map cc_id (filter (\<lambda>i. cc_class i = c) (rd_class_courses db)))) e of
         Inl er \<Rightarrow> d0 = e \<and> r0 = Inl er | Inr d' \<Rightarrow> d0 = d' \<and> r0 = Inr (AMade m')"
    then have fin: "enroll_pairs now c adm (map (\<lambda>i. (i, x)) (map cc_id (filter (\<lambda>i. cc_class i = c) (rd_class_courses db)))) e = Inr d" "m' = m"
      using r0 by (auto split: sum.splits)
    from enroll_pairs_rows [OF fin(1)] obtain news where news: "rd_enrollments d = rd_enrollments e @ news"
      "\<forall>n \<in> set news. en_source n = Some c \<and> en_user n \<in> snd ` set (map (\<lambda>i. (i, x)) (map cc_id (filter (\<lambda>i. cc_class i = c) (rd_class_courses db))))"
      "rd_classes d = rd_classes e" "rd_class_members d = rd_class_members e" "faces d = faces e" by blast
    moreover have "faces e = faces db" by (simp add: e faces_def)
    moreover have "\<forall>n \<in> set news. en_source n = Some c \<and> en_user n = x" using news(2) by auto
    ultimately show thesis using that [of news] new m e fin(2) by simp
  qed (use r0 in auto)
qed

lemma leave_restores:
  assumes ok: "roster_ok db" and joined: "class_member_add db fresh now c x adm = (d, Inr m)"
  shows "snd (class_member_remove d later c x) = Inr () \<and>
    rd_enrollments (fst (class_member_remove d later c x)) = rd_enrollments db \<and>
    rd_class_members (fst (class_member_remove d later c x)) = rd_class_members db \<and>
    rd_classes (fst (class_member_remove d later c x)) = rd_classes db"
proof -
  have run: "add_member_sourced db fresh now c x adm None = (d, Inr (AMade m))"
    using joined by (auto simp: class_member_add_def add_member_def member_answer_def split: prod.splits sum.splits attached.splits)
  from add_member_made [OF run] obtain news where new: "\<not> live_member db c x" and rows: "rd_enrollments d = rd_enrollments db @ news"
    "\<forall>n \<in> set news. en_source n = Some c \<and> en_user n = x" "rd_class_members d = rd_class_members db @ [m]" "cm_class m = c" "cm_user m = x" "cm_left_at m = None"
    "rd_classes d = on_row gr_id c (\<lambda>g. g\<lparr>gr_class_member_count := gr_class_member_count g + 1\<rparr>) (rd_classes db)" .
  have dok: "roster_ok d" and live: "live_member d c x" using add_member_roster [OF ok run] by auto
  have ans: "class_member_remove d later c x = (release_all (tagged d c x) (parted later c x False d), Inr ())"
    using live by (simp add: class_member_remove_def some_gone_def remove_member_def drop_member_eq)
  have "rd_enrollments (fst (class_member_remove d later c x)) = filter (\<lambda>e. \<not> (en_user e = x \<and> en_source e = Some c)) (rd_enrollments d)"
    using drop_member_enrollments [OF dok live, of later False] live by (simp add: ans drop_member_eq)
  also have "\<dots> = rd_enrollments db"
    using rows(1,2) new ok by (auto simp: roster_ok_def tags_ok_def filter_empty_conv intro!: filter_True)
  finally have en: "rd_enrollments (fst (class_member_remove d later c x)) = rd_enrollments db" .
  have "filter (\<lambda>m. \<not> (cm_class m = c \<and> cm_user m = x \<and> cm_left_at m = None)) (rd_class_members db) = rd_class_members db"
    using new by (auto simp: live_member_def list_ex_iff intro!: filter_True)
  then have mem: "rd_class_members (fst (class_member_remove d later c x)) = rd_class_members db"
    unfolding ans using rows(3-6) by (simp add: parted_def)
  have "0 \<le> gr_class_member_count g" if "g \<in> set (rd_classes db)" for g using class_counts [OF ok that] by simp
  then have "rd_classes (fst (class_member_remove d later c x)) = rd_classes db"
    unfolding ans by (simp add: parted_def rows(7) on_row_def map_idI)
  then show ?thesis using en mem by (simp add: ans)
qed

text \<open>
  C19. Leaving undoes joining.  Taking a student out of the class they were just added to gives back exactly the
  enrollments, the memberships and the class rows there were before: the courses the student had been enrolled
  in by hand, or by another class, stay.
\<close>

theorem leaving_undoes_joining:
  assumes "opened s" "roster_step\<^sup>*\<^sup>* s db" "class_member_add db fresh now c x adm = (d, Inr m)"
  shows "snd (class_member_remove d later c x) = Inr () \<and>
    rd_enrollments (fst (class_member_remove d later c x)) = rd_enrollments db \<and>
    rd_class_members (fst (class_member_remove d later c x)) = rd_class_members db \<and>
    rd_classes (fst (class_member_remove d later c x)) = rd_classes db"
  by (rule leave_restores [OF roster_run [OF assms(2,1)] assms(3)])

theorem leaving_undoes_joining_witness:
  "rd_enrollments (fst (class_member_remove (fst (class_member_add joined1 [10] 30 [5] [3] [1])) 40 [5] [3])) = rd_enrollments joined1"
proof -
  let ?m = "\<lparr>cm_id = [10], cm_class = [5], cm_user = [3], cm_added_by = [1], cm_joined_at = 30, cm_left_at = None, cm_source_class_group = None\<rparr>"
  have "snd (class_member_add joined1 [10] 30 [5] [3] [1]) = Inr ?m" by code_simp
  then have "class_member_add joined1 [10] 30 [5] [3] [1] = (fst (class_member_add joined1 [10] 30 [5] [3] [1]), Inr ?m)"
    by (simp add: prod_eq_iff)
  then show ?thesis using leaving_undoes_joining [OF opened1 roster_of_pump [OF run1]] by blast
qed

section \<open>Placed by hand\<close>



















text \<open>
  C21. A lost placement.  When the student joins the class between the first read of a request to enroll them by
  hand and its transaction, the request answers the row the class made, still tagged with the class, and taking the
  student out of the class takes the enrollment the operator was told of away with it.
\<close>

theorem hand_enrollment_lost_to_join:
  assumes "opened s" "roster_step\<^sup>*\<^sup>* s db" "\<not> enrolled_in db i x"
    and join: "class_member_add db fresh t c x adm = (d, Inr m)" and here: "\<exists>r \<in> set (rd_class_courses db). cc_id r = i \<and> cc_class r = c"
  shows "\<exists>e. enroll (\<lambda>d. d) (\<lambda>n e. if n = 0 then d else e) now db i x by_hand = (d, Inr e) \<and> en_source e = Some c \<and>
    \<not> enrolled_in (fst (class_member_remove d later c x)) i x"
proof -
  note ok = roster_run [OF assms(2,1)]
  have run: "add_member_sourced db fresh t c x adm None = (d, Inr (AMade m))"
    using join by (auto simp: class_member_add_def add_member_def member_answer_def split: prod.splits sum.splits attached.splits)
  from add_member_made [OF run] obtain news where rows: "rd_enrollments d = rd_enrollments db @ news"
    "\<forall>n \<in> set news. en_source n = Some c \<and> en_user n = x" and f: "faces d = faces db" by metis
  have dok: "roster_ok d" "live_member d c x" "\<And>j k. (j, c, k) \<in> set (faces d) \<Longrightarrow> enrolled_in d j x"
    using add_member_roster [OF ok run] by auto
  obtain k where "(i, c, k) \<in> set (faces db)" using here by (auto simp: faces_def face_def)
  then have "enrolled_in d i x" using dok(3) f by simp
  then obtain e where e: "read_enrollment d i x = Some e"
    by (cases "read_enrollment d i x") (auto simp: read_enrollment_def find_None_iff enrolled_in_def list_ex_iff)
  then have "e \<in> set (rd_enrollments d)" "en_class_course e = i" "en_user e = x" by (auto simp: read_enrollment_def find_Some_iff)
  then have src: "en_source e = Some c" using rows assms(3) by (auto simp: enrolled_in_def list_ex_iff)
  have "read_enrollment db i x = None" using assms(3) by (auto simp: read_enrollment_def find_None_iff enrolled_in_def list_ex_iff)
  then have "db_enroll (\<lambda>n e. if n = 0 then d else e) now db i x by_hand None = (d, Inr e)"
    using e \<open>enrolled_in d i x\<close> by (simp add: db_enroll_def run_tx_def enroll_in_def Let_def)
  moreover have "ensure_student db x reason = Inr ()" for reason
    using join_decided [OF ok, of fresh t c x adm] join
    by (auto simp: ensure_student_def member_answer_def split: if_splits option.splits)
  ultimately have "enroll (\<lambda>d. d) (\<lambda>n e. if n = 0 then d else e) now db i x by_hand = (d, Inr e)" by (simp add: enroll_def)
  moreover have "rd_enrollments (fst (class_member_remove d later c x)) = rd_enrollments db"
    using leave_restores [OF ok join] by blast
  ultimately show ?thesis using src assms(3) by (auto simp: enrolled_in_def)
qed

theorem hand_enrollment_lost_to_join_witness:
  "\<not> enrolled_in (fst (class_member_remove (fst (class_member_add attached1 [9] 20 [5] [2] [1])) 40 [5] [2])) [6] [2]"
proof -
  let ?m = "\<lparr>cm_id = [9], cm_class = [5], cm_user = [2], cm_added_by = [1], cm_joined_at = 20, cm_left_at = None, cm_source_class_group = None\<rparr>"
  have run: "pump_step\<^sup>*\<^sup>* school1 attached1"
    unfolding attached1_def by (rule r_into_rtranclp, rule attaches) (simp add: school1_def school0_def)
  have "snd (class_member_add attached1 [9] 20 [5] [2] [1]) = Inr ?m" by code_simp
  then have join: "class_member_add attached1 [9] 20 [5] [2] [1] = (fst (class_member_add attached1 [9] 20 [5] [2] [1]), Inr ?m)"
    by (simp add: prod_eq_iff)
  have "\<not> enrolled_in attached1 [6] [2]" "list_ex (\<lambda>r. cc_id r = [6] \<and> cc_class r = [5]) (rd_class_courses attached1)" by code_simp+
  then show ?thesis
    using hand_enrollment_lost_to_join [OF opened1 roster_of_pump [OF run] _ join, of "[6]"] unfolding list_ex_iff by blast
qed

end
