(* ===== verification/Spec2Isabelle.thy ===== *)
theory Spec2Isabelle
  imports Payment_Properties Fee_Plan_Properties Menu_Revision School_Modules Roles
    Exam_Properties Rate_Limit_Properties Settings_Properties Report_Card_Properties
    Class_Pump_Properties
begin

text \<open>
  A verification development of the school backend under \<open>src/\<close>: the rules a school's money, meals,
  exams, classes and appointments obey, as the Rust code under \<open>src/src\<close> enforces them.

  \<^bold>\<open>The program.\<close>  Every entity has a \<open>domain\<close> file (its data and validation), a \<open>db\<close> file (its SQL) and
  mostly a \<open>service\<close> file (the workflow over both); \<open>web\<close> holds the handlers.  A request validates its
  input, reads some rows, decides, and writes in one or more transactions.  Requests run concurrently,
  so a workflow's reads may be stale when its transaction runs; the code answers with guarded updates,
  locked rows, counters kept beside the rows they count, and compare-and-set loops.

  \<^bold>\<open>How it is modelled.\<close>  \<open>Prelude\<close> fixes the reading of Rust in HOL: \<open>Result\<close> is a sum with the error on
  the left, a \<open>String\<close> is its list of scalar values, an \<open>i64\<close> is an \<open>int\<close> with the saturating and checked
  operations written out, a \<open>u32\<close> is a word.  A table is the list of its rows.  A transaction is one
  function of the tables that answers new tables and a result, and \<open>run_tx\<close> (\<open>Database_Tx\<close>, after
  \<open>tx_with_retry\<close> of \<open>database.rs\<close>) throws the new tables away when the result is an error.  Transactions
  are atomic steps; what happens between the transactions of one workflow is an argument, \<open>rivals\<close>, any
  function on the tables.  Clock readings, minted ids and the answers of code outside the repository
  are arguments as well.

  \<^bold>\<open>Theories and the code they model.\<close>

  \<^item> \<open>Errors\<close> (\<open>error.rs\<close>, the error helpers of \<open>database.rs\<close>), \<open>Validate\<close> (\<open>validate.rs\<close>), \<open>Roles\<close>
    (\<open>domain/role.rs\<close>), \<open>School_Modules\<close> (\<open>module.rs\<close>, \<open>web/module_gate.rs\<close>), \<open>Paging\<close> (\<open>web/page.rs\<close>),
    \<open>Money\<close>: error values and their HTTP classes, accept sets of the validators, the messaging matrix,
    the module graph, the cut of a page.
  \<^item> \<open>Ledger_Keys\<close> (\<open>domain/key.rs\<close> and the ids of the two ledgers): the grammar of derived ids and
    that different causes never share an id.
  \<^item> \<open>Ledger_Interface\<close>: the contract of an append-only table as a locale; \<open>Payment_Ledger\<close>,
    \<open>Payment_Workflows\<close>, \<open>Payment_Properties\<close> (\<open>payment_ledger.rs\<close> of all layers, \<open>web/payments.rs\<close>): the fee
    ledger, its cap, its statement and its balance.  The walk from a line to its charge and the walk
    over the lines applied to it take fuel \<open>length rows + 4\<close>; in a reachable table a line is at most
    three steps from its charge and a walk visits each line once, so the fuel never runs out, which is
    proved.
  \<^item> \<open>Fee_Plan\<close>, \<open>Fee_Plan_Properties\<close> (\<open>fee_plan.rs\<close>, \<open>fee_plan_assignment.rs\<close>): plans, their assignment, and
    billing that may be cut off anywhere and repeated.
  \<^item> \<open>Meals\<close>, \<open>Meals_Properties\<close>, \<open>Menu_Revision\<close> (\<open>menu.rs\<close>, \<open>menu_dish.rs\<close>, \<open>meal_booking.rs\<close>,
    \<open>meal_ledger.rs\<close>): menus with seats and revisions, booking as a retried claim, the canteen balance.
  \<^item> \<open>Ref_Count\<close>: counters that count rows of another table, as a locale; \<open>Exam\<close>, \<open>Exam_Store\<close>,
    \<open>Exam_Sittings\<close>, \<open>Exam_Counters\<close>, \<open>Exam_Properties\<close> (\<open>exam.rs\<close>, \<open>exam_attempt.rs\<close>,
    \<open>exam_question.rs\<close>, \<open>exam_answer.rs\<close>, \<open>exam_result.rs\<close>, \<open>exam_audience.rs\<close>): exams from their schedule to
    their marks.
  \<^item> \<open>Settings\<close>, \<open>Settings_Properties\<close> (\<open>settings.rs\<close> of all layers, \<open>domain/text_fold.rs\<close>): the school's settings,
    their validation and their PATCH, which retires and revives exam kinds and meal slots on counters the
    exam and the meal tables share; a register of names as a locale, interpreted on both.
  \<^item> \<open>Float64\<close>, \<open>Report_Card\<close>, \<open>Report_Card_Properties\<close> (\<open>exam_weight.rs\<close> of all layers, \<open>karne.rs\<close>, \<open>domain/grade.rs\<close>,
    the archiving in \<open>term.rs\<close>): the weight of an exam kind from class, offering and school, the averages and
    verdicts of a report card in double precision, and its freezing when the term is archived.
  \<^item> \<open>Appointments\<close>, \<open>Appointments_Web\<close>, \<open>Appointments_Properties\<close> (\<open>appointment.rs\<close> and \<open>appointment_slot.rs\<close> of all layers,
    \<open>web/appointments.rs\<close>): published slots, bookings, counter-proposals and their decisions, as transactions
    interleaved in any order, with the rows read and not yet decided beside the tables.
  \<^item> \<open>Role_Change\<close>, \<open>Role_Change_Properties\<close> (\<open>set_role_cascade\<close> of \<open>db/user.rs\<close>, \<open>service/user.rs\<close>, \<open>web/users.rs\<close>): a
    change of role and what the account sheds with it.
  \<^item> \<open>Class_Pump\<close> (\<open>class_pump.rs\<close>, \<open>enrollment.rs\<close>, \<open>course_membership.rs\<close>, \<open>class_course_teacher.rs\<close> of \<open>db\<close>,
    \<open>class_member.rs\<close>, \<open>class_course.rs\<close> and \<open>enrollment.rs\<close> of \<open>service\<close>): classes, the courses taught in them and
    the enrollments both produce; \<open>Class_Roster\<close> and \<open>Class_Shed\<close> show that each transaction keeps the roster,
    \<open>Class_Pump_Properties\<close> what that means over any interleaving of them with each other and with changes of role.
    A transaction being one step, the verdict \<open>ACourseGone\<close>, which answers a course detached between two statements
    of a pump, is modelled and never arises.
  \<^item> \<open>Rate_Limit\<close>, \<open>Rate_Limit_Properties\<close> (\<open>rate_limit.rs\<close>): the fixed-window limiter with its bounded map
    and the rounds that share its counters.

  \<^bold>\<open>What is not modelled.\<close>  SQL below the level of a statement: isolation inside one transaction is the
  database's, and a transaction is taken as atomic, which is what the row locks of the code are for.
  Serialisation, routing, authentication, password hashing, telemetry, files and pictures, and the
  services the AI side talks to: input and output, or code outside the repository.  Homework, attendance,
  messages, notes, boards, the question pool, the weekly plan, and the creation and deletion of accounts,
  classes, courses and years are workflows of their own that no theory takes up; where a modelled workflow
  reads their rows, the rows are in its tables.
\<close>

end
